(* ===== verification/Prelude.thy ===== *)
theory Prelude
  imports
    Main
    "HOL-Library.Word"
    "HOL-Library.Char_ord"
    "HOL-Library.List_Lexorder"
    "HOL-Library.Product_Lexorder"
    "HOL-Library.Sublist"
begin

text \<open>
  Shared vocabulary of the development: the saturating and wrapping 64-bit arithmetic of the
  Rust sources, \<open>Result\<close> values as sums, and the ordered map \<open>btree\<close> that stands for
  \<open>std::collections::BTreeMap\<close> (an association list strictly sorted by key, so that
  \<open>entries\<close> is the iteration order of the Rust map), with the sums over its values that the
  accounting proofs need. Strings are byte lists: \<open>string\<close> is a list of 8-bit characters and
  the order of \<open>List_Lexorder\<close> with \<open>Char_ord\<close> is the byte-wise order of Rust's
  \<open>str\<close>.
\<close>

section \<open>Fact collections\<close>

named_theorems arith64 \<open>definitions of the machine arithmetic\<close>

named_theorems bt_simps \<open>lookup and size laws of ordered maps\<close>

section \<open>Machine arithmetic\<close>

text \<open>
  Quantities of type \<open>u64\<close> and \<open>usize\<close> are natural numbers whose operations carry the width:
  \<open>saturating_add\<close> and its kin stop at the largest value, the plain operators \<open>+=\<close>,
  \<open>-=\<close> and \<open>sum\<close> wrap around, as the release build of the workspace does (it sets no
  \<open>overflow-checks\<close>).
\<close>

type_synonym u64 = nat
type_synonym u32 = nat
type_synonym u128 = nat
type_synonym usize = nat

definition u64_max :: u64 where
  "u64_max = 2 ^ 64 - 1"

definition u128_max :: u128 where
  "u128_max = 2 ^ 128 - 1"

definition sat_add64 :: "u64 \<Rightarrow> u64 \<Rightarrow> u64" where
  [arith64]: "sat_add64 a b = min (a + b) u64_max"

definition sat_mul64 :: "u64 \<Rightarrow> u64 \<Rightarrow> u64" where
  [arith64]: "sat_mul64 a b = min (a * b) u64_max"

definition sat_sub64 :: "u64 \<Rightarrow> u64 \<Rightarrow> u64" where
  [arith64]: "sat_sub64 a b = a - b"

definition sat_add128 :: "u128 \<Rightarrow> u128 \<Rightarrow> u128" where
  [arith64]: "sat_add128 a b = min (a + b) u128_max"

definition sat_mul128 :: "u128 \<Rightarrow> u128 \<Rightarrow> u128" where
  [arith64]: "sat_mul128 a b = min (a * b) u128_max"

definition wrap_add64 :: "u64 \<Rightarrow> u64 \<Rightarrow> u64" where
  [arith64]: "wrap_add64 a b = (a + b) mod 2 ^ 64"

definition wrap_sub64 :: "u64 \<Rightarrow> u64 \<Rightarrow> u64" where
  [arith64]: "wrap_sub64 a b = (if b \<le> a then a - b else (2 ^ 64 + a - b) mod 2 ^ 64)"

definition wrap_add128 :: "u128 \<Rightarrow> u128 \<Rightarrow> u128" where
  [arith64]: "wrap_add128 a b = (a + b) mod 2 ^ 128"

definition sum_u64 :: "u64 list \<Rightarrow> u64" where
  "sum_u64 xs = sum_list xs mod 2 ^ 64"

definition clamp64 :: "u64 \<Rightarrow> u64 \<Rightarrow> u64 \<Rightarrow> u64" where
  "clamp64 x lo hi = max lo (min x hi)"

lemma u64_max_Suc: "Suc u64_max = 2 ^ 64"
  by (simp add: u64_max_def)

lemma less_pow64_iff: "x < 2 ^ 64 \<longleftrightarrow> x \<le> u64_max"
  by (simp add: u64_max_def) linarith

lemma sat_add64_le [simp]: "sat_add64 a b \<le> u64_max"
  by (simp add: arith64)

lemma sat_mul64_le [simp]: "sat_mul64 a b \<le> u64_max"
  by (simp add: arith64)

lemma sat_add64_exact: "a + b \<le> u64_max \<Longrightarrow> sat_add64 a b = a + b"
  by (simp add: arith64)

lemma sat_add64_le_iff: "m \<le> u64_max \<Longrightarrow> m \<noteq> u64_max \<or> a + b \<le> u64_max \<Longrightarrow>
    sat_add64 a b \<le> m \<longleftrightarrow> a + b \<le> m"
  by (auto simp: arith64 min_def)

lemma sat_add64_mono: "a \<le> a' \<Longrightarrow> b \<le> b' \<Longrightarrow> sat_add64 a b \<le> sat_add64 a' b'"
  by (auto simp: arith64 min_def)

lemma wrap_add64_exact: "a + b \<le> u64_max \<Longrightarrow> wrap_add64 a b = a + b"
  by (simp add: wrap_add64_def u64_max_def)

lemma wrap_sub64_exact: "b \<le> a \<Longrightarrow> wrap_sub64 a b = a - b"
  by (simp add: wrap_sub64_def)

lemma sum_u64_exact: "sum_list xs \<le> u64_max \<Longrightarrow> sum_u64 xs = sum_list xs"
  by (simp add: sum_u64_def u64_max_def)

lemma clamp64_bounds: "lo \<le> hi \<Longrightarrow> lo \<le> clamp64 x lo hi \<and> clamp64 x lo hi \<le> hi"
  by (simp add: clamp64_def)

section \<open>Results\<close>

text \<open>\<open>Result<T, E>\<close> is \<open>'e + 'a\<close>; \<open>and_then\<close> is the \<open>?\<close> operator.\<close>

type_synonym ('a, 'e) result = "'e + 'a"

fun and_then :: "('a, 'e) result \<Rightarrow> ('a \<Rightarrow> ('b, 'e) result) \<Rightarrow> ('b, 'e) result" where
  "and_then (Inl e) f = Inl e"
| "and_then (Inr x) f = f x"

lemma and_then_Inr_iff: "and_then r f = Inr y \<longleftrightarrow> (\<exists>x. r = Inr x \<and> f x = Inr y)"
  by (cases r) auto

lemma and_then_Inl_iff:
  "and_then r f = Inl e \<longleftrightarrow> r = Inl e \<or> (\<exists>x. r = Inr x \<and> f x = Inl e)"
  by (cases r) auto

definition is_ok :: "('a, 'e) result \<Rightarrow> bool" where
  "is_ok r = (case r of Inl _ \<Rightarrow> False | Inr _ \<Rightarrow> True)"

lemma is_ok_simps [simp]: "\<not> is_ok (Inl e)" "is_ok (Inr x)"
  by (simp_all add: is_ok_def)

section \<open>Sorted association lists\<close>

fun al_upd :: "'k::linorder \<Rightarrow> 'v \<Rightarrow> ('k \<times> 'v) list \<Rightarrow> ('k \<times> 'v) list" where
  "al_upd k v [] = [(k, v)]"
| "al_upd k v (p # ps) =
     (if k < fst p then (k, v) # p # ps
      else if k = fst p then (k, v) # ps
      else p # al_upd k v ps)"

fun al_del :: "'k \<Rightarrow> ('k \<times> 'v) list \<Rightarrow> ('k \<times> 'v) list" where
  "al_del k [] = []"
| "al_del k (p # ps) = (if k = fst p then ps else p # al_del k ps)"

lemma set_keys_al_upd: "fst ` set (al_upd k v ps) = insert k (fst ` set ps)"
  by (induction ps) auto

lemma sorted_al_upd:
  "sorted_wrt (<) (map fst ps) \<Longrightarrow> sorted_wrt (<) (map fst (al_upd k v ps))"
proof (induction ps)
  case Nil
  then show ?case by simp
next
  case (Cons p ps)
  then show ?case
    using set_keys_al_upd [of k v ps] by (auto simp: image_iff Ball_def)
qed

lemma set_keys_al_del: "fst ` set (al_del k ps) \<subseteq> fst ` set ps"
  by (induction ps) auto

lemma sorted_al_del:
  "sorted_wrt (<) (map fst ps) \<Longrightarrow> sorted_wrt (<) (map fst (al_del k ps))"
proof (induction ps)
  case Nil
  then show ?case by simp
next
  case (Cons p ps)
  then show ?case
    using set_keys_al_del [of k ps] by (auto simp: image_iff Ball_def subset_iff)
qed

lemma sorted_keys_distinct: "sorted_wrt (<) ks \<Longrightarrow> distinct (ks :: 'k::linorder list)"
  by (simp add: strict_sorted_iff)

lemma map_of_al_upd: "map_of (al_upd k v ps) = (map_of ps)(k \<mapsto> v)"
  by (induction ps) auto

lemma map_of_al_del:
  fixes ps :: "('k::linorder \<times> 'v) list"
  shows "sorted_wrt (<) (map fst ps) \<Longrightarrow> map_of (al_del k ps) = (map_of ps)(k := None)"
proof (induction ps)
  case Nil
  then show ?case by simp
next
  case (Cons p ps)
  from sorted_keys_distinct [OF Cons.prems] have "fst p \<notin> fst ` set ps" by simp
  then have "map_of ps (fst p) = None" by (simp add: map_of_eq_None_iff)
  with Cons show ?case by (auto simp: fun_eq_iff)
qed

lemma sorted_map_of_eq:
  assumes x: "sorted_wrt (<) (map fst xs)" and y: "sorted_wrt (<) (map fst ys)"
    and e: "map_of xs = map_of ys"
  shows "xs = (ys :: ('k::linorder \<times> 'v) list)"
proof -
  have d: "distinct (map fst xs)" "distinct (map fst ys)"
    using x y sorted_keys_distinct by blast+
  have s: "set xs = set ys"
    using d e map_of_inject_set by blast
  have inj: "inj_on fst (set xs \<union> set ys)"
    using d s by (simp add: distinct_map)
  have "map fst xs = map fst ys"
    using x y s by (metis list.set_map strict_sorted_equal)
  then show ?thesis
    using inj by (metis inj_on_map_eq_map)
qed

section \<open>Ordered maps\<close>

typedef (overloaded) ('k::linorder, 'v) btree =
  "{ps :: ('k \<times> 'v) list. sorted_wrt (<) (map fst ps)}"
  morphisms entries BTree
  by (rule exI [of _ "[]"]) simp

setup_lifting type_definition_btree

lift_definition bt_empty :: "('k::linorder, 'v) btree" is "[]"
  by simp

lift_definition bt_insert :: "'k::linorder \<Rightarrow> 'v \<Rightarrow> ('k, 'v) btree \<Rightarrow> ('k, 'v) btree" is al_upd
  by (rule sorted_al_upd)

lift_definition bt_remove :: "'k::linorder \<Rightarrow> ('k, 'v) btree \<Rightarrow> ('k, 'v) btree" is al_del
  by (rule sorted_al_del)

lift_definition bt_map_values :: "('v \<Rightarrow> 'w) \<Rightarrow> ('k::linorder, 'v) btree \<Rightarrow> ('k, 'w) btree"
  is "\<lambda>f ps. map (apsnd f) ps"
  by (simp add: o_def)

definition bt_get :: "('k::linorder, 'v) btree \<Rightarrow> 'k \<Rightarrow> 'v option" where
  "bt_get m k = map_of (entries m) k"

definition bt_contains :: "('k::linorder, 'v) btree \<Rightarrow> 'k \<Rightarrow> bool" where
  "bt_contains m k = (bt_get m k \<noteq> None)"

definition bt_keys :: "('k::linorder, 'v) btree \<Rightarrow> 'k list" where
  "bt_keys m = map fst (entries m)"

definition bt_values :: "('k::linorder, 'v) btree \<Rightarrow> 'v list" where
  "bt_values m = map snd (entries m)"

definition bt_len :: "('k::linorder, 'v) btree \<Rightarrow> nat" where
  "bt_len m = length (entries m)"

definition bt_of_list :: "('k::linorder \<times> 'v) list \<Rightarrow> ('k, 'v) btree" where
  "bt_of_list ps = fold (\<lambda>(k, v). bt_insert k v) ps bt_empty"

lemma entries_sorted: "sorted_wrt (<) (map fst (entries m))"
  using entries [of m] by simp

lemma entries_distinct: "distinct (map fst (entries m))"
  by (rule sorted_keys_distinct [OF entries_sorted])

lemma entries_simps [simp]:
  "entries bt_empty = []"
  "entries (bt_insert k v m) = al_upd k v (entries m)"
  "entries (bt_remove k m) = al_del k (entries m)"
  "entries (bt_map_values f m) = map (apsnd f) (entries m)"
  by (transfer; simp)+

lemma bt_get_empty [simp, bt_simps]: "bt_get bt_empty k = None"
  by (simp add: bt_get_def)

lemma bt_get_insert [simp, bt_simps]:
  "bt_get (bt_insert k v m) k' = (if k' = k then Some v else bt_get m k')"
  by (simp add: bt_get_def map_of_al_upd)

lemma bt_get_remove [simp, bt_simps]:
  "bt_get (bt_remove k m) k' = (if k' = k then None else bt_get m k')"
  by (simp add: bt_get_def map_of_al_del entries_sorted)

lemma map_of_apsnd: "map_of (map (apsnd f) ps) k = map_option f (map_of ps k)"
  by (induction ps) auto

lemma bt_get_map_values [simp, bt_simps]:
  "bt_get (bt_map_values f m) k = map_option f (bt_get m k)"
  by (simp add: bt_get_def map_of_apsnd)

lemma bt_get_iff: "bt_get m k = Some v \<longleftrightarrow> (k, v) \<in> set (entries m)"
  by (simp add: bt_get_def entries_distinct)

lemma bt_ext: "(\<And>k. bt_get m k = bt_get m' k) \<Longrightarrow> m = m'"
  by (metis bt_get_def entries_inject entries_sorted ext sorted_map_of_eq)

lemma set_bt_keys: "set (bt_keys m) = {k. bt_get m k \<noteq> None}"
  by (force simp: bt_keys_def bt_get_def map_of_eq_None_iff)

lemma bt_remove_insert [simp]: "bt_get m k = None \<Longrightarrow> bt_remove k (bt_insert k v m) = m"
  by (rule bt_ext) simp

lemma bt_len_empty [simp, bt_simps]: "bt_len bt_empty = 0"
  by (simp add: bt_len_def)

lemma bt_len_map_values [simp, bt_simps]: "bt_len (bt_map_values f m) = bt_len m"
  by (simp add: bt_len_def)

lemma bt_len_zero_iff: "bt_len m = 0 \<longleftrightarrow> (\<forall>k. bt_get m k = None)"
  by (metis bt_ext bt_get_empty bt_len_def bt_len_empty entries_inject entries_simps(1) length_0_conv)

subsection \<open>Sums over the values of a map\<close>

definition bt_sum :: "('v \<Rightarrow> nat) \<Rightarrow> ('k::linorder, 'v) btree \<Rightarrow> nat" where
  "bt_sum f m = sum_list (map f (bt_values m))"

lemma al_sum_del:
  "map_of ps k = Some v \<Longrightarrow>
   sum_list (map f (map snd (al_del k ps))) + (f v :: nat) = sum_list (map f (map snd ps))"
  by (induction ps) (auto split: if_splits)

lemma al_sum_upd_fresh:
  "map_of ps k = None \<Longrightarrow>
   sum_list (map f (map snd (al_upd k v ps))) = (f v :: nat) + sum_list (map f (map snd ps))"
  by (induction ps) (auto split: if_splits)

lemma al_sum_upd_old:
  fixes ps :: "('k::linorder \<times> 'v) list"
  assumes "sorted_wrt (<) (map fst ps)" and "map_of ps k = Some w"
  shows "sum_list (map f (map snd (al_upd k v ps))) + f w = (f v :: nat) + sum_list (map f (map snd ps))"
  using assms
proof (induction ps)
  case Nil
  then show ?case by simp
next
  case (Cons p ps)
  have "\<not> k < fst p"
  proof
    assume less: "k < fst p"
    with Cons.prems have "map_of ps k = Some w" by (cases p) (auto split: if_splits)
    then have "k \<in> fst ` set ps" by (metis domI dom_map_of_conv_image_fst)
    with Cons.prems(1) less show False by auto
  qed
  with Cons show ?case by (auto split: if_splits)
qed

lemma bt_sum_empty [simp]: "bt_sum f bt_empty = 0"
  by (simp add: bt_sum_def bt_values_def)

lemma bt_sum_remove: "bt_get m k = Some v \<Longrightarrow> bt_sum f (bt_remove k m) + f v = bt_sum f m"
  unfolding bt_sum_def bt_values_def bt_get_def by (simp only: entries_simps al_sum_del)

lemma bt_sum_insert_fresh: "bt_get m k = None \<Longrightarrow> bt_sum f (bt_insert k v m) = f v + bt_sum f m"
  unfolding bt_sum_def bt_values_def bt_get_def by (simp only: entries_simps al_sum_upd_fresh)

lemma bt_sum_insert_old:
  "bt_get m k = Some w \<Longrightarrow> bt_sum f (bt_insert k v m) + f w = f v + bt_sum f m"
  unfolding bt_sum_def bt_values_def bt_get_def
  by (simp only: entries_simps al_sum_upd_old entries_sorted)

lemma bt_sum_member_le: "bt_get m k = Some v \<Longrightarrow> f v \<le> bt_sum f m"
  using bt_sum_remove [of m k v f] by simp

lemma bt_len_sum: "bt_len m = bt_sum (\<lambda>_. 1) m"
  by (simp add: bt_len_def bt_sum_def bt_values_def o_def sum_list_triv)

lemma bt_len_insert_fresh [simp]: "bt_get m k = None \<Longrightarrow> bt_len (bt_insert k v m) = Suc (bt_len m)"
  by (simp add: bt_len_sum bt_sum_insert_fresh)

lemma bt_len_insert_old [simp]: "bt_get m k = Some w \<Longrightarrow> bt_len (bt_insert k v m) = bt_len m"
  using bt_sum_insert_old [of m k w "\<lambda>_. 1" v] by (simp add: bt_len_sum)

lemma bt_len_remove [simp]: "bt_get m k = Some v \<Longrightarrow> Suc (bt_len (bt_remove k m)) = bt_len m"
  using bt_sum_remove [of m k v "\<lambda>_. 1"] by (simp add: bt_len_sum)

lemma bt_remove_absent [simp]: "bt_get m k = None \<Longrightarrow> bt_remove k m = m"
  by (rule bt_ext) simp

lemma bt_sum_le_insert: "bt_sum f (bt_insert k v m) \<le> f v + bt_sum f m"
proof (cases "bt_get m k")
  case None
  then show ?thesis by (simp add: bt_sum_insert_fresh)
next
  case (Some w)
  then show ?thesis using bt_sum_insert_old [of m k w f v] by linarith
qed

subsection \<open>The interface of a keyed store\<close>

text \<open>
  The components use an ordered map through lookup, insertion and removal only, except where
  the iteration order is observable. The locale states the three laws; the accounting helpers
  of the traffic controller and of the calibrator are proved from them.
\<close>

locale keyed_store =
  fixes get :: "'m \<Rightarrow> 'k \<Rightarrow> 'v option"
    and ins :: "'k \<Rightarrow> 'v \<Rightarrow> 'm \<Rightarrow> 'm"
    and del :: "'k \<Rightarrow> 'm \<Rightarrow> 'm"
  assumes get_ins: "get (ins k v m) k' = (if k' = k then Some v else get m k')"
    and get_del: "get (del k m) k' = (if k' = k then None else get m k')"
begin

lemma get_ins_same: "get (ins k v m) k = Some v"
  by (simp add: get_ins)

lemma get_ins_other: "k' \<noteq> k \<Longrightarrow> get (ins k v m) k' = get m k'"
  by (simp add: get_ins)

lemma ins_ins_get: "get (ins k v (ins k w m)) = get (ins k v m)"
  by (rule ext) (simp add: get_ins)

lemma ins_swap_get: "k \<noteq> j \<Longrightarrow> get (ins k v (ins j w m)) = get (ins j w (ins k v m))"
  by (rule ext) (auto simp: get_ins)

lemma del_ins_get: "get (del k (ins k v m)) = get (del k m)"
  by (rule ext) (simp add: get_ins get_del)

end

interpretation bt: keyed_store bt_get bt_insert bt_remove
  by unfold_locales simp_all

section \<open>Choosing a first minimum\<close>

text \<open>
  Several components keep the best of a sequence of candidates by a strict comparison, so that
  among equal candidates the first one stays. A client gives the comparison and a key into a
  linear order; the fold is then the library's \<open>arg_min_list\<close>.
\<close>

fun keep_better :: "('a \<Rightarrow> 'a \<Rightarrow> bool) \<Rightarrow> 'a option \<Rightarrow> 'a \<Rightarrow> 'a option" where
  "keep_better better None x = Some x"
| "keep_better better (Some b) x = (if better x b then Some x else Some b)"

locale keyed_choice =
  fixes better :: "'a \<Rightarrow> 'a \<Rightarrow> bool"
    and key :: "'a \<Rightarrow> 'k::linorder"
  assumes better_key: "better x y \<longleftrightarrow> key x < key y"
begin

lemma arg_min_list_ties:
  "arg_min_list key (b # x # xs) = arg_min_list key ((if better x b then x else b) # xs)"
  by (cases xs) (auto simp: better_key Let_def not_less)

lemma foldl_keep_better_Some:
  "foldl (keep_better better) (Some b) xs = Some (arg_min_list key (b # xs))"
  by (induction xs arbitrary: b) (simp_all add: arg_min_list_ties del: arg_min_list.simps(2) if_split)

lemma foldl_keep_better:
  "foldl (keep_better better) None xs = (if xs = [] then None else Some (arg_min_list key xs))"
  by (cases xs) (simp_all add: foldl_keep_better_Some)

lemma foldl_keep_better_minimal:
  assumes "foldl (keep_better better) None xs = Some b"
  shows "b \<in> set xs \<and> (\<forall>x \<in> set xs. key b \<le> key x)"
proof -
  from assms have "xs \<noteq> []" and b: "b = arg_min_list key xs"
    by (auto simp: foldl_keep_better split: if_splits)
  then show ?thesis
    using arg_min_list_in [of xs key] f_arg_min_list_f [of xs key] by simp
qed

lemma foldl_keep_better_perm:
  assumes "set xs = set ys" and "inj_on key (set xs)"
  shows "foldl (keep_better better) None xs = foldl (keep_better better) None ys"
proof (cases "xs = []")
  case True
  with assms show ?thesis by simp
next
  case False
  with assms have "ys \<noteq> []" by auto
  have "arg_min_list key xs = arg_min_list key ys"
    using False \<open>ys \<noteq> []\<close> assms
    by (metis arg_min_list_in f_arg_min_list_f inj_on_def)
  with False \<open>ys \<noteq> []\<close> show ?thesis by (simp add: foldl_keep_better)
qed

end

end
