(* ===== verification/Decimal.thy ===== *)
theory Decimal
  imports Prelude
begin

text \<open>
  Decimal printing of unsigned integers, as \<open>Display\<close> does it for \<open>u64\<close> and \<open>usize\<close> in
  \<open>format!\<close>. Printing is injective, so identifiers built from counters are distinct.
\<close>

definition digit_char :: "nat \<Rightarrow> char" where
  "digit_char d = char_of (48 + d)"

fun nat_to_dec :: "nat \<Rightarrow> string" where
  "nat_to_dec n = (if n < 10 then [digit_char n] else nat_to_dec (n div 10) @ [digit_char (n mod 10)])"

declare nat_to_dec.simps [simp del]

definition dec_to_nat :: "string \<Rightarrow> nat" where
  "dec_to_nat s = foldl (\<lambda>n c. 10 * n + (of_char c - 48)) 0 s"

lemma digit_value: "d < 10 \<Longrightarrow> (of_char (digit_char d) :: nat) - 48 = d"
  by (simp add: digit_char_def)

lemma dec_to_nat_to_dec: "dec_to_nat (nat_to_dec n) = n"
proof (induction n rule: nat_to_dec.induct)
  case (1 n)
  show ?case
  proof (cases "n < 10")
    case True
    then show ?thesis by (subst nat_to_dec.simps) (simp add: dec_to_nat_def digit_value)
  next
    case False
    then show ?thesis
      using 1 by (subst nat_to_dec.simps) (simp add: dec_to_nat_def digit_value)
  qed
qed

lemma nat_to_dec_inject [simp]: "nat_to_dec m = nat_to_dec n \<longleftrightarrow> m = n"
  by (metis dec_to_nat_to_dec)

end
