(* ===== verification/Http.thy ===== *)
theory Http
  imports Decimal
begin

text \<open>
  The HTTP support crate \<open>crates/http/src/lib.rs\<close>: the index of bearer credentials and the
  transport counters. Tokens are strings of bytes. The digest of a token is computed by the crate
  \<open>sha2\<close> and is a parameter of the index, on which nothing is assumed: the raw tokens are compared
  inside a bucket. The constant-time comparison of the crate \<open>subtle\<close> is equality. A \<open>HashMap\<close> is a
  map, since the index never iterates over it.
\<close>

section \<open>Credentials\<close>

record tenant_credential =
  tcr_tenant_id :: string
  tcr_bearer_token :: string

record indexed_credential =
  ic_tenant_id :: string
  ic_bearer_token :: string

type_synonym 'd credential_index = "'d \<rightharpoonup> indexed_credential list"

datatype credential_index_error = EmptyCredential | DuplicateCredential

definition token_matches :: "string \<Rightarrow> indexed_credential \<Rightarrow> bool" where
  "token_matches candidate c \<longleftrightarrow>
     length candidate = length (ic_bearer_token c) \<and> candidate = ic_bearer_token c"

fun index_credentials ::
    "(string \<Rightarrow> 'd) \<Rightarrow> tenant_credential list \<Rightarrow> 'd credential_index
     \<Rightarrow> ('d credential_index, credential_index_error) result" where
  "index_credentials digest [] buckets = Inr buckets"
| "index_credentials digest (credential # credentials) buckets =
     (if tcr_bearer_token credential = [] then Inl EmptyCredential
      else
        let key = digest (tcr_bearer_token credential);
            bucket = (case buckets key of None \<Rightarrow> [] | Some b \<Rightarrow> b)
        in if list_ex (token_matches (tcr_bearer_token credential)) bucket then Inl DuplicateCredential
           else index_credentials digest credentials (buckets(key \<mapsto> bucket @
             [\<lparr>ic_tenant_id = tcr_tenant_id credential, ic_bearer_token = tcr_bearer_token credential\<rparr>])))"

definition credential_index_new ::
    "(string \<Rightarrow> 'd) \<Rightarrow> tenant_credential list \<Rightarrow> ('d credential_index, credential_index_error) result" where
  "credential_index_new digest credentials = index_credentials digest credentials Map.empty"

text \<open>The loop over a bucket does not stop at a match: the last match wins.\<close>

definition index_authenticate :: "(string \<Rightarrow> 'd) \<Rightarrow> 'd credential_index \<Rightarrow> string \<Rightarrow> string option" where
  "index_authenticate digest buckets candidate =
     (case buckets (digest candidate) of
        None \<Rightarrow> None
      | Some bucket \<Rightarrow> foldl (\<lambda>tenant c. if token_matches candidate c then Some (ic_tenant_id c) else tenant) None bucket)"

definition index_is_empty :: "'d credential_index \<Rightarrow> bool" where
  "index_is_empty buckets \<longleftrightarrow> buckets = Map.empty"

section \<open>Transport counters\<close>

text \<open>The counters are atomic \<open>u64\<close> values; \<open>fetch_add\<close> and \<open>fetch_sub\<close> wrap around.\<close>

record transport_metrics =
  tm_accepted_connections :: u64
  tm_active_connections :: u64
  tm_accept_errors :: u64
  tm_connection_errors :: u64
  tm_forced_closes :: u64

definition transport_metrics_default :: transport_metrics where
  "transport_metrics_default = \<lparr>tm_accepted_connections = 0, tm_active_connections = 0,
     tm_accept_errors = 0, tm_connection_errors = 0, tm_forced_closes = 0\<rparr>"

definition connection_opened :: "transport_metrics \<Rightarrow> transport_metrics" where
  "connection_opened m =
     m\<lparr>tm_accepted_connections := wrap_add64 (tm_accepted_connections m) 1,
       tm_active_connections := wrap_add64 (tm_active_connections m) 1\<rparr>"

definition connection_dropped :: "transport_metrics \<Rightarrow> transport_metrics" where
  "connection_dropped m = m\<lparr>tm_active_connections := wrap_sub64 (tm_active_connections m) 1\<rparr>"

definition record_accept_error :: "transport_metrics \<Rightarrow> transport_metrics" where
  "record_accept_error m = m\<lparr>tm_accept_errors := wrap_add64 (tm_accept_errors m) 1\<rparr>"

definition record_connection_error :: "transport_metrics \<Rightarrow> transport_metrics" where
  "record_connection_error m = m\<lparr>tm_connection_errors := wrap_add64 (tm_connection_errors m) 1\<rparr>"

definition record_forced_closes :: "usize \<Rightarrow> transport_metrics \<Rightarrow> transport_metrics" where
  "record_forced_closes count m = m\<lparr>tm_forced_closes := wrap_add64 (tm_forced_closes m) count\<rparr>"

text \<open>A newline ends each line of the exposition text.\<close>

definition lines :: "string list \<Rightarrow> string" where
  "lines ls = concat (map (\<lambda>l. l @ [char_of (10 :: nat)]) ls)"

definition transport_prometheus :: "transport_metrics \<Rightarrow> string" where
  "transport_prometheus m = lines
     [''# HELP locus_http_connections_accepted_total Accepted HTTP connections.'',
      ''# TYPE locus_http_connections_accepted_total counter'',
      ''locus_http_connections_accepted_total '' @ nat_to_dec (tm_accepted_connections m),
      ''# HELP locus_http_connections_active Currently active HTTP connections.'',
      ''# TYPE locus_http_connections_active gauge'',
      ''locus_http_connections_active '' @ nat_to_dec (tm_active_connections m),
      ''# HELP locus_http_accept_errors_total Listener accept errors.'',
      ''# TYPE locus_http_accept_errors_total counter'',
      ''locus_http_accept_errors_total '' @ nat_to_dec (tm_accept_errors m),
      ''# HELP locus_http_connection_errors_total HTTP connection protocol errors.'',
      ''# TYPE locus_http_connection_errors_total counter'',
      ''locus_http_connection_errors_total '' @ nat_to_dec (tm_connection_errors m),
      ''# HELP locus_http_connections_forced_closed_total Connections aborted after graceful shutdown timeout.'',
      ''# TYPE locus_http_connections_forced_closed_total counter'',
      ''locus_http_connections_forced_closed_total '' @ nat_to_dec (tm_forced_closes m)]"

section \<open>The index as an association list\<close>

text \<open>What an index promises its clients: a lookup in the list of credentials.\<close>

abbreviation credential_pairs :: "tenant_credential list \<Rightarrow> (string \<times> string) list" where
  "credential_pairs credentials \<equiv> map (\<lambda>c. (tcr_bearer_token c, tcr_tenant_id c)) credentials"

locale credential_lookup =
  fixes make :: "tenant_credential list \<Rightarrow> ('i, credential_index_error) result"
    and authenticate :: "'i \<Rightarrow> string \<Rightarrow> string option"
  assumes lookup: "make credentials = Inr index \<Longrightarrow>
      authenticate index candidate = map_of (credential_pairs credentials) candidate"
    and accepted: "(\<exists>index. make credentials = Inr index) \<longleftrightarrow>
      [] \<notin> set (map tcr_bearer_token credentials) \<and> distinct (map tcr_bearer_token credentials)"
begin

lemma credential_authenticates:
  assumes "make credentials = Inr index" and "c \<in> set credentials"
  shows "authenticate index (tcr_bearer_token c) = Some (tcr_tenant_id c)"
proof -
  have "distinct (map fst (credential_pairs credentials))"
    using accepted [of credentials] assms(1) by (auto simp: comp_def)
  then show ?thesis using assms by (auto simp: lookup intro!: map_of_is_SomeI)
qed

lemma authenticated_tenant_configured:
  assumes "make credentials = Inr index" and "authenticate index candidate = Some tenant"
  shows "\<exists>c \<in> set credentials. tcr_bearer_token c = candidate \<and> tcr_tenant_id c = tenant"
  using assms by (auto simp: lookup dest!: map_of_SomeD)

lemma empty_token_never_authenticates:
  assumes "make credentials = Inr index" shows "authenticate index [] = None"
  using assms accepted [of credentials] by (auto simp: lookup map_of_eq_None_iff image_iff)

end

text \<open>
  The buckets represent the credentials read so far: a bucket holds, in order, the credentials
  whose tokens have its digest.
\<close>

definition bucket_of :: "(string \<Rightarrow> 'd) \<Rightarrow> tenant_credential list \<Rightarrow> 'd \<Rightarrow> indexed_credential list" where
  "bucket_of digest read key =
     map (\<lambda>c. \<lparr>ic_tenant_id = tcr_tenant_id c, ic_bearer_token = tcr_bearer_token c\<rparr>)
       (filter (\<lambda>c. digest (tcr_bearer_token c) = key) read)"

definition represents :: "(string \<Rightarrow> 'd) \<Rightarrow> tenant_credential list \<Rightarrow> 'd credential_index \<Rightarrow> bool" where
  "represents digest read buckets \<longleftrightarrow>
     (\<forall>key. (case buckets key of None \<Rightarrow> [] | Some b \<Rightarrow> b) = bucket_of digest read key)"

lemma represents_step:
  assumes "represents digest read buckets" and "key = digest (tcr_bearer_token c)"
    and "bucket = (case buckets key of None \<Rightarrow> [] | Some b \<Rightarrow> b)"
  shows "represents digest (read @ [c]) (buckets(key \<mapsto> bucket @
      [\<lparr>ic_tenant_id = tcr_tenant_id c, ic_bearer_token = tcr_bearer_token c\<rparr>]))"
  using assms by (auto simp: represents_def bucket_of_def)

lemma bucket_has_token:
  assumes "represents digest read buckets" and "bucket = (case buckets (digest token) of None \<Rightarrow> [] | Some b \<Rightarrow> b)"
  shows "list_ex (token_matches token) bucket \<longleftrightarrow> token \<in> set (map tcr_bearer_token read)"
  using assms by (auto simp: represents_def bucket_of_def list_ex_iff token_matches_def)

lemma index_credentials_represents:
  "represents digest read buckets \<Longrightarrow> index_credentials digest credentials buckets = Inr index \<Longrightarrow>
   represents digest (read @ credentials) index"
proof (induction credentials arbitrary: read buckets)
  case (Cons c credentials)
  let ?key = "digest (tcr_bearer_token c)"
  let ?bucket = "case buckets ?key of None \<Rightarrow> [] | Some b \<Rightarrow> b"
  from Cons.prems(2) have "index_credentials digest credentials (buckets(?key \<mapsto> ?bucket @
      [\<lparr>ic_tenant_id = tcr_tenant_id c, ic_bearer_token = tcr_bearer_token c\<rparr>])) = Inr index"
    by (auto simp: Let_def split: if_splits)
  from Cons.IH [OF represents_step [OF Cons.prems(1) refl refl] this] show ?case by simp
qed simp

lemma index_credentials_accepts:
  "represents digest read buckets \<Longrightarrow>
   (\<exists>index. index_credentials digest credentials buckets = Inr index) \<longleftrightarrow>
     [] \<notin> set (map tcr_bearer_token credentials) \<and> distinct (map tcr_bearer_token credentials) \<and>
     set (map tcr_bearer_token read) \<inter> set (map tcr_bearer_token credentials) = {}"
proof (induction credentials arbitrary: read buckets)
  case (Cons c credentials)
  let ?key = "digest (tcr_bearer_token c)"
  let ?bucket = "case buckets ?key of None \<Rightarrow> [] | Some b \<Rightarrow> b"
  let ?new = "buckets(?key \<mapsto> ?bucket @ [\<lparr>ic_tenant_id = tcr_tenant_id c, ic_bearer_token = tcr_bearer_token c\<rparr>])"
  have "list_ex (token_matches (tcr_bearer_token c)) ?bucket \<longleftrightarrow> tcr_bearer_token c \<in> set (map tcr_bearer_token read)"
    by (rule bucket_has_token [OF Cons.prems refl])
  then have "(\<exists>index. index_credentials digest (c # credentials) buckets = Inr index) \<longleftrightarrow>
      tcr_bearer_token c \<noteq> [] \<and> tcr_bearer_token c \<notin> set (map tcr_bearer_token read) \<and>
      (\<exists>index. index_credentials digest credentials ?new = Inr index)"
    by (simp only: index_credentials.simps Let_def) simp
  also have "\<dots> \<longleftrightarrow> tcr_bearer_token c \<noteq> [] \<and> tcr_bearer_token c \<notin> set (map tcr_bearer_token read) \<and>
      [] \<notin> set (map tcr_bearer_token credentials) \<and> distinct (map tcr_bearer_token credentials) \<and>
      set (map tcr_bearer_token (read @ [c])) \<inter> set (map tcr_bearer_token credentials) = {}"
    by (simp only: Cons.IH [OF represents_step [OF Cons.prems refl refl, of c]])
  finally show ?case by auto
qed simp

lemma foldl_match:
  "foldl (\<lambda>tenant c. if token_matches candidate c then Some (ic_tenant_id c) else tenant) None
     (bucket_of digest read (digest candidate)) = map_of (rev (credential_pairs read)) candidate"
  by (induction read rule: rev_induct) (auto simp: bucket_of_def token_matches_def)

lemma map_of_rev_distinct: "distinct (map fst ps) \<Longrightarrow> map_of (rev ps) = map_of ps"
  by (rule map_of_inject_set [THEN iffD2]) (auto simp: rev_map [symmetric])

lemma represents_empty: "represents digest [] Map.empty"
  by (simp add: represents_def bucket_of_def)

lemma authenticate_represents:
  assumes "represents digest credentials index"
  shows "index_authenticate digest index candidate = map_of (rev (credential_pairs credentials)) candidate"
proof -
  have "index_authenticate digest index candidate =
      foldl (\<lambda>tenant c. if token_matches candidate c then Some (ic_tenant_id c) else tenant) None
        (case index (digest candidate) of None \<Rightarrow> [] | Some b \<Rightarrow> b)"
    by (simp add: index_authenticate_def split: option.splits)
  then show ?thesis using assms foldl_match [of candidate digest credentials] by (simp add: represents_def)
qed

interpretation hashed: credential_lookup "credential_index_new digest" "index_authenticate digest"
proof
  fix credentials index candidate
  assume ok: "credential_index_new digest credentials = Inr index"
  then have "distinct (map fst (credential_pairs credentials))"
    using index_credentials_accepts [OF represents_empty, of digest credentials]
    by (auto simp: credential_index_new_def comp_def)
  moreover have "represents digest credentials index"
    using index_credentials_represents [OF represents_empty] ok by (simp add: credential_index_new_def)
  ultimately show "index_authenticate digest index candidate = map_of (credential_pairs credentials) candidate"
    by (simp add: authenticate_represents map_of_rev_distinct)
next
  fix credentials
  show "(\<exists>index. credential_index_new digest credentials = Inr index) \<longleftrightarrow>
      [] \<notin> set (map tcr_bearer_token credentials) \<and> distinct (map tcr_bearer_token credentials)"
    using index_credentials_accepts [OF represents_empty, of digest credentials]
    by (simp add: credential_index_new_def)
qed

section \<open>The gauge of active connections\<close>

text \<open>The transport of the server opens and drops connections and records errors.\<close>

datatype transport_op = Open_Connection | Drop_Connection | Accept_Error | Connection_Error | Forced_Closes usize

fun transport_step :: "transport_metrics \<Rightarrow> transport_op \<Rightarrow> transport_metrics" where
  "transport_step m Open_Connection = connection_opened m"
| "transport_step m Drop_Connection = connection_dropped m"
| "transport_step m Accept_Error = record_accept_error m"
| "transport_step m Connection_Error = record_connection_error m"
| "transport_step m (Forced_Closes n) = record_forced_closes n m"

lemmas transport_defs = connection_opened_def connection_dropped_def record_accept_error_def
  record_connection_error_def record_forced_closes_def transport_metrics_default_def

text \<open>A guard is dropped once: a prefix of the operations never drops more than it has opened.\<close>

definition guarded :: "transport_op list \<Rightarrow> bool" where
  "guarded ops \<longleftrightarrow> (\<forall>k \<le> length ops. count_list (take k ops) Drop_Connection \<le> count_list (take k ops) Open_Connection)"

lemma guarded_snoc:
  "guarded (ops @ [op]) \<longleftrightarrow> guarded ops \<and>
     count_list (ops @ [op]) Drop_Connection \<le> count_list (ops @ [op]) Open_Connection"
  by (simp add: guarded_def le_Suc_eq all_conj_distrib imp_disjL)

lemma active_connections_count:
  assumes "guarded ops" and "count_list ops Open_Connection \<le> u64_max"
  defines "m \<equiv> foldl transport_step transport_metrics_default ops"
  shows "tm_active_connections m + count_list ops Drop_Connection = count_list ops Open_Connection \<and>
    tm_accepted_connections m = count_list ops Open_Connection"
  using assms(1,2) unfolding m_def
proof (induction ops rule: rev_induct)
  case Nil
  then show ?case by (simp add: transport_defs)
next
  case (snoc op ops)
  then have "guarded ops" and le: "count_list (ops @ [op]) Drop_Connection \<le> count_list (ops @ [op]) Open_Connection"
    by (simp_all only: guarded_snoc)
  with snoc have IH: "tm_active_connections (foldl transport_step transport_metrics_default ops) + count_list ops Drop_Connection =
      count_list ops Open_Connection" "tm_accepted_connections (foldl transport_step transport_metrics_default ops) = count_list ops Open_Connection"
    by (auto split: if_splits)
  from le show ?case using IH snoc.prems(2) 
    by (cases op) (simp_all add: transport_defs wrap_add64_exact wrap_sub64_exact)
qed

end
