(* ===== verification/Op_Context.thy ===== *)
theory Op_Context
  imports Prelude
begin

text \<open>
  Identifiers and the operation context of \<open>crates/core/src/context.rs\<close>: deadline, cancellation
  and the biased selection of \<open>OperationContext::run\<close>. The newtype identifiers produced by the
  macro \<open>string_id!\<close> are strings. An \<open>Instant\<close> is a natural number of nanoseconds and the
  clock is an explicit argument \<open>now\<close>; a cancellation token is a number and the set of
  cancelled tokens is explicit, since clones of a token share one flag.
\<close>

section \<open>Identifiers\<close>

type_synonym request_id = string
type_synonym engine_instance_id = string
type_synonym execution_target_id = string
type_synonym store_id = string
type_synonym state_id = string
type_synonym materialization_option_id = string
type_synonym import_id = string
type_synonym attachment_id = string
type_synonym state_kind = string
type_synonym input_item_id = string
type_synonym instant = nat
type_synonym duration = nat
type_synonym cancel_token = nat

section \<open>The operation context\<close>

datatype context_error = CtxCancelled | CtxDeadlineExceeded

record operation_context =
  oc_request_id :: request_id
  oc_tenant_id :: "string option"
  oc_deadline :: "instant option"
  oc_cancellation :: cancel_token

text \<open>\<open>CancellationToken::cancel\<close> and \<open>is_cancelled\<close> on the set of cancelled tokens.\<close>

definition cancel :: "cancel_token \<Rightarrow> cancel_token set \<Rightarrow> cancel_token set" where
  "cancel tok cancelled = insert tok cancelled"

definition is_cancelled :: "cancel_token \<Rightarrow> cancel_token set \<Rightarrow> bool" where
  "is_cancelled tok cancelled \<longleftrightarrow> tok \<in> cancelled"

definition operation_context_new :: "request_id \<Rightarrow> cancel_token \<Rightarrow> operation_context" where
  "operation_context_new rid tok =
     \<lparr>oc_request_id = rid, oc_tenant_id = None, oc_deadline = None, oc_cancellation = tok\<rparr>"

definition with_tenant_id :: "string \<Rightarrow> operation_context \<Rightarrow> operation_context" where
  "with_tenant_id t c = c\<lparr>oc_tenant_id := Some t\<rparr>"

definition with_deadline :: "instant \<Rightarrow> operation_context \<Rightarrow> operation_context" where
  "with_deadline d c = c\<lparr>oc_deadline := Some d\<rparr>"

definition remaining :: "operation_context \<Rightarrow> instant \<Rightarrow> duration option" where
  "remaining c now = map_option (\<lambda>d. d - now) (oc_deadline c)"

definition ensure_active ::
    "operation_context \<Rightarrow> cancel_token set \<Rightarrow> instant \<Rightarrow> (unit, context_error) result" where
  "ensure_active c cancelled now =
     (if is_cancelled (oc_cancellation c) cancelled then Inl CtxCancelled
      else if (case oc_deadline c of None \<Rightarrow> False | Some d \<Rightarrow> d \<le> now) then Inl CtxDeadlineExceeded
      else Inr ())"

text \<open>
  A biased \<open>tokio::select!\<close>: each branch has the instant at which it becomes ready (\<open>None\<close> for
  never); the earliest wins, and among branches ready at the same instant the first listed one.
\<close>

fun select_biased :: "(instant option \<times> 'a) list \<Rightarrow> (instant \<times> 'a) option" where
  "select_biased [] = None"
| "select_biased ((None, _) # bs) = select_biased bs"
| "select_biased ((Some t, a) # bs) =
     (case select_biased bs of
        None \<Rightarrow> Some (t, a)
      | Some (u, b) \<Rightarrow> if t \<le> u then Some (t, a) else Some (u, b))"

text \<open>
  \<open>OperationContext::run\<close> from the instant \<open>now\<close>: \<open>cancel_at\<close> is when the token becomes
  cancelled and \<open>done_at\<close> when the downstream future would resolve to \<open>v\<close>. The result is the
  instant at which \<open>run\<close> resolves and its value, or \<open>None\<close> if it stays pending.
\<close>

definition ctx_run ::
    "operation_context \<Rightarrow> cancel_token set \<Rightarrow> instant \<Rightarrow> instant option \<Rightarrow> instant option \<Rightarrow> 'a
     \<Rightarrow> (instant \<times> ('a, context_error) result) option" where
  "ctx_run c cancelled now cancel_at done_at v =
     (case ensure_active c cancelled now of
        Inl e \<Rightarrow> Some (now, Inl e)
      | Inr _ \<Rightarrow>
          (case oc_deadline c of
             Some d \<Rightarrow> select_biased
               [(map_option (max now) cancel_at, Inl CtxCancelled),
                (Some (max now d), Inl CtxDeadlineExceeded),
                (map_option (max now) done_at, Inr v)]
           | None \<Rightarrow> select_biased
               [(map_option (max now) cancel_at, Inl CtxCancelled),
                (map_option (max now) done_at, Inr v)]))"

section \<open>Properties of the context\<close>

lemma ensure_active_Inr_iff:
  "ensure_active c cancelled now = Inr u \<longleftrightarrow>
     \<not> is_cancelled (oc_cancellation c) cancelled \<and>
     (\<forall>d. oc_deadline c = Some d \<longrightarrow> now < d)"
  by (auto simp: ensure_active_def split: option.splits)

lemma ensure_active_cancelled_first:
  "is_cancelled (oc_cancellation c) cancelled \<Longrightarrow> ensure_active c cancelled now = Inl CtxCancelled"
  by (simp add: ensure_active_def)

lemma ensure_active_later:
  "ensure_active c cancelled' now' = Inr () \<Longrightarrow> cancelled \<subseteq> cancelled' \<Longrightarrow> now \<le> now' \<Longrightarrow>
   ensure_active c cancelled now = Inr ()"
  by (force simp: ensure_active_Inr_iff is_cancelled_def)

lemma cancel_is_permanent:
  "is_cancelled tok cancelled \<Longrightarrow> is_cancelled tok (cancel tok' cancelled)"
  "is_cancelled tok (cancel tok cancelled)"
  by (auto simp: is_cancelled_def cancel_def)

lemma select_biased_None_iff: "select_biased bs = None \<longleftrightarrow> (\<forall>(t, a) \<in> set bs. t = None)"
  by (induction bs rule: select_biased.induct) (auto split: option.splits)

lemma select_biased_le:
  "select_biased bs = Some (u, b) \<Longrightarrow> (Some t, a) \<in> set bs \<Longrightarrow> u \<le> t"
proof (induction bs arbitrary: u b rule: select_biased.induct)
  case (3 t' a' bs)
  show ?case
  proof (cases "select_biased bs")
    case None
    with "3.prems" show ?thesis by (auto simp: select_biased_None_iff)
  next
    case (Some p)
    with "3.prems" "3.IH" [of "fst p" "snd p"] show ?thesis
      by (cases p) (auto split: if_splits)
  qed
qed auto

text \<open>
  An operation that runs under a deadline resolves no later than that deadline (or at once,
  when the deadline is already past), whatever its future does and even if it never completes.
\<close>

lemma ctx_run_resolves_by_deadline:
  assumes "oc_deadline c = Some d"
  shows "\<exists>t r. ctx_run c cancelled now cancel_at done_at v = Some (t, r) \<and> t \<le> max now d"
proof (cases "ensure_active c cancelled now")
  case (Inl e)
  then show ?thesis by (simp add: ctx_run_def)
next
  case (Inr u)
  let ?bs = "[(map_option (max now) cancel_at, Inl CtxCancelled),
              (Some (max now d), Inl CtxDeadlineExceeded), (map_option (max now) done_at, Inr v)]"
  have run: "ctx_run c cancelled now cancel_at done_at v = select_biased ?bs"
    using Inr assms by (simp add: ctx_run_def)
  obtain t r where tr: "select_biased ?bs = Some (t, r)"
    using select_biased_None_iff [of ?bs] by fastforce
  have "t \<le> max now d"
    by (rule select_biased_le [OF tr, of "max now d" "Inl CtxDeadlineExceeded"]) simp
  with run tr show ?thesis by auto
qed

text \<open>
  \<open>run\<close> returns the future's value exactly when the context was active and the future
  resolved strictly before the deadline and strictly before the cancellation; a value that
  arrives together with either of them is discarded, as the biased selection prescribes.
\<close>

lemma ctx_run_Ok_iff:
  assumes "\<And>f. done_at = Some f \<Longrightarrow> now \<le> f" and "\<And>k. cancel_at = Some k \<Longrightarrow> now \<le> k"
  shows "ctx_run c cancelled now cancel_at done_at v = Some (t, Inr w) \<longleftrightarrow>
     w = v \<and> done_at = Some t \<and> ensure_active c cancelled now = Inr () \<and>
     (\<forall>d. oc_deadline c = Some d \<longrightarrow> t < d) \<and> (\<forall>k. cancel_at = Some k \<longrightarrow> t < k)"
proof (cases "ensure_active c cancelled now")
  case (Inl e)
  then show ?thesis by (simp add: ctx_run_def)
next
  case (Inr u)
  then have "\<forall>d. oc_deadline c = Some d \<longrightarrow> now < d"
    by (auto simp: ensure_active_Inr_iff)
  with Inr assms show ?thesis
    by (cases "oc_deadline c"; cases cancel_at; cases done_at)
      (auto simp: ctx_run_def max_def split: if_splits)
qed

end
