(* ===== verification/Core_Model.thy ===== *)
theory Core_Model
  imports Op_Context
begin

text \<open>
  The vocabulary crate \<open>crates/core\<close>: identities (\<open>identity.rs\<close>), inputs
  (\<open>input.rs\<close>), requests, capabilities and telemetry (\<open>execution.rs\<close>), reusable
  state (\<open>state.rs\<close>). The operation context is in \<open>Op_Context\<close>. Field names carry a
  prefix per struct, since Isabelle records share one name space.
\<close>

section \<open>Identities\<close>

record opaque_handle =
  oh_namespace :: string
  oh_value :: string

record runtime_identity =
  ri_kind :: string
  ri_runtime_version :: string
  ri_adapter_version :: string

record engine_instance_ref =
  er_id :: engine_instance_id
  er_generation :: u64

record engine_instance =
  ei_reference :: engine_instance_ref
  ei_runtime :: runtime_identity
  ei_topology :: string
  ei_hardware :: string
  ei_health_endpoint :: "string option"

record model_execution_identity =
  mi_model_revision :: string
  mi_adapter_revision :: "string option"
  mi_execution_profile :: string

datatype execution_role = Combined | Prefill | Decode | Namespaced string

record parallel_layout =
  pl_tensor_parallel :: nat
  pl_pipeline_parallel :: nat
  pl_expert_parallel :: nat
  pl_layout_revision :: string

record execution_target =
  et_id :: execution_target_id
  et_engine :: engine_instance_ref
  et_model :: model_execution_identity
  et_role :: execution_role
  et_parallel_layout :: parallel_layout
  et_residency :: string
  et_capability_revision :: string

record semantic_component_identity =
  sc_kind :: string
  sc_revision :: string
  sc_fingerprint :: string

record input_semantic_identity =
  is_tokenizer :: semantic_component_identity
  is_template :: semantic_component_identity
  is_multimodal_preprocessing :: "semantic_component_identity option"

record generation_semantic_identity =
  gs_sampling_normalization :: semantic_component_identity
  gs_stop_behavior :: semantic_component_identity
  gs_constrained_generation :: "semantic_component_identity option"

record output_semantic_identity =
  os_detokenizer :: semantic_component_identity
  os_reasoning_parser :: "semantic_component_identity option"
  os_tool_parser :: "semantic_component_identity option"

record semantic_identity =
  si_input :: input_semantic_identity
  si_generation :: generation_semantic_identity
  si_output :: output_semantic_identity
  si_umbrella_fingerprint :: "string option"

section \<open>Inputs\<close>

datatype input_kind =
    KTokenSequence
  | KMediaReference
  | KTensorReference
  | KPreparedInputReference
  | KTypedMetadata
  | KExtension string

record token_sequence =
  ts_token_ids :: "u32 list"
  ts_tokenizer_fingerprint :: string

record media_reference =
  mr_media_type :: string
  mr_digest :: string
  mr_access_reference :: string

record tensor_reference =
  tr_dtype :: string
  tr_shape :: "usize list"
  tr_layout :: string
  tr_access_reference :: string

record prepared_input_reference =
  pi_artifact_kind :: string
  pi_artifact_id :: string
  pi_compatibility_revision :: string

record typed_metadata =
  tm_type_url :: string
  tm_fields :: "(string, string) btree"

datatype input_item_value =
    TokenSequence token_sequence
  | MediaReference media_reference
  | TensorReference tensor_reference
  | PreparedInputReference prepared_input_reference
  | TypedMetadata typed_metadata
  | Extension string "8 word list"

fun input_item_kind :: "input_item_value \<Rightarrow> input_kind" where
  "input_item_kind (TokenSequence _) = KTokenSequence"
| "input_item_kind (MediaReference _) = KMediaReference"
| "input_item_kind (TensorReference _) = KTensorReference"
| "input_item_kind (PreparedInputReference _) = KPreparedInputReference"
| "input_item_kind (TypedMetadata _) = KTypedMetadata"
| "input_item_kind (Extension type_url _) = KExtension type_url"

record input_item =
  ii_id :: input_item_id
  ii_value :: input_item_value

record input_relation =
  ir_source :: input_item_id
  ir_target :: input_item_id
  ir_relation_type :: string

record input_bundle =
  ib_items :: "input_item list"
  ib_relations :: "input_relation list"
  ib_annotations :: "typed_metadata list"

definition bundle_token_sequence :: "string \<Rightarrow> u32 list \<Rightarrow> input_bundle" where
  "bundle_token_sequence bid token_ids =
     \<lparr>ib_items = [\<lparr>ii_id = bid,
        ii_value = TokenSequence \<lparr>ts_token_ids = token_ids,
                                  ts_tokenizer_fingerprint = ''test-tokenizer''\<rparr>\<rparr>],
      ib_relations = [], ib_annotations = []\<rparr>"

definition bundle_kinds :: "input_bundle \<Rightarrow> input_kind list" where
  "bundle_kinds b = map (\<lambda>item. input_item_kind (ii_value item)) (ib_items b)"

section \<open>Requests, capabilities and telemetry\<close>

record sampling_parameters =
  sp_max_output_tokens :: "u32 option"
  sp_temperature :: "32 word option"
  sp_top_p :: "32 word option"
  sp_seed :: "u64 option"
  sp_stop_sequences :: "string list"

record capability_requirements =
  cr_input_kinds :: "input_kind set"
  cr_requires_incremental_output :: bool
  cr_requires_reasoning_deltas :: bool
  cr_requires_tool_calls :: bool
  cr_requires_structured_output :: bool

definition requirements_for_input :: "input_bundle \<Rightarrow> capability_requirements" where
  "requirements_for_input b =
     \<lparr>cr_input_kinds = set (bundle_kinds b), cr_requires_incremental_output = True,
      cr_requires_reasoning_deltas = False, cr_requires_tool_calls = False,
      cr_requires_structured_output = False\<rparr>"

record canonical_request =
  rq_id :: request_id
  rq_model :: model_execution_identity
  rq_semantic_identity :: semantic_identity
  rq_input :: input_bundle
  rq_sampling :: sampling_parameters
  rq_requirements :: capability_requirements

record engine_capabilities =
  ec_supported_input_kinds :: "input_kind set"
  ec_emits_token_deltas :: bool
  ec_emits_text_deltas :: bool
  ec_emits_reasoning_deltas :: bool
  ec_emits_tool_calls :: bool
  ec_supports_structured_output :: bool
  ec_supported_state_kinds :: "state_kind set"

definition satisfies :: "engine_capabilities \<Rightarrow> capability_requirements \<Rightarrow> bool" where
  "satisfies c r \<longleftrightarrow>
     cr_input_kinds r \<subseteq> ec_supported_input_kinds c \<and>
     (\<not> cr_requires_incremental_output r \<or> ec_emits_token_deltas c \<or> ec_emits_text_deltas c) \<and>
     (\<not> cr_requires_reasoning_deltas r \<or> ec_emits_reasoning_deltas c) \<and>
     (\<not> cr_requires_tool_calls r \<or> ec_emits_tool_calls c) \<and>
     (\<not> cr_requires_structured_output r \<or> ec_supports_structured_output c)"

datatype telemetry_status = Fresh | Stale | Unavailable

datatype telemetry_confidence = UnknownConfidence | Low | Medium | High

record engine_snapshot =
  es_target_id :: execution_target_id
  es_ready :: bool
  es_telemetry_status :: telemetry_status
  es_telemetry_confidence :: telemetry_confidence
  es_telemetry_source :: string
  es_observed_at_unix_millis :: u64
  es_valid_until_unix_millis :: u64
  es_running_requests :: "u64 option"
  es_waiting_requests :: "u64 option"
  es_estimated_queue_micros :: "u64 option"
  es_kv_cache_usage_permyriad :: "nat option"
  es_prefill_tokens_per_second :: "u64 option"
  es_decode_tokens_per_second :: "u64 option"
  es_observation_revision :: u64
  es_degraded_reason :: "string option"

definition telemetry_is_fresh_at :: "engine_snapshot \<Rightarrow> u64 \<Rightarrow> bool" where
  "telemetry_is_fresh_at s now \<longleftrightarrow>
     es_telemetry_status s = Fresh \<and> es_observed_at_unix_millis s \<le> now \<and>
     now \<le> es_valid_until_unix_millis s"

datatype engine_finish_reason =
    FinishStop
  | FinishLength
  | FinishCancelled
  | FinishError
  | RuntimeSpecific string string

record usage =
  us_input_tokens :: u64
  us_output_tokens :: u64

datatype engine_event =
    Accepted request_id
  | TokenDelta request_id u64 "u32 list"
  | TextDelta request_id u64 string
  | ReasoningDelta request_id u64 string
  | ToolCallStarted request_id u64 string string
  | ToolCallArgumentsDelta request_id u64 string string
  | ToolCallCompleted request_id u64 string
  | UsageUpdate request_id usage bool
  | Finished request_id engine_finish_reason usage

text \<open>The derived \<open>Ord\<close> of \<open>TelemetryConfidence\<close> follows the order of its variants.\<close>

fun confidence_rank :: "telemetry_confidence \<Rightarrow> nat" where
  "confidence_rank UnknownConfidence = 0"
| "confidence_rank Low = 1"
| "confidence_rank Medium = 2"
| "confidence_rank High = 3"

lemma confidence_rank_inj: "confidence_rank a = confidence_rank b \<Longrightarrow> a = b"
  by (cases a; cases b) simp_all

instantiation telemetry_confidence :: linorder
begin

definition less_eq_telemetry_confidence :: "telemetry_confidence \<Rightarrow> telemetry_confidence \<Rightarrow> bool" where
  "less_eq_telemetry_confidence a b = (confidence_rank a \<le> confidence_rank b)"

definition less_telemetry_confidence :: "telemetry_confidence \<Rightarrow> telemetry_confidence \<Rightarrow> bool" where
  "less_telemetry_confidence a b = (confidence_rank a < confidence_rank b)"

instance
  by standard
    (auto simp: less_eq_telemetry_confidence_def less_telemetry_confidence_def
          intro: confidence_rank_inj)

end

section \<open>Reusable state\<close>

record component_coverage =
  cc_item_id :: input_item_id
  cc_covered_units :: u64

datatype resume_coordinate =
    TokenOffset input_item_id u64
  | Checkpoint string u64
  | ItemBoundary input_item_id
  | TypedCoordinate string string

datatype boundary_completeness = Complete | Checkpointed | PartialBoundary

record reusable_boundary =
  rb_covered_components :: "component_coverage list"
  rb_resume_coordinate :: resume_coordinate
  rb_completeness :: boundary_completeness
  rb_validation_digest :: string

datatype compatibility_verdict = Compatible | Incompatible | UnknownVerdict

record compatibility_result =
  cp_verdict :: compatibility_verdict
  cp_checked_dimensions :: "string list"
  cp_evidence :: "string list"
  cp_required_conversion :: "string option"

definition compatible :: "string \<Rightarrow> compatibility_result" where
  "compatible evidence =
     \<lparr>cp_verdict = Compatible, cp_checked_dimensions = [''model_execution'', ''input_semantics''],
      cp_evidence = [evidence], cp_required_conversion = None\<rparr>"

definition incompatible :: "string \<Rightarrow> compatibility_result" where
  "incompatible evidence =
     \<lparr>cp_verdict = Incompatible, cp_checked_dimensions = [''model_execution'', ''input_semantics''],
      cp_evidence = [evidence], cp_required_conversion = None\<rparr>"

definition is_compatible :: "compatibility_result \<Rightarrow> bool" where
  "is_compatible r \<longleftrightarrow> cp_verdict r = Compatible"

record state_requirement =
  sq_model :: model_execution_identity
  sq_input_semantics :: input_semantic_identity
  sq_accepted_state_kinds :: "state_kind set"
  sq_input_fingerprint :: string
  sq_query_token_ids :: "u32 list option"
  sq_tenant_scope :: "string option"

record state_descriptor =
  sd_id :: state_id
  sd_store :: store_id
  sd_kind :: state_kind
  sd_model :: model_execution_identity
  sd_relevant_input_semantics :: "input_semantic_identity option"
  sd_representation_revision :: string
  sd_positional_semantics :: "string option"
  sd_runtime_compatibility :: "string option"
  sd_boundary :: reusable_boundary
  sd_locations :: "string list"
  sd_store_reference :: opaque_handle

datatype state_locality = LocalState | RemoteState string

record materialization_option =
  mo_id :: materialization_option_id
  mo_store :: store_id
  mo_source_state :: state_id
  mo_target_id :: execution_target_id
  mo_target_engine :: engine_instance_ref
  mo_state_kind :: state_kind
  mo_locality :: state_locality
  mo_estimated_transfer_micros :: u64
  mo_option_handle :: opaque_handle

record state_import_spec =
  im_source_state :: state_id
  im_state_kind :: state_kind
  im_boundary :: reusable_boundary
  im_compatibility :: compatibility_result

definition spec_from_plan :: "state_descriptor \<Rightarrow> compatibility_result \<Rightarrow> state_import_spec" where
  "spec_from_plan state c =
     \<lparr>im_source_state = sd_id state, im_state_kind = sd_kind state,
      im_boundary = sd_boundary state, im_compatibility = c\<rparr>"

record state_import_target =
  it_import_id :: import_id
  it_target_id :: execution_target_id
  it_engine :: engine_instance_ref
  it_state_kind :: state_kind
  it_sink :: opaque_handle
  it_expires_at :: instant

definition import_is_valid_for :: "state_import_target \<Rightarrow> execution_target \<Rightarrow> instant \<Rightarrow> bool" where
  "import_is_valid_for i t now \<longleftrightarrow>
     it_target_id i = et_id t \<and> it_engine i = et_engine t \<and> now < it_expires_at i"

record transfer_receipt =
  rc_import_id :: import_id
  rc_store :: store_id
  rc_bytes_transferred :: u64
  rc_receipt :: opaque_handle

record prepared_state_attachment =
  pa_id :: attachment_id
  pa_target_id :: execution_target_id
  pa_engine :: engine_instance_ref
  pa_state_kind :: state_kind
  pa_boundary :: reusable_boundary
  pa_expires_at :: instant

definition attachment_is_valid_for ::
    "prepared_state_attachment \<Rightarrow> execution_target \<Rightarrow> instant \<Rightarrow> bool" where
  "attachment_is_valid_for a t now \<longleftrightarrow>
     pa_target_id a = et_id t \<and> pa_engine a = et_engine t \<and> now < pa_expires_at a"

section \<open>Properties of the vocabulary\<close>

lemma satisfies_mono:
  assumes "satisfies c r"
    and "ec_supported_input_kinds c \<subseteq> ec_supported_input_kinds c'"
    and "ec_emits_token_deltas c \<longrightarrow> ec_emits_token_deltas c'"
    and "ec_emits_text_deltas c \<longrightarrow> ec_emits_text_deltas c'"
    and "ec_emits_reasoning_deltas c \<longrightarrow> ec_emits_reasoning_deltas c'"
    and "ec_emits_tool_calls c \<longrightarrow> ec_emits_tool_calls c'"
    and "ec_supports_structured_output c \<longrightarrow> ec_supports_structured_output c'"
  shows "satisfies c' r"
  using assms by (auto simp: satisfies_def)

lemma satisfies_for_input_iff:
  "satisfies c (requirements_for_input b) \<longleftrightarrow>
     (\<forall>item \<in> set (ib_items b). input_item_kind (ii_value item) \<in> ec_supported_input_kinds c) \<and>
     (ec_emits_token_deltas c \<or> ec_emits_text_deltas c)"
  by (auto simp: satisfies_def requirements_for_input_def bundle_kinds_def)


section \<open>Concrete values\<close>

text \<open>Values used by the concrete instances of the properties in this and the other theories.\<close>

definition sample_model :: model_execution_identity where
  "sample_model = \<lparr>mi_model_revision = ''model-v1'', mi_adapter_revision = None,
                   mi_execution_profile = ''default''\<rparr>"

definition sample_target :: "string \<Rightarrow> string \<Rightarrow> execution_target" where
  "sample_target tid eid =
     \<lparr>et_id = tid, et_engine = \<lparr>er_id = eid, er_generation = 1\<rparr>, et_model = sample_model,
      et_role = Combined,
      et_parallel_layout = \<lparr>pl_tensor_parallel = 1, pl_pipeline_parallel = 1,
        pl_expert_parallel = 1, pl_layout_revision = ''layout-v1''\<rparr>,
      et_residency = ''resident'', et_capability_revision = ''cap-v1''\<rparr>"

definition sample_component :: semantic_component_identity where
  "sample_component = \<lparr>sc_kind = ''k'', sc_revision = ''r'', sc_fingerprint = ''f''\<rparr>"

definition sample_input_semantics :: input_semantic_identity where
  "sample_input_semantics =
     \<lparr>is_tokenizer = sample_component, is_template = sample_component,
      is_multimodal_preprocessing = None\<rparr>"

definition sample_semantics :: semantic_identity where
  "sample_semantics =
     \<lparr>si_input = sample_input_semantics,
      si_generation = \<lparr>gs_sampling_normalization = sample_component,
        gs_stop_behavior = sample_component, gs_constrained_generation = None\<rparr>,
      si_output = \<lparr>os_detokenizer = sample_component, os_reasoning_parser = None,
        os_tool_parser = None\<rparr>,
      si_umbrella_fingerprint = None\<rparr>"

definition sample_request :: canonical_request where
  "sample_request =
     \<lparr>rq_id = ''r1'', rq_model = sample_model, rq_semantic_identity = sample_semantics,
      rq_input = bundle_token_sequence ''prompt'' [1, 2, 3],
      rq_sampling = \<lparr>sp_max_output_tokens = Some 4, sp_temperature = None, sp_top_p = None,
        sp_seed = None, sp_stop_sequences = []\<rparr>,
      rq_requirements = requirements_for_input (bundle_token_sequence ''prompt'' [1, 2, 3])\<rparr>"

definition sample_capabilities :: engine_capabilities where
  "sample_capabilities =
     \<lparr>ec_supported_input_kinds = {KTokenSequence}, ec_emits_token_deltas = True,
      ec_emits_text_deltas = False, ec_emits_reasoning_deltas = False, ec_emits_tool_calls = False,
      ec_supports_structured_output = False, ec_supported_state_kinds = {''kv''}\<rparr>"

definition sample_snapshot :: "string \<Rightarrow> u64 option \<Rightarrow> engine_snapshot" where
  "sample_snapshot tid queue =
     \<lparr>es_target_id = tid, es_ready = True, es_telemetry_status = Fresh,
      es_telemetry_confidence = High, es_telemetry_source = ''t'', es_observed_at_unix_millis = 1,
      es_valid_until_unix_millis = 100, es_running_requests = Some 0, es_waiting_requests = Some 0,
      es_estimated_queue_micros = queue, es_kv_cache_usage_permyriad = Some 0,
      es_prefill_tokens_per_second = Some 100000, es_decode_tokens_per_second = Some 50000,
      es_observation_revision = 1, es_degraded_reason = None\<rparr>"

definition sample_state :: state_descriptor where
  "sample_state =
     \<lparr>sd_id = ''s1'', sd_store = ''st'', sd_kind = ''kv'', sd_model = sample_model,
      sd_relevant_input_semantics = Some sample_input_semantics,
      sd_representation_revision = ''v1'', sd_positional_semantics = None,
      sd_runtime_compatibility = None,
      sd_boundary = \<lparr>rb_covered_components = [\<lparr>cc_item_id = ''prompt'', cc_covered_units = 2\<rparr>],
        rb_resume_coordinate = TokenOffset ''prompt'' 2, rb_completeness = Complete,
        rb_validation_digest = ''d''\<rparr>,
      sd_locations = [], sd_store_reference = \<lparr>oh_namespace = ''n'', oh_value = ''v''\<rparr>\<rparr>"

definition sample_option :: "execution_target \<Rightarrow> u64 \<Rightarrow> materialization_option" where
  "sample_option t micros =
     \<lparr>mo_id = ''o1'', mo_store = ''st'', mo_source_state = ''s1'', mo_target_id = et_id t,
      mo_target_engine = et_engine t, mo_state_kind = ''kv'', mo_locality = LocalState,
      mo_estimated_transfer_micros = micros,
      mo_option_handle = \<lparr>oh_namespace = ''n'', oh_value = ''v''\<rparr>\<rparr>"

lemmas sample_defs = sample_model_def sample_target_def sample_component_def
  sample_input_semantics_def sample_semantics_def sample_request_def sample_capabilities_def
  sample_snapshot_def sample_state_def sample_option_def requirements_for_input_def
  bundle_kinds_def bundle_token_sequence_def

end
