(* ===== verification/Str_Search.thy ===== *)
theory Str_Search
  imports Prelude
begin

text \<open>
  Substring search as \<open>str::find\<close> does it, and the hold-back computation
  \<open>longest_delimiter_prefix_suffix\<close> of \<open>crates/parser/src/lib.rs\<close>. The lemmas say how
  both behave when the searched text grows at its end, which is what makes streaming parsers
  independent of how their input is cut into chunks.
\<close>

section \<open>Substring search\<close>

fun str_find :: "string \<Rightarrow> string \<Rightarrow> nat option" where
  "str_find [] n = (if n = [] then Some 0 else None)"
| "str_find (x # xs) n = (if prefix n (x # xs) then Some 0 else map_option Suc (str_find xs n))"

lemma str_find_Some_iff:
  "str_find h n = Some i \<longleftrightarrow>
     i \<le> length h \<and> prefix n (drop i h) \<and> (\<forall>j < i. \<not> prefix n (drop j h))"
proof (induction h arbitrary: i)
  case Nil
  then show ?case by (cases n) auto
next
  case (Cons x xs)
  show ?case
  proof (cases i)
    case 0
    then show ?thesis by (auto split: if_splits option.splits)
  next
    case (Suc k)
    then show ?thesis
      using Cons.IH [of k] by (auto simp: All_less_Suc2)
  qed
qed

lemma str_find_None_iff: "str_find h n = None \<longleftrightarrow> (\<forall>i \<le> length h. \<not> prefix n (drop i h))"
proof
  assume none: "str_find h n = None"
  show "\<forall>i \<le> length h. \<not> prefix n (drop i h)"
  proof (rule ccontr)
    assume "\<not> ?thesis"
    then obtain i where i: "i \<le> length h" "prefix n (drop i h)" by blast
    let ?m = "LEAST i. prefix n (drop i h)"
    have "prefix n (drop ?m h)" by (rule LeastI [of _ i]) (rule i(2))
    moreover have "?m \<le> i" by (rule Least_le) (rule i(2))
    moreover have "\<forall>j < ?m. \<not> prefix n (drop j h)" using not_less_Least by blast
    ultimately have "str_find h n = Some ?m"
      using i(1) by (simp add: str_find_Some_iff)
    with none show False by simp
  qed
next
  assume "\<forall>i \<le> length h. \<not> prefix n (drop i h)"
  then show "str_find h n = None"
    by (metis not_None_eq str_find_Some_iff)
qed

lemma prefix_drop_append: "i \<le> length h \<Longrightarrow> prefix n (drop i h) \<Longrightarrow> prefix n (drop i (h @ b))"
  by (auto simp: prefix_def)

lemma prefix_take_drop: "prefix n (drop i h) \<Longrightarrow> n = take (length n) (drop i h)"
  by (metis append_eq_conv_conj prefix_def)

lemma prefix_drop_within:
  assumes "prefix n (drop i (h @ b))" and "i + length n \<le> length h"
  shows "prefix n (drop i h)"
proof -
  have "n = take (length n) (drop i (h @ b))" by (rule prefix_take_drop [OF assms(1)])
  also have "\<dots> = take (length n) (drop i h)" using assms(2) by simp
  finally show ?thesis by (metis take_is_prefix)
qed

lemma prefix_drop_across:
  assumes "prefix n (drop i (h @ b))" and "length h \<le> i + length n"
  shows "prefix (drop i h) n"
proof (rule prefix_length_prefix)
  show "prefix (drop i h) (drop i (h @ b))" by simp
  show "prefix n (drop i (h @ b))" by (rule assms(1))
  show "length (drop i h) \<le> length n" using assms(2) by simp
qed

text \<open>A first occurrence stays the first occurrence when the text grows.\<close>

lemma str_find_append_Some:
  assumes "str_find h n = Some i"
  shows "str_find (h @ b) n = Some i"
proof -
  have i: "i \<le> length h" "prefix n (drop i h)" "\<And>j. j < i \<Longrightarrow> \<not> prefix n (drop j h)"
    using assms by (auto simp: str_find_Some_iff)
  have len: "i + length n \<le> length h"
    using i(1,2) prefix_length_le by fastforce
  have "\<not> prefix n (drop j (h @ b))" if "j < i" for j
    using i(3) [OF that] prefix_drop_within [of n j h b] len that by auto
  then show ?thesis
    using i(1,2) prefix_drop_append [of i h n b] by (auto simp: str_find_Some_iff)
qed

text \<open>An occurrence that ends inside another one makes it a sublist.\<close>

lemma occurrence_sublist:
  assumes "prefix n (drop i h)" and "prefix m (drop j h)" and "i \<le> j" and "j + length m \<le> i + length n"
  shows "sublist m n"
proof -
  obtain k where k: "j = i + k" using assms(3) by (metis le_Suc_ex)
  have n: "n = take (length n) (drop i h)" by (rule prefix_take_drop [OF assms(1)])
  have m: "m = take (length m) (drop j h)" by (rule prefix_take_drop [OF assms(2)])
  have "take (length m) (drop k n) = take (length m) (drop k (take (length n) (drop i h)))"
    using n by simp
  also have "\<dots> = take (length m) (take (length n - k) (drop j h))"
    by (simp add: k drop_take add.commute)
  also have "\<dots> = m"
    using m assms(4) k by (simp add: min_absorb1)
  finally have "m = take (length m) (drop k n)" ..
  then show ?thesis
    by (metis sublist_def append_take_drop_id append.assoc)
qed

text \<open>No delimiter occurrence starts before position \<open>k\<close>: searching is then shifted by \<open>k\<close>.\<close>

lemma str_find_shift:
  assumes "\<And>i. i < length e \<Longrightarrow> \<not> prefix n (drop i (e @ x))"
  shows "str_find (e @ x) n = map_option (\<lambda>i. length e + i) (str_find x n)"
proof (cases "str_find x n")
  case None
  have "\<not> prefix n (drop i (e @ x))" if "i \<le> length (e @ x)" for i
  proof (cases "i < length e")
    case True
    then show ?thesis using assms by simp
  next
    case False
    with that None show ?thesis by (auto simp: str_find_None_iff)
  qed
  then have "str_find (e @ x) n = None" by (simp add: str_find_None_iff)
  with None show ?thesis by simp
next
  case (Some i)
  have "\<not> prefix n (drop j (e @ x))" if "j < length e + i" for j
  proof (cases "j < length e")
    case True
    then show ?thesis using assms by simp
  next
    case False
    with that Some show ?thesis by (auto simp: str_find_Some_iff)
  qed
  moreover have "i \<le> length x" "prefix n (drop i x)"
    using Some by (auto simp: str_find_Some_iff)
  ultimately have "str_find (e @ x) n = Some (length e + i)"
    by (simp add: str_find_Some_iff)
  with Some show ?thesis by simp
qed

section \<open>Hold-back of a possible delimiter prefix\<close>

text \<open>
  \<open>char_indices\<close> yields the byte offsets at which a UTF-8 character starts: those whose byte is
  not a continuation byte \<open>10xxxxxx\<close>.
\<close>

definition is_continuation :: "char \<Rightarrow> bool" where
  "is_continuation c \<longleftrightarrow> 128 \<le> (of_char c :: nat) \<and> (of_char c :: nat) < 192"

definition char_indices :: "string \<Rightarrow> nat list" where
  "char_indices v = filter (\<lambda>i. \<not> is_continuation (v ! i)) [0..<length v]"

definition longest_delimiter_prefix_suffix :: "string \<Rightarrow> string list \<Rightarrow> nat" where
  "longest_delimiter_prefix_suffix v delimiters =
     fold max
       (map (\<lambda>i. length (drop i v))
         (filter (\<lambda>i. drop i v \<noteq> [] \<and> list_ex (\<lambda>d. prefix (drop i v) d) delimiters)
           (char_indices v @ [length v])))
       0"

text \<open>Every Rust string starts at a character boundary; \<open>utf8_start\<close> is that fact.\<close>

definition utf8_start :: "string \<Rightarrow> bool" where
  "utf8_start d = (case d of [] \<Rightarrow> True | c # _ \<Rightarrow> \<not> is_continuation c)"

lemma fold_max_ge_start: "(a :: nat) \<le> fold max xs a"
  by (induction xs arbitrary: a) (auto intro: order_trans [OF max.cobounded2])

lemma fold_max_ge: "x \<in> set xs \<Longrightarrow> (x :: nat) \<le> fold max xs a"
proof (induction xs arbitrary: a)
  case (Cons y ys)
  have "max y a \<le> fold max ys (max y a)" by (rule fold_max_ge_start)
  with Cons show ?case by auto
qed simp

lemma fold_max_in: "fold max xs (a :: nat) \<in> insert a (set xs)"
  by (induction xs arbitrary: a) (fastforce simp: max_def)+

abbreviation holdback_candidate :: "string \<Rightarrow> string list \<Rightarrow> nat \<Rightarrow> bool" where
  "holdback_candidate v ds i \<equiv> i < length v \<and> (\<exists>d \<in> set ds. prefix (drop i v) d)"

lemma holdback_le: "longest_delimiter_prefix_suffix v ds \<le> length v"
proof -
  have "fold max (map (\<lambda>i. length (drop i v)) is) 0 \<le> length v" for "is"
    using fold_max_in [of "map (\<lambda>i. length (drop i v)) is" 0] by auto
  then show ?thesis unfolding longest_delimiter_prefix_suffix_def by blast
qed

lemma holdback_ge:
  assumes "\<forall>d \<in> set ds. utf8_start d" and "holdback_candidate v ds i"
  shows "length v - i \<le> longest_delimiter_prefix_suffix v ds"
proof -
  obtain d where d: "d \<in> set ds" "prefix (drop i v) d" using assms(2) by blast
  have "drop i v = v ! i # drop (Suc i) v"
    using assms(2) by (simp add: Cons_nth_drop_Suc)
  with d have "\<exists>r. d = v ! i # r" by (auto simp: prefix_def)
  with assms(1) d(1) have "\<not> is_continuation (v ! i)" by (auto simp: utf8_start_def)
  with assms(2) d have "length (drop i v) \<in> set (map (\<lambda>i. length (drop i v))
      (filter (\<lambda>i. drop i v \<noteq> [] \<and> list_ex (\<lambda>d. prefix (drop i v) d) ds) (char_indices v @ [length v])))"
    by (auto simp: char_indices_def list_ex_iff)
  then show ?thesis
    unfolding longest_delimiter_prefix_suffix_def using fold_max_ge by fastforce
qed

lemma holdback_suffix:
  assumes "0 < longest_delimiter_prefix_suffix v ds"
  shows "\<exists>d \<in> set ds. prefix (drop (length v - longest_delimiter_prefix_suffix v ds) v) d"
proof -
  let ?f = "filter (\<lambda>i. drop i v \<noteq> [] \<and> list_ex (\<lambda>d. prefix (drop i v) d) ds) (char_indices v @ [length v])"
  have "longest_delimiter_prefix_suffix v ds \<in> insert 0 (set (map (\<lambda>i. length (drop i v)) ?f))"
    unfolding longest_delimiter_prefix_suffix_def by (rule fold_max_in)
  with assms obtain i where "i \<in> set ?f" and i: "longest_delimiter_prefix_suffix v ds = length v - i"
    by fastforce
  then have "i < length v" "\<exists>d \<in> set ds. prefix (drop i v) d" by (auto simp: list_ex_iff)
  with i show ?thesis by auto
qed

text \<open>
  When a text holds none of the delimiters, every position before the held-back suffix is
  settled: no delimiter starts there, and none can start there however the text grows.
\<close>

lemma settled_positions:
  assumes "\<forall>d \<in> set ds. utf8_start d \<and> str_find p d = None" and "n \<in> set ds"
    and "i < length p - longest_delimiter_prefix_suffix p ds"
  shows "\<not> prefix n (drop i (p @ b)) \<and> \<not> prefix (drop i (p @ b)) n"
proof -
  have not_cand: "\<not> prefix (drop i p) n"
  proof
    assume "prefix (drop i p) n"
    then have "length p - i \<le> longest_delimiter_prefix_suffix p ds"
      using assms by (intro holdback_ge) auto
    with assms(3) show False by simp
  qed
  have "\<not> prefix n (drop i (p @ b))"
  proof
    assume occ: "prefix n (drop i (p @ b))"
    show False
    proof (cases "i + length n \<le> length p")
      case True
      then have "prefix n (drop i p)" by (rule prefix_drop_within [OF occ])
      moreover have "str_find p n = None" using assms(1,2) by blast
      ultimately show False using True by (simp add: str_find_None_iff)
    next
      case False
      then have "prefix (drop i p) n" by (intro prefix_drop_across [OF occ]) simp
      with not_cand show False ..
    qed
  qed
  moreover have "\<not> prefix (drop i (p @ b)) n"
    using not_cand assms(3) by (auto simp: append_prefixD)
  ultimately show ?thesis ..
qed

lemma holdback_shift:
  assumes "\<forall>d \<in> set ds. utf8_start d"
    and "\<And>i n. i < length e \<Longrightarrow> n \<in> set ds \<Longrightarrow> \<not> prefix (drop i (e @ x)) n"
  shows "longest_delimiter_prefix_suffix (e @ x) ds = longest_delimiter_prefix_suffix x ds"
    (is "?K = ?k")
proof (rule antisym)
  show "?K \<le> ?k"
  proof (cases "?K = 0")
    case False
    then obtain d where d: "d \<in> set ds" "prefix (drop (length (e @ x) - ?K) (e @ x)) d"
      using holdback_suffix [of "e @ x" ds] by auto
    then have "length e \<le> length (e @ x) - ?K" using assms(2) linorder_not_le by blast
    then have len: "?K \<le> length x" using holdback_le [of "e @ x" ds] by simp
    then have "prefix (drop (length x - ?K) x) d" using d(2) by simp
    then have "length x - (length x - ?K) \<le> ?k"
      using assms(1) d(1) len False by (intro holdback_ge) auto
    with len show ?thesis by simp
  qed simp
next
  show "?k \<le> ?K"
  proof (cases "?k = 0")
    case False
    then obtain d where d: "d \<in> set ds" "prefix (drop (length x - ?k) x) d"
      using holdback_suffix [of x ds] by auto
    have len: "?k \<le> length x" by (rule holdback_le)
    then have "prefix (drop (length (e @ x) - ?k) (e @ x)) d" using d(2) by simp
    then have "length (e @ x) - (length (e @ x) - ?k) \<le> ?K"
      using assms(1) d(1) len False by (intro holdback_ge) auto
    with len show ?thesis by simp
  qed simp
qed

end
