(* ===== verification/Reasoning_Parser.thy ===== *)
theory Reasoning_Parser
  imports Core_Model Str_Search
begin

text \<open>
  The tagged reasoning parser of \<open>crates/parser/src/lib.rs\<close>: the delimiter validation shared
  with the tool parser, and the streaming state machine that separates one reasoning section
  from the visible text. Error messages are represented by the facts they report instead of
  their formatted text. The main result is that the parser does not depend on how the engine cut
  the stream into deltas.
\<close>

section \<open>Delimiters\<close>

definition MAX_DELIMITER_BYTES :: usize where
  "MAX_DELIMITER_BYTES = 256"

datatype config_reason =
    DelimitersEmpty string
  | DelimitersEqual string
  | DelimitersTooLong string
  | ZeroToolBuffer

datatype processing_reason =
    UnexpectedDelimiter string
  | MultipleReasoningSections
  | UnterminatedReasoning
  | IncompleteReasoningDelimiter
  | ToolCallTooLarge usize
  | UnterminatedToolCall
  | IncompleteToolDelimiter
  | InvalidToolJson
  | EnvelopeNotObject
  | EnvelopeKeys
  | EnvelopeName
  | EnvelopeArguments
  | EnvelopeNormalization

datatype parser_error = InvalidConfig config_reason | Processing processing_reason

definition validate_delimiters :: "string \<Rightarrow> string \<Rightarrow> string \<Rightarrow> (unit, parser_error) result" where
  "validate_delimiters kind start end' =
     (if start = [] \<or> end' = [] then Inl (InvalidConfig (DelimitersEmpty kind))
      else if start = end' then Inl (InvalidConfig (DelimitersEqual kind))
      else if length start > MAX_DELIMITER_BYTES \<or> length end' > MAX_DELIMITER_BYTES
      then Inl (InvalidConfig (DelimitersTooLong kind))
      else Inr ())"

section \<open>The parser\<close>

record reasoning_definition =
  rd_identity :: semantic_component_identity
  rd_start_delimiter :: string
  rd_end_delimiter :: string

datatype reasoning_mode = ModeText | ModeReasoning

datatype reasoning_segment = SegText string | SegReasoning string

record reasoning_state =
  rs_definition :: reasoning_definition
  rs_mode :: reasoning_mode
  rs_pending :: string
  rs_saw_reasoning :: bool

definition reasoning_definition_new ::
    "semantic_component_identity \<Rightarrow> string \<Rightarrow> string \<Rightarrow> (reasoning_definition, parser_error) result" where
  "reasoning_definition_new identity start end' =
     and_then (validate_delimiters ''reasoning'' start end')
       (\<lambda>_. Inr \<lparr>rd_identity = identity, rd_start_delimiter = start, rd_end_delimiter = end'\<rparr>)"

definition reasoning_state_of :: "reasoning_definition \<Rightarrow> reasoning_state" where
  "reasoning_state_of d =
     \<lparr>rs_definition = d, rs_mode = ModeText, rs_pending = [], rs_saw_reasoning = False\<rparr>"

definition push_reasoning_segment ::
    "reasoning_segment list \<Rightarrow> reasoning_mode \<Rightarrow> string \<Rightarrow> reasoning_segment list" where
  "push_reasoning_segment output mode txt =
     (if txt = [] then output
      else output @ [case mode of ModeText \<Rightarrow> SegText txt | ModeReasoning \<Rightarrow> SegReasoning txt])"

text \<open>The pair \<open>(delimiter, forbidden)\<close> that the loop looks for in the current mode.\<close>

definition mode_delimiters :: "reasoning_state \<Rightarrow> string \<times> string" where
  "mode_delimiters s =
     (case rs_mode s of
        ModeText \<Rightarrow> (rd_start_delimiter (rs_definition s), rd_end_delimiter (rs_definition s))
      | ModeReasoning \<Rightarrow> (rd_end_delimiter (rs_definition s), rd_start_delimiter (rs_definition s)))"

definition forbidden_first :: "nat option \<Rightarrow> nat option \<Rightarrow> bool" where
  "forbidden_first forbidden_position delimiter_position =
     (case forbidden_position of
        None \<Rightarrow> False
      | Some p \<Rightarrow> (case delimiter_position of None \<Rightarrow> True | Some d \<Rightarrow> p < d))"

text \<open>
  The loop of \<open>push\<close> over the buffered text. The state is returned together with the result,
  since the Rust method mutates it on the error paths too. Each turn of the loop that continues
  lowers the number of mode changes still possible, so the loop ends for any delimiters.
\<close>

function reasoning_loop ::
    "reasoning_state \<Rightarrow> reasoning_segment list
     \<Rightarrow> (reasoning_segment list, parser_error) result \<times> reasoning_state" where
  "reasoning_loop s output =
     (let delimiter = fst (mode_delimiters s); forbidden = snd (mode_delimiters s);
          delimiter_position = str_find (rs_pending s) delimiter;
          forbidden_position = str_find (rs_pending s) forbidden
      in if forbidden_first forbidden_position delimiter_position
         then (Inl (Processing (UnexpectedDelimiter forbidden)), s)
         else
           (case delimiter_position of
              Some position \<Rightarrow>
                (let output' = push_reasoning_segment output (rs_mode s) (take position (rs_pending s));
                     s' = s\<lparr>rs_pending := drop (position + length delimiter) (rs_pending s)\<rparr>
                 in case rs_mode s of
                      ModeText \<Rightarrow>
                        if rs_saw_reasoning s then (Inl (Processing MultipleReasoningSections), s')
                        else reasoning_loop (s'\<lparr>rs_saw_reasoning := True, rs_mode := ModeReasoning\<rparr>) output'
                    | ModeReasoning \<Rightarrow> reasoning_loop (s'\<lparr>rs_mode := ModeText\<rparr>) output')
            | None \<Rightarrow>
                (let holdback = longest_delimiter_prefix_suffix (rs_pending s) [delimiter, forbidden];
                     emit_bytes = length (rs_pending s) - holdback
                 in if emit_bytes > 0
                    then (Inr (push_reasoning_segment output (rs_mode s) (take emit_bytes (rs_pending s))),
                          s\<lparr>rs_pending := drop emit_bytes (rs_pending s)\<rparr>)
                    else (Inr output, s))))"
  by pat_completeness auto
termination
  by (relation "measure (\<lambda>(s, _). (if rs_saw_reasoning s then 0 else 2) +
        (case rs_mode s of ModeText \<Rightarrow> 0 | ModeReasoning \<Rightarrow> 1))") auto

declare reasoning_loop.simps [simp del]

definition reasoning_push ::
    "reasoning_state \<Rightarrow> string \<Rightarrow> (reasoning_segment list, parser_error) result \<times> reasoning_state" where
  "reasoning_push s delta = reasoning_loop (s\<lparr>rs_pending := rs_pending s @ delta\<rparr>) []"

definition reasoning_finish ::
    "reasoning_state \<Rightarrow> (reasoning_segment list, parser_error) result" where
  "reasoning_finish s =
     (if rs_mode s = ModeReasoning then Inl (Processing UnterminatedReasoning)
      else if rs_pending s \<noteq> [] then Inl (Processing IncompleteReasoningDelimiter)
      else Inr [])"

section \<open>Observing the output\<close>

text \<open>
  How the output is cut into segments depends on the chunks; what is observable is every byte
  with the mode it was emitted in.
\<close>

fun flat_segment :: "reasoning_segment \<Rightarrow> (reasoning_mode \<times> char) list" where
  "flat_segment (SegText t) = map (Pair ModeText) t"
| "flat_segment (SegReasoning t) = map (Pair ModeReasoning) t"

definition flat :: "reasoning_segment list \<Rightarrow> (reasoning_mode \<times> char) list" where
  "flat segs = concat (map flat_segment segs)"

lemma flat_simps [simp]: "flat [] = []" "flat (a @ b) = flat a @ flat b"
  by (simp_all add: flat_def)

lemma flat_push_segment [simp]:
  "flat (push_reasoning_segment out m t) = flat out @ map (Pair m) t"
  by (cases m) (auto simp: push_reasoning_segment_def flat_def)

text \<open>The observation of a call: the error, or the emitted bytes and the state left behind.\<close>

definition observe ::
    "(reasoning_segment list, parser_error) result \<times> reasoning_state
     \<Rightarrow> ((reasoning_mode \<times> char) list \<times> reasoning_state, parser_error) result" where
  "observe r = (case fst r of Inl e \<Rightarrow> Inl e | Inr out \<Rightarrow> Inr (flat out, snd r))"

lemma observe_simps [simp]: "observe (Inl e, s) = Inl e" "observe (Inr out, s) = Inr (flat out, s)"
  by (simp_all add: observe_def)

definition emit_before ::
    "(reasoning_mode \<times> char) list
     \<Rightarrow> ((reasoning_mode \<times> char) list \<times> reasoning_state, parser_error) result
     \<Rightarrow> ((reasoning_mode \<times> char) list \<times> reasoning_state, parser_error) result" where
  "emit_before bytes r = (case r of Inl e \<Rightarrow> Inl e | Inr (out, s) \<Rightarrow> Inr (bytes @ out, s))"

lemma emit_before_simps [simp]:
  "emit_before b (Inl e) = Inl e" "emit_before b (Inr (out, s)) = Inr (b @ out, s)"
  "emit_before [] r = r" "emit_before a (emit_before b r) = emit_before (a @ b) r"
  by (auto simp: emit_before_def split: sum.splits)

text \<open>One turn of the loop.\<close>

definition next_state :: "reasoning_state \<Rightarrow> nat \<Rightarrow> reasoning_state" where
  "next_state s i =
     (let s' = s\<lparr>rs_pending := drop (i + length (fst (mode_delimiters s))) (rs_pending s)\<rparr>
      in case rs_mode s of
           ModeText \<Rightarrow> s'\<lparr>rs_saw_reasoning := True, rs_mode := ModeReasoning\<rparr>
         | ModeReasoning \<Rightarrow> s'\<lparr>rs_mode := ModeText\<rparr>)"

abbreviation unexpected :: "reasoning_state \<Rightarrow> bool" where
  "unexpected s \<equiv> forbidden_first (str_find (rs_pending s) (snd (mode_delimiters s)))
                    (str_find (rs_pending s) (fst (mode_delimiters s)))"

abbreviation second_section :: "reasoning_state \<Rightarrow> bool" where
  "second_section s \<equiv> rs_mode s = ModeText \<and> rs_saw_reasoning s"

definition emit_count :: "reasoning_state \<Rightarrow> nat" where
  "emit_count s = length (rs_pending s) -
     longest_delimiter_prefix_suffix (rs_pending s) [fst (mode_delimiters s), snd (mode_delimiters s)]"

definition turns_left :: "reasoning_state \<Rightarrow> nat" where
  "turns_left s = (if rs_saw_reasoning s then 0 else 2) +
     (case rs_mode s of ModeText \<Rightarrow> 0 | ModeReasoning \<Rightarrow> 1)"

lemma turns_left_next: "\<not> second_section s \<Longrightarrow> turns_left (next_state s i) < turns_left s"
  by (cases "rs_mode s") (auto simp: turns_left_def next_state_def)

lemma loop_turn:
  "reasoning_loop s out =
     (if unexpected s then (Inl (Processing (UnexpectedDelimiter (snd (mode_delimiters s)))), s)
      else case str_find (rs_pending s) (fst (mode_delimiters s)) of
        Some i \<Rightarrow>
          if second_section s
          then (Inl (Processing MultipleReasoningSections),
                s\<lparr>rs_pending := drop (i + length (fst (mode_delimiters s))) (rs_pending s)\<rparr>)
          else reasoning_loop (next_state s i)
                 (push_reasoning_segment out (rs_mode s) (take i (rs_pending s)))
      | None \<Rightarrow> (Inr (push_reasoning_segment out (rs_mode s) (take (emit_count s) (rs_pending s))),
                     s\<lparr>rs_pending := drop (emit_count s) (rs_pending s)\<rparr>))"
proof (cases "rs_mode s")
  case ModeText
  then show ?thesis
    by (subst reasoning_loop.simps)
      (simp add: next_state_def Let_def emit_count_def push_reasoning_segment_def split: option.split)
next
  case ModeReasoning
  then show ?thesis
    by (subst reasoning_loop.simps)
      (simp add: next_state_def Let_def emit_count_def push_reasoning_segment_def split: option.split)
qed

lemma observe_turn:
  "observe (reasoning_loop s out) =
     (if unexpected s then Inl (Processing (UnexpectedDelimiter (snd (mode_delimiters s))))
      else case str_find (rs_pending s) (fst (mode_delimiters s)) of
        Some i \<Rightarrow>
          if second_section s then Inl (Processing MultipleReasoningSections)
          else observe (reasoning_loop (next_state s i)
                 (push_reasoning_segment out (rs_mode s) (take i (rs_pending s))))
      | None \<Rightarrow> Inr (flat out @ map (Pair (rs_mode s)) (take (emit_count s) (rs_pending s)),
                     s\<lparr>rs_pending := drop (emit_count s) (rs_pending s)\<rparr>))"
  unfolding loop_turn [of s out] by (auto split: option.split)

text \<open>Output already collected is only a prefix of what the loop returns.\<close>

lemma observe_loop_acc:
  "observe (reasoning_loop s out) = emit_before (flat out) (observe (reasoning_loop s []))"
proof (induction "turns_left s" arbitrary: s out rule: less_induct)
  case less
  have step: "observe (reasoning_loop (next_state s i) (push_reasoning_segment out m t)) =
      emit_before (flat out) (observe (reasoning_loop (next_state s i) (push_reasoning_segment [] m t)))"
    if "\<not> second_section s" for i m t
    using less [OF turns_left_next [OF that], of i "push_reasoning_segment out m t"]
      less [OF turns_left_next [OF that], of i "push_reasoning_segment [] m t"]
    by simp
  show ?case
    unfolding observe_turn [of s] using step by (auto split: option.splits)
qed

lemma observe_turn_emit:
  "observe (reasoning_loop s []) =
     (if unexpected s then Inl (Processing (UnexpectedDelimiter (snd (mode_delimiters s))))
      else case str_find (rs_pending s) (fst (mode_delimiters s)) of
        Some i \<Rightarrow>
          if second_section s then Inl (Processing MultipleReasoningSections)
          else emit_before (map (Pair (rs_mode s)) (take i (rs_pending s)))
                 (observe (reasoning_loop (next_state s i) []))
      | None \<Rightarrow> Inr (map (Pair (rs_mode s)) (take (emit_count s) (rs_pending s)),
                     s\<lparr>rs_pending := drop (emit_count s) (rs_pending s)\<rparr>))"
  by (auto simp: observe_turn [of s] observe_loop_acc [of "next_state s i" "push_reasoning_segment [] m t" for i m t]
      split: option.splits)

section \<open>Growing the buffer\<close>

text \<open>
  The delimiters are separable when neither occurs inside the other; both start at a
  character boundary because they are Rust strings.
\<close>

definition separable :: "reasoning_definition \<Rightarrow> bool" where
  "separable d \<longleftrightarrow>
     rd_start_delimiter d \<noteq> [] \<and> rd_end_delimiter d \<noteq> [] \<and>
     utf8_start (rd_start_delimiter d) \<and> utf8_start (rd_end_delimiter d) \<and>
     \<not> sublist (rd_start_delimiter d) (rd_end_delimiter d) \<and>
     \<not> sublist (rd_end_delimiter d) (rd_start_delimiter d)"

abbreviation grow :: "reasoning_state \<Rightarrow> string \<Rightarrow> reasoning_state" where
  "grow s b \<equiv> s\<lparr>rs_pending := rs_pending s @ b\<rparr>"

lemma mode_delimiters_grow [simp]: "mode_delimiters (s\<lparr>rs_pending := p\<rparr>) = mode_delimiters s"
  by (simp add: mode_delimiters_def split: reasoning_mode.split)

lemma separable_modes:
  assumes "separable (rs_definition s)"
  shows "\<not> sublist (fst (mode_delimiters s)) (snd (mode_delimiters s))"
    and "\<not> sublist (snd (mode_delimiters s)) (fst (mode_delimiters s))"
    and "fst (mode_delimiters s) \<noteq> []" and "snd (mode_delimiters s) \<noteq> []"
    and "utf8_start (fst (mode_delimiters s))" and "utf8_start (snd (mode_delimiters s))"
  using assms by (cases "rs_mode s"; simp add: separable_def mode_delimiters_def)+

lemma next_state_definition [simp]: "rs_definition (next_state s i) = rs_definition s"
  by (simp add: next_state_def Let_def split: reasoning_mode.splits)

lemma next_state_grow:
  "i + length (fst (mode_delimiters s)) \<le> length (rs_pending s) \<Longrightarrow>
   next_state (grow s b) i = grow (next_state s i) b"
  by (cases "rs_mode s") (simp_all add: next_state_def)

lemma str_find_fits: "str_find h n = Some i \<Longrightarrow> i + length n \<le> length h"
  using prefix_length_le by (fastforce simp: str_find_Some_iff)

text \<open>A delimiter found without a forbidden one before it is found again in the grown buffer.\<close>

lemma found_stays_found:
  assumes "\<not> sublist d f" and "str_find p d = Some i" and "\<not> forbidden_first (str_find p f) (Some i)"
  shows "\<not> forbidden_first (str_find (p @ b) f) (Some i)"
proof
  assume "forbidden_first (str_find (p @ b) f) (Some i)"
  then obtain j where j: "str_find (p @ b) f = Some j" "j < i"
    by (auto simp: forbidden_first_def split: option.splits)
  have pf: "prefix f (drop j (p @ b))" using j(1) by (simp add: str_find_Some_iff)
  have fit: "i + length d \<le> length p" by (rule str_find_fits [OF assms(2)])
  show False
  proof (cases "j + length f \<le> length p")
    case True
    then have "prefix f (drop j p)" by (rule prefix_drop_within [OF pf])
    then obtain k where "str_find p f = Some k" "k \<le> j"
      using True str_find_None_iff [of p f] str_find_Some_iff [of p f]
      by (metis add_leD1 linorder_not_le not_None_eq)
    with assms(3) j(2) show False by (simp add: forbidden_first_def)
  next
    case False
    have "prefix d (drop i (p @ b))"
      using assms(2) fit by (auto simp: str_find_Some_iff intro: prefix_drop_append)
    then have "sublist d f"
      using occurrence_sublist [OF pf, of d i] j(2) fit False by simp
    with assms(1) show False ..
  qed
qed

text \<open>A forbidden delimiter reported early is still first in the grown buffer.\<close>

lemma unexpected_stays:
  assumes "\<not> sublist f d" and "forbidden_first (str_find p f) (str_find p d)"
  shows "forbidden_first (str_find (p @ b) f) (str_find (p @ b) d)"
proof -
  obtain j where j: "str_find p f = Some j"
    using assms(2) by (auto simp: forbidden_first_def split: option.splits)
  have fit: "j + length f \<le> length p" by (rule str_find_fits [OF j])
  have jb: "str_find (p @ b) f = Some j" by (rule str_find_append_Some [OF j])
  have "j < i" if i: "str_find (p @ b) d = Some i" for i
  proof (rule ccontr)
    assume "\<not> j < i"
    have pd: "prefix d (drop i (p @ b))" using i by (simp add: str_find_Some_iff)
    show False
    proof (cases "i + length d \<le> length p")
      case True
      then have "prefix d (drop i p)" by (rule prefix_drop_within [OF pd])
      moreover have "\<forall>k < i. \<not> prefix d (drop k p)"
        using i True by (meson add_leD1 less_imp_le_nat order_trans prefix_drop_append str_find_Some_iff)
      ultimately have "str_find p d = Some i" using True by (simp add: str_find_Some_iff)
      with assms(2) j \<open>\<not> j < i\<close> show False by (simp add: forbidden_first_def)
    next
      case False
      have "prefix f (drop j (p @ b))" using jb by (simp add: str_find_Some_iff)
      then have "sublist f d"
        using occurrence_sublist [OF pd, of f j] False fit \<open>\<not> j < i\<close> by simp
      with assms(1) show False ..
    qed
  qed
  then show ?thesis using jb by (auto simp: forbidden_first_def split: option.splits)
qed

lemma forbidden_first_shift [simp]:
  "forbidden_first (map_option ((+) k) a) (map_option ((+) k) b) = forbidden_first a b"
  by (auto simp: forbidden_first_def split: option.splits)

text \<open>Settled bytes in front of the buffer are emitted and change nothing else.\<close>

lemma observe_loop_settled:
  assumes sep: "separable (rs_definition s)"
    and settled: "\<And>i n. i < length e \<Longrightarrow> n \<in> {fst (mode_delimiters s), snd (mode_delimiters s)} \<Longrightarrow>
      \<not> prefix n (drop i (e @ x)) \<and> \<not> prefix (drop i (e @ x)) n"
  shows "observe (reasoning_loop (s\<lparr>rs_pending := e @ x\<rparr>) []) =
     emit_before (map (Pair (rs_mode s)) e) (observe (reasoning_loop (s\<lparr>rs_pending := x\<rparr>) []))"
proof -
  let ?d = "fst (mode_delimiters s)" and ?f = "snd (mode_delimiters s)"
  have find: "str_find (e @ x) n = map_option ((+) (length e)) (str_find x n)" if "n \<in> {?d, ?f}" for n
    using settled that by (intro str_find_shift) auto
  have next_eq: "next_state (s\<lparr>rs_pending := e @ x\<rparr>) (length e + i) = next_state (s\<lparr>rs_pending := x\<rparr>) i" for i
    by (cases "rs_mode s") (simp_all add: next_state_def)
  have "longest_delimiter_prefix_suffix (e @ x) [?d, ?f] = longest_delimiter_prefix_suffix x [?d, ?f]"
    using settled separable_modes(5,6) [OF sep] by (intro holdback_shift) auto
  then have emit: "emit_count (s\<lparr>rs_pending := e @ x\<rparr>) = length e + emit_count (s\<lparr>rs_pending := x\<rparr>)"
    using holdback_le [of x "[?d, ?f]"] by (simp add: emit_count_def)
  show ?thesis
    by (subst (1 2) observe_turn_emit)
      (auto simp: find next_eq emit split: option.splits)
qed

text \<open>Feeding more text at the end is the same as resuming from the state left behind.\<close>

lemma observe_loop_grow:
  assumes "separable (rs_definition s)"
  shows "observe (reasoning_loop (grow s b) []) =
     (case observe (reasoning_loop s []) of
        Inl e \<Rightarrow> Inl e
      | Inr (out, s1) \<Rightarrow> emit_before out (observe (reasoning_loop (grow s1 b) [])))"
  using assms
proof (induction "turns_left s" arbitrary: s rule: less_induct)
  case less
  let ?d = "fst (mode_delimiters s)" and ?f = "snd (mode_delimiters s)" and ?p = "rs_pending s"
  note sep = separable_modes [OF less.prems]
  show ?case
  proof (cases "unexpected s")
    case True
    then have "unexpected (grow s b)" using unexpected_stays [OF sep(2)] by simp
    with True show ?thesis by (simp add: observe_turn_emit [of s] observe_turn_emit [of "grow s b"])
  next
    case nf: False
    show ?thesis
    proof (cases "str_find ?p ?d")
      case (Some i)
      have nf': "\<not> unexpected (grow s b)"
        using found_stays_found [OF sep(1) Some] nf Some by (simp add: str_find_append_Some [OF Some])
      have fit: "i + length ?d \<le> length ?p" by (rule str_find_fits [OF Some])
      show ?thesis
      proof (cases "second_section s")
        case True
        then show ?thesis
          using nf nf' Some by (simp add: observe_turn_emit [of s] observe_turn_emit [of "grow s b"]
              str_find_append_Some [OF Some])
      next
        case False
        have IH: "observe (reasoning_loop (grow (next_state s i) b) []) =
          (case observe (reasoning_loop (next_state s i) []) of Inl e \<Rightarrow> Inl e
           | Inr (out, s1) \<Rightarrow> emit_before out (observe (reasoning_loop (grow s1 b) [])))"
          by (rule less.hyps [OF turns_left_next [OF False]]) (simp add: less.prems)
        have "observe (reasoning_loop (grow s b) []) =
            emit_before (map (Pair (rs_mode s)) (take i ?p)) (observe (reasoning_loop (grow (next_state s i) b) []))"
          using nf' False fit next_state_grow [OF fit, of b]
          by (auto simp: observe_turn_emit [of "grow s b"] str_find_append_Some [OF Some])
        moreover have "observe (reasoning_loop s []) =
            emit_before (map (Pair (rs_mode s)) (take i ?p)) (observe (reasoning_loop (next_state s i) []))"
          using nf False Some by (auto simp: observe_turn_emit [of s])
        ultimately show ?thesis
          by (auto simp: IH emit_before_def split: sum.splits prod.splits)
      qed
    next
      case None
      with nf have none: "str_find ?p ?f = None"
        by (auto simp: forbidden_first_def split: option.splits)
      let ?e = "take (emit_count s) ?p" and ?h = "drop (emit_count s) ?p"
      have settled: "\<not> prefix n (drop j (?p @ b)) \<and> \<not> prefix (drop j (?p @ b)) n"
        if "j < length ?e" and "n \<in> {?d, ?f}" for j n
        using that None none sep(5,6)
        by (intro settled_positions [where ds = "[?d, ?f]"]) (auto simp: emit_count_def)
      have split: "?p @ b = ?e @ (?h @ b)" by simp
      have "observe (reasoning_loop (s\<lparr>rs_pending := ?e @ (?h @ b)\<rparr>) []) =
          emit_before (map (Pair (rs_mode s)) ?e) (observe (reasoning_loop (s\<lparr>rs_pending := ?h @ b\<rparr>) []))"
        by (rule observe_loop_settled [OF less.prems]) (use settled split in metis)
      then have "observe (reasoning_loop (grow s b) []) =
          emit_before (map (Pair (rs_mode s)) ?e) (observe (reasoning_loop (s\<lparr>rs_pending := ?h @ b\<rparr>) []))"
        by (simp only: split [symmetric])
      then show ?thesis
        using nf None by (simp add: observe_turn_emit [of s])
    qed
  qed
qed

section \<open>Properties\<close>

text \<open>The state machine fed with a sequence of deltas, stopping at the first error.\<close>

fun reasoning_push_all ::
    "reasoning_state \<Rightarrow> string list \<Rightarrow> (reasoning_segment list, parser_error) result \<times> reasoning_state" where
  "reasoning_push_all s [] = (Inr [], s)"
| "reasoning_push_all s (delta # deltas) =
     (case reasoning_push s delta of
        (Inl e, s') \<Rightarrow> (Inl e, s')
      | (Inr out, s') \<Rightarrow>
          (case reasoning_push_all s' deltas of
             (Inl e, s'') \<Rightarrow> (Inl e, s'')
           | (Inr out', s'') \<Rightarrow> (Inr (out @ out'), s'')))"

lemma loop_definition: "rs_definition (snd (reasoning_loop s out)) = rs_definition s"
proof (induction "turns_left s" arbitrary: s out rule: less_induct)
  case less
  then show ?case
    using turns_left_next [of s] by (subst loop_turn) (auto split: option.split)
qed

lemma push_definition: "reasoning_push s delta = (r, s') \<Longrightarrow> rs_definition s' = rs_definition s"
  using loop_definition [of "grow s delta" "[]"] by (simp add: reasoning_push_def)

lemma observe_push_append:
  assumes "separable (rs_definition s)"
  shows "observe (reasoning_push s (a @ b)) =
     (case observe (reasoning_push s a) of
        Inl e \<Rightarrow> Inl e
      | Inr (out, s1) \<Rightarrow> emit_before out (observe (reasoning_push s1 b)))"
  using observe_loop_grow [of "grow s a" b] assms
  by (simp add: reasoning_push_def cong: sum.case_cong prod.case_cong)

lemma observe_push_all_Cons:
  "observe (reasoning_push_all s (c # cs)) =
     (case observe (reasoning_push s c) of
        Inl e \<Rightarrow> Inl e
      | Inr (out, s1) \<Rightarrow> emit_before out (observe (reasoning_push_all s1 cs)))"
  by (auto simp: observe_def split: sum.splits prod.splits)

lemma observe_push_all_concat:
  "separable (rs_definition s) \<Longrightarrow>
   observe (reasoning_push_all s (c # cs)) = observe (reasoning_push s (concat (c # cs)))"
proof (induction cs arbitrary: s c)
  case Nil
  show ?case
    by (auto simp: observe_def split: sum.splits prod.splits)
next
  case (Cons c' cs)
  have "observe (reasoning_push_all s1 (c' # cs)) = observe (reasoning_push s1 (concat (c' # cs)))"
    if "observe (reasoning_push s c) = Inr (out, s1)" for out s1
  proof (rule Cons.IH)
    from that have "s1 = snd (reasoning_push s c)" by (auto simp: observe_def split: sum.splits)
    then show "separable (rs_definition s1)"
      using Cons.prems push_definition [of s c] by (metis prod.collapse)
  qed
  then show ?case
    using observe_push_append [OF Cons.prems, of c "concat (c' # cs)"]
    by (subst observe_push_all_Cons) (auto split: sum.splits)
qed

text \<open>
  C20: the reasoning parser is independent of chunking when neither delimiter occurs inside the
  other (\<open>separable\<close>). For such a definition, feeding the same text in two different sequences of
  deltas gives the same error or the same bytes in the same modes, and leaves the same state.
  Validation accepts other definitions too, and for them the chunks can matter (the lemma
  \<open>overlapping_delimiters_depend_on_chunks\<close> below).
\<close>

theorem reasoning_chunking_irrelevant:
  assumes "separable (rs_definition s)" and "cs \<noteq> []" and "ds \<noteq> []" and "concat cs = concat ds"
  shows "observe (reasoning_push_all s cs) = observe (reasoning_push_all s ds)"
  using assms by (cases cs; cases ds) (metis observe_push_all_concat)+

text \<open>What a successful parse can look like, mode by mode.\<close>

lemma found_split: "str_find h n = Some i \<Longrightarrow> h = take i h @ n @ drop (i + length n) h"
  by (metis append_take_drop_id drop_drop prefix_def str_find_Some_iff append_eq_conv_conj add.commute)

abbreviation text_bytes :: "string \<Rightarrow> (reasoning_mode \<times> char) list" where
  "text_bytes \<equiv> map (Pair ModeText)"

abbreviation reasoning_bytes :: "string \<Rightarrow> (reasoning_mode \<times> char) list" where
  "reasoning_bytes \<equiv> map (Pair ModeReasoning)"

lemma settle_text:
  assumes "observe (reasoning_loop s []) = Inr (out, s1)" and "rs_mode s = ModeText" and "rs_saw_reasoning s"
  shows "out @ text_bytes (rs_pending s1) = text_bytes (rs_pending s)" and "rs_mode s1 = ModeText"
  using assms unfolding observe_turn_emit [of s]
  by (auto simp flip: map_append split: if_splits option.splits)

lemma settle_reasoning:
  assumes "observe (reasoning_loop s []) = Inr (out, s1)" and "rs_mode s = ModeReasoning"
    and "rs_saw_reasoning s" and "rs_mode s1 = ModeText"
  shows "\<exists>r t. rs_pending s = r @ rd_end_delimiter (rs_definition s) @ t \<and>
     out @ text_bytes (rs_pending s1) = reasoning_bytes r @ text_bytes t"
proof (cases "str_find (rs_pending s) (fst (mode_delimiters s))")
  case None
  with assms show ?thesis
    unfolding observe_turn_emit [of s] by (auto split: if_splits)
next
  case (Some i)
  have d: "fst (mode_delimiters s) = rd_end_delimiter (rs_definition s)"
    using assms(2) by (simp add: mode_delimiters_def)
  from assms Some obtain out' where o: "observe (reasoning_loop (next_state s i) []) = Inr (out', s1)"
    and out: "out = reasoning_bytes (take i (rs_pending s)) @ out'"
    unfolding observe_turn_emit [of s] by (auto simp: emit_before_def split: if_splits sum.splits prod.splits)
  have "out' @ text_bytes (rs_pending s1) = text_bytes (rs_pending (next_state s i))"
    using settle_text(1) [OF o] assms by (simp add: next_state_def)
  then show ?thesis
    using out found_split [OF Some] d assms(2)
    by (intro exI [of _ "take i (rs_pending s)"] exI [of _ "drop (i + length (rd_end_delimiter (rs_definition s))) (rs_pending s)"])
      (simp add: next_state_def)
qed

lemma settle_start:
  assumes "observe (reasoning_loop s []) = Inr (out, s1)" and "rs_mode s = ModeText"
    and "\<not> rs_saw_reasoning s" and "rs_mode s1 = ModeText"
  shows "out @ text_bytes (rs_pending s1) = text_bytes (rs_pending s) \<or>
     (\<exists>t r t'. rs_pending s = t @ rd_start_delimiter (rs_definition s) @ r @ rd_end_delimiter (rs_definition s) @ t' \<and>
        out @ text_bytes (rs_pending s1) = text_bytes t @ reasoning_bytes r @ text_bytes t')"
proof (cases "str_find (rs_pending s) (fst (mode_delimiters s))")
  case None
  with assms show ?thesis
    unfolding observe_turn_emit [of s] by (auto simp flip: map_append split: if_splits)
next
  case (Some i)
  have d: "fst (mode_delimiters s) = rd_start_delimiter (rs_definition s)"
    using assms(2) by (simp add: mode_delimiters_def)
  from assms Some obtain out' where o: "observe (reasoning_loop (next_state s i) []) = Inr (out', s1)"
    and out: "out = text_bytes (take i (rs_pending s)) @ out'"
    unfolding observe_turn_emit [of s] by (auto simp: emit_before_def split: if_splits sum.splits prod.splits)
  obtain r t' where "rs_pending (next_state s i) = r @ rd_end_delimiter (rs_definition s) @ t'"
    and "out' @ text_bytes (rs_pending s1) = reasoning_bytes r @ text_bytes t'"
    using settle_reasoning [OF o] assms by (auto simp: next_state_def)
  then show ?thesis
    using out found_split [OF Some] d assms(2)
    by (intro disjI2 exI [of _ "take i (rs_pending s)"] exI [of _ r] exI [of _ t'])
      (simp add: next_state_def)
qed

text \<open>
  C21: nothing is lost or reclassified. When a whole stream is accepted, its bytes are either all
  text, or text, the start delimiter, one reasoning section, the end delimiter and text, and the
  parser emitted exactly these parts in these modes.
\<close>

theorem reasoning_sound:
  assumes "reasoning_push (reasoning_state_of d) w = (Inr out, s)" and "reasoning_finish s = Inr []"
  shows "flat out = text_bytes w \<or>
     (\<exists>t r t'. w = t @ rd_start_delimiter d @ r @ rd_end_delimiter d @ t' \<and>
        flat out = text_bytes t @ reasoning_bytes r @ text_bytes t')"
proof -
  let ?s = "grow (reasoning_state_of d) w"
  have fin: "rs_mode s = ModeText" "rs_pending s = []"
    using assms(2) by (cases "rs_mode s"; auto simp: reasoning_finish_def split: if_splits)+
  have "observe (reasoning_loop ?s []) = Inr (flat out, s)"
    using assms(1) by (simp add: reasoning_push_def)
  from settle_start [OF this] fin show ?thesis
    by (simp add: reasoning_state_of_def)
qed

text \<open>
  Text around the delimiters is plain when the delimiters are first found where they were put.
\<close>

definition plain_before :: "string \<Rightarrow> string \<Rightarrow> string \<Rightarrow> bool" where
  "plain_before t delimiter other \<longleftrightarrow>
     str_find (t @ delimiter) delimiter = Some (length t) \<and> str_find (t @ delimiter) other = None"

definition plain_tail :: "reasoning_definition \<Rightarrow> string \<Rightarrow> bool" where
  "plain_tail d t \<longleftrightarrow>
     str_find t (rd_start_delimiter d) = None \<and> str_find t (rd_end_delimiter d) = None \<and>
     longest_delimiter_prefix_suffix t [rd_start_delimiter d, rd_end_delimiter d] = 0"

lemma plain_before_grow:
  assumes "\<not> sublist d f" and "plain_before t d f"
  shows "str_find (t @ d @ x) d = Some (length t)"
    and "\<not> forbidden_first (str_find (t @ d @ x) f) (Some (length t))"
  using assms str_find_append_Some [of "t @ d" d "length t" x]
    found_stays_found [of d f "t @ d" "length t" x]
  by (simp_all add: plain_before_def forbidden_first_def)

text \<open>
  C22: printing sections and parsing them is the identity, for delimiters neither of which occurs
  inside the other (\<open>separable\<close>): text, one delimited reasoning section and text come back as exactly
  these parts, and the stream is accepted. The first text and the section must not make a delimiter
  appear earlier than the one that is printed after them (\<open>plain_before\<close>); the last text must hold
  no delimiter and must not end in the beginning of one, which \<open>finish\<close> would refuse (\<open>plain_tail\<close>).
\<close>

theorem reasoning_complete:
  assumes "separable d" and "plain_before t (rd_start_delimiter d) (rd_end_delimiter d)"
    and "plain_before r (rd_end_delimiter d) (rd_start_delimiter d)" and "plain_tail d t'"
  shows "\<exists>out s. reasoning_push (reasoning_state_of d)
       (t @ rd_start_delimiter d @ r @ rd_end_delimiter d @ t') = (Inr out, s) \<and>
     flat out = text_bytes t @ reasoning_bytes r @ text_bytes t' \<and> reasoning_finish s = Inr []"
proof -
  let ?a = "rd_start_delimiter d" and ?z = "rd_end_delimiter d"
  let ?tail = "\<lparr>rs_definition = d, rs_mode = ModeText, rs_pending = t', rs_saw_reasoning = True\<rparr>"
  let ?mid = "\<lparr>rs_definition = d, rs_mode = ModeReasoning, rs_pending = r @ ?z @ t', rs_saw_reasoning = True\<rparr>"
  let ?all = "grow (reasoning_state_of d) (t @ ?a @ r @ ?z @ t')"
  have sub: "\<not> sublist ?a ?z" "\<not> sublist ?z ?a" using assms(1) by (simp_all add: separable_def)
  have tail: "observe (reasoning_loop ?tail []) = Inr (text_bytes t', ?tail\<lparr>rs_pending := []\<rparr>)"
    using assms(4)
    by (subst observe_turn_emit) (simp add: mode_delimiters_def emit_count_def plain_tail_def forbidden_first_def)
  have mid: "observe (reasoning_loop ?mid []) = emit_before (reasoning_bytes r) (observe (reasoning_loop ?tail []))"
    using plain_before_grow [OF sub(2) assms(3), of t']
    by (subst observe_turn_emit) (simp add: mode_delimiters_def next_state_def)
  have "observe (reasoning_loop ?all []) = emit_before (text_bytes t) (observe (reasoning_loop ?mid []))"
    using plain_before_grow [OF sub(1) assms(2), of "r @ ?z @ t'"]
    by (subst observe_turn_emit) (simp add: mode_delimiters_def next_state_def reasoning_state_of_def)
  then have "observe (reasoning_push (reasoning_state_of d) (t @ ?a @ r @ ?z @ t')) =
      Inr (text_bytes t @ reasoning_bytes r @ text_bytes t', ?tail\<lparr>rs_pending := []\<rparr>)"
    by (simp add: reasoning_push_def mid tail)
  then show ?thesis
    by (cases "reasoning_push (reasoning_state_of d) (t @ ?a @ r @ ?z @ t')")
      (auto simp: observe_def reasoning_finish_def split: sum.splits)
qed

section \<open>Concrete streams\<close>

definition think_definition :: reasoning_definition where
  "think_definition =
     \<lparr>rd_identity = sample_component, rd_start_delimiter = ''<think>'', rd_end_delimiter = ''</think>''\<rparr>"

lemma think_separable: "separable think_definition"
  by code_simp

theorem reasoning_chunking_irrelevant_witness:
  "observe (reasoning_push_all (reasoning_state_of think_definition) [''a<th'', ''ink>b</thi'', ''nk>c'']) =
   observe (reasoning_push_all (reasoning_state_of think_definition) [''a<think>b</think>c''])"
  by (rule reasoning_chunking_irrelevant) (simp_all add: reasoning_state_of_def think_separable)

theorem reasoning_sound_witness:
  "\<exists>out s. reasoning_push (reasoning_state_of think_definition) ''a<think>b</think>c'' = (Inr out, s) \<and>
     (flat out = text_bytes ''a<think>b</think>c'' \<or>
      (\<exists>t r t'. ''a<think>b</think>c'' = t @ rd_start_delimiter think_definition @ r @ rd_end_delimiter think_definition @ t' \<and>
         flat out = text_bytes t @ reasoning_bytes r @ text_bytes t'))"
proof -
  have push: "reasoning_push (reasoning_state_of think_definition) ''a<think>b</think>c'' =
      (Inr [SegText ''a'', SegReasoning ''b'', SegText ''c''],
       (reasoning_state_of think_definition)\<lparr>rs_saw_reasoning := True\<rparr>)"
    by code_simp
  moreover have "reasoning_finish ((reasoning_state_of think_definition)\<lparr>rs_saw_reasoning := True\<rparr>) = Inr []"
    by code_simp
  ultimately show ?thesis using reasoning_sound by blast
qed

theorem reasoning_complete_witness:
  "\<exists>out s. reasoning_push (reasoning_state_of think_definition) (''a'' @ ''<think>'' @ ''b'' @ ''</think>'' @ ''c'') = (Inr out, s)
     \<and> flat out = text_bytes ''a'' @ reasoning_bytes ''b'' @ text_bytes ''c'' \<and> reasoning_finish s = Inr []"
proof -
  have "plain_before ''a'' (rd_start_delimiter think_definition) (rd_end_delimiter think_definition)"
    by code_simp
  moreover have "plain_before ''b'' (rd_end_delimiter think_definition) (rd_start_delimiter think_definition)"
    by code_simp
  moreover have "plain_tail think_definition ''c''" by code_simp
  ultimately show ?thesis
    using reasoning_complete [OF think_separable, of "''a''" "''b''" "''c''"]
    by (simp add: think_definition_def)
qed

text \<open>
  Separability is necessary. \<open>validate_delimiters\<close> accepts a start delimiter that is a
  prefix of the end delimiter; the parser then accepts a stream in one delta and rejects the same
  stream when a delta ends inside the end delimiter.
\<close>

lemma overlapping_delimiters_depend_on_chunks:
  "\<exists>d. reasoning_definition_new sample_component ''<t'' ''<tx'' = Inr d \<and>
     fst (reasoning_push_all (reasoning_state_of d) [''<tr<tx'']) = Inr [SegReasoning ''r''] \<and>
     fst (reasoning_push_all (reasoning_state_of d) [''<tr<t'', ''x'']) =
       Inl (Processing (UnexpectedDelimiter ''<t''))"
proof -
  let ?d = "\<lparr>rd_identity = sample_component, rd_start_delimiter = ''<t'', rd_end_delimiter = ''<tx''\<rparr>"
  have "reasoning_definition_new sample_component ''<t'' ''<tx'' = Inr ?d" by code_simp
  moreover have "fst (reasoning_push_all (reasoning_state_of ?d) [''<tr<tx'']) = Inr [SegReasoning ''r'']"
    by code_simp
  moreover have "fst (reasoning_push_all (reasoning_state_of ?d) [''<tr<t'', ''x'']) =
      Inl (Processing (UnexpectedDelimiter ''<t''))"
    by code_simp
  ultimately show ?thesis by blast
qed

end
