(* ===== verification/Json.thy ===== *)
theory Json
  imports Prelude
begin

text \<open>
  JSON values as \<open>serde_json::Value\<close> has them. Numbers are kept as their textual form, objects
  as association lists with distinct keys. Parsing and printing are done by the external crate
  \<open>serde_json\<close>: the components that call it take the two functions as parameters.
\<close>

datatype json =
    JNull
  | JBool bool
  | JNumber string
  | JString string
  | JArray "json list"
  | JObject "(string \<times> json) list"

type_synonym json_from_str = "string \<Rightarrow> json option"
type_synonym json_to_string = "json \<Rightarrow> string option"

fun json_as_str :: "json \<Rightarrow> string option" where
  "json_as_str (JString s) = Some s"
| "json_as_str _ = None"

fun json_is_object :: "json \<Rightarrow> bool" where
  "json_is_object (JObject _) = True"
| "json_is_object _ = False"

end
