(* ===== verification/Tool_Parser.thy ===== *)
theory Tool_Parser
  imports Reasoning_Parser Json
begin

text \<open>
  The tagged JSON tool-call parser of \<open>crates/parser/src/lib.rs\<close>. Envelopes are parsed by
  \<open>serde_json\<close>, which is the parameter pair \<open>fs\<close> (\<open>from_str\<close>) and \<open>ts\<close>
  (\<open>to_string\<close>). The two loops advance by the length of a delimiter, so they may fail to
  return when a delimiter is empty: they are partial functions, and returning is a theorem for
  the delimiters that \<open>validate_delimiters\<close> accepts.
\<close>

section \<open>The parser\<close>

record tool_definition =
  td_identity :: semantic_component_identity
  td_start_delimiter :: string
  td_end_delimiter :: string
  td_max_buffered_bytes :: usize

datatype tool_mode = ModeToolText | ModeTool

datatype tool_segment = ToolText string | ToolCall string string

record tool_state =
  ts_definition :: tool_definition
  ts_mode :: tool_mode
  ts_pending :: string

definition tool_definition_new ::
    "semantic_component_identity \<Rightarrow> string \<Rightarrow> string \<Rightarrow> usize \<Rightarrow> (tool_definition, parser_error) result" where
  "tool_definition_new identity start end' max_buffered_bytes =
     and_then (validate_delimiters ''tool'' start end')
       (\<lambda>_. if max_buffered_bytes = 0 then Inl (InvalidConfig ZeroToolBuffer)
            else Inr \<lparr>td_identity = identity, td_start_delimiter = start, td_end_delimiter = end',
                      td_max_buffered_bytes = max_buffered_bytes\<rparr>)"

definition tool_state_of :: "tool_definition \<Rightarrow> tool_state" where
  "tool_state_of d = \<lparr>ts_definition = d, ts_mode = ModeToolText, ts_pending = []\<rparr>"

definition parse_tool_envelope ::
    "json_from_str \<Rightarrow> json_to_string \<Rightarrow> string \<Rightarrow> (string \<times> string, parser_error) result" where
  "parse_tool_envelope fs ts input =
     (case fs input of
        None \<Rightarrow> Inl (Processing InvalidToolJson)
      | Some (JObject object) \<Rightarrow>
          if length object \<noteq> 2 \<or> map_of object ''name'' = None \<or> map_of object ''arguments'' = None
          then Inl (Processing EnvelopeKeys)
          else
            (case Option.bind (map_of object ''name'') json_as_str of
               None \<Rightarrow> Inl (Processing EnvelopeName)
             | Some name \<Rightarrow>
                 if name = [] then Inl (Processing EnvelopeName)
                 else
                   (let arguments = the (map_of object ''arguments'') in
                    if \<not> json_is_object arguments then Inl (Processing EnvelopeArguments)
                    else
                      (case ts arguments of
                         None \<Rightarrow> Inl (Processing EnvelopeNormalization)
                       | Some txt \<Rightarrow> Inr (name, txt))))
      | Some _ \<Rightarrow> Inl (Processing EnvelopeNotObject))"

text \<open>\<open>complete_call\<close>: the first end delimiter whose preceding bytes are a valid envelope.\<close>

partial_function (option) complete_call_from ::
    "json_from_str \<Rightarrow> json_to_string \<Rightarrow> tool_state \<Rightarrow> nat \<Rightarrow> (nat \<times> string \<times> string) option option" where
  "complete_call_from fs ts s search_from =
     (case str_find (drop search_from (ts_pending s)) (td_end_delimiter (ts_definition s)) of
        None \<Rightarrow> Some None
      | Some relative \<Rightarrow>
          (let position = search_from + relative in
           case parse_tool_envelope fs ts (take position (ts_pending s)) of
             Inr (name, arguments) \<Rightarrow> Some (Some (position, name, arguments))
           | Inl _ \<Rightarrow>
               complete_call_from fs ts s (position + length (td_end_delimiter (ts_definition s)))))"

definition complete_call ::
    "json_from_str \<Rightarrow> json_to_string \<Rightarrow> tool_state \<Rightarrow> (nat \<times> string \<times> string) option option" where
  "complete_call fs ts s = complete_call_from fs ts s 0"

partial_function (option) tool_loop ::
    "json_from_str \<Rightarrow> json_to_string \<Rightarrow> tool_state \<Rightarrow> tool_segment list
     \<Rightarrow> ((tool_segment list, parser_error) result \<times> tool_state) option" where
  "tool_loop fs ts s output =
     (case ts_mode s of
        ModeToolText \<Rightarrow>
          (let start = td_start_delimiter (ts_definition s); end' = td_end_delimiter (ts_definition s);
               start_position = str_find (ts_pending s) start;
               end_position = str_find (ts_pending s) end'
           in if forbidden_first end_position start_position
              then Some (Inl (Processing (UnexpectedDelimiter end')), s)
              else
                (case start_position of
                   Some position \<Rightarrow>
                     (let pre = take position (ts_pending s) in
                      tool_loop fs ts
                        (s\<lparr>ts_pending := drop (position + length start) (ts_pending s), ts_mode := ModeTool\<rparr>)
                        (if pre = [] then output else output @ [ToolText pre]))
                 | None \<Rightarrow>
                     (let holdback = longest_delimiter_prefix_suffix (ts_pending s) [start, end'];
                          emit_bytes = length (ts_pending s) - holdback
                      in if emit_bytes > 0
                         then Some (Inr (output @ [ToolText (take emit_bytes (ts_pending s))]),
                                    s\<lparr>ts_pending := drop emit_bytes (ts_pending s)\<rparr>)
                         else Some (Inr output, s))))
      | ModeTool \<Rightarrow>
          Option.bind (complete_call fs ts s)
            (\<lambda>call. case call of
               None \<Rightarrow>
                 if length (ts_pending s) > td_max_buffered_bytes (ts_definition s)
                 then Some (Inl (Processing (ToolCallTooLarge (td_max_buffered_bytes (ts_definition s)))), s)
                 else Some (Inr output, s)
             | Some (end_position, name, arguments) \<Rightarrow>
                 if end_position > td_max_buffered_bytes (ts_definition s)
                 then Some (Inl (Processing (ToolCallTooLarge (td_max_buffered_bytes (ts_definition s)))), s)
                 else
                   (let consumed = end_position + length (td_end_delimiter (ts_definition s)) in
                    tool_loop fs ts
                      (s\<lparr>ts_pending := drop consumed (ts_pending s), ts_mode := ModeToolText\<rparr>)
                      (output @ [ToolCall name arguments]))))"

definition tool_push ::
    "json_from_str \<Rightarrow> json_to_string \<Rightarrow> tool_state \<Rightarrow> string
     \<Rightarrow> ((tool_segment list, parser_error) result \<times> tool_state) option" where
  "tool_push fs ts s delta = tool_loop fs ts (s\<lparr>ts_pending := ts_pending s @ delta\<rparr>) []"

definition tool_finish :: "tool_state \<Rightarrow> (tool_segment list, parser_error) result" where
  "tool_finish s =
     (if ts_mode s = ModeTool then Inl (Processing UnterminatedToolCall)
      else if ts_pending s \<noteq> [] then Inl (Processing IncompleteToolDelimiter)
      else Inr [])"

section \<open>Returning\<close>

definition proper_tool :: "tool_definition \<Rightarrow> bool" where
  "proper_tool d \<longleftrightarrow> td_start_delimiter d \<noteq> [] \<and> td_end_delimiter d \<noteq> []"

lemma tool_definition_new_proper: "tool_definition_new i a z m = Inr d \<Longrightarrow> proper_tool d"
  by (auto simp: tool_definition_new_def validate_delimiters_def proper_tool_def split: if_splits)

lemma complete_call_from_returns:
  assumes "td_end_delimiter (ts_definition s) \<noteq> []" and "k \<le> length (ts_pending s)"
  shows "\<exists>c. complete_call_from fs ts s k = Some c \<and>
    (\<forall>e n a. c = Some (e, n, a) \<longrightarrow>
       e + length (td_end_delimiter (ts_definition s)) \<le> length (ts_pending s) \<and>
       prefix (td_end_delimiter (ts_definition s)) (drop e (ts_pending s)) \<and>
       parse_tool_envelope fs ts (take e (ts_pending s)) = Inr (n, a))"
  using assms(2)
proof (induction "length (ts_pending s) - k" arbitrary: k rule: less_induct)
  case less
  let ?z = "td_end_delimiter (ts_definition s)"
  show ?case
  proof (cases "str_find (drop k (ts_pending s)) ?z")
    case None
    then show ?thesis by (subst complete_call_from.simps) simp
  next
    case (Some r)
    have fit: "k + r + length ?z \<le> length (ts_pending s)"
      using str_find_fits [OF Some] less.prems by simp
    have occ: "prefix ?z (drop (k + r) (ts_pending s))"
      using Some by (simp add: str_find_Some_iff add.commute)
    show ?thesis
    proof (cases "parse_tool_envelope fs ts (take (k + r) (ts_pending s))")
      case (Inr na)
      with Some fit occ show ?thesis
        by (subst complete_call_from.simps) (auto split: prod.splits)
    next
      case (Inl e)
      have "\<exists>c. complete_call_from fs ts s (k + r + length ?z) = Some c \<and>
          (\<forall>e n a. c = Some (e, n, a) \<longrightarrow> e + length ?z \<le> length (ts_pending s) \<and>
             prefix ?z (drop e (ts_pending s)) \<and>
             parse_tool_envelope fs ts (take e (ts_pending s)) = Inr (n, a))"
        using fit length_greater_0_conv [of ?z] assms(1) by (intro less.hyps) linarith+
      moreover have "complete_call_from fs ts s k = complete_call_from fs ts s (k + r + length ?z)"
        using Some Inl by (subst complete_call_from.simps) simp
      ultimately show ?thesis by simp
    qed
  qed
qed

lemma complete_call_cases:
  assumes "proper_tool (ts_definition s)"
  obtains (none) "complete_call fs ts s = Some None"
    | (call) e n a where "complete_call fs ts s = Some (Some (e, n, a))"
        "e + length (td_end_delimiter (ts_definition s)) \<le> length (ts_pending s)"
        "prefix (td_end_delimiter (ts_definition s)) (drop e (ts_pending s))"
        "parse_tool_envelope fs ts (take e (ts_pending s)) = Inr (n, a)"
  using complete_call_from_returns [of s 0 fs ts] assms
  unfolding complete_call_def proper_tool_def by (metis le0 not_None_eq prod_cases3)

section \<open>Observing the output\<close>

fun flat_tool_segment :: "tool_segment \<Rightarrow> (char + string \<times> string) list" where
  "flat_tool_segment (ToolText t) = map Inl t"
| "flat_tool_segment (ToolCall n a) = [Inr (n, a)]"

definition flat_tool :: "tool_segment list \<Rightarrow> (char + string \<times> string) list" where
  "flat_tool segs = concat (map flat_tool_segment segs)"

type_synonym tool_observation = "((char + string \<times> string) list \<times> tool_state, parser_error) result"

definition tool_observe ::
    "((tool_segment list, parser_error) result \<times> tool_state) option \<Rightarrow> tool_observation option" where
  "tool_observe r =
     map_option (\<lambda>(res, s). case res of Inl e \<Rightarrow> Inl e | Inr out \<Rightarrow> Inr (flat_tool out, s)) r"

definition tool_emit :: "(char + string \<times> string) list \<Rightarrow> tool_observation option \<Rightarrow> tool_observation option" where
  "tool_emit xs r = map_option (\<lambda>ob. case ob of Inl e \<Rightarrow> Inl e | Inr (out, s) \<Rightarrow> Inr (xs @ out, s)) r"

lemma flat_tool_simps [simp]:
  "flat_tool [] = []" "flat_tool (a @ b) = flat_tool a @ flat_tool b"
  "flat_tool [ToolText t] = map Inl t" "flat_tool [ToolCall n g] = [Inr (n, g)]"
  by (simp_all add: flat_tool_def)

lemma tool_observe_simps [simp]:
  "tool_observe (Some (Inl e, s)) = Some (Inl e)"
  "tool_observe (Some (Inr out, s)) = Some (Inr (flat_tool out, s))"
  by (simp_all add: tool_observe_def)

lemma tool_emit_simps [simp]:
  "tool_emit xs (Some (Inl e)) = Some (Inl e)"
  "tool_emit xs (Some (Inr (out, s))) = Some (Inr (xs @ out, s))"
  "tool_emit [] r = r" "tool_emit xs (tool_emit ys r) = tool_emit (xs @ ys) r"
  by (cases r; auto simp: tool_emit_def split: sum.splits)+

abbreviation start_delim :: "tool_state \<Rightarrow> string" where
  "start_delim s \<equiv> td_start_delimiter (ts_definition s)"

abbreviation end_delim :: "tool_state \<Rightarrow> string" where
  "end_delim s \<equiv> td_end_delimiter (ts_definition s)"

abbreviation buffer_limit :: "tool_state \<Rightarrow> usize" where
  "buffer_limit s \<equiv> td_max_buffered_bytes (ts_definition s)"

definition enter_tool :: "tool_state \<Rightarrow> nat \<Rightarrow> tool_state" where
  "enter_tool s i = s\<lparr>ts_pending := drop (i + length (start_delim s)) (ts_pending s), ts_mode := ModeTool\<rparr>"

definition leave_tool :: "tool_state \<Rightarrow> nat \<Rightarrow> tool_state" where
  "leave_tool s e = s\<lparr>ts_pending := drop (e + length (end_delim s)) (ts_pending s), ts_mode := ModeToolText\<rparr>"

definition tool_emit_count :: "tool_state \<Rightarrow> nat" where
  "tool_emit_count s = length (ts_pending s) -
     longest_delimiter_prefix_suffix (ts_pending s) [start_delim s, end_delim s]"

lemma tool_turn_text:
  assumes "ts_mode s = ModeToolText"
  shows "tool_observe (tool_loop fs ts s out) =
     (if forbidden_first (str_find (ts_pending s) (end_delim s)) (str_find (ts_pending s) (start_delim s))
      then Some (Inl (Processing (UnexpectedDelimiter (end_delim s))))
      else case str_find (ts_pending s) (start_delim s) of
        Some i \<Rightarrow> tool_observe (tool_loop fs ts (enter_tool s i)
            (if take i (ts_pending s) = [] then out else out @ [ToolText (take i (ts_pending s))]))
      | None \<Rightarrow> Some (Inr (flat_tool out @ map Inl (take (tool_emit_count s) (ts_pending s)),
            s\<lparr>ts_pending := drop (tool_emit_count s) (ts_pending s)\<rparr>)))"
  by (subst tool_loop.simps) (simp add: assms Let_def enter_tool_def tool_emit_count_def split: option.split)

lemma tool_turn_tool:
  assumes "ts_mode s = ModeTool" and "complete_call fs ts s = Some c"
  shows "tool_observe (tool_loop fs ts s out) =
     (case c of
        None \<Rightarrow> if length (ts_pending s) > buffer_limit s
                then Some (Inl (Processing (ToolCallTooLarge (buffer_limit s))))
                else Some (Inr (flat_tool out, s))
      | Some (e, n, a) \<Rightarrow> if e > buffer_limit s then Some (Inl (Processing (ToolCallTooLarge (buffer_limit s))))
                else tool_observe (tool_loop fs ts (leave_tool s e) (out @ [ToolCall n a])))"
  by (subst tool_loop.simps) (simp add: assms leave_tool_def Let_def split: option.split)

lemma tool_definitions [simp]:
  "ts_definition (enter_tool s i) = ts_definition s" "ts_definition (leave_tool s i) = ts_definition s"
  "ts_mode (enter_tool s i) = ModeTool" "ts_mode (leave_tool s i) = ModeToolText"
  by (simp_all add: enter_tool_def leave_tool_def)

lemma tool_progress_enter:
  assumes "proper_tool (ts_definition s)" and "str_find (ts_pending s) (start_delim s) = Some i"
  shows "length (ts_pending (enter_tool s i)) < length (ts_pending s)"
  using assms str_find_fits [OF assms(2)] by (cases "start_delim s") (auto simp: enter_tool_def proper_tool_def)

lemma tool_progress_leave:
  assumes "proper_tool (ts_definition s)" and "e + length (end_delim s) \<le> length (ts_pending s)"
  shows "length (ts_pending (leave_tool s e)) < length (ts_pending s)"
  using assms by (cases "end_delim s") (auto simp: leave_tool_def proper_tool_def)

text \<open>The loop returns for every proper definition, whatever \<open>serde_json\<close> does.\<close>

lemma tool_loop_returns:
  "proper_tool (ts_definition s) \<Longrightarrow> \<exists>r. tool_loop fs ts s out = Some r"
proof (induction "length (ts_pending s)" arbitrary: s out rule: less_induct)
  case less
  show ?case
  proof (cases "ts_mode s")
    case ModeToolText
    then show ?thesis
      using less.hyps tool_progress_enter [OF less.prems] less.prems
      by (subst tool_loop.simps) (auto simp: Let_def simp flip: enter_tool_def split: option.split)
  next
    case ModeTool
    from less.prems show ?thesis
    proof (cases rule: complete_call_cases [of s fs ts])
      case none
      with ModeTool show ?thesis by (subst tool_loop.simps) simp
    next
      case (call e n a)
      have "\<exists>r. tool_loop fs ts (leave_tool s e) (out @ [ToolCall n a]) = Some r"
        using less.hyps tool_progress_leave [OF less.prems call(2)] less.prems by simp
      with ModeTool call(1) show ?thesis
        by (subst tool_loop.simps) (simp add: leave_tool_def)
    qed
  qed
qed

lemma tool_observe_acc:
  "proper_tool (ts_definition s) \<Longrightarrow>
   tool_observe (tool_loop fs ts s out) = tool_emit (flat_tool out) (tool_observe (tool_loop fs ts s []))"
proof (induction "length (ts_pending s)" arbitrary: s out rule: less_induct)
  case less
  show ?case
  proof (cases "ts_mode s")
    case ModeToolText
    have IH: "tool_observe (tool_loop fs ts (enter_tool s i) out') =
        tool_emit (flat_tool out') (tool_observe (tool_loop fs ts (enter_tool s i) []))"
      if "str_find (ts_pending s) (start_delim s) = Some i" for i out'
      using tool_progress_enter [OF less.prems that] less.prems by (intro less.hyps) simp_all
    show ?thesis
    proof (cases "str_find (ts_pending s) (start_delim s)")
      case None
      then show ?thesis by (simp add: tool_turn_text [OF ModeToolText])
    next
      case (Some i)
      let ?out = "\<lambda>out. if take i (ts_pending s) = [] then out else out @ [ToolText (take i (ts_pending s))]"
      show ?thesis
        by (simp only: tool_turn_text [OF ModeToolText] Some option.case IH [OF Some, of "?out out"]
            IH [OF Some, of "?out []"]) simp
    qed
  next
    case ModeTool
    from less.prems show ?thesis
    proof (cases rule: complete_call_cases [of s fs ts])
      case none
      with ModeTool show ?thesis by (simp add: tool_turn_tool)
    next
      case (call e n a)
      have IH: "tool_observe (tool_loop fs ts (leave_tool s e) out') =
          tool_emit (flat_tool out') (tool_observe (tool_loop fs ts (leave_tool s e) []))" for out'
        using tool_progress_leave [OF less.prems call(2)] less.prems by (intro less.hyps) simp_all
      show ?thesis
        by (simp only: tool_turn_tool [OF ModeTool call(1)] option.case prod.case
            IH [of "out @ [ToolCall n a]"] IH [of "[] @ [ToolCall n a]"]) simp
    qed
  qed
qed

lemma tool_text_emit:
  assumes "ts_mode s = ModeToolText" and "proper_tool (ts_definition s)"
  shows "tool_observe (tool_loop fs ts s []) =
     (if forbidden_first (str_find (ts_pending s) (end_delim s)) (str_find (ts_pending s) (start_delim s))
      then Some (Inl (Processing (UnexpectedDelimiter (end_delim s))))
      else case str_find (ts_pending s) (start_delim s) of
        Some i \<Rightarrow> tool_emit (map Inl (take i (ts_pending s))) (tool_observe (tool_loop fs ts (enter_tool s i) []))
      | None \<Rightarrow> Some (Inr (map Inl (take (tool_emit_count s) (ts_pending s)),
            s\<lparr>ts_pending := drop (tool_emit_count s) (ts_pending s)\<rparr>)))"
  using assms(2)
  by (simp add: tool_turn_text [OF assms(1)] tool_observe_acc [of "enter_tool s i" fs ts "[ToolText t]" for i t]
      split: option.split)

lemma tool_call_emit:
  assumes "ts_mode s = ModeTool" and "proper_tool (ts_definition s)" and "complete_call fs ts s = Some c"
  shows "tool_observe (tool_loop fs ts s []) =
     (case c of
        None \<Rightarrow> if length (ts_pending s) > buffer_limit s
                then Some (Inl (Processing (ToolCallTooLarge (buffer_limit s))))
                else Some (Inr ([], s))
      | Some (e, n, a) \<Rightarrow> if e > buffer_limit s then Some (Inl (Processing (ToolCallTooLarge (buffer_limit s))))
                else tool_emit [Inr (n, a)] (tool_observe (tool_loop fs ts (leave_tool s e) [])))"
  using assms(2)
  by (simp add: tool_turn_tool [OF assms(1,3)] tool_observe_acc [of "leave_tool s i" fs ts "[ToolCall n a]" for i n a]
      split: option.split)

lemma tool_emit_Inr:
  "tool_emit xs r = Some (Inr (out, s)) \<longleftrightarrow> (\<exists>out'. r = Some (Inr (out', s)) \<and> out = xs @ out')"
  by (cases r) (auto simp: tool_emit_def split: sum.splits)

lemma tool_loop_shrinks:
  "proper_tool (ts_definition s) \<Longrightarrow> tool_observe (tool_loop fs ts s []) = Some (Inr (out, s1)) \<Longrightarrow>
   length (ts_pending s1) \<le> length (ts_pending s)"
proof (induction "length (ts_pending s)" arbitrary: s out rule: less_induct)
  case less
  show ?case
  proof (cases "ts_mode s")
    case ModeToolText
    with less.prems less.hyps [of "enter_tool s i" for i] tool_progress_enter [OF less.prems(1)] show ?thesis
      by (fastforce simp: tool_text_emit tool_emit_Inr split: if_splits option.splits)
  next
    case ModeTool
    from less.prems(1) show ?thesis
    proof (cases rule: complete_call_cases [of s fs ts])
      case none
      with less.prems ModeTool show ?thesis by (auto simp: tool_call_emit split: if_splits)
    next
      case (call e n a)
      with less.prems ModeTool less.hyps [of "leave_tool s e"] tool_progress_leave [OF less.prems(1) call(2)]
      show ?thesis by (fastforce simp: tool_call_emit tool_emit_Inr split: if_splits)
    qed
  qed
qed

section \<open>What an accepted stream looks like\<close>

datatype tool_part = PartText string | PartCall string string string

fun render_part :: "tool_definition \<Rightarrow> tool_part \<Rightarrow> string" where
  "render_part d (PartText t) = t"
| "render_part d (PartCall envelope n a) = td_start_delimiter d @ envelope @ td_end_delimiter d"

fun shown_part :: "tool_part \<Rightarrow> (char + string \<times> string) list" where
  "shown_part (PartText t) = map Inl t"
| "shown_part (PartCall envelope n a) = [Inr (n, a)]"

fun accepted_part :: "json_from_str \<Rightarrow> json_to_string \<Rightarrow> tool_definition \<Rightarrow> tool_part \<Rightarrow> bool" where
  "accepted_part fs ts d (PartText t) = True"
| "accepted_part fs ts d (PartCall envelope n a) \<longleftrightarrow>
     parse_tool_envelope fs ts envelope = Inr (n, a) \<and> length envelope \<le> td_max_buffered_bytes d"

definition unread :: "tool_state \<Rightarrow> string" where
  "unread s = (case ts_mode s of ModeToolText \<Rightarrow> [] | ModeTool \<Rightarrow> start_delim s) @ ts_pending s"

lemma found_pieces: "str_find h n = Some i \<Longrightarrow> take i h @ n @ drop (i + length n) h = h"
  by (metis found_split)

lemma prefix_pieces: "prefix n (drop i h) \<Longrightarrow> take i h @ n @ drop (i + length n) h = h"
  by (metis append_take_drop_id prefix_def append_eq_conv_conj drop_drop add.commute)

lemma tool_loop_parts:
  "proper_tool (ts_definition s) \<Longrightarrow> tool_observe (tool_loop fs ts s []) = Some (Inr (out, s1)) \<Longrightarrow>
   ts_definition s1 = ts_definition s \<and>
   (\<exists>parts. unread s = concat (map (render_part (ts_definition s)) parts) @ unread s1 \<and>
      out = concat (map shown_part parts) \<and> list_all (accepted_part fs ts (ts_definition s)) parts)"
proof (induction "length (ts_pending s)" arbitrary: s out rule: less_induct)
  case less
  show ?case
  proof (cases "ts_mode s")
    case ModeToolText
    show ?thesis
    proof (cases "str_find (ts_pending s) (start_delim s)")
      case None
      with less.prems ModeToolText show ?thesis
        by (intro conjI exI [of _ "[PartText (take (tool_emit_count s) (ts_pending s))]"])
          (auto simp: tool_text_emit unread_def split: if_splits)
    next
      case (Some i)
      with less.prems(2) obtain out' where rest: "tool_observe (tool_loop fs ts (enter_tool s i) []) = Some (Inr (out', s1))"
        and out: "out = map Inl (take i (ts_pending s)) @ out'"
        unfolding tool_text_emit [OF ModeToolText less.prems(1)] by (auto simp: tool_emit_Inr split: if_splits)
      from less.hyps [OF tool_progress_enter [OF less.prems(1) Some] _ rest] less.prems(1)
      obtain parts where def1: "ts_definition s1 = ts_definition s"
        and parts: "unread (enter_tool s i) = concat (map (render_part (ts_definition s)) parts) @ unread s1"
          "out' = concat (map shown_part parts)" "list_all (accepted_part fs ts (ts_definition s)) parts"
        by auto
      have "unread s = take i (ts_pending s) @ unread (enter_tool s i)"
        using found_pieces [OF Some] ModeToolText by (simp add: unread_def enter_tool_def)
      with def1 parts out show ?thesis
        by (intro conjI exI [of _ "PartText (take i (ts_pending s)) # parts"]) auto
    qed
  next
    case ModeTool
    from less.prems(1) show ?thesis
    proof (cases rule: complete_call_cases [of s fs ts])
      case none
      with less.prems ModeTool show ?thesis
        by (intro conjI exI [of _ "[]"]) (auto simp: tool_call_emit split: if_splits)
    next
      case (call e n a)
      with less.prems(2) obtain out' where rest: "tool_observe (tool_loop fs ts (leave_tool s e) []) = Some (Inr (out', s1))"
        and out: "out = Inr (n, a) # out'" and small: "e \<le> buffer_limit s"
        unfolding tool_call_emit [OF ModeTool less.prems(1) call(1)] by (auto simp: tool_emit_Inr split: if_splits)
      from less.hyps [OF tool_progress_leave [OF less.prems(1) call(2)] _ rest] less.prems(1)
      obtain parts where def1: "ts_definition s1 = ts_definition s"
        and parts: "unread (leave_tool s e) = concat (map (render_part (ts_definition s)) parts) @ unread s1"
          "out' = concat (map shown_part parts)" "list_all (accepted_part fs ts (ts_definition s)) parts"
        by auto
      have "unread s = (start_delim s @ take e (ts_pending s) @ end_delim s) @ unread (leave_tool s e)"
        using prefix_pieces [OF call(3)] ModeTool by (simp add: unread_def leave_tool_def)
      with def1 parts out call(4) small show ?thesis
        by (intro conjI exI [of _ "PartCall (take e (ts_pending s)) n a # parts"]) auto
    qed
  qed
qed

section \<open>Chunking\<close>

definition tool_separable :: "tool_definition \<Rightarrow> bool" where
  "tool_separable d \<longleftrightarrow>
     proper_tool d \<and> utf8_start (td_start_delimiter d) \<and> utf8_start (td_end_delimiter d) \<and>
     \<not> sublist (td_start_delimiter d) (td_end_delimiter d) \<and>
     \<not> sublist (td_end_delimiter d) (td_start_delimiter d)"

abbreviation tool_grow :: "tool_state \<Rightarrow> string \<Rightarrow> tool_state" where
  "tool_grow s b \<equiv> s\<lparr>ts_pending := ts_pending s @ b\<rparr>"

definition tool_then :: "tool_observation option \<Rightarrow> (tool_state \<Rightarrow> tool_observation option) \<Rightarrow> tool_observation option" where
  "tool_then r k = Option.bind r (\<lambda>ob. case ob of Inl e \<Rightarrow> Some (Inl e) | Inr (out, s) \<Rightarrow> tool_emit out (k s))"

lemma tool_then_simps [simp]:
  "tool_then (Some (Inl e)) k = Some (Inl e)"
  "tool_then (Some (Inr (out, s))) k = tool_emit out (k s)"
  by (simp_all add: tool_then_def)

lemma tool_then_emit [simp]: "tool_then (tool_emit xs r) k = tool_emit xs (tool_then r k)"
  by (cases r) (auto simp: tool_emit_def tool_then_def option.map_comp o_def split: sum.splits
      intro!: option.map_cong)

lemma complete_call_from_grow:
  assumes "td_end_delimiter (ts_definition s) \<noteq> []" and "k \<le> length (ts_pending s)"
    and "complete_call_from fs ts s k = Some (Some c)"
  shows "complete_call_from fs ts (tool_grow s b) k = Some (Some c)"
  using assms(2,3)
proof (induction "length (ts_pending s) - k" arbitrary: k rule: less_induct)
  case less
  let ?z = "end_delim s"
  from less.prems obtain r where r: "str_find (drop k (ts_pending s)) ?z = Some r"
    by (subst (asm) complete_call_from.simps) (auto split: option.splits)
  have fit: "k + r + length ?z \<le> length (ts_pending s)"
    using str_find_fits [OF r] less.prems(1) by simp
  have found: "str_find (drop k (ts_pending s @ b)) ?z = Some r"
    using str_find_append_Some [OF r] less.prems(1) by simp
  show ?case
  proof (cases "parse_tool_envelope fs ts (take (k + r) (ts_pending s))")
    case (Inr na)
    with less.prems(2) r found fit show ?thesis
      by (subst complete_call_from.simps, subst (asm) complete_call_from.simps) (auto split: prod.splits)
  next
    case (Inl e)
    have next_call: "complete_call_from fs ts s (k + r + length ?z) = Some (Some c)"
      using less.prems(2) r Inl by (subst (asm) complete_call_from.simps) simp
    have "complete_call_from fs ts (tool_grow s b) (k + r + length ?z) = Some (Some c)"
      using fit assms(1) next_call
      by (intro less.hyps) (cases ?z, simp_all)
    with found Inl fit show ?thesis
      by (subst complete_call_from.simps) simp
  qed
qed

lemma tool_observe_settled:
  assumes sep: "tool_separable (ts_definition s)" and mode: "ts_mode s = ModeToolText"
    and settled: "\<And>i n. i < length e \<Longrightarrow> n \<in> {start_delim s, end_delim s} \<Longrightarrow>
      \<not> prefix n (drop i (e @ x)) \<and> \<not> prefix (drop i (e @ x)) n"
  shows "tool_observe (tool_loop fs ts (s\<lparr>ts_pending := e @ x\<rparr>) []) =
     tool_emit (map Inl e) (tool_observe (tool_loop fs ts (s\<lparr>ts_pending := x\<rparr>) []))"
proof -
  let ?d = "start_delim s" and ?f = "end_delim s"
  have proper: "proper_tool (ts_definition s)" using sep by (simp add: tool_separable_def)
  have find: "str_find (e @ x) n = map_option ((+) (length e)) (str_find x n)" if "n \<in> {?d, ?f}" for n
    using settled that by (intro str_find_shift) auto
  have enter: "enter_tool (s\<lparr>ts_pending := e @ x\<rparr>) (length e + i) = enter_tool (s\<lparr>ts_pending := x\<rparr>) i" for i
    by (simp add: enter_tool_def)
  have "longest_delimiter_prefix_suffix (e @ x) [?d, ?f] = longest_delimiter_prefix_suffix x [?d, ?f]"
    using settled sep by (intro holdback_shift) (auto simp: tool_separable_def)
  then have emit: "tool_emit_count (s\<lparr>ts_pending := e @ x\<rparr>) = length e + tool_emit_count (s\<lparr>ts_pending := x\<rparr>)"
    using holdback_le [of x "[?d, ?f]"] by (simp add: tool_emit_count_def)
  show ?thesis
    by (subst (1 2) tool_text_emit) (auto simp: mode proper find enter emit split: option.splits)
qed

lemma tool_observe_grow:
  assumes "tool_separable (ts_definition s)" and "length (ts_pending s) \<le> buffer_limit s"
  shows "tool_observe (tool_loop fs ts (tool_grow s b) []) =
     tool_then (tool_observe (tool_loop fs ts s [])) (\<lambda>s1. tool_observe (tool_loop fs ts (tool_grow s1 b) []))"
  using assms
proof (induction "length (ts_pending s)" arbitrary: s rule: less_induct)
  case less
  let ?d = "start_delim s" and ?f = "end_delim s" and ?p = "ts_pending s"
  have proper: "proper_tool (ts_definition s)" and sub: "\<not> sublist ?d ?f" "\<not> sublist ?f ?d"
    using less.prems(1) by (simp_all add: tool_separable_def)
  show ?case
  proof (cases "ts_mode s")
    case mode: ModeToolText
    note turn = tool_text_emit [of s, OF mode proper] tool_text_emit [of "tool_grow s b", simplified, OF mode proper]
    show ?thesis
    proof (cases "forbidden_first (str_find ?p ?f) (str_find ?p ?d)")
      case True
      with unexpected_stays [OF sub(2) this, of b] show ?thesis by (simp add: turn)
    next
      case nf: False
      show ?thesis
      proof (cases "str_find ?p ?d")
        case (Some i)
        have fit: "i + length ?d \<le> length ?p" by (rule str_find_fits [OF Some])
        have enter: "enter_tool (tool_grow s b) i = tool_grow (enter_tool s i) b"
          using fit by (simp add: enter_tool_def)
        have less': "length (ts_pending (enter_tool s i)) < length ?p" by (rule tool_progress_enter [OF proper Some])
        have IH: "tool_observe (tool_loop fs ts (tool_grow (enter_tool s i) b) []) =
            tool_then (tool_observe (tool_loop fs ts (enter_tool s i) [])) (\<lambda>s1. tool_observe (tool_loop fs ts (tool_grow s1 b) []))"
          using less' less.prems by (intro less.hyps) simp_all
        show ?thesis
          using found_stays_found [OF sub(1) Some, of b] nf Some fit
          by (simp add: turn str_find_append_Some [OF Some] enter IH)
      next
        case None
        with nf have none: "str_find ?p ?f = None" by (auto simp: forbidden_first_def split: option.splits)
        let ?e = "take (tool_emit_count s) ?p" and ?h = "drop (tool_emit_count s) ?p"
        have settled: "\<not> prefix n (drop j (?p @ b)) \<and> \<not> prefix (drop j (?p @ b)) n"
          if "j < length ?e" and "n \<in> {?d, ?f}" for j n
          using that None none less.prems(1)
          by (intro settled_positions [where ds = "[?d, ?f]"]) (auto simp: tool_emit_count_def tool_separable_def)
        have split: "?p @ b = ?e @ (?h @ b)" by simp
        have "tool_observe (tool_loop fs ts (s\<lparr>ts_pending := ?e @ (?h @ b)\<rparr>) []) =
            tool_emit (map Inl ?e) (tool_observe (tool_loop fs ts (s\<lparr>ts_pending := ?h @ b\<rparr>) []))"
          by (rule tool_observe_settled [OF less.prems(1) mode]) (use settled split in metis)
        then have "tool_observe (tool_loop fs ts (tool_grow s b) []) =
            tool_emit (map Inl ?e) (tool_observe (tool_loop fs ts (s\<lparr>ts_pending := ?h @ b\<rparr>) []))"
          by (simp only: split [symmetric])
        then show ?thesis using nf None by (simp add: turn(1))
      qed
    qed
  next
    case mode: ModeTool
    from proper show ?thesis
    proof (cases rule: complete_call_cases [of s fs ts])
      case none
      with less.prems show ?thesis by (simp add: tool_call_emit [of s, OF mode proper none])
    next
      case (call e n a)
      have call': "complete_call fs ts (tool_grow s b) = Some (Some (e, n, a))"
        using call(1) proper unfolding complete_call_def
        by (intro complete_call_from_grow) (simp_all add: proper_tool_def)
      have leave: "leave_tool (tool_grow s b) e = tool_grow (leave_tool s e) b"
        using call(2) by (simp add: leave_tool_def)
      have less': "length (ts_pending (leave_tool s e)) < length ?p" by (rule tool_progress_leave [OF proper call(2)])
      have IH: "tool_observe (tool_loop fs ts (tool_grow (leave_tool s e) b) []) =
          tool_then (tool_observe (tool_loop fs ts (leave_tool s e) [])) (\<lambda>s1. tool_observe (tool_loop fs ts (tool_grow s1 b) []))"
        using less' less.prems by (intro less.hyps) simp_all
      show ?thesis
        by (simp add: tool_call_emit [of s, OF mode proper call(1)] leave IH
            tool_call_emit [of "tool_grow s b", simplified, OF mode proper call'])
    qed
  qed
qed

section \<open>Properties\<close>

text \<open>
  The tool parser returns. For a definition that \<open>tool_definition_new\<close> accepts, every push
  comes back with a result, whatever the JSON library makes of the envelopes.
\<close>

lemma tool_push_returns:
  assumes "tool_definition_new i a z m = Inr d" and "ts_definition s = d"
  shows "\<exists>r s'. tool_push fs ts s delta = Some (r, s')"
  using tool_loop_returns [of "tool_grow s delta" fs ts "[]"] tool_definition_new_proper [OF assms(1)] assms(2)
  by (auto simp: tool_push_def)

lemma tool_observe_Some: "x = Some (Inr out, s) \<Longrightarrow> tool_observe x = Some (Inr (flat_tool out, s))"
  by simp

text \<open>
  C23: tool calls are transactional. When a whole stream is accepted it is a concatenation of
  plain text and delimited envelopes; the parser emitted exactly the text and, in their place,
  the calls, and every call comes from one envelope within the byte limit that
  \<open>parse_tool_envelope\<close> accepted.
\<close>

theorem tool_stream_sound:
  assumes "tool_definition_new i a z m = Inr d"
    and "tool_push fs ts (tool_state_of d) w = Some (Inr out, s)" and "tool_finish s = Inr []"
  shows "\<exists>parts. w = concat (map (render_part d) parts) \<and> flat_tool out = concat (map shown_part parts) \<and>
     list_all (accepted_part fs ts d) parts"
proof -
  have "tool_observe (tool_loop fs ts ((tool_state_of d)\<lparr>ts_pending := w\<rparr>) []) = Some (Inr (flat_tool out, s))"
    using assms(2) by (intro tool_observe_Some) (simp add: tool_push_def tool_state_of_def)
  moreover have "unread s = []"
    using assms(3) by (cases "ts_mode s") (auto simp: tool_finish_def unread_def split: if_splits)
  ultimately show ?thesis
    using tool_loop_parts [of "(tool_state_of d)\<lparr>ts_pending := w\<rparr>" fs ts "flat_tool out" s]
      tool_definition_new_proper [OF assms(1)]
    by (auto simp: tool_state_of_def unread_def)
qed

text \<open>
  An accepted envelope is an object with exactly the two keys, a non-empty string name and an
  object of arguments, and the call carries that name and the normalised arguments.
\<close>

lemma parse_tool_envelope_iff:
  "parse_tool_envelope fs ts input = Inr (name, arguments) \<longleftrightarrow>
     (\<exists>object arg. fs input = Some (JObject object) \<and> length object = 2 \<and>
        map_of object ''name'' = Some (JString name) \<and> name \<noteq> [] \<and>
        map_of object ''arguments'' = Some (JObject arg) \<and> ts (JObject arg) = Some arguments)"
proof
  assume "parse_tool_envelope fs ts input = Inr (name, arguments)"
  then show "\<exists>object arg. fs input = Some (JObject object) \<and> length object = 2 \<and>
        map_of object ''name'' = Some (JString name) \<and> name \<noteq> [] \<and>
        map_of object ''arguments'' = Some (JObject arg) \<and> ts (JObject arg) = Some arguments"
    by (auto simp: parse_tool_envelope_def Let_def bind_eq_Some_conv elim!: json_as_str.elims json_is_object.elims
        split: option.splits json.splits if_splits)
next
  assume "\<exists>object arg. fs input = Some (JObject object) \<and> length object = 2 \<and>
        map_of object ''name'' = Some (JString name) \<and> name \<noteq> [] \<and>
        map_of object ''arguments'' = Some (JObject arg) \<and> ts (JObject arg) = Some arguments"
  then show "parse_tool_envelope fs ts input = Inr (name, arguments)"
    by (auto simp: parse_tool_envelope_def)
qed

fun tool_push_all ::
    "json_from_str \<Rightarrow> json_to_string \<Rightarrow> tool_state \<Rightarrow> string list
     \<Rightarrow> ((tool_segment list, parser_error) result \<times> tool_state) option" where
  "tool_push_all fs ts s [] = Some (Inr [], s)"
| "tool_push_all fs ts s (delta # deltas) =
     Option.bind (tool_push fs ts s delta)
       (\<lambda>r. case r of
          (Inl e, s') \<Rightarrow> Some (Inl e, s')
        | (Inr out, s') \<Rightarrow>
            Option.bind (tool_push_all fs ts s' deltas)
              (\<lambda>r'. case r' of
                 (Inl e, s'') \<Rightarrow> Some (Inl e, s'')
               | (Inr out', s'') \<Rightarrow> Some (Inr (out @ out'), s'')))"

lemma tool_push_append:
  assumes "tool_separable (ts_definition s)" and "length (ts_pending s) + length x \<le> buffer_limit s"
  shows "tool_observe (tool_push fs ts s (x @ y)) =
     tool_then (tool_observe (tool_push fs ts s x)) (\<lambda>s1. tool_observe (tool_push fs ts s1 y))"
  using tool_observe_grow [of "tool_grow s x" fs ts y] assms by (simp add: tool_push_def)

lemma tool_push_all_Cons:
  "tool_observe (tool_push_all fs ts s (c # cs)) =
     tool_then (tool_observe (tool_push fs ts s c)) (\<lambda>s1. tool_observe (tool_push_all fs ts s1 cs))"
  by (cases "tool_push fs ts s c"; cases "tool_push_all fs ts (snd (the (tool_push fs ts s c))) cs")
    (auto simp: tool_observe_def tool_then_def tool_emit_def split: sum.splits prod.splits)

lemma tool_push_keeps:
  assumes "tool_separable (ts_definition s)" and "tool_observe (tool_push fs ts s x) = Some (Inr (out, s1))"
  shows "ts_definition s1 = ts_definition s"
    and "length (ts_pending s1) \<le> length (ts_pending s) + length x"
proof -
  show def1: "ts_definition s1 = ts_definition s"
    using tool_loop_parts [of "tool_grow s x" fs ts out s1] assms by (simp add: tool_push_def tool_separable_def)
  have "length (ts_pending s1) \<le> length (ts_pending (tool_grow s x))"
    using tool_loop_shrinks [of "tool_grow s x" fs ts out s1] assms by (simp add: tool_push_def tool_separable_def)
  then show "length (ts_pending s1) \<le> length (ts_pending s) + length x" by simp
qed

lemma tool_then_cong:
  assumes "\<And>out s. r = Some (Inr (out, s)) \<Longrightarrow> k s = k' s"
  shows "tool_then r k = tool_then r k'"
  using assms by (cases r) (auto simp: tool_then_def split: sum.splits)

lemma tool_push_all_concat:
  "tool_separable (ts_definition s) \<Longrightarrow> length (ts_pending s) + length (concat (c # cs)) \<le> buffer_limit s \<Longrightarrow>
   tool_observe (tool_push_all fs ts s (c # cs)) = tool_observe (tool_push fs ts s (concat (c # cs)))"
proof (induction cs arbitrary: s c)
  case Nil
  show ?case
    by (cases "tool_push fs ts s c")
      (auto simp: tool_push_all_Cons tool_observe_def tool_then_def tool_emit_def split: sum.splits prod.splits)
next
  case (Cons c' cs)
  have "tool_observe (tool_push_all fs ts s1 (c' # cs)) = tool_observe (tool_push fs ts s1 (concat (c' # cs)))"
    if "tool_observe (tool_push fs ts s c) = Some (Inr (out, s1))" for out s1
    using Cons.prems tool_push_keeps [OF Cons.prems(1) that] by (intro Cons.IH) auto
  then have "tool_observe (tool_push_all fs ts s (c # c' # cs)) =
      tool_then (tool_observe (tool_push fs ts s c)) (\<lambda>s1. tool_observe (tool_push fs ts s1 (concat (c' # cs))))"
    unfolding tool_push_all_Cons [of fs ts s c "c' # cs"] by (rule tool_then_cong)
  also have "\<dots> = tool_observe (tool_push fs ts s (c @ concat (c' # cs)))"
    using Cons.prems by (intro tool_push_append [symmetric]) simp_all
  finally show ?case by simp
qed

text \<open>
  C24: the tool parser is independent of chunking when neither delimiter occurs inside the other
  (\<open>tool_separable\<close>) and the stream fits the buffer limit. Under both conditions, the first of which
  validation does not impose, the same text in two sequences of deltas gives the same error or the
  same text and calls, and leaves the same state.
\<close>

theorem tool_chunking_irrelevant:
  assumes "tool_separable (ts_definition s)" and "cs \<noteq> []" and "ds \<noteq> []" and "concat cs = concat ds"
    and "length (ts_pending s) + length (concat cs) \<le> td_max_buffered_bytes (ts_definition s)"
  shows "tool_observe (tool_push_all fs ts s cs) = tool_observe (tool_push_all fs ts s ds)"
  using assms by (cases cs; cases ds) (metis tool_push_all_concat)+

section \<open>Concrete streams\<close>

text \<open>
  For the witnesses, \<open>serde_json\<close> is instantiated by its documented behaviour on two texts: the
  envelope of a call of \<open>f\<close> without arguments, and the empty object.
\<close>

definition sample_envelope :: string where
  \<open>sample_envelope = ''{"name":"f","arguments":{}}''\<close>

definition sample_from_str :: json_from_str where
  "sample_from_str txt =
     (if txt = sample_envelope then Some (JObject [(''arguments'', JObject []), (''name'', JString ''f'')])
      else if txt = ''{}'' then Some (JObject []) else None)"

definition sample_to_string :: json_to_string where
  "sample_to_string v = (if v = JObject [] then Some ''{}'' else None)"

definition sample_tool :: "usize \<Rightarrow> tool_definition" where
  "sample_tool limit = \<lparr>td_identity = sample_component, td_start_delimiter = ''<t>'',
     td_end_delimiter = ''</t>'', td_max_buffered_bytes = limit\<rparr>"

lemma sample_tool_new: "tool_definition_new sample_component ''<t>'' ''</t>'' 100 = Inr (sample_tool 100)"
  by code_simp

lemma sample_tool_separable: "tool_separable (sample_tool 100)"
  by code_simp

lemma sample_tool_limit: "td_max_buffered_bytes (sample_tool m) = m"
  by (simp add: sample_tool_def)

declare complete_call_from.simps [code] tool_loop.simps [code]

theorem tool_stream_sound_witness:
  "\<exists>parts. ''a<t>'' @ sample_envelope @ ''</t>b'' = concat (map (render_part (sample_tool 100)) parts) \<and>
     flat_tool [ToolText ''a'', ToolCall ''f'' ''{}'', ToolText ''b''] = concat (map shown_part parts) \<and>
     list_all (accepted_part sample_from_str sample_to_string (sample_tool 100)) parts"
proof (rule tool_stream_sound [OF sample_tool_new])
  show "tool_push sample_from_str sample_to_string (tool_state_of (sample_tool 100))
      (''a<t>'' @ sample_envelope @ ''</t>b'') =
      Some (Inr [ToolText ''a'', ToolCall ''f'' ''{}'', ToolText ''b''], tool_state_of (sample_tool 100))"
    by code_simp
  show "tool_finish (tool_state_of (sample_tool 100)) = Inr []" by code_simp
qed

theorem tool_chunking_irrelevant_witness:
  "tool_observe (tool_push_all sample_from_str sample_to_string (tool_state_of (sample_tool 100))
     [''a<'', ''t>'' @ sample_envelope @ ''</'', ''t>b'']) =
   tool_observe (tool_push_all sample_from_str sample_to_string (tool_state_of (sample_tool 100))
     [''a<t>'' @ sample_envelope @ ''</t>b''])"
  by (rule tool_chunking_irrelevant)
    (simp_all add: tool_state_of_def sample_envelope_def sample_tool_separable sample_tool_limit)

text \<open>
  The byte limit is measured on the buffer, which also holds the bytes of a delimiter that
  has only partly arrived. An envelope of exactly the limit is accepted when the delta carries
  the whole end delimiter, and rejected as too large when the delta ends inside it.
\<close>

lemma tool_limit_depends_on_chunks:
  "fst (the (tool_push_all sample_from_str sample_to_string (tool_state_of (sample_tool (length sample_envelope)))
       [''<t>'' @ sample_envelope @ ''</t>''])) = Inr [ToolCall ''f'' ''{}''] \<and>
   fst (the (tool_push_all sample_from_str sample_to_string (tool_state_of (sample_tool (length sample_envelope)))
       [''<t>'' @ sample_envelope @ ''</'', ''t>''])) = Inl (Processing (ToolCallTooLarge (length sample_envelope)))"
proof
  show "fst (the (tool_push_all sample_from_str sample_to_string (tool_state_of (sample_tool (length sample_envelope)))
       [''<t>'' @ sample_envelope @ ''</t>''])) = Inr [ToolCall ''f'' ''{}'']"
    by code_simp
  show "fst (the (tool_push_all sample_from_str sample_to_string (tool_state_of (sample_tool (length sample_envelope)))
       [''<t>'' @ sample_envelope @ ''</'', ''t>''])) = Inl (Processing (ToolCallTooLarge (length sample_envelope)))"
    by code_simp
qed

end
