(* ===== verification/Model_IO.thy ===== *)
theory Model_IO
  imports Tool_Parser Decimal
begin

text \<open>
  The model input/output layer, \<open>crates/model-io/src/lib.rs\<close>: model requests, the registry of model
  profiles, the normalisation of a request into a canonical request, the byte tokenizer and the
  simple template. The tokenizer, the template and the decoder are trait objects, here fields of
  \<open>basic_model_io\<close>; \<open>serde_json::from_str\<close> is the parameter \<open>fs\<close>. Error messages are represented by
  the branch that produces them.
\<close>

section \<open>Requests\<close>

record model_profile =
  mp_public_aliases :: "string list"
  mp_model :: model_execution_identity
  mp_semantic_identity :: semantic_identity

datatype conversation_role = RoleDeveloper | RoleSystem | RoleUser | RoleAssistant | RoleTool

fun role_as_str :: "conversation_role \<Rightarrow> string" where
  "role_as_str RoleDeveloper = ''developer''"
| "role_as_str RoleSystem = ''system''"
| "role_as_str RoleUser = ''user''"
| "role_as_str RoleAssistant = ''assistant''"
| "role_as_str RoleTool = ''tool''"

record conversation_message =
  cm_role :: conversation_role
  cm_content :: string
  cm_tool_call_id :: "string option"

datatype prompt_input = PromptText string | PromptTokenIds "u32 list"

datatype model_input = ConversationInput "conversation_message list" | PromptInput prompt_input

record tool_spec =
  tl_name :: string
  tl_description :: "string option"
  tl_parameters_schema :: string
  tl_strict :: bool

datatype tool_choice = ChoiceAuto | ChoiceNone | ChoiceRequired | ChoiceFunction string

datatype response_format =
    FormatText
  | FormatJsonObject
  | FormatJsonSchema string "string option" string bool

datatype reasoning_effort = EffortLow | EffortMedium | EffortHigh

fun effort_as_str :: "reasoning_effort \<Rightarrow> string" where
  "effort_as_str EffortLow = ''low''"
| "effort_as_str EffortMedium = ''medium''"
| "effort_as_str EffortHigh = ''high''"

record model_request =
  mq_model :: string
  mq_input :: model_input
  mq_sampling :: sampling_parameters
  mq_tools :: "tool_spec list"
  mq_tool_choice :: tool_choice
  mq_response_format :: response_format
  mq_reasoning_effort :: "reasoning_effort option"
  mq_metadata :: "(string, string) btree"

record output_contract =
  oc_tools :: "tool_spec list"
  oc_tool_choice :: tool_choice
  oc_response_format :: response_format
  oc_reasoning_effort :: "reasoning_effort option"

record normalized_model_request =
  nm_canonical :: canonical_request
  nm_output_contract :: output_contract

datatype model_finish_reason =
    MfStop
  | MfLength
  | MfToolCall
  | MfContentFilter
  | MfCancelled
  | MfError
  | MfNamespaced string string

datatype model_event =
    EvAccepted request_id
  | EvTextDelta request_id string
  | EvReasoningDelta request_id string
  | EvToolCallStarted request_id string string
  | EvToolCallArgumentsDelta request_id string string
  | EvToolCallCompleted request_id string string
  | EvUsage request_id usage bool
  | EvFinished request_id model_finish_reason usage

datatype input_reason =
    NoPublicAlias
  | AliasRegistered string
  | ParserIdentityMismatch string
  | EmptyConversation
  | InvalidJsonSchema
  | InvalidToolSchema string
  | ToolSchemaNotObject string
  | EmptyToolName
  | DuplicateToolName string
  | RequiredWithoutTool
  | UnknownToolChoice string
  | TemplateNeedsConversation
  | EmptyMessage conversation_role
  | ParserConfig config_reason
  | OtherInput string

datatype unsupported_reason = PromptTools | PromptStructured | PromptReasoning | OtherUnsupported string

datatype output_reason =
    NativeReasoning
  | NativeToolCall
  | ToolCallsWithoutCall
  | UnrequestedToolCall string
  | DuplicateCallId string
  | ArgumentsBeforeStart string
  | CompletedBeforeStart string
  | InvalidArguments string
  | ArgumentsNotObject string
  | CallAfterFinalization
  | StructuredNotJson
  | StructuredNotObject
  | IncompleteToolCalls
  | MissingRequiredCall
  | NotByteToken u32
  | NotUtf8
  | ParserProcessing processing_reason
  | OtherOutput string

datatype model_io_error =
    ModelNotFound string
  | MioInvalidInput input_reason
  | MioUnsupported unsupported_reason
  | MioProcessing output_reason

fun model_io_error_of_parser :: "parser_error \<Rightarrow> model_io_error" where
  "model_io_error_of_parser (InvalidConfig r) = MioInvalidInput (ParserConfig r)"
| "model_io_error_of_parser (Processing r) = MioProcessing (ParserProcessing r)"

section \<open>The registry of models\<close>

text \<open>A registered model is a trait object of type \<open>'m\<close>; the registry asks it for its profile only.\<close>

record 'm model_registry =
  mr_aliases :: "(string, 'm) btree"
  mr_profiles :: "(string, model_profile) btree"

definition model_registry_new :: "'m model_registry" where
  "model_registry_new = \<lparr>mr_aliases = bt_empty, mr_profiles = bt_empty\<rparr>"

definition model_register ::
    "('m \<Rightarrow> model_profile) \<Rightarrow> 'm \<Rightarrow> 'm model_registry \<Rightarrow> (unit, model_io_error) result \<times> 'm model_registry" where
  "model_register profile_of model reg =
     (let profile = profile_of model in
      case mp_public_aliases profile of
        [] \<Rightarrow> (Inl (MioInvalidInput NoPublicAlias), reg)
      | primary # _ \<Rightarrow>
          (case filter (bt_contains (mr_aliases reg)) (mp_public_aliases profile) of
             alias # _ \<Rightarrow> (Inl (MioInvalidInput (AliasRegistered alias)), reg)
           | [] \<Rightarrow>
               (Inr (),
                \<lparr>mr_aliases = foldl (\<lambda>m alias. bt_insert alias model m) (mr_aliases reg) (mp_public_aliases profile),
                 mr_profiles = bt_insert primary profile (mr_profiles reg)\<rparr>)))"

definition model_resolve :: "string \<Rightarrow> 'm model_registry \<Rightarrow> ('m, model_io_error) result" where
  "model_resolve alias reg =
     (case bt_get (mr_aliases reg) alias of None \<Rightarrow> Inl (ModelNotFound alias) | Some m \<Rightarrow> Inr m)"

definition model_profiles :: "'m model_registry \<Rightarrow> model_profile list" where
  "model_profiles reg = bt_values (mr_profiles reg)"

section \<open>Normalisation\<close>

record basic_model_io =
  bm_profile :: model_profile
  bm_tokenizer_identity :: semantic_component_identity
  bm_encode :: "string \<Rightarrow> (token_sequence, model_io_error) result"
  bm_render :: "model_request \<Rightarrow> (string, model_io_error) result"
  bm_decode :: "u32 list \<Rightarrow> (string, model_io_error) result"
  bm_reasoning_parser :: "reasoning_definition option"
  bm_tool_parser :: "tool_definition option"

definition validate_parser_identity ::
    "string \<Rightarrow> semantic_component_identity option \<Rightarrow> semantic_component_identity option \<Rightarrow> (unit, model_io_error) result" where
  "validate_parser_identity kind profile parser =
     (if profile \<noteq> parser then Inl (MioInvalidInput (ParserIdentityMismatch kind)) else Inr ())"

definition with_output_parsers ::
    "reasoning_definition option \<Rightarrow> tool_definition option \<Rightarrow> basic_model_io \<Rightarrow> (basic_model_io, model_io_error) result" where
  "with_output_parsers reasoning tool m =
     (let output = si_output (mp_semantic_identity (bm_profile m)) in
      and_then (validate_parser_identity ''reasoning'' (os_reasoning_parser output) (map_option rd_identity reasoning)) (\<lambda>_.
      and_then (validate_parser_identity ''tool'' (os_tool_parser output) (map_option td_identity tool)) (\<lambda>_.
      Inr (m\<lparr>bm_reasoning_parser := reasoning, bm_tool_parser := tool\<rparr>))))"

text \<open>
  \<open>str::trim().is_empty()\<close>: the string consists of white space. \<open>whitespace_bytes\<close> is the length of the
  UTF-8 encoding of a leading white space character, zero if there is none.
\<close>

fun whitespace_bytes :: "nat list \<Rightarrow> nat" where
  "whitespace_bytes (a # rest) =
     (if 9 \<le> a \<and> a \<le> 13 \<or> a = 32 then 1
      else case rest of
        [] \<Rightarrow> 0
      | b # rest' \<Rightarrow>
          if a = 0xC2 \<and> (b = 0x85 \<or> b = 0xA0) then 2
          else case rest' of
            [] \<Rightarrow> 0
          | c # _ \<Rightarrow>
              if a = 0xE1 \<and> b = 0x9A \<and> c = 0x80 \<or>
                 a = 0xE2 \<and> b = 0x80 \<and> (0x80 \<le> c \<and> c \<le> 0x8A \<or> c = 0xA8 \<or> c = 0xA9 \<or> c = 0xAF) \<or>
                 a = 0xE2 \<and> b = 0x81 \<and> c = 0x9F \<or> a = 0xE3 \<and> b = 0x80 \<and> c = 0x80
              then 3 else 0)"
| "whitespace_bytes [] = 0"

function is_blank :: "string \<Rightarrow> bool" where
  "is_blank s =
     (if s = [] then True
      else if whitespace_bytes (map of_char (take 3 s)) = 0 then False
      else is_blank (drop (whitespace_bytes (map of_char (take 3 s))) s))"
  by auto
termination
  by (relation "measure length") auto

declare is_blank.simps [simp del]

fun validate_tools :: "json_from_str \<Rightarrow> tool_spec list \<Rightarrow> string set \<Rightarrow> (string set, model_io_error) result" where
  "validate_tools fs [] names = Inr names"
| "validate_tools fs (tool # tools) names =
     (if is_blank (tl_name tool) then Inl (MioInvalidInput EmptyToolName)
      else case fs (tl_parameters_schema tool) of
        None \<Rightarrow> Inl (MioInvalidInput (InvalidToolSchema (tl_name tool)))
      | Some schema \<Rightarrow>
          if \<not> json_is_object schema then Inl (MioInvalidInput (ToolSchemaNotObject (tl_name tool)))
          else if tl_name tool \<in> names then Inl (MioInvalidInput (DuplicateToolName (tl_name tool)))
          else validate_tools fs tools (insert (tl_name tool) names))"

definition validate_tool_contract :: "json_from_str \<Rightarrow> model_request \<Rightarrow> (unit, model_io_error) result" where
  "validate_tool_contract fs request =
     and_then (validate_tools fs (mq_tools request) {}) (\<lambda>names.
     case mq_tool_choice request of
       ChoiceRequired \<Rightarrow> if mq_tools request = [] then Inl (MioInvalidInput RequiredWithoutTool) else Inr ()
     | ChoiceFunction name \<Rightarrow> if name \<notin> names then Inl (MioInvalidInput (UnknownToolChoice name)) else Inr ()
     | _ \<Rightarrow> Inr ())"

definition validate_prompt_contract :: "model_request \<Rightarrow> (unit, model_io_error) result" where
  "validate_prompt_contract request =
     (if mq_tools request \<noteq> [] \<or> mq_tool_choice request \<notin> {ChoiceAuto, ChoiceNone}
      then Inl (MioUnsupported PromptTools)
      else if mq_response_format request \<noteq> FormatText then Inl (MioUnsupported PromptStructured)
      else if mq_reasoning_effort request \<noteq> None then Inl (MioUnsupported PromptReasoning)
      else Inr ())"

definition raw_prompt_semantic_identity :: "semantic_identity \<Rightarrow> semantic_identity" where
  "raw_prompt_semantic_identity identity =
     identity\<lparr>si_input := (si_input identity)\<lparr>is_template :=
         \<lparr>sc_kind = ''locus-raw-prompt'', sc_revision = ''v1'', sc_fingerprint = ''locus-raw-prompt-v1''\<rparr>\<rparr>,
       si_umbrella_fingerprint := None\<rparr>"

abbreviation bool_text :: "bool \<Rightarrow> string" where
  "bool_text b \<equiv> (if b then ''true'' else ''false'')"

fun choice_text :: "tool_choice \<Rightarrow> string" where
  "choice_text ChoiceAuto = ''auto''"
| "choice_text ChoiceNone = ''none''"
| "choice_text ChoiceRequired = ''required''"
| "choice_text (ChoiceFunction name) = ''function:'' @ name"

definition insert_description :: "string \<Rightarrow> string option \<Rightarrow> (string, string) btree \<Rightarrow> (string, string) btree" where
  "insert_description key description m = (case description of None \<Rightarrow> m | Some d \<Rightarrow> bt_insert key d m)"

definition format_fields ::
    "json_from_str \<Rightarrow> response_format \<Rightarrow> (string, string) btree \<Rightarrow> ((string, string) btree, model_io_error) result" where
  "format_fields fs format m =
     (case format of
        FormatText \<Rightarrow> Inr (bt_insert ''response_format'' ''text'' m)
      | FormatJsonObject \<Rightarrow> Inr (bt_insert ''response_format'' ''json_object'' m)
      | FormatJsonSchema name description schema strict \<Rightarrow>
          if fs schema = None then Inl (MioInvalidInput InvalidJsonSchema)
          else Inr (insert_description ''json_schema_description'' description
            (bt_insert ''strict'' (bool_text strict) (bt_insert ''json_schema'' schema
              (bt_insert ''json_schema_name'' name (bt_insert ''response_format'' ''json_schema'' m))))))"

definition tool_annotation :: "json_from_str \<Rightarrow> tool_spec \<Rightarrow> (typed_metadata, model_io_error) result" where
  "tool_annotation fs tool =
     (if fs (tl_parameters_schema tool) = None then Inl (MioInvalidInput (InvalidToolSchema (tl_name tool)))
      else Inr \<lparr>tm_type_url = ''locus.tool.v1'',
        tm_fields = insert_description ''description'' (tl_description tool)
          (bt_insert ''strict'' (bool_text (tl_strict tool))
            (bt_insert ''parameters'' (tl_parameters_schema tool) (bt_insert ''name'' (tl_name tool) bt_empty)))\<rparr>)"

fun tool_annotations :: "json_from_str \<Rightarrow> tool_spec list \<Rightarrow> (typed_metadata list, model_io_error) result" where
  "tool_annotations fs [] = Inr []"
| "tool_annotations fs (tool # tools) =
     and_then (tool_annotation fs tool) (\<lambda>a. and_then (tool_annotations fs tools) (\<lambda>as. Inr (a # as)))"

definition contract_annotations :: "json_from_str \<Rightarrow> model_request \<Rightarrow> (typed_metadata list, model_io_error) result" where
  "contract_annotations fs request =
     and_then (format_fields fs (mq_response_format request)
         (bt_insert ''tool_choice'' (choice_text (mq_tool_choice request)) bt_empty)) (\<lambda>fields.
     (let fields = (case mq_reasoning_effort request of
          None \<Rightarrow> fields | Some effort \<Rightarrow> bt_insert ''reasoning_effort'' (effort_as_str effort) fields) in
      and_then (tool_annotations fs (mq_tools request)) (\<lambda>tools.
        Inr (\<lparr>tm_type_url = ''locus.generation-contract.v1'', tm_fields = fields\<rparr> # tools))))"

definition normalize_input ::
    "basic_model_io \<Rightarrow> model_request \<Rightarrow> (token_sequence \<times> semantic_identity, model_io_error) result" where
  "normalize_input m request =
     (case mq_input request of
        ConversationInput messages \<Rightarrow>
          if messages = [] then Inl (MioInvalidInput EmptyConversation)
          else and_then (bm_render m request) (\<lambda>rendered.
               and_then (bm_encode m rendered) (\<lambda>tokens. Inr (tokens, mp_semantic_identity (bm_profile m))))
      | PromptInput prompt \<Rightarrow>
          and_then (validate_prompt_contract request) (\<lambda>_.
          and_then (case prompt of
              PromptText txt \<Rightarrow> bm_encode m txt
            | PromptTokenIds ids \<Rightarrow>
                Inr \<lparr>ts_token_ids = ids, ts_tokenizer_fingerprint = sc_fingerprint (bm_tokenizer_identity m)\<rparr>)
            (\<lambda>tokens. Inr (tokens, raw_prompt_semantic_identity (mp_semantic_identity (bm_profile m))))))"

definition normalize ::
    "json_from_str \<Rightarrow> basic_model_io \<Rightarrow> model_request \<Rightarrow> request_id \<Rightarrow> (normalized_model_request, model_io_error) result" where
  "normalize fs m request rid =
     and_then (validate_tool_contract fs request) (\<lambda>_.
     and_then (normalize_input m request) (\<lambda>(tokens, identity).
     and_then (contract_annotations fs request) (\<lambda>annotations.
     (let input = \<lparr>ib_items = [\<lparr>ii_id = ''prompt'', ii_value = TokenSequence tokens\<rparr>], ib_relations = [],
                   ib_annotations = annotations\<rparr>;
          requirements = (requirements_for_input input)
            \<lparr>cr_requires_reasoning_deltas := mq_reasoning_effort request \<noteq> None \<and> bm_reasoning_parser m = None,
             cr_requires_tool_calls := mq_tools request \<noteq> [] \<and> bm_tool_parser m = None,
             cr_requires_structured_output := mq_response_format request \<noteq> FormatText\<rparr>
      in Inr \<lparr>nm_canonical = \<lparr>rq_id = rid, rq_model = mp_model (bm_profile m), rq_semantic_identity = identity,
                rq_input = input, rq_sampling = mq_sampling request, rq_requirements = requirements\<rparr>,
              nm_output_contract = \<lparr>oc_tools = mq_tools request, oc_tool_choice = mq_tool_choice request,
                oc_response_format = mq_response_format request, oc_reasoning_effort = mq_reasoning_effort request\<rparr>\<rparr>))))"

section \<open>The byte tokenizer and the simple template\<close>

definition byte_encode :: "semantic_component_identity \<Rightarrow> string \<Rightarrow> (token_sequence, model_io_error) result" where
  "byte_encode identity input =
     Inr \<lparr>ts_token_ids = map of_char input, ts_tokenizer_fingerprint = sc_fingerprint identity\<rparr>"

fun byte_tokens :: "u32 list \<Rightarrow> (string, model_io_error) result" where
  "byte_tokens [] = Inr []"
| "byte_tokens (t # ts) =
     (if 256 \<le> t then Inl (MioProcessing (NotByteToken t))
      else and_then (byte_tokens ts) (\<lambda>bytes. Inr (char_of t # bytes)))"

text \<open>\<open>String::from_utf8\<close>: well-formed UTF-8 by the table of byte sequences.\<close>

abbreviation continuation :: "nat \<Rightarrow> bool" where
  "continuation b \<equiv> 0x80 \<le> b \<and> b \<le> 0xBF"

fun utf8_valid :: "nat list \<Rightarrow> bool" where
  "utf8_valid [] = True"
| "utf8_valid (a # rest) =
     (if a < 0x80 then utf8_valid rest
      else if 0xC2 \<le> a \<and> a \<le> 0xDF then
        (case rest of b # rest \<Rightarrow> continuation b \<and> utf8_valid rest | _ \<Rightarrow> False)
      else if 0xE0 \<le> a \<and> a \<le> 0xEF then
        (case rest of b # c # rest \<Rightarrow>
           (if a = 0xE0 then 0xA0 \<le> b \<and> b \<le> 0xBF
            else if a = 0xED then 0x80 \<le> b \<and> b \<le> 0x9F else continuation b) \<and>
           continuation c \<and> utf8_valid rest
         | _ \<Rightarrow> False)
      else if 0xF0 \<le> a \<and> a \<le> 0xF4 then
        (case rest of b # c # d # rest \<Rightarrow>
           (if a = 0xF0 then 0x90 \<le> b \<and> b \<le> 0xBF
            else if a = 0xF4 then 0x80 \<le> b \<and> b \<le> 0x8F else continuation b) \<and>
           continuation c \<and> continuation d \<and> utf8_valid rest
         | _ \<Rightarrow> False)
      else False)"

definition byte_decode :: "u32 list \<Rightarrow> (string, model_io_error) result" where
  "byte_decode ids =
     and_then (byte_tokens ids) (\<lambda>s. if utf8_valid (map of_char s) then Inr s else Inl (MioProcessing NotUtf8))"

fun render_messages :: "conversation_message list \<Rightarrow> (string, model_io_error) result" where
  "render_messages [] = Inr ''<assistant>\<newline>''"
| "render_messages (m # ms) =
     (if cm_content m = [] then Inl (MioInvalidInput (EmptyMessage (cm_role m)))
      else and_then (render_messages ms)
        (\<lambda>rest. Inr (''<'' @ role_as_str (cm_role m) @ ''>\<newline>'' @ cm_content m @ ''\<newline>'' @ rest)))"

definition simple_render :: "model_request \<Rightarrow> (string, model_io_error) result" where
  "simple_render request =
     (case mq_input request of
        ConversationInput messages \<Rightarrow> render_messages messages
      | PromptInput _ \<Rightarrow> Inl (MioInvalidInput TemplateNeedsConversation))"

section \<open>Properties\<close>

subsection \<open>The registry\<close>

lemma fold_insert_get:
  "bt_get (foldl (\<lambda>m alias. bt_insert alias v m) m0 as) a = (if a \<in> set as then Some v else bt_get m0 a)"
  by (induction as arbitrary: m0) auto

lemma model_register_cases:
  assumes "model_register profile_of m reg = (r, reg')"
  obtains (refused) e where "r = Inl e" "reg' = reg"
  | (registered) primary rest where "r = Inr ()" "mp_public_aliases (profile_of m) = primary # rest"
      "\<And>a. a \<in> set (primary # rest) \<Longrightarrow> bt_get (mr_aliases reg) a = None"
      "\<And>a. bt_get (mr_aliases reg') a = (if a \<in> set (primary # rest) then Some m else bt_get (mr_aliases reg) a)"
      "mr_profiles reg' = bt_insert primary (profile_of m) (mr_profiles reg)"
proof (cases "mp_public_aliases (profile_of m)")
  case Nil
  with assms refused show thesis by (auto simp: model_register_def)
next
  case (Cons primary rest)
  show thesis
  proof (cases "filter (bt_contains (mr_aliases reg)) (primary # rest)")
    case Nil
    then have fresh: "bt_get (mr_aliases reg) a = None" if "a \<in> set (primary # rest)" for a
      using that by (auto simp: filter_empty_conv bt_contains_def split: if_splits)
    show thesis
      by (rule registered [OF _ Cons fresh])
        (use assms Cons Nil in \<open>auto simp: model_register_def fold_insert_get Let_def simp del: filter.simps\<close>)
  next
    case (Cons a as)
    with assms \<open>mp_public_aliases (profile_of m) = primary # rest\<close> refused show thesis
      by (auto simp: model_register_def Let_def simp del: filter.simps)
  qed
qed

text \<open>
  An alias always means the model it was registered for. Registration is all or nothing: it
  succeeds exactly when the model has an alias and none of its aliases is taken, then all of them
  resolve to it and every other alias resolves as before; otherwise nothing changes.
\<close>

lemma model_register_resolves:
  "case model_register profile_of m reg of
     (Inl _, reg') \<Rightarrow> reg' = reg \<and>
       (mp_public_aliases (profile_of m) = [] \<or> (\<exists>a \<in> set (mp_public_aliases (profile_of m)). is_ok (model_resolve a reg)))
   | (Inr _, reg') \<Rightarrow> mp_public_aliases (profile_of m) \<noteq> [] \<and>
       (\<forall>a. model_resolve a reg' =
          (if a \<in> set (mp_public_aliases (profile_of m)) then Inr m else model_resolve a reg)) \<and>
       list_all (\<lambda>a. \<not> is_ok (model_resolve a reg)) (mp_public_aliases (profile_of m))"
proof -
  obtain r reg' where reg: "model_register profile_of m reg = (r, reg')" by fastforce
  then show ?thesis
  proof (cases rule: model_register_cases)
    case (registered primary rest)
    then show ?thesis by (simp add: reg model_resolve_def list_all_iff split: option.splits)
  next
    case (refused e)
    with reg show ?thesis
      by (auto simp: model_register_def Let_def model_resolve_def filter_eq_Cons_iff bt_contains_def
          split: list.splits option.splits)
  qed
qed

subsection \<open>Bytes\<close>

lemma byte_tokens_of_chars: "byte_tokens (map of_char s) = Inr s"
  by (induction s) (auto simp: not_le)

lemma byte_roundtrip:
  assumes "utf8_valid (map of_char s)"
  shows "and_then (byte_encode identity s) (\<lambda>tokens. byte_decode (ts_token_ids tokens)) = Inr s"
  using assms by (simp add: byte_encode_def byte_decode_def byte_tokens_of_chars)

subsection \<open>Normalised requests\<close>

definition tool_ok :: "json_from_str \<Rightarrow> tool_spec \<Rightarrow> bool" where
  "tool_ok fs tool \<longleftrightarrow> \<not> is_blank (tl_name tool) \<and> (\<exists>fields. fs (tl_parameters_schema tool) = Some (JObject fields))"

lemma json_is_object_iff: "json_is_object j \<longleftrightarrow> (\<exists>fields. j = JObject fields)"
  by (cases j) auto

lemma validate_tools_Inr_iff:
  "validate_tools fs tools names = Inr names' \<longleftrightarrow>
     list_all (tool_ok fs) tools \<and> distinct (map tl_name tools) \<and> names \<inter> tl_name ` set tools = {} \<and>
     names' = names \<union> tl_name ` set tools"
  by (induction tools arbitrary: names) (auto simp: tool_ok_def json_is_object_iff split: option.splits)

definition tool_contract_ok :: "json_from_str \<Rightarrow> tool_spec list \<Rightarrow> tool_choice \<Rightarrow> bool" where
  "tool_contract_ok fs tools choice \<longleftrightarrow>
     list_all (tool_ok fs) tools \<and> distinct (map tl_name tools) \<and>
     (case choice of
        ChoiceRequired \<Rightarrow> tools \<noteq> []
      | ChoiceFunction name \<Rightarrow> name \<in> tl_name ` set tools
      | _ \<Rightarrow> True)"

lemma validate_tool_contract_iff:
  "validate_tool_contract fs request = Inr () \<longleftrightarrow> tool_contract_ok fs (mq_tools request) (mq_tool_choice request)"
  by (auto simp: validate_tool_contract_def and_then_Inr_iff validate_tools_Inr_iff tool_contract_ok_def
      split: tool_choice.splits)

text \<open>
  What a normalised request promises. It carries one token sequence for the profile's model
  under the caller's request id, asks the engine for reasoning, tool calls or structured output
  only where no parser of the profile provides them, and hands on a contract whose tools have
  distinct, non-blank names and object schemas and whose choice names one of them; a raw prompt
  carries none of these and its own template identity.
\<close>

lemma normalize_sound:
  assumes "normalize fs m request rid = Inr n"
  shows "rq_id (nm_canonical n) = rid \<and> rq_model (nm_canonical n) = mp_model (bm_profile m) \<and>
     bundle_kinds (rq_input (nm_canonical n)) = [KTokenSequence] \<and>
     tool_contract_ok fs (oc_tools (nm_output_contract n)) (oc_tool_choice (nm_output_contract n)) \<and>
     (cr_requires_tool_calls (rq_requirements (nm_canonical n)) \<longleftrightarrow>
        oc_tools (nm_output_contract n) \<noteq> [] \<and> bm_tool_parser m = None) \<and>
     (cr_requires_reasoning_deltas (rq_requirements (nm_canonical n)) \<longleftrightarrow>
        oc_reasoning_effort (nm_output_contract n) \<noteq> None \<and> bm_reasoning_parser m = None) \<and>
     (case mq_input request of
        ConversationInput messages \<Rightarrow> messages \<noteq> [] \<and>
          rq_semantic_identity (nm_canonical n) = mp_semantic_identity (bm_profile m)
      | PromptInput _ \<Rightarrow> oc_tools (nm_output_contract n) = [] \<and>
          oc_response_format (nm_output_contract n) = FormatText \<and>
          sc_kind (is_template (si_input (rq_semantic_identity (nm_canonical n)))) = ''locus-raw-prompt'')"
  using assms
  by (auto simp: normalize_def normalize_input_def and_then_Inr_iff validate_tool_contract_iff Let_def bundle_kinds_def
      validate_prompt_contract_def raw_prompt_semantic_identity_def requirements_for_input_def
      split: model_input.splits prod.splits if_splits)

definition sample_model_io :: basic_model_io where
  "sample_model_io =
     \<lparr>bm_profile = \<lparr>mp_public_aliases = [''m''], mp_model = sample_model, mp_semantic_identity = sample_semantics\<rparr>,
      bm_tokenizer_identity = sample_component, bm_encode = byte_encode sample_component, bm_render = simple_render,
      bm_decode = byte_decode, bm_reasoning_parser = None, bm_tool_parser = None\<rparr>"

definition sample_tool_spec :: tool_spec where
  "sample_tool_spec = \<lparr>tl_name = ''f'', tl_description = None, tl_parameters_schema = ''{}'', tl_strict = True\<rparr>"

definition sample_model_request :: model_request where
  "sample_model_request =
     \<lparr>mq_model = ''m'',
      mq_input = ConversationInput [\<lparr>cm_role = RoleUser, cm_content = ''hi'', cm_tool_call_id = None\<rparr>],
      mq_sampling = rq_sampling sample_request, mq_tools = [sample_tool_spec], mq_tool_choice = ChoiceRequired,
      mq_response_format = FormatText, mq_reasoning_effort = None, mq_metadata = bt_empty\<rparr>"

abbreviation sample_from_str :: json_from_str where
  "sample_from_str \<equiv> (\<lambda>s. if s = ''{}'' then Some (JObject []) else None)"

lemma sample_normalized: "\<exists>n. normalize sample_from_str sample_model_io sample_model_request ''r1'' = Inr n"
proof -
  have "\<not> is_blank ''f''" by (simp add: is_blank.simps numeral_3_eq_3)
  then show ?thesis
    by (simp add: normalize_def validate_tool_contract_def normalize_input_def sample_model_request_def sample_model_io_def
        sample_tool_spec_def simple_render_def byte_encode_def contract_annotations_def format_fields_def
        tool_annotation_def Let_def)
qed

end
