(* ===== verification/Output_Pipeline.thy ===== *)
theory Output_Pipeline
  imports Model_IO
begin

text \<open>
  The output pipeline of \<open>crates/model-io/src/lib.rs\<close>: \<open>BasicOutputPipeline\<close> turns engine events into
  model events. Text runs through the reasoning parser and then through the tool parser; tool calls
  are checked against the contract of the request and their arguments are collected; at the end the
  whole output is validated. The methods change the pipeline in place, also on the way to an error,
  so each returns its result with the pipeline; the outer \<open>option\<close> is the one of the tool parser, whose
  loop is not structurally bounded.
\<close>

section \<open>The pipeline\<close>

record output_pipeline =
  opl_decode :: "u32 list \<Rightarrow> (string, model_io_error) result"
  opl_contract :: output_contract
  opl_text :: string
  opl_tool_arguments :: "(string, string) btree"
  opl_saw_tool_call :: bool
  opl_reasoning_parser :: "reasoning_state option"
  opl_tool_parser :: "tool_state option"
  opl_next_tool_index :: usize

definition output_pipeline_of :: "basic_model_io \<Rightarrow> output_contract \<Rightarrow> output_pipeline" where
  "output_pipeline_of m contract =
     \<lparr>opl_decode = bm_decode m, opl_contract = contract, opl_text = [], opl_tool_arguments = bt_empty,
      opl_saw_tool_call = False, opl_reasoning_parser = map_option reasoning_state_of (bm_reasoning_parser m),
      opl_tool_parser = map_option tool_state_of (bm_tool_parser m), opl_next_tool_index = 0\<rparr>"

type_synonym 'a pipe = "((('a, model_io_error) result) \<times> output_pipeline) option"

abbreviation pipe_ok :: "'a \<Rightarrow> output_pipeline \<Rightarrow> 'a pipe" where
  "pipe_ok x p \<equiv> Some (Inr x, p)"

abbreviation pipe_err :: "output_reason \<Rightarrow> output_pipeline \<Rightarrow> 'a pipe" where
  "pipe_err e p \<equiv> Some (Inl (MioProcessing e), p)"

definition pipe_bind :: "'a pipe \<Rightarrow> ('a \<Rightarrow> output_pipeline \<Rightarrow> 'b pipe) \<Rightarrow> 'b pipe" where
  "pipe_bind m f = (case m of None \<Rightarrow> None | Some (Inl e, p) \<Rightarrow> Some (Inl e, p) | Some (Inr x, p) \<Rightarrow> f x p)"

subsection \<open>Tool calls\<close>

definition tool_requested :: "output_contract \<Rightarrow> string \<Rightarrow> bool" where
  "tool_requested contract name = list_ex (\<lambda>tool. tl_name tool = name) (oc_tools contract)"

definition tool_selected :: "output_contract \<Rightarrow> string \<Rightarrow> bool" where
  "tool_selected contract name =
     (case oc_tool_choice contract of
        ChoiceNone \<Rightarrow> False
      | ChoiceFunction selected \<Rightarrow> selected = name
      | _ \<Rightarrow> tool_requested contract name)"

definition start_tool_call :: "request_id \<Rightarrow> string \<Rightarrow> string \<Rightarrow> output_pipeline \<Rightarrow> model_event pipe" where
  "start_tool_call rid call_id name p =
     (if \<not> tool_requested (opl_contract p) name \<or> \<not> tool_selected (opl_contract p) name
      then pipe_err (UnrequestedToolCall name) p
      else if bt_contains (opl_tool_arguments p) call_id then pipe_err (DuplicateCallId call_id) p
      else pipe_ok (EvToolCallStarted rid call_id name)
        (p\<lparr>opl_saw_tool_call := True, opl_tool_arguments := bt_insert call_id [] (opl_tool_arguments p)\<rparr>))"

definition append_tool_arguments :: "request_id \<Rightarrow> string \<Rightarrow> string \<Rightarrow> output_pipeline \<Rightarrow> model_event pipe" where
  "append_tool_arguments rid call_id delta p =
     (case bt_get (opl_tool_arguments p) call_id of
        None \<Rightarrow> pipe_err (ArgumentsBeforeStart call_id) p
      | Some arguments \<Rightarrow> pipe_ok (EvToolCallArgumentsDelta rid call_id delta)
          (p\<lparr>opl_tool_arguments := bt_insert call_id (arguments @ delta) (opl_tool_arguments p)\<rparr>))"

definition complete_tool_call :: "json_from_str \<Rightarrow> request_id \<Rightarrow> string \<Rightarrow> output_pipeline \<Rightarrow> model_event pipe" where
  "complete_tool_call fs rid call_id p =
     (case bt_get (opl_tool_arguments p) call_id of
        None \<Rightarrow> pipe_err (CompletedBeforeStart call_id) p
      | Some arguments \<Rightarrow>
          (let p = p\<lparr>opl_tool_arguments := bt_remove call_id (opl_tool_arguments p)\<rparr> in
           case fs arguments of
             None \<Rightarrow> pipe_err (InvalidArguments call_id) p
           | Some v \<Rightarrow>
               if \<not> json_is_object v then pipe_err (ArgumentsNotObject call_id) p
               else pipe_ok (EvToolCallCompleted rid call_id arguments) p))"

subsection \<open>Text\<close>

definition next_call_id :: "request_id \<Rightarrow> output_pipeline \<Rightarrow> string" where
  "next_call_id rid p = ''call_'' @ rid @ ''_'' @ nat_to_dec (opl_next_tool_index p)"

definition process_parsed_call ::
    "json_from_str \<Rightarrow> request_id \<Rightarrow> string \<Rightarrow> string \<Rightarrow> output_pipeline \<Rightarrow> model_event list pipe" where
  "process_parsed_call fs rid name arguments p =
     (let call_id = next_call_id rid p;
          p = p\<lparr>opl_next_tool_index := wrap_add64 (opl_next_tool_index p) 1\<rparr> in
      pipe_bind (start_tool_call rid call_id name p) (\<lambda>started p.
      pipe_bind (append_tool_arguments rid call_id arguments p) (\<lambda>appended p.
      pipe_bind (complete_tool_call fs rid call_id p) (\<lambda>completed p.
      pipe_ok [started, appended, completed] p))))"

definition emit_text :: "request_id \<Rightarrow> string \<Rightarrow> output_pipeline \<Rightarrow> model_event list pipe" where
  "emit_text rid txt p = pipe_ok [EvTextDelta rid txt] (p\<lparr>opl_text := opl_text p @ txt\<rparr>)"

fun process_tool_segments ::
    "json_from_str \<Rightarrow> request_id \<Rightarrow> tool_segment list \<Rightarrow> output_pipeline \<Rightarrow> model_event list pipe" where
  "process_tool_segments fs rid [] p = pipe_ok [] p"
| "process_tool_segments fs rid (segment # segments) p =
     pipe_bind (case segment of
         ToolText txt \<Rightarrow> emit_text rid txt p
       | ToolCall name arguments \<Rightarrow> process_parsed_call fs rid name arguments p) (\<lambda>events p.
     pipe_bind (process_tool_segments fs rid segments p) (\<lambda>more p. pipe_ok (events @ more) p))"

definition process_visible_text ::
    "json_from_str \<Rightarrow> json_to_string \<Rightarrow> request_id \<Rightarrow> string \<Rightarrow> output_pipeline \<Rightarrow> model_event list pipe" where
  "process_visible_text fs ts rid txt p =
     (case opl_tool_parser p of
        None \<Rightarrow> process_tool_segments fs rid [ToolText txt] p
      | Some parser \<Rightarrow>
          (case tool_push fs ts parser txt of
             None \<Rightarrow> None
           | Some (Inl e, parser) \<Rightarrow> Some (Inl (model_io_error_of_parser e), p\<lparr>opl_tool_parser := Some parser\<rparr>)
           | Some (Inr segments, parser) \<Rightarrow> process_tool_segments fs rid segments (p\<lparr>opl_tool_parser := Some parser\<rparr>)))"

fun process_reasoning_segments ::
    "json_from_str \<Rightarrow> json_to_string \<Rightarrow> request_id \<Rightarrow> reasoning_segment list \<Rightarrow> output_pipeline \<Rightarrow> model_event list pipe" where
  "process_reasoning_segments fs ts rid [] p = pipe_ok [] p"
| "process_reasoning_segments fs ts rid (segment # segments) p =
     pipe_bind (case segment of
         SegReasoning txt \<Rightarrow> pipe_ok [EvReasoningDelta rid txt] p
       | SegText txt \<Rightarrow> process_visible_text fs ts rid txt p) (\<lambda>events p.
     pipe_bind (process_reasoning_segments fs ts rid segments p) (\<lambda>more p. pipe_ok (events @ more) p))"

definition process_text_delta ::
    "json_from_str \<Rightarrow> json_to_string \<Rightarrow> request_id \<Rightarrow> string \<Rightarrow> output_pipeline \<Rightarrow> model_event list pipe" where
  "process_text_delta fs ts rid txt p =
     (case opl_reasoning_parser p of
        None \<Rightarrow> process_reasoning_segments fs ts rid [SegText txt] p
      | Some parser \<Rightarrow>
          (case reasoning_push parser txt of
             (Inl e, parser) \<Rightarrow> Some (Inl (model_io_error_of_parser e), p\<lparr>opl_reasoning_parser := Some parser\<rparr>)
           | (Inr segments, parser) \<Rightarrow>
               process_reasoning_segments fs ts rid segments (p\<lparr>opl_reasoning_parser := Some parser\<rparr>)))"

subsection \<open>The end of the output\<close>

fun finish_tool_segments :: "request_id \<Rightarrow> tool_segment list \<Rightarrow> output_pipeline \<Rightarrow> model_event list pipe" where
  "finish_tool_segments rid [] p = pipe_ok [] p"
| "finish_tool_segments rid (segment # segments) p =
     (case segment of
        ToolCall _ _ \<Rightarrow> pipe_err CallAfterFinalization p
      | ToolText txt \<Rightarrow>
          pipe_bind (emit_text rid txt p) (\<lambda>events p.
          pipe_bind (finish_tool_segments rid segments p) (\<lambda>more p. pipe_ok (events @ more) p)))"

definition finish_parsers ::
    "json_from_str \<Rightarrow> json_to_string \<Rightarrow> request_id \<Rightarrow> output_pipeline \<Rightarrow> model_event list pipe" where
  "finish_parsers fs ts rid p =
     (case (case opl_reasoning_parser p of None \<Rightarrow> Inr [] | Some parser \<Rightarrow> reasoning_finish parser) of
        Inl e \<Rightarrow> Some (Inl (model_io_error_of_parser e), p)
      | Inr reasoning \<Rightarrow>
          pipe_bind (process_reasoning_segments fs ts rid reasoning p) (\<lambda>events p.
          case (case opl_tool_parser p of None \<Rightarrow> Inr [] | Some parser \<Rightarrow> tool_finish parser) of
            Inl e \<Rightarrow> Some (Inl (model_io_error_of_parser e), p)
          | Inr tools \<Rightarrow>
              pipe_bind (finish_tool_segments rid tools p) (\<lambda>more p. pipe_ok (events @ more) p)))"

definition structured_format :: "response_format \<Rightarrow> bool" where
  "structured_format format = (case format of FormatText \<Rightarrow> False | _ \<Rightarrow> True)"

definition requires_call :: "tool_choice \<Rightarrow> bool" where
  "requires_call choice = (case choice of ChoiceRequired \<Rightarrow> True | ChoiceFunction _ \<Rightarrow> True | _ \<Rightarrow> False)"

definition validate_completed_output :: "json_from_str \<Rightarrow> output_pipeline \<Rightarrow> (unit, output_reason) result" where
  "validate_completed_output fs p =
     and_then (if structured_format (oc_response_format (opl_contract p)) then
         (case fs (opl_text p) of
            None \<Rightarrow> Inl StructuredNotJson
          | Some v \<Rightarrow> if \<not> json_is_object v then Inl StructuredNotObject else Inr ())
       else Inr ()) (\<lambda>_.
     if bt_len (opl_tool_arguments p) \<noteq> 0 then Inl IncompleteToolCalls
     else if requires_call (oc_tool_choice (opl_contract p)) \<and> \<not> opl_saw_tool_call p then Inl MissingRequiredCall
     else Inr ())"

fun interpret_finish :: "engine_finish_reason \<Rightarrow> model_finish_reason" where
  "interpret_finish FinishStop = MfStop"
| "interpret_finish FinishLength = MfLength"
| "interpret_finish FinishCancelled = MfCancelled"
| "interpret_finish FinishError = MfError"
| "interpret_finish (RuntimeSpecific namespace v) = MfNamespaced namespace v"

definition process_finished ::
    "json_from_str \<Rightarrow> json_to_string \<Rightarrow> request_id \<Rightarrow> engine_finish_reason \<Rightarrow> usage \<Rightarrow> output_pipeline \<Rightarrow> model_event list pipe" where
  "process_finished fs ts rid reason usage p =
     pipe_bind (finish_parsers fs ts rid p) (\<lambda>events p.
     case validate_completed_output fs p of
       Inl e \<Rightarrow> pipe_err e p
     | Inr _ \<Rightarrow>
         (let reported = (case reason of RuntimeSpecific _ v \<Rightarrow> v = ''tool_calls'' | _ \<Rightarrow> False) in
          if reported \<and> \<not> opl_saw_tool_call p then pipe_err ToolCallsWithoutCall p
          else pipe_ok (events @ [EvFinished rid
            (if opl_saw_tool_call p \<and> (reason = FinishStop \<or> reported) then MfToolCall else interpret_finish reason) usage]) p))"

definition pipeline_process ::
    "json_from_str \<Rightarrow> json_to_string \<Rightarrow> engine_event \<Rightarrow> output_pipeline \<Rightarrow> model_event list pipe" where
  "pipeline_process fs ts event p =
     (case event of
        Accepted rid \<Rightarrow> pipe_ok [EvAccepted rid] p
      | TokenDelta rid _ ids \<Rightarrow>
          (case opl_decode p ids of
             Inl e \<Rightarrow> Some (Inl e, p)
           | Inr txt \<Rightarrow> process_text_delta fs ts rid txt p)
      | TextDelta rid _ txt \<Rightarrow> process_text_delta fs ts rid txt p
      | ReasoningDelta rid _ txt \<Rightarrow>
          if opl_reasoning_parser p \<noteq> None then pipe_err NativeReasoning p
          else pipe_ok [EvReasoningDelta rid txt] p
      | ToolCallStarted rid _ call_id name \<Rightarrow>
          if opl_tool_parser p \<noteq> None then pipe_err NativeToolCall p
          else pipe_bind (start_tool_call rid call_id name p) (\<lambda>e. pipe_ok [e])
      | ToolCallArgumentsDelta rid _ call_id delta \<Rightarrow>
          pipe_bind (append_tool_arguments rid call_id delta p) (\<lambda>e. pipe_ok [e])
      | ToolCallCompleted rid _ call_id \<Rightarrow>
          pipe_bind (complete_tool_call fs rid call_id p) (\<lambda>e. pipe_ok [e])
      | UsageUpdate rid u final_update \<Rightarrow> pipe_ok [EvUsage rid u final_update] p
      | Finished rid reason u \<Rightarrow> process_finished fs ts rid reason u p)"

text \<open>A whole stream of engine events, up to the first error.\<close>

fun pipeline_run ::
    "json_from_str \<Rightarrow> json_to_string \<Rightarrow> engine_event list \<Rightarrow> output_pipeline \<Rightarrow> model_event list pipe" where
  "pipeline_run fs ts [] p = pipe_ok [] p"
| "pipeline_run fs ts (event # events) p =
     pipe_bind (pipeline_process fs ts event p) (\<lambda>out p.
     pipe_bind (pipeline_run fs ts events p) (\<lambda>more p. pipe_ok (out @ more) p))"

section \<open>What a stream of model events says\<close>

fun event_text :: "model_event \<Rightarrow> string" where
  "event_text (EvTextDelta _ txt) = txt"
| "event_text _ = []"

definition text_of :: "model_event list \<Rightarrow> string" where
  "text_of evs = concat (map event_text evs)"

fun is_call_start :: "model_event \<Rightarrow> bool" where
  "is_call_start (EvToolCallStarted _ _ _) = True"
| "is_call_start _ = False"

text \<open>The arguments of the calls in progress after a stream, from those in progress before it.\<close>

fun call_step :: "(string \<rightharpoonup> string) \<Rightarrow> model_event \<Rightarrow> (string \<rightharpoonup> string)" where
  "call_step calls (EvToolCallStarted _ call_id _) = calls(call_id \<mapsto> [])"
| "call_step calls (EvToolCallArgumentsDelta _ call_id delta) =
     calls(call_id := map_option (\<lambda>arguments. arguments @ delta) (calls call_id))"
| "call_step calls (EvToolCallCompleted _ call_id _) = calls(call_id := None)"
| "call_step calls _ = calls"

abbreviation calls_after :: "(string \<rightharpoonup> string) \<Rightarrow> model_event list \<Rightarrow> (string \<rightharpoonup> string)" where
  "calls_after \<equiv> foldl call_step"

text \<open>
  A stream keeps the protocol of tool calls: only requested calls start, under an id not in
  progress, deltas extend calls in progress, and a completed call carries all its deltas, which
  are a JSON object.
\<close>

fun call_ok :: "json_from_str \<Rightarrow> output_contract \<Rightarrow> (string \<rightharpoonup> string) \<Rightarrow> model_event \<Rightarrow> bool" where
  "call_ok fs contract calls (EvToolCallStarted _ call_id name) =
     (tool_requested contract name \<and> tool_selected contract name \<and> calls call_id = None)"
| "call_ok fs contract calls (EvToolCallArgumentsDelta _ call_id _) = (calls call_id \<noteq> None)"
| "call_ok fs contract calls (EvToolCallCompleted _ call_id arguments) =
     (calls call_id = Some arguments \<and> (\<exists>fields. fs arguments = Some (JObject fields)))"
| "call_ok fs contract calls _ = True"

fun calls_ok :: "json_from_str \<Rightarrow> output_contract \<Rightarrow> (string \<rightharpoonup> string) \<Rightarrow> model_event list \<Rightarrow> bool" where
  "calls_ok fs contract calls [] = True"
| "calls_ok fs contract calls (e # es) \<longleftrightarrow> call_ok fs contract calls e \<and> calls_ok fs contract (call_step calls e) es"

lemma text_of_simps [simp]: "text_of [] = []" "text_of (e # es) = event_text e @ text_of es"
    "text_of (a @ b) = text_of a @ text_of b"
  by (simp_all add: text_of_def)

lemma calls_ok_append [simp]:
  "calls_ok fs contract calls (a @ b) \<longleftrightarrow>
     calls_ok fs contract calls a \<and> calls_ok fs contract (calls_after calls a) b"
  by (induction a arbitrary: calls) auto

section \<open>The pipeline emits what it records\<close>

definition emits :: "json_from_str \<Rightarrow> output_pipeline \<Rightarrow> model_event list \<Rightarrow> output_pipeline \<Rightarrow> bool" where
  "emits fs p evs p' \<longleftrightarrow>
     opl_contract p' = opl_contract p \<and> opl_text p' = opl_text p @ text_of evs \<and>
     (opl_saw_tool_call p' \<longleftrightarrow> opl_saw_tool_call p \<or> list_ex is_call_start evs) \<and>
     calls_ok fs (opl_contract p) (bt_get (opl_tool_arguments p)) evs \<and>
     bt_get (opl_tool_arguments p') = calls_after (bt_get (opl_tool_arguments p)) evs"

lemma emits_Nil [simp]: "emits fs p [] p"
  by (simp add: emits_def)

lemma emits_append: "emits fs p a q \<Longrightarrow> emits fs q b r \<Longrightarrow> emits fs p (a @ b) r"
  by (simp add: emits_def)

lemma emits_parsers [simp]:
  "emits fs (p\<lparr>opl_tool_parser := t\<rparr>) evs p' = emits fs p evs p'"
  "emits fs (p\<lparr>opl_reasoning_parser := r\<rparr>) evs p' = emits fs p evs p'"
  "emits fs (p\<lparr>opl_next_tool_index := n\<rparr>) evs p' = emits fs p evs p'"
  by (simp_all add: emits_def)

lemma pipe_bind_Inr:
  "pipe_bind m f = Some (Inr y, r) \<longleftrightarrow> (\<exists>x q. m = Some (Inr x, q) \<and> f x q = Some (Inr y, r))"
  by (auto simp: pipe_bind_def split: option.splits sum.splits)

lemma start_tool_call_emits: "start_tool_call rid c n p = Some (Inr e, q) \<Longrightarrow> emits fs p [e] q"
  by (auto simp: start_tool_call_def emits_def bt_contains_def fun_eq_iff split: if_splits)

lemma append_tool_arguments_emits: "append_tool_arguments rid c d p = Some (Inr e, q) \<Longrightarrow> emits fs p [e] q"
  by (auto simp: append_tool_arguments_def emits_def fun_eq_iff split: option.splits)

lemma complete_tool_call_emits: "complete_tool_call fs rid c p = Some (Inr e, q) \<Longrightarrow> emits fs p [e] q"
  by (auto simp: complete_tool_call_def emits_def fun_eq_iff json_is_object_iff Let_def split: option.splits if_splits)

lemma emit_text_emits: "emit_text rid t p = Some (Inr evs, q) \<Longrightarrow> emits fs p evs q"
  by (auto simp: emit_text_def emits_def)

lemma process_parsed_call_emits:
  assumes "process_parsed_call fs rid n a p = Some (Inr evs, q)"
  shows "emits fs p evs q"
proof -
  let ?p = "p\<lparr>opl_next_tool_index := wrap_add64 (opl_next_tool_index p) 1\<rparr>"
  obtain e1 e2 e3 p1 p2 where "emits fs ?p [e1] p1" "emits fs p1 [e2] p2" "emits fs p2 [e3] q" "evs = [e1] @ [e2] @ [e3]"
    using assms start_tool_call_emits append_tool_arguments_emits complete_tool_call_emits
    unfolding process_parsed_call_def Let_def pipe_bind_Inr by (metis append_Cons append_Nil old.prod.inject option.inject sum.inject(2))
  then show ?thesis by (metis emits_append emits_parsers(3))
qed

lemma bind_append_emits:
  assumes "pipe_bind m (\<lambda>events p. pipe_bind (k p) (\<lambda>more p. pipe_ok (events @ more) p)) = Some (Inr evs, q)"
    and "\<And>a r. m = Some (Inr a, r) \<Longrightarrow> emits fs p a r" and "\<And>b r. k r = Some (Inr b, q) \<Longrightarrow> emits fs r b q"
  shows "emits fs p evs q"
  using assms(1) unfolding pipe_bind_Inr by (auto intro: emits_append assms(2,3))

lemma process_tool_segments_emits:
  "process_tool_segments fs rid segs p = Some (Inr evs, q) \<Longrightarrow> emits fs p evs q"
proof (induction segs arbitrary: p evs)
  case (Cons seg segs)
  from Cons.prems show ?case unfolding process_tool_segments.simps
  proof (rule bind_append_emits)
    fix a r assume "(case seg of ToolText txt \<Rightarrow> emit_text rid txt p
       | ToolCall name arguments \<Rightarrow> process_parsed_call fs rid name arguments p) = Some (Inr a, r)"
    then show "emits fs p a r" by (cases seg) (simp_all add: process_parsed_call_emits emit_text_emits)
  qed (rule Cons.IH)
qed simp

lemma process_visible_text_emits:
  "process_visible_text fs ts rid t p = Some (Inr evs, q) \<Longrightarrow> emits fs p evs q"
  by (auto simp: process_visible_text_def simp del: process_tool_segments.simps dest!: process_tool_segments_emits
      split: option.splits prod.splits sum.splits)

lemma process_reasoning_segments_emits:
  "process_reasoning_segments fs ts rid segs p = Some (Inr evs, q) \<Longrightarrow> emits fs p evs q"
proof (induction segs arbitrary: p evs)
  case (Cons seg segs)
  from Cons.prems show ?case unfolding process_reasoning_segments.simps
  proof (rule bind_append_emits)
    fix a r assume "(case seg of SegReasoning txt \<Rightarrow> pipe_ok [EvReasoningDelta rid txt] p
       | SegText txt \<Rightarrow> process_visible_text fs ts rid txt p) = Some (Inr a, r)"
    then show "emits fs p a r"
      by (cases seg) (simp_all add: process_visible_text_emits, auto simp: emits_def)
  qed (rule Cons.IH)
qed simp

lemma process_text_delta_emits:
  "process_text_delta fs ts rid t p = Some (Inr evs, q) \<Longrightarrow> emits fs p evs q"
  by (auto simp: process_text_delta_def simp del: process_reasoning_segments.simps dest!: process_reasoning_segments_emits
      split: option.splits prod.splits sum.splits)

lemma finish_tool_segments_emits:
  "finish_tool_segments rid segs p = Some (Inr evs, q) \<Longrightarrow> emits fs p evs q"
proof (induction segs arbitrary: p evs)
  case (Cons seg segs)
  show ?case
  proof (cases seg)
    case (ToolText t)
    from Cons.prems [unfolded finish_tool_segments.simps ToolText tool_segment.case] show ?thesis
      by (rule bind_append_emits) (simp_all add: emit_text_emits Cons.IH)
  qed (use Cons.prems in \<open>simp\<close>)
qed simp

lemma finish_parsers_cases:
  assumes "finish_parsers fs ts rid p = Some (Inr evs, q)"
  obtains reasoning tools a b r where
    "(case opl_reasoning_parser p of None \<Rightarrow> Inr [] | Some parser \<Rightarrow> reasoning_finish parser) = Inr reasoning"
    "process_reasoning_segments fs ts rid reasoning p = Some (Inr a, r)"
    "(case opl_tool_parser r of None \<Rightarrow> Inr [] | Some parser \<Rightarrow> tool_finish parser) = Inr tools"
    "finish_tool_segments rid tools r = Some (Inr b, q)" "evs = a @ b"
proof (cases "case opl_reasoning_parser p of None \<Rightarrow> Inr [] | Some parser \<Rightarrow> reasoning_finish parser")
  case (Inr reasoning)
  with assms obtain a r where first: "process_reasoning_segments fs ts rid reasoning p = Some (Inr a, r)"
    and rest: "(case (case opl_tool_parser r of None \<Rightarrow> Inr [] | Some parser \<Rightarrow> tool_finish parser) of
        Inl e \<Rightarrow> Some (Inl (model_io_error_of_parser e), r)
      | Inr tools \<Rightarrow> pipe_bind (finish_tool_segments rid tools r) (\<lambda>more p. pipe_ok (a @ more) p)) = Some (Inr evs, q)"
    by (auto simp: finish_parsers_def pipe_bind_Inr)
  from rest obtain tools b where
    "(case opl_tool_parser r of None \<Rightarrow> Inr [] | Some parser \<Rightarrow> tool_finish parser) = Inr tools"
    "finish_tool_segments rid tools r = Some (Inr b, q)" "evs = a @ b"
    by (cases "case opl_tool_parser r of None \<Rightarrow> Inr [] | Some parser \<Rightarrow> tool_finish parser") (auto simp: pipe_bind_Inr)
  with Inr first show thesis by (rule that)
qed (use assms in \<open>simp add: finish_parsers_def\<close>)

lemma finish_parsers_emits: "finish_parsers fs ts rid p = Some (Inr evs, q) \<Longrightarrow> emits fs p evs q"
  by (elim finish_parsers_cases) (metis process_reasoning_segments_emits finish_tool_segments_emits emits_append)

definition finish_event :: "request_id \<Rightarrow> engine_finish_reason \<Rightarrow> usage \<Rightarrow> output_pipeline \<Rightarrow> model_event" where
  "finish_event rid reason u q = EvFinished rid (if opl_saw_tool_call q \<and>
       (reason = FinishStop \<or> (case reason of RuntimeSpecific _ v \<Rightarrow> v = ''tool_calls'' | _ \<Rightarrow> False))
       then MfToolCall else interpret_finish reason) u"

lemma process_finished_cases:
  assumes "process_finished fs ts rid reason u p = Some (Inr evs, q)"
  obtains out where "finish_parsers fs ts rid p = Some (Inr out, q)" "validate_completed_output fs q = Inr ()"
    "evs = out @ [finish_event rid reason u q]"
proof -
  obtain out r where out: "finish_parsers fs ts rid p = Some (Inr out, r)"
    and rest: "(case validate_completed_output fs r of Inl e \<Rightarrow> pipe_err e r
     | Inr _ \<Rightarrow>
         (let reported = (case reason of RuntimeSpecific _ v \<Rightarrow> v = ''tool_calls'' | _ \<Rightarrow> False) in
          if reported \<and> \<not> opl_saw_tool_call r then pipe_err ToolCallsWithoutCall r
          else pipe_ok (out @ [EvFinished rid
            (if opl_saw_tool_call r \<and> (reason = FinishStop \<or> reported) then MfToolCall else interpret_finish reason) u]) r))
      = Some (Inr evs, q)"
    using assms unfolding process_finished_def pipe_bind_Inr by blast
  have valid: "validate_completed_output fs r = Inr ()"
    using rest by (cases "validate_completed_output fs r") auto
  with rest have "q = r" "evs = out @ [finish_event rid reason u q]"
    by (auto simp: Let_def finish_event_def split: if_splits)
  with that out valid show thesis by blast
qed

lemma process_finished_emits:
  assumes "process_finished fs ts rid reason u p = Some (Inr evs, q)"
  shows "emits fs p evs q"
proof -
  have "emits fs q [finish_event rid reason u q] q" by (simp add: emits_def finish_event_def)
  with assms show ?thesis by (elim process_finished_cases) (metis finish_parsers_emits emits_append)
qed

lemma emits_plain [simp]:
  "emits fs p [EvAccepted rid] p" "emits fs p [EvReasoningDelta rid txt] p" "emits fs p [EvUsage rid u final] p"
  by (simp_all add: emits_def)

lemma pipeline_process_emits:
  assumes "pipeline_process fs ts event p = Some (Inr evs, q)"
  shows "emits fs p evs q"
proof (cases event)
  case (Finished rid reason u)
  with assms show ?thesis by (auto simp: pipeline_process_def intro: process_finished_emits)
qed (use assms in \<open>auto simp: pipeline_process_def pipe_bind_Inr
    intro: process_text_delta_emits start_tool_call_emits append_tool_arguments_emits complete_tool_call_emits
    split: sum.splits if_splits\<close>)

lemma pipeline_run_emits: "pipeline_run fs ts events p = Some (Inr out, q) \<Longrightarrow> emits fs p out q"
proof (induction events arbitrary: p out)
  case (Cons e events)
  from Cons.prems show ?case unfolding pipeline_run.simps
    by (rule bind_append_emits) (simp_all add: pipeline_process_emits Cons.IH)
qed simp

lemma pipeline_run_snoc:
  assumes "pipeline_run fs ts (events @ [e]) p = Some (Inr out, q)"
  obtains a b r where "pipeline_run fs ts events p = Some (Inr a, r)" "pipeline_process fs ts e r = Some (Inr b, q)" "out = a @ b"
  using assms
proof (induction events arbitrary: p out thesis)
  case Nil
  then show ?case by (auto simp: pipe_bind_Inr)
next
  case (Cons e' events)
  from Cons.prems(2) obtain x p1 y where step: "pipeline_process fs ts e' p = Some (Inr x, p1)"
    "pipeline_run fs ts (events @ [e]) p1 = Some (Inr y, q)" "out = x @ y" by (auto simp: pipe_bind_Inr)
  from Cons.IH [OF _ step(2)] obtain a b r where "pipeline_run fs ts events p1 = Some (Inr a, r)"
    "pipeline_process fs ts e r = Some (Inr b, q)" "y = a @ b" by blast
  with step Cons.prems(1) [of "x @ a" r b] show ?case by (simp add: pipe_bind_def)
qed

section \<open>Properties\<close>

text \<open>
  C12: a finished output meets its contract. When a stream ends with a completion that the pipeline
  accepts, only requested calls were started, each was completed with exactly its argument deltas,
  which form a JSON object, the visible text is a JSON object if a structured format was asked for,
  and a required call was made; the last event is the completion, and it reports a tool call only
  if there was one.
\<close>

theorem finished_output_meets_contract:
  assumes "pipeline_run fs ts (events @ [Finished rid reason u]) (output_pipeline_of m contract) = Some (Inr out, p)"
  shows "calls_ok fs contract Map.empty out \<and> calls_after Map.empty out = Map.empty \<and>
     (\<not> structured_format (oc_response_format contract) \<or> (\<exists>fields. fs (text_of out) = Some (JObject fields))) \<and>
     (\<not> requires_call (oc_tool_choice contract) \<or> list_ex is_call_start out) \<and>
     (\<exists>reason'. last out = EvFinished rid reason' u \<and> (reason' \<noteq> MfToolCall \<or> list_ex is_call_start out))"
proof -
  obtain a b r where parts: "pipeline_run fs ts events (output_pipeline_of m contract) = Some (Inr a, r)"
    "process_finished fs ts rid reason u r = Some (Inr b, p)" "out = a @ b"
    using assms by (rule pipeline_run_snoc) (simp add: pipeline_process_def)
  have emits: "emits fs (output_pipeline_of m contract) out p" by (rule pipeline_run_emits [OF assms])
  from parts(2) obtain c where fin: "validate_completed_output fs p = Inr ()" "b = c @ [finish_event rid reason u p]"
    by (elim process_finished_cases) blast
  have start: "bt_get (opl_tool_arguments (output_pipeline_of m contract)) = Map.empty" "opl_text (output_pipeline_of m contract) = []"
    "\<not> opl_saw_tool_call (output_pipeline_of m contract)" "opl_contract (output_pipeline_of m contract) = contract"
    by (simp_all add: output_pipeline_of_def fun_eq_iff)
  have p: "opl_contract p = contract" "opl_text p = text_of out" "opl_saw_tool_call p = list_ex is_call_start out"
    "calls_ok fs contract Map.empty out" "bt_get (opl_tool_arguments p) = calls_after Map.empty out"
    using emits by (simp_all add: emits_def start)
  have none: "calls_after Map.empty out = Map.empty"
    using fin(1) by (simp add: validate_completed_output_def and_then_Inr_iff p(5) [symmetric] bt_len_zero_iff fun_eq_iff split: if_splits)
  have "interpret_finish reason \<noteq> MfToolCall" by (cases reason) simp_all
  with fin p none parts(3) show ?thesis
    by (auto simp: validate_completed_output_def and_then_Inr_iff json_is_object_iff finish_event_def split: if_splits option.splits)
qed

section \<open>Returning\<close>

lemma tool_loop_keeps:
  "proper_tool (ts_definition s) \<Longrightarrow> tool_loop fs ts s out = Some (r, s') \<Longrightarrow> ts_definition s' = ts_definition s"
proof (induction "length (ts_pending s)" arbitrary: s out rule: less_induct)
  case less
  show ?case
  proof (cases "ts_mode s")
    case ModeToolText
    from less.prems(2) show ?thesis
      using ModeToolText less.hyps tool_progress_enter [OF less.prems(1)] less.prems(1)
      by (subst (asm) tool_loop.simps)
        (auto simp: Let_def simp flip: enter_tool_def split: option.splits if_splits)
  next
    case ModeTool
    from less.prems(1) show ?thesis
    proof (cases rule: complete_call_cases [of s fs ts])
      case none
      with less.prems(2) ModeTool show ?thesis by (subst (asm) tool_loop.simps) (auto split: if_splits)
    next
      case (call e n a)
      show ?thesis
      proof (cases "td_max_buffered_bytes (ts_definition s) < e")
        case True
        with less.prems(2) ModeTool call(1) show ?thesis by (subst (asm) tool_loop.simps) auto
      next
        case False
        with less.prems(2) ModeTool call(1) have "tool_loop fs ts (leave_tool s e) (out @ [ToolCall n a]) = Some (r, s')"
          by (subst (asm) tool_loop.simps) (simp add: leave_tool_def Let_def)
        with less.hyps tool_progress_leave [OF less.prems(1) call(2)] less.prems(1) show ?thesis by fastforce
      qed
    qed
  qed
qed

text \<open>A pipeline whose tool parser was made by \<open>tool_definition_new\<close>.\<close>

definition pipeline_proper :: "output_pipeline \<Rightarrow> bool" where
  "pipeline_proper p \<longleftrightarrow> (case opl_tool_parser p of None \<Rightarrow> True | Some s \<Rightarrow> proper_tool (ts_definition s))"

definition returns :: "'a pipe \<Rightarrow> bool" where
  "returns m \<longleftrightarrow> (case m of None \<Rightarrow> False | Some (_, p) \<Rightarrow> pipeline_proper p)"

lemma returns_simps [simp]: "\<not> returns None" "returns (Some (r, p)) = pipeline_proper p"
  by (simp_all add: returns_def)

lemma returns_bind:
  assumes "returns m" and "\<And>x q. pipeline_proper q \<Longrightarrow> returns (f x q)"
  shows "returns (pipe_bind m f)"
proof (cases m)
  case (Some rp)
  moreover obtain r p where "rp = (r, p)" by fastforce
  ultimately show ?thesis using assms by (cases r) (simp_all add: pipe_bind_def)
qed (use assms in simp)

lemma pipeline_proper_update [simp]:
  "pipeline_proper (p\<lparr>opl_text := t\<rparr>) = pipeline_proper p" "pipeline_proper (p\<lparr>opl_tool_arguments := a\<rparr>) = pipeline_proper p"
  "pipeline_proper (p\<lparr>opl_saw_tool_call := b\<rparr>) = pipeline_proper p" "pipeline_proper (p\<lparr>opl_next_tool_index := n\<rparr>) = pipeline_proper p"
  "pipeline_proper (p\<lparr>opl_reasoning_parser := r\<rparr>) = pipeline_proper p"
  by (simp_all add: pipeline_proper_def)

lemma calls_return:
  assumes "pipeline_proper p"
  shows "returns (start_tool_call rid c n p)" "returns (append_tool_arguments rid c d p)"
    "returns (complete_tool_call fs rid c p)" "returns (emit_text rid t p)"
  using assms
  by (auto simp: start_tool_call_def append_tool_arguments_def complete_tool_call_def emit_text_def Let_def
      split: option.splits)

lemma process_parsed_call_returns: "pipeline_proper p \<Longrightarrow> returns (process_parsed_call fs rid n a p)"
  by (auto simp: process_parsed_call_def Let_def intro!: returns_bind calls_return)

lemma process_tool_segments_returns: "pipeline_proper p \<Longrightarrow> returns (process_tool_segments fs rid segs p)"
  by (induction segs arbitrary: p)
    (auto intro!: returns_bind calls_return process_parsed_call_returns split: tool_segment.splits)

lemma process_visible_text_returns:
  assumes "pipeline_proper p"
  shows "returns (process_visible_text fs ts rid t p)"
proof (cases "opl_tool_parser p")
  case None
  with assms show ?thesis
    by (simp add: process_visible_text_def process_tool_segments_returns del: process_tool_segments.simps)
next
  case (Some s)
  with assms have proper: "proper_tool (ts_definition (s\<lparr>ts_pending := ts_pending s @ t\<rparr>))" by (simp add: pipeline_proper_def)
  then obtain r s' where push: "tool_push fs ts s t = Some (r, s')"
    using tool_loop_returns unfolding tool_push_def by fastforce
  then have "pipeline_proper (p\<lparr>opl_tool_parser := Some s'\<rparr>)"
    using tool_loop_keeps [OF proper] proper unfolding tool_push_def by (simp add: pipeline_proper_def)
  with Some push show ?thesis
    by (cases r) (simp_all add: process_visible_text_def process_tool_segments_returns)
qed

lemma process_reasoning_segments_returns: "pipeline_proper p \<Longrightarrow> returns (process_reasoning_segments fs ts rid segs p)"
  by (induction segs arbitrary: p)
    (auto intro!: returns_bind process_visible_text_returns split: reasoning_segment.splits)

lemma process_text_delta_returns: "pipeline_proper p \<Longrightarrow> returns (process_text_delta fs ts rid t p)"
  by (auto simp: process_text_delta_def process_reasoning_segments_returns simp del: process_reasoning_segments.simps
      split: option.splits prod.splits sum.splits)

lemma finish_tool_segments_returns: "pipeline_proper p \<Longrightarrow> returns (finish_tool_segments rid segs p)"
  by (induction segs arbitrary: p) (auto intro!: returns_bind calls_return split: tool_segment.splits)

lemma process_finished_returns: "pipeline_proper p \<Longrightarrow> returns (process_finished fs ts rid reason u p)"
  by (auto simp: process_finished_def finish_parsers_def Let_def
      intro!: returns_bind process_reasoning_segments_returns finish_tool_segments_returns split: sum.splits)

lemma pipeline_process_returns: "pipeline_proper p \<Longrightarrow> returns (pipeline_process fs ts event p)"
  by (cases event)
    (auto simp: pipeline_process_def intro!: returns_bind calls_return process_text_delta_returns process_finished_returns
      split: sum.splits)

lemma pipeline_run_returns: "pipeline_proper p \<Longrightarrow> returns (pipeline_run fs ts events p)"
  by (induction events arbitrary: p) (auto intro!: returns_bind pipeline_process_returns)

text \<open>
  C40: the pipeline always answers. For a model whose tool parser was accepted by
  \<open>tool_definition_new\<close>, every stream of engine events is processed to a result, whatever the JSON
  library makes of the envelopes.
\<close>

theorem pipeline_always_returns:
  assumes "tool_definition_new identity start_delimiter end_delimiter bytes = Inr d" and "bm_tool_parser m = Some d"
  shows "\<exists>r p. pipeline_run fs ts events (output_pipeline_of m contract) = Some (r, p)"
proof -
  have "pipeline_proper (output_pipeline_of m contract)"
    using tool_definition_new_proper [OF assms(1)] assms(2)
    by (simp add: pipeline_proper_def output_pipeline_of_def tool_state_of_def)
  from pipeline_run_returns [OF this, of fs ts events] show ?thesis
    by (cases "pipeline_run fs ts events (output_pipeline_of m contract)") auto
qed

section \<open>A concrete output\<close>

definition demo_contract :: output_contract where
  "demo_contract = \<lparr>oc_tools = [sample_tool_spec], oc_tool_choice = ChoiceRequired, oc_response_format = FormatText,
     oc_reasoning_effort = None\<rparr>"

lemma bt_remove_inserts [simp]: "bt_remove k (bt_insert k a (bt_insert k b (bt_insert k c bt_empty))) = bt_empty"
  by (rule bt_ext) simp

lemma demo_pipeline_run:
  "pipeline_run sample_from_str (\<lambda>_. None)
     ([ToolCallStarted ''r'' 1 ''c'' ''f'', ToolCallArgumentsDelta ''r'' 2 ''c'' ''{'', ToolCallArgumentsDelta ''r'' 3 ''c'' ''}'',
       ToolCallCompleted ''r'' 4 ''c''] @ [Finished ''r'' FinishStop \<lparr>us_input_tokens = 1, us_output_tokens = 2\<rparr>])
     (output_pipeline_of sample_model_io demo_contract) =
   Some (Inr [EvToolCallStarted ''r'' ''c'' ''f'', EvToolCallArgumentsDelta ''r'' ''c'' ''{'',
      EvToolCallArgumentsDelta ''r'' ''c'' ''}'', EvToolCallCompleted ''r'' ''c'' ''{}'',
      EvFinished ''r'' MfToolCall \<lparr>us_input_tokens = 1, us_output_tokens = 2\<rparr>],
     (output_pipeline_of sample_model_io demo_contract)\<lparr>opl_saw_tool_call := True\<rparr>)"
  by (simp add: pipeline_process_def pipe_bind_def start_tool_call_def append_tool_arguments_def complete_tool_call_def
      process_finished_def finish_parsers_def validate_completed_output_def output_pipeline_of_def demo_contract_def
      sample_model_io_def sample_tool_spec_def tool_requested_def tool_selected_def bt_contains_def structured_format_def
      requires_call_def Let_def)

text \<open>The id of a call that was completed is free again: an engine may use it for another call.\<close>

lemma completed_call_id_reused:
  assumes "fs a = Some (JObject o1)" and "fs b = Some (JObject o2)" and "tool_requested contract n" and "tool_selected contract n"
    and "bm_tool_parser m = None"
  shows "\<exists>p. pipeline_run fs ts
      [ToolCallStarted r 1 c n, ToolCallArgumentsDelta r 2 c a, ToolCallCompleted r 3 c,
       ToolCallStarted r 4 c n, ToolCallArgumentsDelta r 5 c b, ToolCallCompleted r 6 c] (output_pipeline_of m contract) =
    Some (Inr [EvToolCallStarted r c n, EvToolCallArgumentsDelta r c a, EvToolCallCompleted r c a,
       EvToolCallStarted r c n, EvToolCallArgumentsDelta r c b, EvToolCallCompleted r c b], p)"
  using assms
  by (simp add: pipeline_process_def pipe_bind_def start_tool_call_def append_tool_arguments_def complete_tool_call_def
      output_pipeline_of_def bt_contains_def Let_def)

theorem finished_output_meets_contract_witness:
  "calls_ok sample_from_str demo_contract Map.empty
     [EvToolCallStarted ''r'' ''c'' ''f'', EvToolCallArgumentsDelta ''r'' ''c'' ''{'',
      EvToolCallArgumentsDelta ''r'' ''c'' ''}'', EvToolCallCompleted ''r'' ''c'' ''{}'',
      EvFinished ''r'' MfToolCall \<lparr>us_input_tokens = 1, us_output_tokens = 2\<rparr>]"
  using finished_output_meets_contract [OF demo_pipeline_run] by blast

theorem pipeline_always_returns_witness:
  "\<exists>r p. pipeline_run sample_from_str (\<lambda>_. None) [TextDelta ''r'' 1 ''<t>{}</t>'']
     (output_pipeline_of (sample_model_io\<lparr>bm_tool_parser := Some (sample_tool 100)\<rparr>) demo_contract) = Some (r, p)"
  by (rule pipeline_always_returns [OF sample_tool_new]) simp

end
