(* ===== verification/Traffic_Policy.thy ===== *)
theory Traffic_Policy
  imports Op_Context
begin

text \<open>
  The admission policy of \<open>crates/runtime/src/traffic.rs\<close>: the policy records with their
  defaults, \<open>TrafficPolicy::validate\<close>, the controller's immutable part
  (\<open>TrafficControllerInner\<close> without its lock) with \<open>TrafficController::new\<close> and
  \<open>operation_context\<close>, and the error types. An error message is represented by the branch that
  produces it and the values it mentions. A \<open>Duration\<close> is a number of nanoseconds.
\<close>

section \<open>Policies\<close>

record service_class_policy =
  cp_id :: string
  cp_weight :: u32
  cp_max_active_requests :: usize
  cp_max_active_tokens :: u64
  cp_shed_at_global_utilization_bps :: "nat option"

record tenant_policy =
  tp_id :: string
  tp_service_class :: string
  tp_weight :: u32
  tp_max_active_requests :: usize
  tp_max_active_tokens :: u64
  tp_max_queued_requests :: usize
  tp_max_tokens_per_request :: u64
  tp_default_request_timeout :: duration
  tp_max_request_timeout :: duration

record traffic_policy =
  pol_max_active_requests :: usize
  pol_max_active_tokens :: u64
  pol_max_queued_requests :: usize
  pol_default_output_tokens :: u64
  pol_classes :: "service_class_policy list"
  pol_tenants :: "tenant_policy list"

definition VIRTUAL_RUNTIME_SCALE :: u128 where
  "VIRTUAL_RUNTIME_SCALE = 1000000"

definition MAX_SERVICE_CLASSES :: usize where
  "MAX_SERVICE_CLASSES = 64"

definition MAX_TENANTS :: usize where
  "MAX_TENANTS = 1024"

definition duration_from_secs :: "nat \<Rightarrow> duration" where
  "duration_from_secs n = n * 1000000000"

definition traffic_policy_default :: traffic_policy where
  "traffic_policy_default =
     \<lparr>pol_max_active_requests = 128, pol_max_active_tokens = 1048576, pol_max_queued_requests = 1024,
      pol_default_output_tokens = 256,
      pol_classes = [\<lparr>cp_id = ''standard'', cp_weight = 1, cp_max_active_requests = 128,
        cp_max_active_tokens = 1048576, cp_shed_at_global_utilization_bps = None\<rparr>],
      pol_tenants = [\<lparr>tp_id = ''default'', tp_service_class = ''standard'', tp_weight = 1,
        tp_max_active_requests = 128, tp_max_active_tokens = 1048576, tp_max_queued_requests = 1024,
        tp_max_tokens_per_request = 65536, tp_default_request_timeout = duration_from_secs 120,
        tp_max_request_timeout = duration_from_secs 600\<rparr>]\<rparr>"

section \<open>Validation\<close>

datatype configuration_reason =
    GlobalLimits
  | NothingConfigured
  | CardinalityLimits
  | InvalidLabel string
  | InvalidClass string
  | DuplicateClass string
  | UnknownServiceClass string string
  | InvalidTenant string
  | DuplicateTenant string

datatype traffic_configuration_error = TrafficInvalid configuration_reason

definition is_ascii_alphanumeric :: "char \<Rightarrow> bool" where
  "is_ascii_alphanumeric c \<longleftrightarrow>
     CHR ''0'' \<le> c \<and> c \<le> CHR ''9'' \<or> CHR ''A'' \<le> c \<and> c \<le> CHR ''Z'' \<or> CHR ''a'' \<le> c \<and> c \<le> CHR ''z''"

definition label_byte :: "char \<Rightarrow> bool" where
  "label_byte c \<longleftrightarrow> is_ascii_alphanumeric c \<or> c = CHR ''_'' \<or> c = CHR ''-'' \<or> c = CHR ''.''"

definition validate_label :: "string \<Rightarrow> string \<Rightarrow> (unit, traffic_configuration_error) result" where
  "validate_label kind v =
     (if v \<noteq> [] \<and> length v \<le> 64 \<and> list_all label_byte v then Inr ()
      else Inl (TrafficInvalid (InvalidLabel kind)))"

definition class_limits_invalid :: "service_class_policy \<Rightarrow> bool" where
  "class_limits_invalid c \<longleftrightarrow>
     cp_weight c = 0 \<or> cp_max_active_requests c = 0 \<or> cp_max_active_tokens c = 0 \<or>
     (case cp_shed_at_global_utilization_bps c of None \<Rightarrow> False | Some threshold \<Rightarrow> threshold > 10000)"

definition tenant_limits_invalid :: "tenant_policy \<Rightarrow> bool" where
  "tenant_limits_invalid t \<longleftrightarrow>
     tp_weight t = 0 \<or> tp_max_active_requests t = 0 \<or> tp_max_active_tokens t = 0 \<or>
     tp_max_queued_requests t = 0 \<or> tp_max_tokens_per_request t = 0 \<or>
     tp_default_request_timeout t = 0 \<or> tp_max_request_timeout t < tp_default_request_timeout t"

fun validate_classes ::
    "service_class_policy list \<Rightarrow> (string, unit) btree
     \<Rightarrow> ((string, unit) btree, traffic_configuration_error) result" where
  "validate_classes [] classes = Inr classes"
| "validate_classes (c # cs) classes =
     and_then (validate_label ''service class'' (cp_id c))
       (\<lambda>_. if class_limits_invalid c then Inl (TrafficInvalid (InvalidClass (cp_id c)))
            else if bt_contains classes (cp_id c) then Inl (TrafficInvalid (DuplicateClass (cp_id c)))
            else validate_classes cs (bt_insert (cp_id c) () classes))"

fun validate_tenants ::
    "(string, unit) btree \<Rightarrow> tenant_policy list \<Rightarrow> (string, unit) btree
     \<Rightarrow> (unit, traffic_configuration_error) result" where
  "validate_tenants classes [] tenants = Inr ()"
| "validate_tenants classes (t # ts) tenants =
     and_then (validate_label ''tenant'' (tp_id t))
       (\<lambda>_. if \<not> bt_contains classes (tp_service_class t)
            then Inl (TrafficInvalid (UnknownServiceClass (tp_id t) (tp_service_class t)))
            else if tenant_limits_invalid t then Inl (TrafficInvalid (InvalidTenant (tp_id t)))
            else if bt_contains tenants (tp_id t) then Inl (TrafficInvalid (DuplicateTenant (tp_id t)))
            else validate_tenants classes ts (bt_insert (tp_id t) () tenants))"

definition traffic_policy_validate :: "traffic_policy \<Rightarrow> (unit, traffic_configuration_error) result" where
  "traffic_policy_validate p =
     (if pol_max_active_requests p = 0 \<or> pol_max_active_tokens p = 0 \<or> pol_max_queued_requests p = 0
        \<or> pol_default_output_tokens p = 0
      then Inl (TrafficInvalid GlobalLimits)
      else if pol_classes p = [] \<or> pol_tenants p = [] then Inl (TrafficInvalid NothingConfigured)
      else if length (pol_classes p) > MAX_SERVICE_CLASSES \<or> length (pol_tenants p) > MAX_TENANTS
      then Inl (TrafficInvalid CardinalityLimits)
      else and_then (validate_classes (pol_classes p) bt_empty)
             (\<lambda>classes. validate_tenants classes (pol_tenants p) bt_empty))"

section \<open>The controller\<close>

record traffic_controller =
  tc_policy :: traffic_policy
  tc_classes :: "(string, service_class_policy) btree"
  tc_tenants :: "(string, tenant_policy) btree"

definition traffic_controller_new ::
    "traffic_policy \<Rightarrow> (traffic_controller, traffic_configuration_error) result" where
  "traffic_controller_new p =
     and_then (traffic_policy_validate p)
       (\<lambda>_. Inr \<lparr>tc_policy = p,
                 tc_classes = bt_of_list (map (\<lambda>c. (cp_id c, c)) (pol_classes p)),
                 tc_tenants = bt_of_list (map (\<lambda>t. (tp_id t, t)) (pol_tenants p))\<rparr>)"

definition tenant_exists :: "traffic_controller \<Rightarrow> string \<Rightarrow> bool" where
  "tenant_exists tc tenant = bt_contains (tc_tenants tc) tenant"

definition default_output_tokens :: "traffic_controller \<Rightarrow> u64" where
  "default_output_tokens tc = pol_default_output_tokens (tc_policy tc)"

datatype admission_error =
    MissingTrustedTenant
  | UnknownTenant string
  | InvalidDeadline
  | RequestTokenLimit u64 u64
  | RequestExceedsCapacity
  | QueueFull
  | OverloadShed
  | Draining
  | AdmissionCancelled
  | AdmissionDeadlineExceeded
  | AdmissionUnavailable

fun admission_error_of_context :: "context_error \<Rightarrow> admission_error" where
  "admission_error_of_context CtxCancelled = AdmissionCancelled"
| "admission_error_of_context CtxDeadlineExceeded = AdmissionDeadlineExceeded"

text \<open>
  \<open>operation_context\<close>: \<open>instant_max\<close> is the last representable instant, past which
  \<open>Instant::checked_add\<close> fails; the fresh context gets the token \<open>tok\<close>.
\<close>

definition traffic_operation_context ::
    "traffic_controller \<Rightarrow> instant \<Rightarrow> instant \<Rightarrow> cancel_token \<Rightarrow> request_id \<Rightarrow> string \<Rightarrow> duration option
     \<Rightarrow> (operation_context, admission_error) result" where
  "traffic_operation_context tc instant_max now tok rid tenant requested_timeout =
     (case bt_get (tc_tenants tc) tenant of
        None \<Rightarrow> Inl (UnknownTenant tenant)
      | Some policy \<Rightarrow>
          (let timeout = min (case requested_timeout of None \<Rightarrow> tp_default_request_timeout policy | Some t \<Rightarrow> t)
                             (tp_max_request_timeout policy)
           in if timeout = 0 then Inl InvalidDeadline
              else if now + timeout > instant_max then Inl InvalidDeadline
              else Inr (with_deadline (now + timeout)
                         (with_tenant_id tenant (operation_context_new rid tok)))))"

definition virtual_runtime_delta :: "u64 \<Rightarrow> u32 \<Rightarrow> u128" where
  "virtual_runtime_delta tokens weight =
     max (if weight = 0 then u128_max else sat_mul128 tokens VIRTUAL_RUNTIME_SCALE div weight) 1"

section \<open>What validation promises\<close>

lemma validate_classes_Ok:
  assumes "validate_classes cs acc = Inr classes"
  shows "(\<forall>k. bt_contains classes k \<longleftrightarrow> bt_contains acc k \<or> k \<in> cp_id ` set cs) \<and>
     distinct (map cp_id cs) \<and> (\<forall>c \<in> set cs. \<not> class_limits_invalid c \<and> \<not> bt_contains acc (cp_id c))"
  using assms
proof (induction cs arbitrary: acc)
  case (Cons c cs)
  then have ok: "\<not> class_limits_invalid c" "\<not> bt_contains acc (cp_id c)"
    and rest: "validate_classes cs (bt_insert (cp_id c) () acc) = Inr classes"
    by (auto simp: and_then_Inr_iff split: if_splits)
  with Cons.IH [OF rest] show ?case by (auto simp: bt_contains_def split: if_splits)
qed simp

lemma validate_tenants_Ok:
  assumes "validate_tenants classes ts acc = Inr ()"
  shows "distinct (map tp_id ts) \<and>
     (\<forall>t \<in> set ts. \<not> tenant_limits_invalid t \<and> \<not> bt_contains acc (tp_id t) \<and> bt_contains classes (tp_service_class t))"
  using assms
proof (induction ts arbitrary: acc)
  case (Cons t ts)
  then have ok: "\<not> tenant_limits_invalid t" "\<not> bt_contains acc (tp_id t)" "bt_contains classes (tp_service_class t)"
    and rest: "validate_tenants classes ts (bt_insert (tp_id t) () acc) = Inr ()"
    by (auto simp: and_then_Inr_iff split: if_splits)
  with Cons.IH [OF rest] show ?case by (auto simp: bt_contains_def split: if_splits)
qed simp

lemma bt_of_list_Cons: "bt_of_list (ps @ [(k, v)]) = bt_insert k v (bt_of_list ps)"
  by (simp add: bt_of_list_def)

lemma bt_get_bt_of_list: "distinct (map fst ps) \<Longrightarrow> bt_get (bt_of_list ps) = map_of ps"
proof (induction ps rule: rev_induct)
  case (snoc p ps)
  then show ?case
    by (cases p) (force simp: fun_eq_iff bt_of_list_Cons map_add_def map_of_eq_None_iff split: option.splits)
qed (simp add: bt_of_list_def fun_eq_iff)

text \<open>The facts about a constructed controller on which scheduling relies.\<close>

definition controller_ok :: "traffic_controller \<Rightarrow> bool" where
  "controller_ok tc \<longleftrightarrow>
     0 < pol_max_active_requests (tc_policy tc) \<and> 0 < pol_max_active_tokens (tc_policy tc) \<and>
     (\<forall>k c. bt_get (tc_classes tc) k = Some c \<longrightarrow> cp_id c = k \<and> \<not> class_limits_invalid c) \<and>
     (\<forall>k t. bt_get (tc_tenants tc) k = Some t \<longrightarrow>
        tp_id t = k \<and> \<not> tenant_limits_invalid t \<and> bt_contains (tc_classes tc) (tp_service_class t))"

lemma distinct_pairs: "distinct (map key xs) \<Longrightarrow> distinct (map fst (map (\<lambda>x. (key x, x)) xs))"
  by (simp add: o_def)

lemma map_of_pairs:
  "map_of (map (\<lambda>x. (key x, x)) xs) k = Some x \<Longrightarrow> x \<in> set xs \<and> key x = k"
  by (induction xs) (auto split: if_splits)

lemma controller_new_facts:
  assumes "traffic_controller_new p = Inr tc"
  shows "controller_ok tc \<and> tc_policy tc = p \<and>
     list_all (\<lambda>t. bt_get (tc_tenants tc) (tp_id t) = Some t) (pol_tenants p) \<and>
     list_all (\<lambda>c. bt_get (tc_classes tc) (cp_id c) = Some c) (pol_classes p)"
proof -
  from assms have v: "traffic_policy_validate p = Inr ()"
    and tc: "tc = \<lparr>tc_policy = p, tc_classes = bt_of_list (map (\<lambda>c. (cp_id c, c)) (pol_classes p)),
      tc_tenants = bt_of_list (map (\<lambda>t. (tp_id t, t)) (pol_tenants p))\<rparr>"
    by (auto simp: traffic_controller_new_def and_then_Inr_iff)
  from v obtain classes where pos: "0 < pol_max_active_requests p" "0 < pol_max_active_tokens p"
    and vc: "validate_classes (pol_classes p) bt_empty = Inr classes"
    and vt: "validate_tenants classes (pol_tenants p) bt_empty = Inr ()"
    by (auto simp: traffic_policy_validate_def and_then_Inr_iff split: if_splits)
  have pol: "tc_policy tc = p" by (simp add: tc)
  note c = validate_classes_Ok [OF vc] and t = validate_tenants_Ok [OF vt]
  have getc: "bt_get (tc_classes tc) = map_of (map (\<lambda>c. (cp_id c, c)) (pol_classes p))"
    using c by (simp add: tc bt_get_bt_of_list distinct_pairs del: map_map)
  have gett: "bt_get (tc_tenants tc) = map_of (map (\<lambda>t. (tp_id t, t)) (pol_tenants p))"
    using t by (simp add: tc bt_get_bt_of_list distinct_pairs del: map_map)
  have found_c: "bt_get (tc_classes tc) (cp_id x) = Some x" if "x \<in> set (pol_classes p)" for x
    unfolding getc using that c by (intro map_of_is_SomeI) (auto simp: o_def)
  have found_t: "bt_get (tc_tenants tc) (tp_id x) = Some x" if "x \<in> set (pol_tenants p)" for x
    unfolding gett using that t by (intro map_of_is_SomeI) (auto simp: o_def)
  have "bt_contains (tc_classes tc) k" if "bt_contains classes k" for k
  proof -
    from that c obtain x where "x \<in> set (pol_classes p)" "k = cp_id x" by (auto simp: bt_contains_def)
    with found_c show ?thesis by (simp add: bt_contains_def)
  qed
  moreover have "cp_id x = k \<and> \<not> class_limits_invalid x" if "bt_get (tc_classes tc) k = Some x" for k x
    using map_of_pairs [of cp_id "pol_classes p" k x] that c unfolding getc by blast
  moreover have "tp_id x = k \<and> \<not> tenant_limits_invalid x \<and> bt_contains classes (tp_service_class x)"
    if "bt_get (tc_tenants tc) k = Some x" for k x
    using map_of_pairs [of tp_id "pol_tenants p" k x] that t unfolding gett by blast
  ultimately have "controller_ok tc"
    using pos unfolding controller_ok_def pol by blast
  then show ?thesis using found_c found_t by (simp add: list_all_iff pol)
qed

text \<open>
  A controller is only built from a policy that passes validation, and then every class and
  tenant is found under its own id, has positive weights and limits, and every tenant's service
  class is configured.
\<close>

lemma traffic_controller_new_ok:
  assumes "traffic_controller_new p = Inr tc"
  shows "controller_ok tc \<and> tc_policy tc = p \<and>
     list_all (\<lambda>t. bt_get (tc_tenants tc) (tp_id t) = Some t) (pol_tenants p) \<and>
     list_all (\<lambda>c. bt_get (tc_classes tc) (cp_id c) = Some c) (pol_classes p)"
  using controller_new_facts [OF assms] .

text \<open>
  A context made for a tenant expires within the tenant's maximal timeout, however long a
  timeout was asked for, and never at or before the instant it was made.
\<close>

lemma traffic_operation_context_deadline:
  assumes "traffic_operation_context tc instant_max now tok rid tenant requested = Inr ctx"
  shows "\<exists>policy deadline. bt_get (tc_tenants tc) tenant = Some policy \<and> oc_tenant_id ctx = Some tenant \<and>
     oc_deadline ctx = Some deadline \<and> now < deadline \<and> deadline \<le> now + tp_max_request_timeout policy \<and>
     deadline \<le> instant_max"
  using assms
  by (auto simp: traffic_operation_context_def Let_def with_deadline_def with_tenant_id_def operation_context_new_def
      split: option.splits if_splits)

text \<open>Every admitted request advances the virtual runtime, and a heavier class advances it less.\<close>

lemma virtual_runtime_delta_pos: "1 \<le> virtual_runtime_delta tokens weight"
  by (simp add: virtual_runtime_delta_def)

lemma virtual_runtime_delta_antimono:
  "0 < w \<Longrightarrow> w \<le> w' \<Longrightarrow> virtual_runtime_delta tokens w' \<le> virtual_runtime_delta tokens w"
  by (auto simp: virtual_runtime_delta_def intro: div_le_mono2 max.coboundedI1)

section \<open>Concrete controller\<close>

definition sample_controller :: traffic_controller where
  "sample_controller =
     \<lparr>tc_policy = traffic_policy_default,
      tc_classes = bt_of_list [(''standard'', hd (pol_classes traffic_policy_default))],
      tc_tenants = bt_of_list [(''default'', hd (pol_tenants traffic_policy_default))]\<rparr>"

lemma sample_controller_new: "traffic_controller_new traffic_policy_default = Inr sample_controller"
  by (simp add: traffic_controller_new_def traffic_policy_validate_def traffic_policy_default_def
      MAX_SERVICE_CLASSES_def MAX_TENANTS_def validate_label_def label_byte_def is_ascii_alphanumeric_def
      class_limits_invalid_def tenant_limits_invalid_def duration_from_secs_def bt_contains_def
      sample_controller_def less_eq_char_def)

end
