(* ===== verification/Traffic.thy ===== *)
theory Traffic
  imports Traffic_Policy
begin

text \<open>
  The admission scheduler of \<open>crates/runtime/src/traffic.rs\<close>: the state behind the mutex, the
  locked sections of every operation and the scheduling loop. Each definition takes the world
  before the critical section and returns the world after it. The oneshot channel that carries a
  permit from the scheduler to the task in \<open>admit\<close> is identified by its ticket and has an entry
  in \<open>tw_channels\<close>; \<open>tw_held\<close> are the tickets of the permits that callers have received and
  not yet dropped. Counters use the wrapping arithmetic of the source's \<open>+=\<close> and \<open>-=\<close>; that
  they never wrap is a theorem of \<open>Traffic_Safety\<close>. A Rust \<open>expect\<close> is \<open>the\<close> or
  \<open>hd\<close>; that its argument is there is part of what is proved.
\<close>

section \<open>State\<close>

record queued_request =
  qr_ticket :: u64
  qr_token_cost :: u64
  qr_enqueued_at :: instant
  qr_cancellation :: cancel_token

record active_request =
  ar_tenant :: string
  ar_class :: string
  ar_token_cost :: u64
  ar_cancellation :: cancel_token

type_synonym waiting_queues = "(string, (string, queued_request list) btree) btree"
type_synonym labels3 = "string \<times> string \<times> string"

record traffic_state =
  st_next_ticket :: u64
  st_draining :: bool
  st_waiting :: waiting_queues
  st_active :: "(u64, active_request) btree"
  st_class_active_requests :: "(string, usize) btree"
  st_class_active_tokens :: "(string, u64) btree"
  st_tenant_active_requests :: "(string, usize) btree"
  st_tenant_active_tokens :: "(string, u64) btree"
  st_tenant_queued_requests :: "(string, usize) btree"
  st_tenant_queued_tokens :: "(string, u64) btree"
  st_class_vruntime :: "(string, u128) btree"
  st_tenant_vruntime :: "(string, u128) btree"
  st_admissions :: "(labels3, u64) btree"
  st_rejections :: "(labels3, u64) btree"
  st_terminations :: "(labels3, u64) btree"
  st_queue_wait_micros :: "(string \<times> string, u128) btree"
  st_queue_wait_count :: "(string \<times> string, u64) btree"
  st_forced_cancellations :: u64

definition traffic_state_default :: traffic_state where
  "traffic_state_default =
     \<lparr>st_next_ticket = 0, st_draining = False, st_waiting = bt_empty, st_active = bt_empty,
      st_class_active_requests = bt_empty, st_class_active_tokens = bt_empty,
      st_tenant_active_requests = bt_empty, st_tenant_active_tokens = bt_empty,
      st_tenant_queued_requests = bt_empty, st_tenant_queued_tokens = bt_empty,
      st_class_vruntime = bt_empty, st_tenant_vruntime = bt_empty,
      st_admissions = bt_empty, st_rejections = bt_empty, st_terminations = bt_empty,
      st_queue_wait_micros = bt_empty, st_queue_wait_count = bt_empty, st_forced_cancellations = 0\<rparr>"

datatype channel = ChanOpen | ChanFull "(u64, admission_error) result" | ChanClosed

record traffic_world =
  tw_state :: traffic_state
  tw_channels :: "(u64, channel) btree"
  tw_held :: "u64 set"

definition traffic_world_new :: traffic_world where
  "traffic_world_new = \<lparr>tw_state = traffic_state_default, tw_channels = bt_empty, tw_held = {}\<rparr>"

section \<open>Counters\<close>

definition bt_count :: "('k::linorder, nat) btree \<Rightarrow> 'k \<Rightarrow> nat" where
  "bt_count m k = (case bt_get m k of None \<Rightarrow> 0 | Some v \<Rightarrow> v)"

definition increment :: "('k::linorder, nat) btree \<Rightarrow> 'k \<Rightarrow> u64 \<Rightarrow> ('k, nat) btree" where
  "increment m k v = bt_insert k (wrap_add64 (bt_count m k) v) m"

definition decrement :: "('k::linorder, nat) btree \<Rightarrow> 'k \<Rightarrow> u64 \<Rightarrow> ('k, nat) btree" where
  "decrement m k v = (case bt_get m k of None \<Rightarrow> m | Some current \<Rightarrow> bt_insert k (wrap_sub64 current v) m)"

definition increment128 :: "('k::linorder, nat) btree \<Rightarrow> 'k \<Rightarrow> u128 \<Rightarrow> ('k, nat) btree" where
  "increment128 m k v = bt_insert k (wrap_add128 (bt_count m k) v) m"

definition record_rejection_locked :: "tenant_policy \<Rightarrow> string \<Rightarrow> traffic_state \<Rightarrow> traffic_state" where
  "record_rejection_locked tenant reason st =
     st\<lparr>st_rejections := increment (st_rejections st) (tp_service_class tenant, tp_id tenant, reason) 1\<rparr>"

definition active_token_sum :: "traffic_state \<Rightarrow> u64" where
  "active_token_sum st = sum_u64 (map ar_token_cost (bt_values (st_active st)))"

definition active_token_utilization_bps :: "traffic_state \<Rightarrow> traffic_policy \<Rightarrow> u64" where
  "active_token_utilization_bps st policy =
     sat_mul64 (active_token_sum st) 10000 div pol_max_active_tokens policy"

definition queued_requests :: "traffic_state \<Rightarrow> usize" where
  "queued_requests st = sum_u64 (bt_values (st_tenant_queued_requests st))"

section \<open>Queues\<close>

definition queue_of :: "waiting_queues \<Rightarrow> string \<Rightarrow> string \<Rightarrow> queued_request list" where
  "queue_of waiting c t =
     (case bt_get waiting c of None \<Rightarrow> []
      | Some tenants \<Rightarrow> (case bt_get tenants t of None \<Rightarrow> [] | Some q \<Rightarrow> q))"

text \<open>\<open>entry(class).or_default().entry(tenant).or_default()\<close> replaced by \<open>q\<close>.\<close>

definition set_queue :: "waiting_queues \<Rightarrow> string \<Rightarrow> string \<Rightarrow> queued_request list \<Rightarrow> waiting_queues" where
  "set_queue waiting c t q =
     bt_insert c (bt_insert t q (case bt_get waiting c of None \<Rightarrow> bt_empty | Some tenants \<Rightarrow> tenants)) waiting"

section \<open>Releasing a permit\<close>

definition release_active_locked :: "u64 \<Rightarrow> traffic_state \<Rightarrow> active_request option \<times> traffic_state" where
  "release_active_locked ticket st =
     (case bt_get (st_active st) ticket of
        None \<Rightarrow> (None, st)
      | Some active \<Rightarrow>
          (Some active,
           st\<lparr>st_active := bt_remove ticket (st_active st),
              st_class_active_requests := decrement (st_class_active_requests st) (ar_class active) 1,
              st_class_active_tokens := decrement (st_class_active_tokens st) (ar_class active) (ar_token_cost active),
              st_tenant_active_requests := decrement (st_tenant_active_requests st) (ar_tenant active) 1,
              st_tenant_active_tokens :=
                decrement (st_tenant_active_tokens st) (ar_tenant active) (ar_token_cost active)\<rparr>))"

section \<open>Choosing a candidate\<close>

definition fits :: "traffic_controller \<Rightarrow> traffic_state \<Rightarrow> u64 \<Rightarrow> string \<Rightarrow> service_class_policy \<Rightarrow> string
    \<Rightarrow> tenant_policy \<Rightarrow> queued_request \<Rightarrow> bool" where
  "fits tc st active_tokens class_id class tenant_id tenant head \<longleftrightarrow>
     sat_add64 active_tokens (qr_token_cost head) \<le> pol_max_active_tokens (tc_policy tc) \<and>
     sat_add64 (bt_count (st_class_active_tokens st) class_id) (qr_token_cost head) \<le> cp_max_active_tokens class \<and>
     bt_count (st_tenant_active_requests st) tenant_id < tp_max_active_requests tenant \<and>
     sat_add64 (bt_count (st_tenant_active_tokens st) tenant_id) (qr_token_cost head) \<le> tp_max_active_tokens tenant"

fun tenant_candidates ::
    "traffic_controller \<Rightarrow> traffic_state \<Rightarrow> u64 \<Rightarrow> string \<Rightarrow> service_class_policy
     \<Rightarrow> (string \<times> queued_request list) list \<Rightarrow> (u128 \<times> string) list option" where
  "tenant_candidates tc st active_tokens class_id class [] = Some []"
| "tenant_candidates tc st active_tokens class_id class ((tenant_id, queue) # rest) =
     (case queue of
        [] \<Rightarrow> tenant_candidates tc st active_tokens class_id class rest
      | head # _ \<Rightarrow>
          (case bt_get (tc_tenants tc) tenant_id of
             None \<Rightarrow> None
           | Some tenant \<Rightarrow>
               map_option
                 (\<lambda>candidates.
                    if fits tc st active_tokens class_id class tenant_id tenant head
                    then (bt_count (st_tenant_vruntime st) tenant_id, tenant_id) # candidates
                    else candidates)
                 (tenant_candidates tc st active_tokens class_id class rest)))"

definition first_sorted :: "'a::linorder list \<Rightarrow> 'a option" where
  "first_sorted xs = (case sort xs of [] \<Rightarrow> None | x # _ \<Rightarrow> Some x)"

fun class_candidates ::
    "traffic_controller \<Rightarrow> traffic_state \<Rightarrow> u64 \<Rightarrow> (string \<times> (string, queued_request list) btree) list
     \<Rightarrow> (u128 \<times> string \<times> string) list option" where
  "class_candidates tc st active_tokens [] = Some []"
| "class_candidates tc st active_tokens ((class_id, tenants) # rest) =
     (case bt_get (tc_classes tc) class_id of
        None \<Rightarrow> None
      | Some class \<Rightarrow>
          if bt_count (st_class_active_requests st) class_id \<ge> cp_max_active_requests class
          then class_candidates tc st active_tokens rest
          else
            (case tenant_candidates tc st active_tokens class_id class (entries tenants) of
               None \<Rightarrow> None
             | Some candidates \<Rightarrow>
                 (case first_sorted candidates of
                    None \<Rightarrow> class_candidates tc st active_tokens rest
                  | Some (_, tenant_id) \<Rightarrow>
                      map_option ((#) (bt_count (st_class_vruntime st) class_id, class_id, tenant_id))
                        (class_candidates tc st active_tokens rest))))"

definition choose_candidate :: "traffic_controller \<Rightarrow> traffic_state \<Rightarrow> (string \<times> string) option" where
  "choose_candidate tc st =
     (case class_candidates tc st (active_token_sum st) (entries (st_waiting st)) of
        None \<Rightarrow> None
      | Some candidates \<Rightarrow> map_option snd (first_sorted candidates))"

section \<open>Scheduling\<close>

text \<open>
  One round of the loop in \<open>schedule_locked\<close>, in its parts: take the head off its queue, enter it
  among the active requests, charge the virtual runtimes and the metrics, and send the permit. A
  permit that cannot be sent, because the receiver is gone, is released at once.
\<close>

definition dequeue_head :: "string \<Rightarrow> string \<Rightarrow> traffic_state \<Rightarrow> queued_request \<times> traffic_state" where
  "dequeue_head class_id tenant_id st =
     (let queue = queue_of (st_waiting st) class_id tenant_id; queued = hd queue in
      (queued,
       st\<lparr>st_waiting := set_queue (st_waiting st) class_id tenant_id (tl queue),
          st_tenant_queued_requests := decrement (st_tenant_queued_requests st) tenant_id 1,
          st_tenant_queued_tokens := decrement (st_tenant_queued_tokens st) tenant_id (qr_token_cost queued)\<rparr>))"

definition activate :: "string \<Rightarrow> string \<Rightarrow> queued_request \<Rightarrow> traffic_state \<Rightarrow> traffic_state" where
  "activate class_id tenant_id queued st =
     st\<lparr>st_class_active_requests := increment (st_class_active_requests st) class_id 1,
        st_class_active_tokens := increment (st_class_active_tokens st) class_id (qr_token_cost queued),
        st_tenant_active_requests := increment (st_tenant_active_requests st) tenant_id 1,
        st_tenant_active_tokens := increment (st_tenant_active_tokens st) tenant_id (qr_token_cost queued),
        st_active := bt_insert (qr_ticket queued)
          \<lparr>ar_tenant = tenant_id, ar_class = class_id, ar_token_cost = qr_token_cost queued,
           ar_cancellation = qr_cancellation queued\<rparr> (st_active st)\<rparr>"

definition charge ::
    "instant \<Rightarrow> service_class_policy \<Rightarrow> tenant_policy \<Rightarrow> string \<Rightarrow> string \<Rightarrow> queued_request \<Rightarrow> traffic_state
     \<Rightarrow> traffic_state" where
  "charge now class tenant class_id tenant_id queued st =
     st\<lparr>st_class_vruntime := bt_insert class_id
          (sat_add128 (bt_count (st_class_vruntime st) class_id)
             (virtual_runtime_delta (qr_token_cost queued) (cp_weight class))) (st_class_vruntime st),
        st_tenant_vruntime := bt_insert tenant_id
          (sat_add128 (bt_count (st_tenant_vruntime st) tenant_id)
             (virtual_runtime_delta (qr_token_cost queued) (tp_weight tenant))) (st_tenant_vruntime st),
        st_admissions := increment (st_admissions st) (class_id, tenant_id, ''admitted'') 1,
        st_queue_wait_micros := increment128 (st_queue_wait_micros st) (class_id, tenant_id)
          ((now - qr_enqueued_at queued) div 1000),
        st_queue_wait_count := increment (st_queue_wait_count st) (class_id, tenant_id) 1\<rparr>"

definition oneshot_send ::
    "u64 \<Rightarrow> (u64, admission_error) result \<Rightarrow> (u64, channel) btree \<Rightarrow> bool \<times> (u64, channel) btree" where
  "oneshot_send ticket msg channels =
     (case bt_get channels ticket of
        Some ChanOpen \<Rightarrow> (True, bt_insert ticket (ChanFull msg) channels)
      | _ \<Rightarrow> (False, channels))"

definition deliver :: "u64 \<Rightarrow> traffic_world \<Rightarrow> traffic_world" where
  "deliver ticket w =
     (case oneshot_send ticket (Inr ticket) (tw_channels w) of
        (True, channels) \<Rightarrow> w\<lparr>tw_channels := channels\<rparr>
      | (False, _) \<Rightarrow> w\<lparr>tw_state := snd (release_active_locked ticket (tw_state w))\<rparr>)"

definition schedule_step :: "traffic_controller \<Rightarrow> instant \<Rightarrow> traffic_world \<Rightarrow> traffic_world option" where
  "schedule_step tc now w =
     (if bt_len (st_active (tw_state w)) < pol_max_active_requests (tc_policy tc) then
        (case choose_candidate tc (tw_state w) of
           None \<Rightarrow> None
         | Some (class_id, tenant_id) \<Rightarrow>
             (let (queued, st) = dequeue_head class_id tenant_id (tw_state w);
                  class = the (bt_get (tc_classes tc) class_id);
                  tenant = the (bt_get (tc_tenants tc) tenant_id)
              in Some (deliver (qr_ticket queued)
                   (w\<lparr>tw_state := charge now class tenant class_id tenant_id queued
                                   (activate class_id tenant_id queued st)\<rparr>))))
      else None)"

subsection \<open>Termination of the scheduling loop\<close>

definition total_waiting :: "traffic_state \<Rightarrow> nat" where
  "total_waiting st = bt_sum (bt_sum length) (st_waiting st)"

lemma set_queue_total:
  assumes "q = queue_of waiting c t" and "q \<noteq> []"
  shows "bt_sum (bt_sum length) (set_queue waiting c t (tl q)) < bt_sum (bt_sum length) waiting"
proof -
  obtain ts where ts: "bt_get waiting c = Some ts" "bt_get ts t = Some q"
    using assms by (auto simp: queue_of_def split: option.splits)
  have "bt_sum length (bt_insert t (tl q) ts) + length q = length (tl q) + bt_sum length ts"
    by (rule bt_sum_insert_old [OF ts(2)])
  moreover have "bt_sum (bt_sum length) (set_queue waiting c t (tl q)) + bt_sum length ts =
      bt_sum length (bt_insert t (tl q) ts) + bt_sum (bt_sum length) waiting"
    unfolding set_queue_def using bt_sum_insert_old [OF ts(1), of "bt_sum length"] ts by simp
  ultimately show ?thesis using assms(2) by (cases q) auto
qed

lemma first_sorted_iff:
  "first_sorted xs = Some x \<longleftrightarrow> x \<in> set xs \<and> (\<forall>y \<in> set xs. x \<le> y)"
proof -
  have "first_sorted xs = Some x \<longleftrightarrow> sort xs \<noteq> [] \<and> hd (sort xs) = x"
    by (auto simp: first_sorted_def split: list.splits)
  moreover have "\<forall>y \<in> set (sort xs). hd (sort xs) \<le> y"
    using sorted_sort [of xs] by (cases "sort xs") auto
  ultimately show ?thesis
    by (metis antisym list.set_sel(1) set_sort empty_iff set_empty)
qed

lemma first_sorted_None_iff: "first_sorted xs = None \<longleftrightarrow> xs = []"
  by (auto simp: first_sorted_def split: list.splits) (metis set_empty2 set_sort)

lemma tenant_candidates_mem:
  assumes "tenant_candidates tc st n c class es = Some cs"
  shows "(v, t) \<in> set cs \<longleftrightarrow>
    v = bt_count (st_tenant_vruntime st) t \<and>
    (\<exists>head tail tenant. (t, head # tail) \<in> set es \<and> bt_get (tc_tenants tc) t = Some tenant \<and>
       fits tc st n c class t tenant head)"
  using assms
proof (induction es arbitrary: cs)
  case (Cons e es)
  obtain t' q where e: "e = (t', q)" by (cases e)
  show ?case
  proof (cases q)
    case Nil
    with Cons e show ?thesis by auto
  next
    case q: (Cons head tail)
    with Cons.prems e obtain tenant cs' where p: "bt_get (tc_tenants tc) t' = Some tenant"
      and cs': "tenant_candidates tc st n c class es = Some cs'"
      and cs: "cs = (if fits tc st n c class t' tenant head
        then (bt_count (st_tenant_vruntime st) t', t') # cs' else cs')"
      by (auto split: option.splits)
    show ?thesis
      using Cons.IH [OF cs'] p unfolding cs e q by auto
  qed
qed simp

lemma class_candidates_mem:
  assumes "class_candidates tc st n es = Some cs"
  shows "(v, c, t) \<in> set cs \<longleftrightarrow>
    v = bt_count (st_class_vruntime st) c \<and>
    (\<exists>tenants class candidates u. (c, tenants) \<in> set es \<and> bt_get (tc_classes tc) c = Some class \<and>
       bt_count (st_class_active_requests st) c < cp_max_active_requests class \<and>
       tenant_candidates tc st n c class (entries tenants) = Some candidates \<and>
       first_sorted candidates = Some (u, t))"
  using assms
proof (induction es arbitrary: cs)
  case (Cons e es)
  obtain c' tenants' where e: "e = (c', tenants')" by (cases e)
  from Cons.prems e obtain klass where cl: "bt_get (tc_classes tc) c' = Some klass"
    by (auto split: option.splits)
  show ?case
  proof (cases "bt_count (st_class_active_requests st) c' < cp_max_active_requests klass")
    case False
    with Cons e cl show ?thesis by auto
  next
    case True
    with Cons.prems e cl obtain cand where cand: "tenant_candidates tc st n c' klass (entries tenants') = Some cand"
      by (auto split: option.splits)
    show ?thesis
    proof (cases "first_sorted cand")
      case None
      with Cons e cl True cand show ?thesis by auto
    next
      case (Some p)
      with Cons.prems e cl True cand obtain cs' where cs': "class_candidates tc st n es = Some cs'"
        and cs: "cs = (bt_count (st_class_vruntime st) c', c', snd p) # cs'"
        by (cases p) auto
      show ?thesis
        using Cons.IH [OF cs'] cl True cand Some unfolding cs e by (cases p) auto
    qed
  qed
qed simp

lemma queue_of_entries:
  "(c, tenants) \<in> set (entries waiting) \<Longrightarrow> (t, q) \<in> set (entries tenants) \<Longrightarrow> queue_of waiting c t = q"
  by (simp add: queue_of_def flip: bt_get_iff)

lemma choose_candidate_Some:
  assumes "choose_candidate tc st = Some (c, t)"
  obtains klass tenant head tail where
    "bt_get (tc_classes tc) c = Some klass" "bt_get (tc_tenants tc) t = Some tenant"
    "bt_count (st_class_active_requests st) c < cp_max_active_requests klass"
    "queue_of (st_waiting st) c t = head # tail"
    "fits tc st (active_token_sum st) c klass t tenant head"
proof -
  from assms obtain cs v where cs: "class_candidates tc st (active_token_sum st) (entries (st_waiting st)) = Some cs"
    and "(v, c, t) \<in> set cs"
    by (auto simp: choose_candidate_def first_sorted_iff split: option.splits)
  then obtain tenants klass cand u where c: "(c, tenants) \<in> set (entries (st_waiting st))"
    "bt_get (tc_classes tc) c = Some klass"
    "bt_count (st_class_active_requests st) c < cp_max_active_requests klass"
    and cand: "tenant_candidates tc st (active_token_sum st) c klass (entries tenants) = Some cand"
    and "(u, t) \<in> set cand"
    by (auto simp: class_candidates_mem [OF cs] first_sorted_iff)
  then obtain head tail tenant where "(t, head # tail) \<in> set (entries tenants)"
    "bt_get (tc_tenants tc) t = Some tenant" "fits tc st (active_token_sum st) c klass t tenant head"
    by (auto simp: tenant_candidates_mem [OF cand])
  with c show thesis using queue_of_entries [OF c(1)] by (intro that)
qed

lemma deliver_waiting [simp]: "st_waiting (tw_state (deliver k w)) = st_waiting (tw_state w)"
  by (auto simp: deliver_def release_active_locked_def split: prod.split bool.split option.split)

lemma schedule_step_decreases:
  assumes "schedule_step tc now w = Some w'"
  shows "total_waiting (tw_state w') < total_waiting (tw_state w)"
proof -
  from assms obtain c t where choice: "choose_candidate tc (tw_state w) = Some (c, t)"
    by (auto simp: schedule_step_def split: if_splits option.splits)
  then obtain head tail where q: "queue_of (st_waiting (tw_state w)) c t = head # tail"
    by (rule choose_candidate_Some)
  have "st_waiting (tw_state w') = set_queue (st_waiting (tw_state w)) c t tail"
    using assms choice q
    by (auto simp: schedule_step_def dequeue_head_def activate_def charge_def Let_def split: if_splits)
  then show ?thesis
    using set_queue_total [OF q [symmetric]] by (simp add: total_waiting_def)
qed

function schedule_locked :: "traffic_controller \<Rightarrow> instant \<Rightarrow> traffic_world \<Rightarrow> traffic_world" where
  "schedule_locked tc now w =
     (case schedule_step tc now w of None \<Rightarrow> w | Some w' \<Rightarrow> schedule_locked tc now w')"
  by pat_completeness auto
termination
  by (relation "measure (\<lambda>(tc, now, w). total_waiting (tw_state w))") (auto simp: schedule_step_decreases)

declare schedule_locked.simps [simp del]

lemma schedule_locked_step:
  "schedule_step tc now w = None \<Longrightarrow> schedule_locked tc now w = w"
  "schedule_step tc now w = Some w' \<Longrightarrow> schedule_locked tc now w = schedule_locked tc now w'"
  by (simp_all add: schedule_locked.simps [of tc now w])

text \<open>Whatever every round keeps, the whole loop keeps, and the loop ends with no round left.\<close>

lemma schedule_locked_inv:
  assumes "\<And>w w'. P w \<Longrightarrow> schedule_step tc now w = Some w' \<Longrightarrow> P w'" and "P w"
  shows "P (schedule_locked tc now w)"
  using assms(2)
proof (induction tc\<equiv>tc now\<equiv>now w rule: schedule_locked.induct)
  case (1 w)
  then show ?case
    using assms(1) [of w] by (cases "schedule_step tc now w") (simp_all add: schedule_locked_step)
qed

lemma schedule_locked_quiescent: "schedule_step tc now (schedule_locked tc now w) = None"
proof (induction tc now w rule: schedule_locked.induct)
  case (1 tc now w)
  then show ?case
    by (cases "schedule_step tc now w") (simp_all add: schedule_locked_step)
qed

section \<open>Normalising the virtual runtime of an idle class or tenant\<close>

definition min_or_default :: "nat list \<Rightarrow> nat" where
  "min_or_default xs = (case xs of [] \<Rightarrow> 0 | x # rest \<Rightarrow> fold min rest x)"

definition class_queue_nonempty :: "waiting_queues \<Rightarrow> string \<Rightarrow> bool" where
  "class_queue_nonempty waiting c =
     (case bt_get waiting c of None \<Rightarrow> False | Some queues \<Rightarrow> list_ex (\<lambda>q. q \<noteq> []) (bt_values queues))"

definition class_is_busy :: "traffic_state \<Rightarrow> string \<Rightarrow> bool" where
  "class_is_busy st c \<longleftrightarrow>
     bt_count (st_class_active_requests st) c > 0 \<or> class_queue_nonempty (st_waiting st) c"

definition tenant_is_busy :: "traffic_state \<Rightarrow> string \<Rightarrow> string \<Rightarrow> bool" where
  "tenant_is_busy st c t \<longleftrightarrow>
     bt_count (st_tenant_active_requests st) t > 0 \<or> queue_of (st_waiting st) c t \<noteq> []"

definition class_floor :: "traffic_controller \<Rightarrow> traffic_state \<Rightarrow> string \<Rightarrow> u128" where
  "class_floor tc st c =
     min_or_default (map (bt_count (st_class_vruntime st))
       (filter (class_is_busy st) (filter (\<lambda>k. k \<noteq> c) (bt_keys (tc_classes tc)))))"

definition tenant_floor :: "traffic_controller \<Rightarrow> traffic_state \<Rightarrow> tenant_policy \<Rightarrow> u128" where
  "tenant_floor tc st tenant =
     min_or_default (map (\<lambda>candidate. bt_count (st_tenant_vruntime st) (tp_id candidate))
       (filter (\<lambda>candidate. tenant_is_busy st (tp_service_class candidate) (tp_id candidate))
         (filter (\<lambda>candidate. tp_service_class candidate = tp_service_class tenant \<and> tp_id candidate \<noteq> tp_id tenant)
           (bt_values (tc_tenants tc)))))"

definition normalize_idle_vruntime_locked ::
    "traffic_controller \<Rightarrow> tenant_policy \<Rightarrow> traffic_state \<Rightarrow> traffic_state" where
  "normalize_idle_vruntime_locked tc tenant st =
     (let c = tp_service_class tenant; t = tp_id tenant;
          st1 = (if \<not> class_is_busy st c
                 then st\<lparr>st_class_vruntime :=
                   bt_insert c (max (bt_count (st_class_vruntime st) c) (class_floor tc st c)) (st_class_vruntime st)\<rparr>
                 else st)
      in if \<not> tenant_is_busy st1 c t
         then st1\<lparr>st_tenant_vruntime :=
           bt_insert t (max (bt_count (st_tenant_vruntime st1) t) (tenant_floor tc st1 tenant)) (st_tenant_vruntime st1)\<rparr>
         else st1)"

section \<open>Admission\<close>

definition enqueue :: "tenant_policy \<Rightarrow> u64 \<Rightarrow> instant \<Rightarrow> cancel_token \<Rightarrow> u64 \<Rightarrow> traffic_state \<Rightarrow> traffic_state" where
  "enqueue tenant token_cost now cancellation ticket st =
     (let c = tp_service_class tenant; t = tp_id tenant in
      st\<lparr>st_waiting := set_queue (st_waiting st) c t
           (queue_of (st_waiting st) c t @
             [\<lparr>qr_ticket = ticket, qr_token_cost = token_cost, qr_enqueued_at = now, qr_cancellation = cancellation\<rparr>]),
         st_tenant_queued_requests := increment (st_tenant_queued_requests st) t 1,
         st_tenant_queued_tokens := increment (st_tenant_queued_tokens st) t token_cost,
         st_admissions := increment (st_admissions st) (c, t, ''queued'') 1\<rparr>)"

definition reject :: "tenant_policy \<Rightarrow> string \<Rightarrow> traffic_world \<Rightarrow> traffic_world" where
  "reject tenant reason w = w\<lparr>tw_state := record_rejection_locked tenant reason (tw_state w)\<rparr>"

text \<open>The critical section of \<open>admit\<close>; its value is the ticket whose channel is then awaited.\<close>

definition admit_locked ::
    "traffic_controller \<Rightarrow> tenant_policy \<Rightarrow> service_class_policy \<Rightarrow> u64 \<Rightarrow> cancel_token \<Rightarrow> instant
     \<Rightarrow> traffic_world \<Rightarrow> (u64, admission_error) result \<times> traffic_world" where
  "admit_locked tc tenant class token_cost cancellation now w =
     (let st = tw_state w in
      if st_draining st then (Inl Draining, reject tenant ''draining'' w)
      else if (case cp_shed_at_global_utilization_bps class of
                 None \<Rightarrow> False
               | Some threshold \<Rightarrow> active_token_utilization_bps st (tc_policy tc) \<ge> threshold)
      then (Inl OverloadShed, reject tenant ''overload_shed'' w)
      else if queued_requests st \<ge> pol_max_queued_requests (tc_policy tc)
           \<or> bt_count (st_tenant_queued_requests st) (tp_id tenant) \<ge> tp_max_queued_requests tenant
      then (Inl QueueFull, reject tenant ''queue_full'' w)
      else
        (let ticket = sat_add64 (st_next_ticket st) 1;
             st1 = normalize_idle_vruntime_locked tc tenant (st\<lparr>st_next_ticket := ticket\<rparr>)
         in (Inr ticket,
             schedule_locked tc now
               (w\<lparr>tw_state := enqueue tenant token_cost now cancellation ticket st1,
                  tw_channels := bt_insert ticket ChanOpen (tw_channels w)\<rparr>))))"

text \<open>\<open>admit\<close> up to the point where it waits.\<close>

definition admit_begin ::
    "traffic_controller \<Rightarrow> u64 \<Rightarrow> operation_context \<Rightarrow> cancel_token set \<Rightarrow> instant
     \<Rightarrow> traffic_world \<Rightarrow> (u64, admission_error) result \<times> traffic_world" where
  "admit_begin tc token_cost context cancelled now w =
     (case ensure_active context cancelled now of
        Inl e \<Rightarrow> (Inl (admission_error_of_context e), w)
      | Inr _ \<Rightarrow>
          (case oc_tenant_id context of
             None \<Rightarrow> (Inl MissingTrustedTenant, w)
           | Some tenant_id \<Rightarrow>
               (case bt_get (tc_tenants tc) tenant_id of
                  None \<Rightarrow> (Inl (UnknownTenant tenant_id), w)
                | Some tenant \<Rightarrow>
                    (let class = the (bt_get (tc_classes tc) (tp_service_class tenant)) in
                     if token_cost = 0 \<or> token_cost > tp_max_tokens_per_request tenant
                     then (Inl (RequestTokenLimit token_cost (tp_max_tokens_per_request tenant)),
                           reject tenant ''request_token_limit'' w)
                     else if token_cost > pol_max_active_tokens (tc_policy tc)
                           \<or> token_cost > cp_max_active_tokens class \<or> token_cost > tp_max_active_tokens tenant
                     then (Inl RequestExceedsCapacity, reject tenant ''active_token_capacity'' w)
                     else admit_locked tc tenant class token_cost (oc_cancellation context) now w))))"

fun split_at_ticket :: "u64 \<Rightarrow> queued_request list \<Rightarrow> (queued_request \<times> queued_request list) option" where
  "split_at_ticket ticket [] = None"
| "split_at_ticket ticket (r # rs) =
     (if qr_ticket r = ticket then Some (r, rs) else map_option (apsnd ((#) r)) (split_at_ticket ticket rs))"

definition cancel_waiter ::
    "traffic_controller \<Rightarrow> u64 \<Rightarrow> tenant_policy \<Rightarrow> string \<Rightarrow> instant \<Rightarrow> traffic_world \<Rightarrow> traffic_world" where
  "cancel_waiter tc ticket tenant reason now w =
     (let st = tw_state w; c = tp_service_class tenant; t = tp_id tenant in
      case split_at_ticket ticket (queue_of (st_waiting st) c t) of
        None \<Rightarrow> w
      | Some (queued, rest) \<Rightarrow>
          schedule_locked tc now
            (reject tenant reason
              (w\<lparr>tw_state := st\<lparr>st_waiting := set_queue (st_waiting st) c t rest,
                  st_tenant_queued_requests := decrement (st_tenant_queued_requests st) t 1,
                  st_tenant_queued_tokens := decrement (st_tenant_queued_tokens st) t (qr_token_cost queued)\<rparr>\<rparr>)))"

definition release :: "traffic_controller \<Rightarrow> u64 \<Rightarrow> instant \<Rightarrow> traffic_world \<Rightarrow> bool \<times> traffic_world" where
  "release tc ticket now w =
     (case release_active_locked ticket (tw_state w) of
        (None, _) \<Rightarrow> (False, w)
      | (Some _, st) \<Rightarrow>
          (let w' = schedule_locked tc now (w\<lparr>tw_state := st\<rparr>)
           in (bt_len (st_active (tw_state w')) = 0, w')))"

text \<open>
  How the wait in \<open>admit\<close> can end. The receiver is dropped when \<open>admit\<close> returns or its future is
  dropped; a permit that is still in the channel is then dropped with it, which releases it.
\<close>

definition receive_permit :: "u64 \<Rightarrow> traffic_world \<Rightarrow> (u64, admission_error) result option \<times> traffic_world" where
  "receive_permit ticket w =
     (case bt_get (tw_channels w) ticket of
        Some (ChanFull msg) \<Rightarrow>
          (Some msg, w\<lparr>tw_channels := bt_insert ticket ChanClosed (tw_channels w),
                       tw_held := (case msg of Inl _ \<Rightarrow> tw_held w | Inr k \<Rightarrow> insert k (tw_held w))\<rparr>)
      | _ \<Rightarrow> (None, w))"

definition drop_receiver :: "traffic_controller \<Rightarrow> u64 \<Rightarrow> instant \<Rightarrow> traffic_world \<Rightarrow> traffic_world" where
  "drop_receiver tc ticket now w =
     (case bt_get (tw_channels w) ticket of
        None \<Rightarrow> w
      | Some c \<Rightarrow>
          (let w' = w\<lparr>tw_channels := bt_insert ticket ChanClosed (tw_channels w)\<rparr>
           in case c of ChanFull (Inr k) \<Rightarrow> snd (release tc k now w') | _ \<Rightarrow> w'))"

text \<open>
  The biased selection that ends \<open>admit\<close>: the token was cancelled, the deadline passed, or the
  channel resolved. A channel whose sender is gone without a message gives \<open>Unavailable\<close>.
\<close>

datatype wait_outcome = WaitCancelled | WaitDeadline | WaitResolved

definition admit_end ::
    "traffic_controller \<Rightarrow> tenant_policy \<Rightarrow> u64 \<Rightarrow> wait_outcome \<Rightarrow> instant \<Rightarrow> traffic_world
     \<Rightarrow> (u64, admission_error) result \<times> traffic_world" where
  "admit_end tc tenant ticket outcome now w =
     (case outcome of
        WaitCancelled \<Rightarrow>
          (Inl AdmissionCancelled, drop_receiver tc ticket now (cancel_waiter tc ticket tenant ''cancelled'' now w))
      | WaitDeadline \<Rightarrow>
          (Inl AdmissionDeadlineExceeded, drop_receiver tc ticket now (cancel_waiter tc ticket tenant ''deadline'' now w))
      | WaitResolved \<Rightarrow>
          (case receive_permit ticket w of
             (Some msg, w') \<Rightarrow> (msg, w')
           | (None, w') \<Rightarrow> (Inl AdmissionUnavailable, drop_receiver tc ticket now w')))"

definition drop_permit :: "traffic_controller \<Rightarrow> u64 \<Rightarrow> instant \<Rightarrow> traffic_world \<Rightarrow> traffic_world" where
  "drop_permit tc ticket now w =
     (if ticket \<in> tw_held w then snd (release tc ticket now (w\<lparr>tw_held := tw_held w - {ticket}\<rparr>)) else w)"

section \<open>Draining\<close>

definition drain_one :: "tenant_policy \<Rightarrow> string \<Rightarrow> queued_request \<Rightarrow> traffic_world \<Rightarrow> traffic_world" where
  "drain_one tenant tenant_id queued w =
     (let st = tw_state w in
      w\<lparr>tw_state := record_rejection_locked tenant ''draining''
          (st\<lparr>st_tenant_queued_requests := decrement (st_tenant_queued_requests st) tenant_id 1,
              st_tenant_queued_tokens := decrement (st_tenant_queued_tokens st) tenant_id (qr_token_cost queued)\<rparr>),
        tw_channels := snd (oneshot_send (qr_ticket queued) (Inl Draining) (tw_channels w))\<rparr>)"

definition drain_queue :: "traffic_controller \<Rightarrow> string \<times> queued_request list \<Rightarrow> traffic_world \<Rightarrow> traffic_world" where
  "drain_queue tc entry w =
     (case bt_get (tc_tenants tc) (fst entry) of
        None \<Rightarrow> w
      | Some tenant \<Rightarrow> fold (drain_one tenant (fst entry)) (snd entry) w)"

definition begin_drain :: "traffic_controller \<Rightarrow> traffic_world \<Rightarrow> traffic_world" where
  "begin_drain tc w =
     (if st_draining (tw_state w) then w
      else fold (\<lambda>tenants. fold (drain_queue tc) (entries tenants)) (bt_values (st_waiting (tw_state w)))
             (w\<lparr>tw_state := (tw_state w)\<lparr>st_draining := True, st_waiting := bt_empty\<rparr>\<rparr>))"

definition resume :: "traffic_world \<Rightarrow> traffic_world" where
  "resume w = w\<lparr>tw_state := (tw_state w)\<lparr>st_draining := False\<rparr>\<rparr>"

definition is_draining :: "traffic_world \<Rightarrow> bool" where
  "is_draining w = st_draining (tw_state w)"

record drain_report =
  dr_completed :: bool
  dr_forced_cancellations :: usize

text \<open>
  \<open>drain\<close> after \<open>begin_drain\<close>: each time it is woken before the grace period ends it returns if
  no request is active; when the period ends it cancels every active request.
\<close>

definition drain_poll :: "traffic_world \<Rightarrow> drain_report option" where
  "drain_poll w =
     (if bt_len (st_active (tw_state w)) = 0
      then Some \<lparr>dr_completed = True, dr_forced_cancellations = 0\<rparr> else None)"

definition drain_expire :: "traffic_world \<Rightarrow> cancel_token set \<Rightarrow> drain_report \<times> traffic_world \<times> cancel_token set" where
  "drain_expire w cancelled =
     (let cancellations = map ar_cancellation (bt_values (st_active (tw_state w)))
      in (\<lparr>dr_completed = False, dr_forced_cancellations = length cancellations\<rparr>,
          w\<lparr>tw_state := (tw_state w)\<lparr>st_forced_cancellations :=
             sat_add64 (st_forced_cancellations (tw_state w)) (length cancellations)\<rparr>\<rparr>,
          fold cancel cancellations cancelled))"

definition record_termination ::
    "traffic_controller \<Rightarrow> operation_context \<Rightarrow> string \<Rightarrow> traffic_world \<Rightarrow> traffic_world" where
  "record_termination tc context reason w =
     (case oc_tenant_id context of
        None \<Rightarrow> w
      | Some tenant_id \<Rightarrow>
          (case bt_get (tc_tenants tc) tenant_id of
             None \<Rightarrow> w
           | Some tenant \<Rightarrow>
               w\<lparr>tw_state := (tw_state w)\<lparr>st_terminations :=
                  increment (st_terminations (tw_state w)) (tp_service_class tenant, tp_id tenant, reason) 1\<rparr>\<rparr>))"

end
