(* ===== verification/Traffic_Safety.thy ===== *)
theory Traffic_Safety
  imports Traffic
begin

text \<open>
  Invariants of the admission scheduler, proved for every critical section and then for every
  interleaving of them: the active counters are exact and within the limits of the policy, the
  queue counters describe the queues, tickets are unique and queues are in ticket order, every
  active request has exactly one owner of its permit, and no admissible request is left waiting.
\<close>

section \<open>Exact counters\<close>

lemma bt_count_insert [simp]: "bt_count (bt_insert k v m) k' = (if k' = k then v else bt_count m k')"
  by (simp add: bt_count_def)

lemma bt_count_empty [simp]: "bt_count bt_empty k = 0"
  by (simp add: bt_count_def)

lemma bt_count_increment:
  "bt_count m k + v \<le> u64_max \<Longrightarrow> bt_count (increment m k v) k' = bt_count m k' + (if k' = k then v else 0)"
  by (simp add: increment_def wrap_add64_exact)

lemma bt_count_decrement:
  "v \<le> bt_count m k \<Longrightarrow> bt_count (decrement m k v) k' = bt_count m k' - (if k' = k then v else 0)"
  by (auto simp: decrement_def wrap_sub64_exact bt_count_def split: option.splits)

lemma bt_sum_mono: "(\<And>x. f x \<le> g x) \<Longrightarrow> bt_sum f m \<le> bt_sum g m"
  unfolding bt_sum_def by (rule sum_list_mono) simp

lemma sum_list_bt_values: "sum_list (map f (bt_values m)) = bt_sum f m"
  by (simp add: bt_sum_def)

definition requests_where :: "(active_request \<Rightarrow> bool) \<Rightarrow> traffic_state \<Rightarrow> nat" where
  "requests_where P st = bt_sum (\<lambda>a. of_bool (P a)) (st_active st)"

definition tokens_where :: "(active_request \<Rightarrow> bool) \<Rightarrow> traffic_state \<Rightarrow> nat" where
  "tokens_where P st = bt_sum (\<lambda>a. if P a then ar_token_cost a else 0) (st_active st)"

lemma requests_where_le: "requests_where P st \<le> bt_len (st_active st)"
  unfolding requests_where_def bt_len_sum by (rule bt_sum_mono) simp

lemma tokens_where_le: "tokens_where P st \<le> tokens_where (\<lambda>_. True) st"
  unfolding tokens_where_def by (rule bt_sum_mono) simp

lemma active_token_sum_exact:
  "tokens_where (\<lambda>_. True) st \<le> u64_max \<Longrightarrow> active_token_sum st = tokens_where (\<lambda>_. True) st"
  by (simp add: active_token_sum_def tokens_where_def sum_u64_exact sum_list_bt_values)

definition inv_counters :: "traffic_state \<Rightarrow> bool" where
  "inv_counters st \<longleftrightarrow>
     (\<forall>c. bt_count (st_class_active_requests st) c = requests_where (\<lambda>a. ar_class a = c) st) \<and>
     (\<forall>c. bt_count (st_class_active_tokens st) c = tokens_where (\<lambda>a. ar_class a = c) st) \<and>
     (\<forall>t. bt_count (st_tenant_active_requests st) t = requests_where (\<lambda>a. ar_tenant a = t) st) \<and>
     (\<forall>t. bt_count (st_tenant_active_tokens st) t = tokens_where (\<lambda>a. ar_tenant a = t) st)"

definition inv_capacity :: "traffic_controller \<Rightarrow> traffic_state \<Rightarrow> bool" where
  "inv_capacity tc st \<longleftrightarrow>
     bt_len (st_active st) \<le> pol_max_active_requests (tc_policy tc) \<and>
     tokens_where (\<lambda>_. True) st \<le> pol_max_active_tokens (tc_policy tc) \<and>
     (\<forall>c p. bt_get (tc_classes tc) c = Some p \<longrightarrow>
        requests_where (\<lambda>a. ar_class a = c) st \<le> cp_max_active_requests p \<and>
        tokens_where (\<lambda>a. ar_class a = c) st \<le> cp_max_active_tokens p) \<and>
     (\<forall>t p. bt_get (tc_tenants tc) t = Some p \<longrightarrow>
        requests_where (\<lambda>a. ar_tenant a = t) st \<le> tp_max_active_requests p \<and>
        tokens_where (\<lambda>a. ar_tenant a = t) st \<le> tp_max_active_tokens p)"

text \<open>
  The widths of the policy: a \<open>usize\<close> limit on requests, and a token limit below the largest
  \<open>u64\<close>, at which the saturating comparison in \<open>choose_candidate\<close> no longer limits anything.
\<close>

definition limits_fit :: "traffic_controller \<Rightarrow> bool" where
  "limits_fit tc \<longleftrightarrow>
     pol_max_active_requests (tc_policy tc) \<le> u64_max \<and> pol_max_active_tokens (tc_policy tc) < u64_max \<and>
     pol_max_queued_requests (tc_policy tc) \<le> u64_max"

subsection \<open>Entering and leaving the active set\<close>

abbreviation activated :: "string \<Rightarrow> string \<Rightarrow> queued_request \<Rightarrow> active_request" where
  "activated c t q \<equiv> \<lparr>ar_tenant = t, ar_class = c, ar_token_cost = qr_token_cost q, ar_cancellation = qr_cancellation q\<rparr>"

lemma activate_where:
  assumes "bt_get (st_active st) (qr_ticket q) = None"
  shows "requests_where P (activate c t q st) = requests_where P st + of_bool (P (activated c t q))"
    and "tokens_where P (activate c t q st) =
      tokens_where P st + (if P (activated c t q) then qr_token_cost q else 0)"
    and "bt_len (st_active (activate c t q st)) = Suc (bt_len (st_active st))"
  using assms by (simp_all add: requests_where_def tokens_where_def activate_def bt_sum_insert_fresh)

lemma release_where:
  assumes "release_active_locked k st = (Some a, st')"
  shows "requests_where P st' + of_bool (P a) = requests_where P st"
    and "tokens_where P st' + (if P a then ar_token_cost a else 0) = tokens_where P st"
    and "Suc (bt_len (st_active st')) = bt_len (st_active st)"
proof -
  have get: "bt_get (st_active st) k = Some a" and act: "st_active st' = bt_remove k (st_active st)"
    using assms by (auto simp: release_active_locked_def split: option.splits)
  show "requests_where P st' + of_bool (P a) = requests_where P st"
    unfolding requests_where_def act by (rule bt_sum_remove [OF get])
  show "tokens_where P st' + (if P a then ar_token_cost a else 0) = tokens_where P st"
    unfolding tokens_where_def act by (rule bt_sum_remove [OF get])
  show "Suc (bt_len (st_active st')) = bt_len (st_active st)"
    using get act by simp
qed

lemma activate_counters:
  assumes "inv_counters st" and "bt_get (st_active st) (qr_ticket q) = None"
    and "bt_len (st_active st) < u64_max" and "tokens_where (\<lambda>_. True) st + qr_token_cost q \<le> u64_max"
  shows "inv_counters (activate c t q st)"
proof -
  have n: "requests_where P st + 1 \<le> u64_max" for P
    using requests_where_le [of P st] assms(3) by simp
  have m: "tokens_where P st + qr_token_cost q \<le> u64_max" for P
    using tokens_where_le [of P st] assms(4) by simp
  show ?thesis
    using assms(1) n m
    by (auto simp: inv_counters_def activate_where [OF assms(2)])
      (simp_all add: activate_def bt_count_increment)
qed

lemma release_counters:
  assumes "inv_counters st" and "release_active_locked k st = (Some a, st')"
  shows "inv_counters st'"
proof -
  note w = release_where [OF assms(2)]
  have st': "st_class_active_requests st' = decrement (st_class_active_requests st) (ar_class a) 1"
    "st_class_active_tokens st' = decrement (st_class_active_tokens st) (ar_class a) (ar_token_cost a)"
    "st_tenant_active_requests st' = decrement (st_tenant_active_requests st) (ar_tenant a) 1"
    "st_tenant_active_tokens st' = decrement (st_tenant_active_tokens st) (ar_tenant a) (ar_token_cost a)"
    using assms(2) by (auto simp: release_active_locked_def split: option.splits)
  have c: "1 \<le> requests_where (\<lambda>x. ar_class x = ar_class a) st" "1 \<le> requests_where (\<lambda>x. ar_tenant x = ar_tenant a) st"
    using w(1) [of "\<lambda>x. ar_class x = ar_class a"] w(1) [of "\<lambda>x. ar_tenant x = ar_tenant a"] by simp_all
  have d: "ar_token_cost a \<le> tokens_where (\<lambda>x. ar_class x = ar_class a) st"
    "ar_token_cost a \<le> tokens_where (\<lambda>x. ar_tenant x = ar_tenant a) st"
    using w(2) [of "\<lambda>x. ar_class x = ar_class a"] w(2) [of "\<lambda>x. ar_tenant x = ar_tenant a"] by simp_all
  have r: "requests_where P st' = requests_where P st - of_bool (P a)" for P using w(1) [of P] by simp
  have k: "tokens_where P st' = tokens_where P st - (if P a then ar_token_cost a else 0)" for P using w(2) [of P] by simp
  show ?thesis
    using assms(1) c d unfolding inv_counters_def st' r k by (auto simp: bt_count_decrement)
qed

lemma release_capacity:
  assumes "inv_capacity tc st" and "release_active_locked k st = (Some a, st')"
  shows "inv_capacity tc st'"
proof -
  note w = release_where [OF assms(2)]
  have r: "requests_where P st' \<le> requests_where P st" and k: "tokens_where P st' \<le> tokens_where P st" for P
    using w(1) [of P] w(2) [of P] by simp_all
  have "bt_len (st_active st') \<le> bt_len (st_active st)" using w(3) by simp
  with assms(1) show ?thesis
    unfolding inv_capacity_def by (auto intro: order_trans [OF r] order_trans [OF k])
qed

section \<open>Queues\<close>

lemma queue_of_set_queue [simp]:
  "queue_of (set_queue waiting c t q) c' t' = (if c' = c \<and> t' = t then q else queue_of waiting c' t')"
  by (auto simp: queue_of_def set_queue_def split: option.splits)

lemma contains_set_queue [simp]:
  "bt_contains (set_queue waiting c t q) c' \<longleftrightarrow> c' = c \<or> bt_contains waiting c'"
  by (auto simp: bt_contains_def set_queue_def)

lemma queue_of_empty [simp]: "queue_of bt_empty c t = []"
  by (simp add: queue_of_def)

lemma bt_sum_increment:
  "bt_count m k + v \<le> u64_max \<Longrightarrow> bt_sum (\<lambda>x. x) (increment m k v) = bt_sum (\<lambda>x. x) m + v"
proof (cases "bt_get m k")
  case None
  then show "bt_count m k + v \<le> u64_max \<Longrightarrow> ?thesis"
    by (simp add: increment_def bt_count_def wrap_add64_exact bt_sum_insert_fresh)
next
  case (Some w)
  then show "bt_count m k + v \<le> u64_max \<Longrightarrow> ?thesis"
    using bt_sum_insert_old [OF Some, of "\<lambda>x. x" "w + v"]
    by (simp add: increment_def bt_count_def wrap_add64_exact)
qed

lemma bt_sum_decrement:
  "v \<le> bt_count m k \<Longrightarrow> bt_sum (\<lambda>x. x) (decrement m k v) + v = bt_sum (\<lambda>x. x) m"
proof (cases "bt_get m k")
  case None
  then show "v \<le> bt_count m k \<Longrightarrow> ?thesis" by (simp add: decrement_def bt_count_def)
next
  case (Some w)
  then show "v \<le> bt_count m k \<Longrightarrow> ?thesis"
    using bt_sum_insert_old [OF Some, of "\<lambda>x. x" "w - v"]
    by (simp add: decrement_def bt_count_def wrap_sub64_exact)
qed

lemma wrap_sub64_mod:
  assumes "b < 2 ^ 64"
  shows "wrap_sub64 ((b + x) mod 2 ^ 64) b = x mod 2 ^ 64"
proof -
  define N :: nat where "N = 2 ^ 64"
  have b: "b < N" using assms unfolding N_def .
  define y where "y = x mod N"
  have y: "y < N" using b by (simp add: y_def)
  have "(b + x) mod N = (b + y) mod N" by (simp add: y_def mod_add_right_eq)
  also have "\<dots> = (if b + y < N then b + y else b + y - N)" using b y by (simp add: mod_if)
  finally have m: "(b + x) mod N = (if b + y < N then b + y else b + y - N)" .
  have "wrap_sub64 ((b + x) mod N) b = y"
    unfolding wrap_sub64_def m N_def [symmetric] using b y by auto
  then show ?thesis unfolding N_def y_def .
qed

definition belongs :: "traffic_controller \<Rightarrow> string \<Rightarrow> string \<Rightarrow> bool" where
  "belongs tc c t \<longleftrightarrow> (\<exists>p. bt_get (tc_tenants tc) t = Some p \<and> tp_service_class p = c)"

definition inv_config :: "traffic_controller \<Rightarrow> traffic_state \<Rightarrow> bool" where
  "inv_config tc st \<longleftrightarrow>
     (\<forall>c. bt_contains (st_waiting st) c \<longrightarrow> bt_contains (tc_classes tc) c) \<and>
     (\<forall>c t. queue_of (st_waiting st) c t \<noteq> [] \<longrightarrow> belongs tc c t)"

definition affordable :: "traffic_controller \<Rightarrow> tenant_policy \<Rightarrow> u64 \<Rightarrow> bool" where
  "affordable tc p n \<longleftrightarrow>
     n \<le> pol_max_active_tokens (tc_policy tc) \<and> n \<le> tp_max_active_tokens p \<and>
     (\<forall>k. bt_get (tc_classes tc) (tp_service_class p) = Some k \<longrightarrow> n \<le> cp_max_active_tokens k)"

definition queued_token_total :: "queued_request list \<Rightarrow> nat" where
  "queued_token_total q = sum_list (map qr_token_cost q)"

definition inv_queue :: "traffic_controller \<Rightarrow> traffic_state \<Rightarrow> bool" where
  "inv_queue tc st \<longleftrightarrow>
     (\<forall>t p. bt_get (tc_tenants tc) t = Some p \<longrightarrow>
        (let q = queue_of (st_waiting st) (tp_service_class p) t in
         bt_count (st_tenant_queued_requests st) t = length q \<and>
         bt_count (st_tenant_queued_tokens st) t = queued_token_total q mod 2 ^ 64 \<and>
         (q \<noteq> [] \<longrightarrow> bt_contains (st_tenant_queued_tokens st) t) \<and>
         length q \<le> tp_max_queued_requests p \<and> (\<forall>r \<in> set q. affordable tc p (qr_token_cost r)))) \<and>
     bt_sum (\<lambda>x. x) (st_tenant_queued_requests st) \<le> pol_max_queued_requests (tc_policy tc)"

definition unqueue :: "string \<Rightarrow> string \<Rightarrow> queued_request \<Rightarrow> queued_request list \<Rightarrow> traffic_state \<Rightarrow> traffic_state" where
  "unqueue c t r rest st =
     st\<lparr>st_waiting := set_queue (st_waiting st) c t rest,
        st_tenant_queued_requests := decrement (st_tenant_queued_requests st) t 1,
        st_tenant_queued_tokens := decrement (st_tenant_queued_tokens st) t (qr_token_cost r)\<rparr>"

lemma dequeue_head_unqueue:
  "queue_of (st_waiting st) c t = r # rest \<Longrightarrow> dequeue_head c t st = (r, unqueue c t r rest st)"
  by (simp add: dequeue_head_def unqueue_def Let_def)

lemma unqueue_config:
  assumes "inv_config tc st" and "queue_of (st_waiting st) c t \<noteq> []"
  shows "inv_config tc (unqueue c t r rest st)"
proof -
  have "bt_contains (st_waiting st) c"
    using assms(2) by (auto simp: queue_of_def bt_contains_def split: option.splits)
  with assms show ?thesis by (auto simp: inv_config_def unqueue_def)
qed

lemma bt_count_decrement_tokens:
  assumes "bt_count m k = (v + x) mod 2 ^ 64" and "v < 2 ^ 64" and "bt_contains m k"
  shows "bt_count (decrement m k v) k' = (if k' = k then x mod 2 ^ 64 else bt_count m k')"
  using assms wrap_sub64_mod [OF assms(2), of x]
  by (auto simp: decrement_def bt_count_def bt_contains_def split: option.splits)

lemma contains_decrement [simp]: "bt_contains (decrement m k v) j \<longleftrightarrow> bt_contains m j"
  by (auto simp: decrement_def bt_contains_def split: option.splits)

lemma contains_increment [simp]: "bt_contains (increment m k v) j \<longleftrightarrow> j = k \<or> bt_contains m j"
  by (auto simp: increment_def bt_contains_def)

lemma limits_fit_pow: "limits_fit tc \<Longrightarrow> affordable tc p n \<Longrightarrow> n < 2 ^ 64"
  unfolding limits_fit_def affordable_def less_pow64_iff by linarith

lemma inv_queue_tenant:
  assumes "inv_queue tc st" and "bt_get (tc_tenants tc) t = Some p" and "tp_service_class p = c"
  shows "bt_count (st_tenant_queued_requests st) t = length (queue_of (st_waiting st) c t)"
    and "bt_count (st_tenant_queued_tokens st) t = queued_token_total (queue_of (st_waiting st) c t) mod 2 ^ 64"
    and "queue_of (st_waiting st) c t \<noteq> [] \<Longrightarrow> bt_contains (st_tenant_queued_tokens st) t"
    and "length (queue_of (st_waiting st) c t) \<le> tp_max_queued_requests p"
    and "r \<in> set (queue_of (st_waiting st) c t) \<Longrightarrow> affordable tc p (qr_token_cost r)"
  using assms unfolding inv_queue_def by (auto simp: Let_def)

text \<open>Taking one request out of a queue keeps the queue counters exact.\<close>

lemma unqueue_queue:
  assumes "inv_queue tc st" and "limits_fit tc" and "belongs tc c t"
    and "set rest \<subseteq> set (queue_of (st_waiting st) c t)" and "r \<in> set (queue_of (st_waiting st) c t)"
    and len: "length (queue_of (st_waiting st) c t) = Suc (length rest)"
    and tok: "queued_token_total (queue_of (st_waiting st) c t) = qr_token_cost r + queued_token_total rest"
  shows "inv_queue tc (unqueue c t r rest st)"
proof -
  obtain p where p: "bt_get (tc_tenants tc) t = Some p" "tp_service_class p = c"
    using assms(3) by (auto simp: belongs_def)
  note i = inv_queue_tenant [OF assms(1) p]
  have small: "qr_token_cost r < 2 ^ 64" using limits_fit_pow [OF assms(2) i(5) [OF assms(5)]] .
  have one: "1 \<le> bt_count (st_tenant_queued_requests st) t" using i(1) len by simp
  have has: "bt_contains (st_tenant_queued_tokens st) t" using i(3) len by fastforce
  note reqs = bt_count_decrement [OF one]
  note toks = bt_count_decrement_tokens [OF _ small has, of "queued_token_total rest", OF i(2) [unfolded tok]]
  have "bt_sum (\<lambda>x. x) (decrement (st_tenant_queued_requests st) t 1) \<le> pol_max_queued_requests (tc_policy tc)"
    using bt_sum_decrement [OF one] assms(1) by (auto simp: inv_queue_def)
  moreover have "\<forall>x \<in> set rest. affordable tc p (qr_token_cost x)" using i(5) assms(4) by blast
  ultimately show ?thesis
    using assms(1) p i(4) i(1) len has
    unfolding inv_queue_def unqueue_def by (auto simp: Let_def reqs toks simp del: One_nat_def)
qed

lemma inv_queue_frame:
  assumes "st_waiting st' = st_waiting st" and "st_tenant_queued_requests st' = st_tenant_queued_requests st"
    and "st_tenant_queued_tokens st' = st_tenant_queued_tokens st"
  shows "inv_queue tc st' = inv_queue tc st"
  unfolding inv_queue_def assms ..

lemma inv_config_frame: "st_waiting st' = st_waiting st \<Longrightarrow> inv_config tc st' = inv_config tc st"
  by (simp add: inv_config_def)

lemma active_frame:
  assumes "st_active st' = st_active st"
  shows "requests_where P st' = requests_where P st" and "tokens_where P st' = tokens_where P st"
    and "inv_capacity tc st' = inv_capacity tc st"
proof -
  have r: "requests_where P st' = requests_where P st" for P by (simp add: requests_where_def assms)
  have k: "tokens_where P st' = tokens_where P st" for P by (simp add: tokens_where_def assms)
  show "requests_where P st' = requests_where P st" "tokens_where P st' = tokens_where P st" by (fact r k)+
  show "inv_capacity tc st' = inv_capacity tc st" by (simp add: inv_capacity_def r k assms)
qed

lemma inv_counters_frame:
  assumes "st_active st' = st_active st"
    and "st_class_active_requests st' = st_class_active_requests st"
    and "st_class_active_tokens st' = st_class_active_tokens st"
    and "st_tenant_active_requests st' = st_tenant_active_requests st"
    and "st_tenant_active_tokens st' = st_tenant_active_tokens st"
  shows "inv_counters st' = inv_counters st"
  by (simp add: inv_counters_def assms active_frame(1,2) [OF assms(1)])

end
