(* ===== verification/Traffic_Reach.thy ===== *)
theory Traffic_Reach
  imports Traffic_Safety
begin

text \<open>
  Ticket and permit invariants of the admission scheduler, the preservation of all invariants by
  every critical section, the step relation that interleaves them, and the properties of the
  reachable worlds.
\<close>

section \<open>Tickets and permits\<close>

definition queued_in :: "traffic_state \<Rightarrow> string \<Rightarrow> string \<Rightarrow> u64 \<Rightarrow> bool" where
  "queued_in st c t k \<longleftrightarrow> k \<in> qr_ticket ` set (queue_of (st_waiting st) c t)"

definition inv_tickets :: "traffic_world \<Rightarrow> bool" where
  "inv_tickets w \<longleftrightarrow>
     (\<forall>c t k. queued_in (tw_state w) c t k \<longrightarrow>
        bt_get (st_active (tw_state w)) k = None \<and> k \<notin> tw_held w \<and>
        (bt_get (tw_channels w) k = Some ChanOpen \<or> bt_get (tw_channels w) k = Some ChanClosed)) \<and>
     (\<forall>c t. sorted_wrt (<) (map qr_ticket (queue_of (st_waiting (tw_state w)) c t))) \<and>
     (\<forall>c t c' t' k. queued_in (tw_state w) c t k \<longrightarrow> queued_in (tw_state w) c' t' k \<longrightarrow> c' = c \<and> t' = t) \<and>
     (\<forall>k. bt_get (tw_channels w) k \<noteq> None \<longrightarrow> k \<le> st_next_ticket (tw_state w))"

definition inv_permits :: "traffic_world \<Rightarrow> bool" where
  "inv_permits w \<longleftrightarrow>
     (\<forall>k. bt_get (st_active (tw_state w)) k \<noteq> None \<longleftrightarrow>
        bt_get (tw_channels w) k = Some (ChanFull (Inr k)) \<or> k \<in> tw_held w) \<and>
     (\<forall>k \<in> tw_held w. bt_get (tw_channels w) k = Some ChanClosed) \<and>
     (\<forall>k j. bt_get (tw_channels w) k = Some (ChanFull (Inr j)) \<longrightarrow> j = k)"

definition traffic_inv :: "traffic_controller \<Rightarrow> traffic_world \<Rightarrow> bool" where
  "traffic_inv tc w \<longleftrightarrow>
     inv_counters (tw_state w) \<and> inv_capacity tc (tw_state w) \<and> inv_config tc (tw_state w) \<and>
     inv_queue tc (tw_state w) \<and> inv_tickets w \<and> inv_permits w"

lemma inv_ticketsD:
  assumes "inv_tickets w"
  shows "queued_in (tw_state w) c t k \<Longrightarrow> bt_get (st_active (tw_state w)) k = None"
    and "queued_in (tw_state w) c t k \<Longrightarrow> k \<notin> tw_held w"
    and "queued_in (tw_state w) c t k \<Longrightarrow>
      bt_get (tw_channels w) k = Some ChanOpen \<or> bt_get (tw_channels w) k = Some ChanClosed"
    and "sorted_wrt (<) (map qr_ticket (queue_of (st_waiting (tw_state w)) c t))"
    and "queued_in (tw_state w) c t k \<Longrightarrow> queued_in (tw_state w) c' t' k \<Longrightarrow> c' = c \<and> t' = t"
    and "bt_get (tw_channels w) k \<noteq> None \<Longrightarrow> k \<le> st_next_ticket (tw_state w)"
  using assms unfolding inv_tickets_def by blast+

lemma inv_ticketsI:
  assumes "\<And>c t k. queued_in (tw_state w) c t k \<Longrightarrow> bt_get (st_active (tw_state w)) k = None"
    and "\<And>c t k. queued_in (tw_state w) c t k \<Longrightarrow> k \<notin> tw_held w"
    and "\<And>c t k. queued_in (tw_state w) c t k \<Longrightarrow>
      bt_get (tw_channels w) k = Some ChanOpen \<or> bt_get (tw_channels w) k = Some ChanClosed"
    and "\<And>c t. sorted_wrt (<) (map qr_ticket (queue_of (st_waiting (tw_state w)) c t))"
    and "\<And>c t c' t' k. queued_in (tw_state w) c t k \<Longrightarrow> queued_in (tw_state w) c' t' k \<Longrightarrow> c' = c \<and> t' = t"
    and "\<And>k. bt_get (tw_channels w) k \<noteq> None \<Longrightarrow> k \<le> st_next_ticket (tw_state w)"
  shows "inv_tickets w"
  using assms unfolding inv_tickets_def by blast

lemma inv_permitsD:
  assumes "inv_permits w"
  shows "bt_get (st_active (tw_state w)) k \<noteq> None \<longleftrightarrow>
      bt_get (tw_channels w) k = Some (ChanFull (Inr k)) \<or> k \<in> tw_held w"
    and "k \<in> tw_held w \<Longrightarrow> bt_get (tw_channels w) k = Some ChanClosed"
    and "bt_get (tw_channels w) k = Some (ChanFull (Inr j)) \<Longrightarrow> j = k"
  using assms unfolding inv_permits_def by blast+

text \<open>Queues may shrink and channels may close without disturbing the tickets.\<close>

lemma inv_tickets_shrink:
  assumes inv: "inv_tickets w"
    and sub: "\<And>c t k. queued_in (tw_state w') c t k \<Longrightarrow> queued_in (tw_state w) c t k"
    and act: "\<And>c t k. queued_in (tw_state w') c t k \<Longrightarrow> bt_get (st_active (tw_state w')) k = None \<and> k \<notin> tw_held w'"
    and chan: "\<And>c t k. queued_in (tw_state w') c t k \<Longrightarrow>
      bt_get (tw_channels w') k = bt_get (tw_channels w) k \<or> bt_get (tw_channels w') k = Some ChanClosed"
    and sorted: "\<And>c t. sorted_wrt (<) (map qr_ticket (queue_of (st_waiting (tw_state w')) c t))"
    and dom: "\<And>k. bt_get (tw_channels w') k \<noteq> None \<Longrightarrow> bt_get (tw_channels w) k \<noteq> None"
    and nxt: "st_next_ticket (tw_state w) \<le> st_next_ticket (tw_state w')"
  shows "inv_tickets w'"
proof (rule inv_ticketsI)
  note i = inv_ticketsD [OF inv]
  show "bt_get (tw_channels w') k = Some ChanOpen \<or> bt_get (tw_channels w') k = Some ChanClosed"
    if "queued_in (tw_state w') c t k" for c t k
    using i(3) [OF sub [OF that]] chan [OF that] by auto
  show "c' = c \<and> t' = t" if "queued_in (tw_state w') c t k" "queued_in (tw_state w') c' t' k" for c t c' t' k
    by (rule i(5) [OF sub [OF that(1)] sub [OF that(2)]])
  show "k \<le> st_next_ticket (tw_state w')" if "bt_get (tw_channels w') k \<noteq> None" for k
    using i(6) [OF dom [OF that]] nxt by (rule order_trans)
qed (use act sorted in auto)

lemma queued_in_set_queue:
  "queued_in (st\<lparr>st_waiting := set_queue (st_waiting st) c t q\<rparr>) c' t' k \<longleftrightarrow>
     (if c' = c \<and> t' = t then k \<in> qr_ticket ` set q else queued_in st c' t' k)"
  by (simp add: queued_in_def)

subsection \<open>One round of scheduling\<close>

lemma charge_simps [simp]:
  "st_waiting (charge now p q c t r st) = st_waiting st" "st_active (charge now p q c t r st) = st_active st"
  "st_tenant_queued_requests (charge now p q c t r st) = st_tenant_queued_requests st"
  "st_tenant_queued_tokens (charge now p q c t r st) = st_tenant_queued_tokens st"
  "st_class_active_requests (charge now p q c t r st) = st_class_active_requests st"
  "st_class_active_tokens (charge now p q c t r st) = st_class_active_tokens st"
  "st_tenant_active_requests (charge now p q c t r st) = st_tenant_active_requests st"
  "st_tenant_active_tokens (charge now p q c t r st) = st_tenant_active_tokens st"
  "st_next_ticket (charge now p q c t r st) = st_next_ticket st"
  "st_draining (charge now p q c t r st) = st_draining st"
  by (simp_all add: charge_def)

lemma activate_simps [simp]:
  "st_waiting (activate c t r st) = st_waiting st"
  "st_tenant_queued_requests (activate c t r st) = st_tenant_queued_requests st"
  "st_tenant_queued_tokens (activate c t r st) = st_tenant_queued_tokens st"
  "st_active (activate c t r st) = bt_insert (qr_ticket r) (activated c t r) (st_active st)"
  "st_next_ticket (activate c t r st) = st_next_ticket st" "st_draining (activate c t r st) = st_draining st"
  by (simp_all add: activate_def)

lemma unqueue_simps [simp]:
  "st_waiting (unqueue c t r rest st) = set_queue (st_waiting st) c t rest"
  "st_active (unqueue c t r rest st) = st_active st"
  "st_class_active_requests (unqueue c t r rest st) = st_class_active_requests st"
  "st_class_active_tokens (unqueue c t r rest st) = st_class_active_tokens st"
  "st_tenant_active_requests (unqueue c t r rest st) = st_tenant_active_requests st"
  "st_tenant_active_tokens (unqueue c t r rest st) = st_tenant_active_tokens st"
  "st_next_ticket (unqueue c t r rest st) = st_next_ticket st" "st_draining (unqueue c t r rest st) = st_draining st"
  by (simp_all add: unqueue_def)

lemma release_simps:
  assumes "release_active_locked k st = (x, st')"
  shows "st_waiting st' = st_waiting st" "st_tenant_queued_requests st' = st_tenant_queued_requests st"
    "st_tenant_queued_tokens st' = st_tenant_queued_tokens st" "st_next_ticket st' = st_next_ticket st"
    "st_draining st' = st_draining st" "st_active st' = bt_remove k (st_active st)"
    "x = bt_get (st_active st) k"
  using assms by (auto simp: release_active_locked_def split: option.splits)

text \<open>The state in the middle of a round, when the request is active and its permit is not yet sent.\<close>

abbreviation admitted_state ::
    "instant \<Rightarrow> service_class_policy \<Rightarrow> tenant_policy \<Rightarrow> string \<Rightarrow> string \<Rightarrow> queued_request \<Rightarrow> queued_request list
     \<Rightarrow> traffic_state \<Rightarrow> traffic_state" where
  "admitted_state now klass tenant c t r rest st \<equiv>
     charge now klass tenant c t r (activate c t r (unqueue c t r rest st))"

lemma schedule_step_cases:
  assumes "schedule_step tc now w = Some w'"
  obtains klass tenant c t r rest where
    "bt_get (tc_classes tc) c = Some klass" "bt_get (tc_tenants tc) t = Some tenant"
    "bt_len (st_active (tw_state w)) < pol_max_active_requests (tc_policy tc)"
    "bt_count (st_class_active_requests (tw_state w)) c < cp_max_active_requests klass"
    "queue_of (st_waiting (tw_state w)) c t = r # rest"
    "fits tc (tw_state w) (active_token_sum (tw_state w)) c klass t tenant r"
    "w' = deliver (qr_ticket r) (w\<lparr>tw_state := admitted_state now klass tenant c t r rest (tw_state w)\<rparr>)"
proof -
  from assms obtain c t where choice: "choose_candidate tc (tw_state w) = Some (c, t)"
    and room: "bt_len (st_active (tw_state w)) < pol_max_active_requests (tc_policy tc)"
    by (auto simp: schedule_step_def split: if_splits option.splits)
  from choice obtain klass tenant r rest where facts: "bt_get (tc_classes tc) c = Some klass"
    "bt_get (tc_tenants tc) t = Some tenant"
    "bt_count (st_class_active_requests (tw_state w)) c < cp_max_active_requests klass"
    "queue_of (st_waiting (tw_state w)) c t = r # rest"
    "fits tc (tw_state w) (active_token_sum (tw_state w)) c klass t tenant r"
    by (rule choose_candidate_Some)
  have "w' = deliver (qr_ticket r) (w\<lparr>tw_state := admitted_state now klass tenant c t r rest (tw_state w)\<rparr>)"
    using assms choice room facts by (simp add: schedule_step_def dequeue_head_unqueue)
  with room facts show thesis by (intro that)
qed

text \<open>The comparison in \<open>fits\<close> is exact when the token limit is below the largest \<open>u64\<close>.\<close>

lemma fits_exact:
  assumes "limits_fit tc" and "inv_counters st" and "inv_capacity tc st"
    and "fits tc st (active_token_sum st) c klass t tenant r"
  shows "tokens_where (\<lambda>_. True) st + qr_token_cost r \<le> pol_max_active_tokens (tc_policy tc)"
    and "tokens_where (\<lambda>a. ar_class a = c) st + qr_token_cost r \<le> cp_max_active_tokens klass"
    and "tokens_where (\<lambda>a. ar_tenant a = t) st + qr_token_cost r \<le> tp_max_active_tokens tenant"
    and "requests_where (\<lambda>a. ar_tenant a = t) st < tp_max_active_requests tenant"
proof -
  have total: "tokens_where (\<lambda>_. True) st \<le> pol_max_active_tokens (tc_policy tc)"
    using assms(3) by (simp add: inv_capacity_def)
  have lim: "pol_max_active_tokens (tc_policy tc) < u64_max" using assms(1) by (simp add: limits_fit_def)
  have sum: "active_token_sum st = tokens_where (\<lambda>_. True) st"
    using total lim by (intro active_token_sum_exact) simp
  have "min (tokens_where (\<lambda>_. True) st + qr_token_cost r) u64_max \<le> pol_max_active_tokens (tc_policy tc)"
    using assms(4) by (simp add: fits_def sum sat_add64_def)
  then show t: "tokens_where (\<lambda>_. True) st + qr_token_cost r \<le> pol_max_active_tokens (tc_policy tc)"
    using lim by (auto simp: min_le_iff_disj)
  have below: "tokens_where P st + qr_token_cost r \<le> u64_max" for P
    using tokens_where_le [of P st] t lim by simp
  show "tokens_where (\<lambda>a. ar_class a = c) st + qr_token_cost r \<le> cp_max_active_tokens klass"
    "tokens_where (\<lambda>a. ar_tenant a = t) st + qr_token_cost r \<le> tp_max_active_tokens tenant"
    using assms(2,4) below by (simp_all add: fits_def inv_counters_def sat_add64_exact)
  show "requests_where (\<lambda>a. ar_tenant a = t) st < tp_max_active_requests tenant"
    using assms(2,4) by (simp add: fits_def inv_counters_def)
qed

lemma activate_capacity:
  assumes "inv_capacity tc st" and "bt_get (st_active st) (qr_ticket r) = None"
    and "bt_len (st_active st) < pol_max_active_requests (tc_policy tc)"
    and "bt_get (tc_classes tc) c = Some klass" and "bt_get (tc_tenants tc) t = Some tenant"
    and "requests_where (\<lambda>a. ar_class a = c) st < cp_max_active_requests klass"
    and "tokens_where (\<lambda>_. True) st + qr_token_cost r \<le> pol_max_active_tokens (tc_policy tc)"
    and "tokens_where (\<lambda>a. ar_class a = c) st + qr_token_cost r \<le> cp_max_active_tokens klass"
    and "tokens_where (\<lambda>a. ar_tenant a = t) st + qr_token_cost r \<le> tp_max_active_tokens tenant"
    and "requests_where (\<lambda>a. ar_tenant a = t) st < tp_max_active_requests tenant"
  shows "inv_capacity tc (activate c t r st)"
  using assms unfolding inv_capacity_def activate_where [OF assms(2)]
  by (auto simp: activate_where [OF assms(2)] simp del: activate_simps)

lemma admitted_state_inv:
  assumes inv: "traffic_inv tc w" and lim: "limits_fit tc"
    and c: "bt_get (tc_classes tc) c = Some klass" and t: "bt_get (tc_tenants tc) t = Some tenant"
    and room: "bt_len (st_active (tw_state w)) < pol_max_active_requests (tc_policy tc)"
    and class_room: "bt_count (st_class_active_requests (tw_state w)) c < cp_max_active_requests klass"
    and q: "queue_of (st_waiting (tw_state w)) c t = r # rest"
    and fit: "fits tc (tw_state w) (active_token_sum (tw_state w)) c klass t tenant r"
    and st_def: "st = admitted_state now klass tenant c t r rest (tw_state w)"
  shows "inv_counters st \<and> inv_capacity tc st \<and> inv_config tc st \<and> inv_queue tc st"
    and "bt_get (st_active (tw_state w)) (qr_ticket r) = None"
proof -
  let ?s = "tw_state w" let ?u = "unqueue c t r rest (tw_state w)"
  have i: "inv_counters ?s" "inv_capacity tc ?s" "inv_config tc ?s" "inv_queue tc ?s" "inv_tickets w"
    using inv by (simp_all add: traffic_inv_def)
  have "queued_in ?s c t (qr_ticket r)" using q by (simp add: queued_in_def)
  then show fresh: "bt_get (st_active ?s) (qr_ticket r) = None" using i(5) unfolding inv_tickets_def by blast
  note exact = fits_exact [OF lim i(1,2) fit]
  have small: "bt_len (st_active ?s) < u64_max" "pol_max_active_tokens (tc_policy tc) \<le> u64_max"
    using lim room by (simp_all add: limits_fit_def)
  have u: "inv_counters ?u" "inv_capacity tc ?u"
    using i(1,2) by (simp_all add: inv_counters_frame [of ?u ?s] active_frame(3) [of ?u ?s])
  have a: "inv_counters (activate c t r ?u)"
    using u(1) fresh small exact(1) by (intro activate_counters) (simp_all add: active_frame [of ?u ?s])
  have b: "inv_capacity tc (activate c t r ?u)"
    using u(2) fresh room c t exact class_room i(1)
    by (intro activate_capacity) (simp_all add: active_frame [of ?u ?s] inv_counters_def)
  have bel: "belongs tc c t" using i(3) q by (auto simp: inv_config_def)
  have d: "inv_config tc ?u" by (rule unqueue_config [OF i(3)]) (simp add: q)
  have e: "inv_queue tc ?u"
    using q by (intro unqueue_queue [OF i(4) lim bel]) (auto simp: queued_token_total_def)
  show "inv_counters st \<and> inv_capacity tc st \<and> inv_config tc st \<and> inv_queue tc st"
    unfolding st_def using a b d e
    by (simp add: inv_counters_frame [of "charge now klass tenant c t r (activate c t r ?u)" "activate c t r ?u"]
        active_frame(3) [of "charge now klass tenant c t r (activate c t r ?u)" "activate c t r ?u"]
        inv_config_frame [of "charge now klass tenant c t r (activate c t r ?u)" ?u]
        inv_queue_frame [of "charge now klass tenant c t r (activate c t r ?u)" ?u])
qed

lemma release_inv:
  assumes "release_active_locked k st = (Some a, st')"
    and "inv_counters st \<and> inv_capacity tc st \<and> inv_config tc st \<and> inv_queue tc st"
  shows "inv_counters st' \<and> inv_capacity tc st' \<and> inv_config tc st' \<and> inv_queue tc st'"
  using assms release_counters [of st k a st'] release_capacity [of tc st k a st'] release_simps [OF assms(1)]
  by (simp add: inv_config_frame [of st' st] inv_queue_frame [of st' st])

lemma queued_in_frame: "st_waiting st' = st_waiting st \<Longrightarrow> queued_in st' c t k = queued_in st c t k"
  by (simp add: queued_in_def)

lemma queued_in_tail:
  assumes "inv_tickets w" and "queue_of (st_waiting (tw_state w)) c t = r # rest"
    and "st_waiting st' = set_queue (st_waiting (tw_state w)) c t rest"
  shows "queued_in st' c' t' k \<longleftrightarrow> queued_in (tw_state w) c' t' k \<and> k \<noteq> qr_ticket r"
proof -
  have "sorted_wrt (<) (map qr_ticket (r # rest))"
    using inv_ticketsD(4) [OF assms(1), of c t] assms(2) by simp
  then have notin: "qr_ticket x \<noteq> qr_ticket r" if "x \<in> set rest" for x using that by fastforce
  have head: "queued_in (tw_state w) c t (qr_ticket r)" using assms(2) by (simp add: queued_in_def)
  show ?thesis
  proof (cases "c' = c \<and> t' = t")
    case True
    with assms(2,3) notin show ?thesis by (auto simp: queued_in_def)
  next
    case False
    then have "\<not> queued_in (tw_state w) c' t' (qr_ticket r)"
      using inv_ticketsD(5) [OF assms(1) head, of c' t'] by blast
    moreover have "queued_in st' c' t' k \<longleftrightarrow> queued_in (tw_state w) c' t' k"
      using False assms(3) by (auto simp: queued_in_def)
    ultimately show ?thesis by blast
  qed
qed

lemma schedule_step_tickets:
  assumes inv: "inv_tickets w" "inv_permits w"
    and q: "queue_of (st_waiting (tw_state w)) c t = r # rest"
    and w': "w' = deliver (qr_ticket r) (w\<lparr>tw_state := admitted_state now klass tenant c t r rest (tw_state w)\<rparr>)"
  shows "inv_tickets w' \<and> inv_permits w'"
proof -
  let ?k = "qr_ticket r" let ?st = "admitted_state now klass tenant c t r rest (tw_state w)"
  have head: "queued_in (tw_state w) c t ?k" using q by (simp add: queued_in_def)
  note i = inv_ticketsD [OF inv(1)]
  have sorted: "sorted_wrt (<) (map qr_ticket (queue_of (set_queue (st_waiting (tw_state w)) c t rest) c' t'))" for c' t'
    using i(4) [of c' t'] q by auto
  have tail: "queued_in st' c' t' j \<longleftrightarrow> queued_in (tw_state w) c' t' j \<and> j \<noteq> ?k"
    if "st_waiting st' = set_queue (st_waiting (tw_state w)) c t rest" for st' c' t' j
    by (rule queued_in_tail [OF inv(1) q that])
  show ?thesis
  proof (cases "bt_get (tw_channels w) ?k = Some ChanOpen")
    case True
    then have sent: "w' = w\<lparr>tw_state := ?st, tw_channels := bt_insert ?k (ChanFull (Inr ?k)) (tw_channels w)\<rparr>"
      by (simp add: w' deliver_def oneshot_send_def)
    have "inv_tickets w'"
      by (rule inv_tickets_shrink [OF inv(1)])
        (use i(1,2) True sorted in \<open>auto simp: sent tail split: if_splits\<close>)
    moreover have "inv_permits w'"
      using inv(2) i(2) [OF head] unfolding inv_permits_def sent by auto
    ultimately show ?thesis ..
  next
    case False
    then have gone: "w' = w\<lparr>tw_state := snd (release_active_locked ?k ?st)\<rparr>"
      using i(3) [OF head] by (auto simp: w' deliver_def oneshot_send_def)
    obtain x st' where rel: "release_active_locked ?k ?st = (x, st')" by fastforce
    have st': "st_active st' = st_active (tw_state w)" "st_next_ticket st' = st_next_ticket (tw_state w)"
      "st_waiting st' = set_queue (st_waiting (tw_state w)) c t rest"
      using release_simps [OF rel] i(1) [OF head] by simp_all
    have "inv_tickets w'"
      by (rule inv_tickets_shrink [OF inv(1)])
        (use i(1,2) sorted in \<open>auto simp: gone rel tail [OF st'(3)] st'\<close>)
    moreover have "inv_permits w'"
      using inv(2) st' unfolding inv_permits_def gone rel by simp
    ultimately show ?thesis ..
  qed
qed

lemma schedule_step_inv:
  assumes "limits_fit tc" and "traffic_inv tc w" and "schedule_step tc now w = Some w'"
  shows "traffic_inv tc w'"
  using assms(3)
proof (rule schedule_step_cases)
  fix klass tenant c t r rest
  let ?st = "admitted_state now klass tenant c t r rest (tw_state w)"
  assume facts: "bt_get (tc_classes tc) c = Some klass" "bt_get (tc_tenants tc) t = Some tenant"
    "bt_len (st_active (tw_state w)) < pol_max_active_requests (tc_policy tc)"
    "bt_count (st_class_active_requests (tw_state w)) c < cp_max_active_requests klass"
    "queue_of (st_waiting (tw_state w)) c t = r # rest"
    "fits tc (tw_state w) (active_token_sum (tw_state w)) c klass t tenant r"
    and w': "w' = deliver (qr_ticket r) (w\<lparr>tw_state := ?st\<rparr>)"
  note st = admitted_state_inv [OF assms(2,1) facts, of _ now, OF refl]
  have tick: "inv_tickets w' \<and> inv_permits w'"
    using assms(2) facts(5) w' by (intro schedule_step_tickets) (auto simp: traffic_inv_def)
  obtain x st' where rel: "release_active_locked (qr_ticket r) ?st = (x, st')" by fastforce
  have "x = Some (activated c t r)" using release_simps(7) [OF rel] by simp
  with rel have "release_active_locked (qr_ticket r) ?st = (Some (activated c t r), st')" by simp
  from release_inv [OF this st(1)]
  have "inv_counters (tw_state w') \<and> inv_capacity tc (tw_state w') \<and> inv_config tc (tw_state w') \<and> inv_queue tc (tw_state w')"
    using st(1) by (auto simp: w' deliver_def rel split: prod.split bool.split)
  with tick show "traffic_inv tc w'" by (simp add: traffic_inv_def)
qed

lemma schedule_locked_traffic_inv:
  "limits_fit tc \<Longrightarrow> traffic_inv tc w \<Longrightarrow> traffic_inv tc (schedule_locked tc now w)"
  by (rule schedule_locked_inv) (blast intro: schedule_step_inv)+

subsection \<open>Operations that leave the scheduling state alone\<close>

definition traffic_core where
  "traffic_core st =
     ((st_next_ticket st, st_waiting st, st_active st),
      (st_class_active_requests st, st_class_active_tokens st),
      (st_tenant_active_requests st, st_tenant_active_tokens st),
      (st_tenant_queued_requests st, st_tenant_queued_tokens st))"

lemma traffic_inv_frame:
  assumes "traffic_core (tw_state w') = traffic_core (tw_state w)"
    and "tw_channels w' = tw_channels w" and "tw_held w' = tw_held w"
  shows "traffic_inv tc w' = traffic_inv tc w"
  using assms
  by (simp add: traffic_inv_def traffic_core_def inv_counters_frame [of "tw_state w'" "tw_state w"]
      active_frame(3) [of "tw_state w'" "tw_state w"] inv_config_frame [of "tw_state w'" "tw_state w"]
      inv_queue_frame [of "tw_state w'" "tw_state w"] inv_tickets_def inv_permits_def
      queued_in_frame [of "tw_state w'" "tw_state w"])

lemma reject_inv [simp]: "traffic_inv tc (reject tenant reason w) = traffic_inv tc w"
  by (rule traffic_inv_frame) (simp_all add: reject_def record_rejection_locked_def traffic_core_def)

lemma resume_inv [simp]: "traffic_inv tc (resume w) = traffic_inv tc w"
  by (rule traffic_inv_frame) (simp_all add: resume_def traffic_core_def)

lemma record_termination_inv [simp]: "traffic_inv tc (record_termination tc' ctx reason w) = traffic_inv tc w"
  by (rule traffic_inv_frame) (simp_all add: record_termination_def traffic_core_def split: option.split)

lemma drain_expire_inv: "drain_expire w cancelled = (rep, w', cancelled') \<Longrightarrow> traffic_inv tc w' = traffic_inv tc w"
  by (rule traffic_inv_frame) (auto simp: drain_expire_def Let_def traffic_core_def)

lemma normalize_core [simp]: "traffic_core (normalize_idle_vruntime_locked tc tenant st) = traffic_core st"
  by (simp add: normalize_idle_vruntime_locked_def traffic_core_def Let_def)

subsection \<open>Admission\<close>

lemma enqueue_queue:
  assumes "inv_queue tc st" and "limits_fit tc" and p: "bt_get (tc_tenants tc) (tp_id p) = Some p"
    and "queued_requests st < pol_max_queued_requests (tc_policy tc)"
    and "bt_count (st_tenant_queued_requests st) (tp_id p) < tp_max_queued_requests p"
    and "affordable tc p n"
  shows "inv_queue tc (enqueue p n now tok ticket st)"
proof -
  let ?t = "tp_id p" and ?c = "tp_service_class p"
  note i = inv_queue_tenant [OF assms(1) p refl]
  have sum: "bt_sum (\<lambda>x. x) (st_tenant_queued_requests st) \<le> u64_max"
    using assms(1,2) unfolding inv_queue_def limits_fit_def by linarith
  then have q: "queued_requests st = bt_sum (\<lambda>x. x) (st_tenant_queued_requests st)"
    by (simp add: queued_requests_def sum_u64_exact bt_sum_def)
  have "bt_count (st_tenant_queued_requests st) ?t \<le> bt_sum (\<lambda>x. x) (st_tenant_queued_requests st)"
    using bt_sum_member_le [of "st_tenant_queued_requests st" ?t _ "\<lambda>x. x"]
    by (auto simp: bt_count_def split: option.split)
  then have one: "bt_count (st_tenant_queued_requests st) ?t + 1 \<le> u64_max"
    using assms(2,4) q by (simp add: limits_fit_def)
  have total: "bt_sum (\<lambda>x. x) (increment (st_tenant_queued_requests st) ?t 1) \<le> pol_max_queued_requests (tc_policy tc)"
    using bt_sum_increment [OF one] assms(4) q by simp
  have toks: "bt_count (increment (st_tenant_queued_tokens st) ?t n) t =
      (if t = ?t then (queued_token_total (queue_of (st_waiting st) ?c ?t) + n) mod 2 ^ 64
       else bt_count (st_tenant_queued_tokens st) t)" for t
    using i(2) by (simp add: increment_def wrap_add64_def mod_add_left_eq)
  show ?thesis
    using assms(1,5,6) i total
    unfolding inv_queue_def enqueue_def
    by (auto simp: Let_def bt_count_increment [OF one] toks queued_token_total_def p simp del: One_nat_def)
qed

lemma enqueue_tickets:
  assumes i: "inv_tickets w" "inv_permits w" and tick: "ticket = Suc (st_next_ticket (tw_state w))"
    and act: "st_active e = st_active (tw_state w)" and nxt: "st_next_ticket e = ticket"
    and q: "\<And>c t. queue_of (st_waiting e) c t = queue_of (st_waiting (tw_state w)) c t @
       (if c = c0 \<and> t = t0 then [r] else [])" and r: "qr_ticket r = ticket"
  shows "inv_tickets (w\<lparr>tw_state := e, tw_channels := bt_insert ticket ChanOpen (tw_channels w)\<rparr>) \<and>
     inv_permits (w\<lparr>tw_state := e, tw_channels := bt_insert ticket ChanOpen (tw_channels w)\<rparr>)"
    (is "inv_tickets ?w \<and> inv_permits ?w")
proof -
  note d = inv_ticketsD [OF i(1)]
  have fresh: "bt_get (tw_channels w) ticket = None"
    using d(6) [of ticket] tick by (cases "bt_get (tw_channels w) ticket") auto
  then have noheld: "ticket \<notin> tw_held w" using inv_permitsD(2) [OF i(2), of ticket] by auto
  then have noact: "bt_get (st_active (tw_state w)) ticket = None" "ticket \<notin> tw_held w"
    using inv_permitsD(1) [OF i(2), of ticket] fresh by auto
  have in_e: "queued_in e c t k \<longleftrightarrow> queued_in (tw_state w) c t k \<or> c = c0 \<and> t = t0 \<and> k = ticket" for c t k
    by (auto simp: queued_in_def q r)
  have old: "k < ticket" if "queued_in (tw_state w) c t k" for c t k
    using d(3) [OF that] d(6) [of k] tick by auto
  have "inv_tickets ?w"
  proof (rule inv_ticketsI)
    show "sorted_wrt (<) (map qr_ticket (queue_of (st_waiting (tw_state ?w)) c t))" for c t
      using d(4) [of c t] old [of c t] by (auto simp: q r sorted_wrt_append queued_in_def)
    show "c' = c \<and> t' = t" if "queued_in (tw_state ?w) c t k" "queued_in (tw_state ?w) c' t' k" for c t c' t' k
      using that d(5) [of c t k c' t'] old by (auto simp: in_e)
    show "k \<le> st_next_ticket (tw_state ?w)" if "bt_get (tw_channels ?w) k \<noteq> None" for k
      using that d(6) [of k] tick nxt by (auto split: if_splits)
    show "bt_get (tw_channels ?w) k = Some ChanOpen \<or> bt_get (tw_channels ?w) k = Some ChanClosed"
      if "queued_in (tw_state ?w) c t k" for c t k
      using that d(3) [of c t k] by (auto simp: in_e)
  qed (use d(1,2) noact in \<open>auto simp: in_e act split: if_splits\<close>)
  moreover have "inv_permits ?w"
    using i(2) noact fresh unfolding inv_permits_def by (auto simp: act)
  ultimately show ?thesis ..
qed

lemma enqueue_inv:
  assumes inv: "traffic_inv tc w" and lim: "limits_fit tc" and ok: "controller_ok tc"
    and p: "bt_get (tc_tenants tc) (tp_id p) = Some p"
    and "queued_requests (tw_state w) < pol_max_queued_requests (tc_policy tc)"
    and "bt_count (st_tenant_queued_requests (tw_state w)) (tp_id p) < tp_max_queued_requests p"
    and "affordable tc p n" and next_ticket: "ticket = Suc (st_next_ticket (tw_state w))"
    and core: "traffic_core st1 = traffic_core ((tw_state w)\<lparr>st_next_ticket := ticket\<rparr>)"
  shows "traffic_inv tc (w\<lparr>tw_state := enqueue p n now tok ticket st1,
           tw_channels := bt_insert ticket ChanOpen (tw_channels w)\<rparr>)" (is "traffic_inv tc ?w")
proof -
  let ?s = "tw_state w" let ?e = "enqueue p n now tok ticket st1"
  have i: "inv_counters ?s" "inv_capacity tc ?s" "inv_config tc ?s" "inv_queue tc ?s" "inv_tickets w" "inv_permits w"
    using inv by (simp_all add: traffic_inv_def)
  have st1: "st_waiting st1 = st_waiting ?s" "st_active st1 = st_active ?s" "st_next_ticket st1 = ticket"
    "st_tenant_queued_requests st1 = st_tenant_queued_requests ?s"
    "st_tenant_queued_tokens st1 = st_tenant_queued_tokens ?s"
    "st_class_active_requests st1 = st_class_active_requests ?s" "st_class_active_tokens st1 = st_class_active_tokens ?s"
    "st_tenant_active_requests st1 = st_tenant_active_requests ?s" "st_tenant_active_tokens st1 = st_tenant_active_tokens ?s"
    using core by (simp_all add: traffic_core_def)
  have e: "st_active ?e = st_active ?s" "st_next_ticket ?e = ticket"
    "queue_of (st_waiting ?e) c t = queue_of (st_waiting ?s) c t @
       (if c = tp_service_class p \<and> t = tp_id p then [\<lparr>qr_ticket = ticket, qr_token_cost = n, qr_enqueued_at = now, qr_cancellation = tok\<rparr>] else [])"
    "bt_contains (st_waiting ?e) c \<longleftrightarrow> c = tp_service_class p \<or> bt_contains (st_waiting ?s) c" for c t
    by (simp_all add: enqueue_def Let_def st1)
  have q1: "inv_queue tc st1" using i(4) by (simp add: inv_queue_frame [of st1 ?s] st1)
  have "inv_queue tc ?e"
    using assms(5-7) p by (intro enqueue_queue [OF q1 lim]) (simp_all add: queued_requests_def st1)
  moreover have "inv_counters ?e \<and> inv_capacity tc ?e"
    using i(1,2) inv_counters_frame [of ?e ?s] active_frame(3) [of ?e ?s tc] e(1)
    by (simp add: enqueue_def st1 Let_def)
  moreover have "inv_config tc ?e"
  proof -
    have "bt_contains (tc_classes tc) (tp_service_class p)" "belongs tc (tp_service_class p) (tp_id p)"
      using p ok unfolding controller_ok_def belongs_def by blast+
    then show ?thesis using i(3) unfolding inv_config_def e by auto
  qed
  moreover have "inv_tickets ?w \<and> inv_permits ?w"
    by (rule enqueue_tickets [OF i(5,6) next_ticket e(1,2,3)]) simp
  ultimately show ?thesis by (simp add: traffic_inv_def)
qed

lemma controller_tenant:
  assumes "controller_ok tc" and "bt_get (tc_tenants tc) t = Some p"
  shows "tp_id p = t" and "\<exists>k. bt_get (tc_classes tc) (tp_service_class p) = Some k"
  using assms unfolding controller_ok_def bt_contains_def by blast+

lemma admit_locked_inv:
  assumes "traffic_inv tc w" and "limits_fit tc" and "controller_ok tc"
    and "bt_get (tc_tenants tc) (tp_id p) = Some p" and "affordable tc p n"
    and "st_next_ticket (tw_state w) < u64_max" and "admit_locked tc p klass n tok now w = (res, w')"
  shows "traffic_inv tc w'"
proof -
  have tick: "sat_add64 (st_next_ticket (tw_state w)) 1 = Suc (st_next_ticket (tw_state w))"
    using assms(6) by (simp add: sat_add64_exact)
  show ?thesis
    using assms(7,1) unfolding admit_locked_def Let_def tick
    by (auto split: if_splits intro!: schedule_locked_traffic_inv enqueue_inv assms(1-5))
qed

lemma admit_begin_inv:
  assumes "traffic_inv tc w" and "limits_fit tc" and "controller_ok tc"
    and "st_next_ticket (tw_state w) < u64_max" and "admit_begin tc n ctx cancelled now w = (res, w')"
  shows "traffic_inv tc w'"
proof (cases "ensure_active ctx cancelled now")
  case (Inl e)
  then show ?thesis using assms by (simp add: admit_begin_def)
next
  case (Inr u)
  show ?thesis
  proof (cases "Option.bind (oc_tenant_id ctx) (bt_get (tc_tenants tc))")
    case None
    then show ?thesis using assms(1,5) Inr by (auto simp: admit_begin_def bind_eq_None_conv split: option.splits)
  next
    case (Some p)
    then obtain t where t: "oc_tenant_id ctx = Some t" "bt_get (tc_tenants tc) t = Some p"
      by (auto simp: bind_eq_Some_conv)
    obtain k where k: "tp_id p = t" "bt_get (tc_classes tc) (tp_service_class p) = Some k"
      using controller_tenant [OF assms(3) t(2)] by blast
    have "affordable tc p n" if "\<not> n > pol_max_active_tokens (tc_policy tc)"
      "\<not> n > cp_max_active_tokens k" "\<not> n > tp_max_active_tokens p"
      using that k by (simp add: affordable_def)
    then show ?thesis
      using assms(1,5) Inr t k admit_locked_inv [OF assms(1-3) _ _ assms(4), of p n]
      by (auto simp: admit_begin_def Let_def split: if_splits)
  qed
qed

subsection \<open>Leaving the queue\<close>

lemma split_at_ticket_Some:
  assumes "split_at_ticket k q = Some (r, rest)"
  shows "\<exists>pre post. q = pre @ r # post \<and> rest = pre @ post \<and> qr_ticket r = k"
  using assms
proof (induction q arbitrary: rest)
  case (Cons x q)
  show ?case
  proof (cases "qr_ticket x = k")
    case True
    with Cons.prems show ?thesis by (intro exI [of _ "[]"] exI [of _ q]) auto
  next
    case False
    with Cons.prems obtain rest' where "split_at_ticket k q = Some (r, rest')" "rest = x # rest'" by auto
    with Cons.IH [of rest'] show ?thesis by (metis append_Cons)
  qed
qed simp

lemma unqueue_inv:
  assumes inv: "traffic_inv tc w" and lim: "limits_fit tc"
    and q: "queue_of (st_waiting (tw_state w)) c t = pre @ r # post"
    and ch: "tw_channels w' = tw_channels w \<or> (\<exists>e. bt_get (tw_channels w) (qr_ticket r) = Some ChanOpen \<and>
      tw_channels w' = bt_insert (qr_ticket r) (ChanFull (Inl e)) (tw_channels w))"
    and held: "tw_held w' = tw_held w"
    and core: "traffic_core (tw_state w') = traffic_core (unqueue c t r (pre @ post) (tw_state w))"
  shows "traffic_inv tc w'"
proof -
  let ?s = "tw_state w" let ?u = "unqueue c t r (pre @ post) (tw_state w)"
  have i: "inv_counters ?s" "inv_capacity tc ?s" "inv_config tc ?s" "inv_queue tc ?s" "inv_tickets w" "inv_permits w"
    using inv by (simp_all add: traffic_inv_def)
  note d = inv_ticketsD [OF i(5)]
  have "belongs tc c t" using i(3) q by (auto simp: inv_config_def)
  then have "inv_queue tc ?u"
    using q by (intro unqueue_queue [OF i(4) lim]) (auto simp: queued_token_total_def)
  moreover have "inv_config tc ?u" by (rule unqueue_config [OF i(3)]) (simp add: q)
  moreover have "inv_counters ?u \<and> inv_capacity tc ?u"
    using i(1,2) by (simp add: inv_counters_frame [of ?u ?s] active_frame(3) [of ?u ?s])
  ultimately have u: "inv_counters (tw_state w') \<and> inv_capacity tc (tw_state w') \<and> inv_config tc (tw_state w') \<and> inv_queue tc (tw_state w')"
    using core
    by (simp add: traffic_core_def inv_counters_frame [of "tw_state w'" ?u] active_frame(3) [of "tw_state w'" ?u]
        inv_config_frame [of "tw_state w'" ?u] inv_queue_frame [of "tw_state w'" ?u] del: unqueue_simps)
  have st: "st_waiting (tw_state w') = set_queue (st_waiting ?s) c t (pre @ post)" "st_active (tw_state w') = st_active ?s"
    "st_next_ticket (tw_state w') = st_next_ticket ?s"
    using core by (simp_all add: traffic_core_def)
  have srt: "sorted_wrt (<) (map qr_ticket (pre @ r # post))" using d(4) [of c t] q by simp
  have head: "queued_in ?s c t (qr_ticket r)" using q by (simp add: queued_in_def)
  have in_w': "queued_in ?s c' t' k \<and> k \<noteq> qr_ticket r" if "queued_in (tw_state w') c' t' k" for c' t' k
  proof (cases "c' = c \<and> t' = t")
    case True
    with that q srt show ?thesis by (fastforce simp: queued_in_def st sorted_wrt_append)
  next
    case False
    then have old: "queued_in ?s c' t' k" using that by (auto simp: queued_in_def st)
    with False d(5) [OF head, of c' t'] show ?thesis by blast
  qed
  have "inv_tickets w'"
  proof (rule inv_tickets_shrink [OF i(5)])
    show "bt_get (tw_channels w') k = bt_get (tw_channels w) k \<or> bt_get (tw_channels w') k = Some ChanClosed"
      if "queued_in (tw_state w') c t k" for c t k
      using ch in_w' [OF that] by auto
    show "sorted_wrt (<) (map qr_ticket (queue_of (st_waiting (tw_state w')) c' t'))" for c' t'
      using d(4) [of c' t'] srt by (auto simp: st sorted_wrt_append)
    show "bt_get (tw_channels w) k \<noteq> None" if "bt_get (tw_channels w') k \<noteq> None" for k
      using ch that by (auto split: if_splits)
    show "bt_get (st_active (tw_state w')) k = None \<and> k \<notin> tw_held w'" if "queued_in (tw_state w') c t k" for c t k
      using in_w' [OF that] d(1,2) [of c t k] held st(2) by simp
  qed (use in_w' st in auto)
  moreover have "inv_permits w'"
    using i(6) ch held d(1,2) [OF head] unfolding inv_permits_def st by (auto split: if_splits)
  ultimately show ?thesis using u by (simp add: traffic_inv_def)
qed

lemma cancel_waiter_inv:
  assumes "traffic_inv tc w" and "limits_fit tc"
  shows "traffic_inv tc (cancel_waiter tc k p reason now w)"
proof (cases "split_at_ticket k (queue_of (st_waiting (tw_state w)) (tp_service_class p) (tp_id p))")
  case None
  with assms show ?thesis by (simp add: cancel_waiter_def)
next
  case (Some x)
  obtain r rest where x: "x = (r, rest)" by (cases x)
  let ?w = "w\<lparr>tw_state := unqueue (tp_service_class p) (tp_id p) r rest (tw_state w)\<rparr>"
  obtain pre post where q: "queue_of (st_waiting (tw_state w)) (tp_service_class p) (tp_id p) = pre @ r # post"
    and rest: "rest = pre @ post"
    using split_at_ticket_Some [OF Some [unfolded x]] by blast
  have "traffic_inv tc ?w" by (rule unqueue_inv [OF assms q]) (simp_all add: rest)
  then have "traffic_inv tc (schedule_locked tc now (reject p reason ?w))"
    by (intro schedule_locked_traffic_inv assms) simp
  with Some show ?thesis by (simp add: cancel_waiter_def x unqueue_def Let_def)
qed

subsection \<open>Receiving and releasing permits\<close>

lemma release_inv_world:
  assumes state: "inv_counters (tw_state w)" "inv_capacity tc (tw_state w)" "inv_config tc (tw_state w)"
      "inv_queue tc (tw_state w)"
    and tick: "inv_tickets w" and lim: "limits_fit tc"
    and others: "\<And>j. j \<noteq> k \<Longrightarrow> bt_get (st_active (tw_state w)) j \<noteq> None \<longleftrightarrow>
      bt_get (tw_channels w) j = Some (ChanFull (Inr j)) \<or> j \<in> tw_held w"
    and mine: "k \<notin> tw_held w" "bt_get (tw_channels w) k \<noteq> Some (ChanFull (Inr k))"
    and rest: "\<And>j. j \<in> tw_held w \<Longrightarrow> bt_get (tw_channels w) j = Some ChanClosed"
      "\<And>j i. bt_get (tw_channels w) j = Some (ChanFull (Inr i)) \<Longrightarrow> i = j"
  shows "traffic_inv tc (snd (release tc k now w))"
proof -
  obtain x st where rel: "release_active_locked k (tw_state w) = (x, st)" by fastforce
  note st = release_simps [OF rel]
  have "inv_counters st \<and> inv_capacity tc st \<and> inv_config tc st \<and> inv_queue tc st"
    using state release_inv [of k "tw_state w" _ st tc] rel
    by (cases x) (auto simp: release_active_locked_def split: option.splits)
  moreover have "inv_tickets (w\<lparr>tw_state := st\<rparr>)"
    using inv_ticketsD [OF tick]
    by (intro inv_tickets_shrink [OF tick]) (auto simp: st queued_in_frame [OF st(1)])
  moreover have "inv_permits (w\<lparr>tw_state := st\<rparr>)"
    unfolding inv_permits_def using others mine rest by (auto simp: st)
  ultimately have inv: "traffic_inv tc (w\<lparr>tw_state := st\<rparr>)" by (simp add: traffic_inv_def)
  show ?thesis
  proof (cases x)
    case None
    with rel have "st = tw_state w" by (auto simp: release_active_locked_def split: option.splits)
    with inv None rel show ?thesis by (simp add: release_def)
  next
    case (Some a)
    with inv rel show ?thesis by (simp add: release_def Let_def schedule_locked_traffic_inv [OF lim])
  qed
qed

lemma drop_permit_inv:
  assumes "traffic_inv tc w" and "limits_fit tc"
  shows "traffic_inv tc (drop_permit tc k now w)"
proof (cases "k \<in> tw_held w")
  case True
  let ?w = "w\<lparr>tw_held := tw_held w - {k}\<rparr>"
  have i: "inv_tickets w" "inv_permits w" using assms(1) by (simp_all add: traffic_inv_def)
  have "inv_tickets ?w"
    using inv_ticketsD [OF i(1)] by (intro inv_tickets_shrink [OF i(1)]) auto
  then have "traffic_inv tc (snd (release tc k now ?w))"
    using assms inv_permitsD [OF i(2)] True
    by (intro release_inv_world) (auto simp: traffic_inv_def)
  with True show ?thesis by (simp add: drop_permit_def)
next
  case False
  with assms show ?thesis by (simp add: drop_permit_def)
qed

lemma full_not_queued:
  "inv_tickets w \<Longrightarrow> bt_get (tw_channels w) k = Some (ChanFull m) \<Longrightarrow> \<not> queued_in (tw_state w) c t k"
  using inv_ticketsD(3) [of w c t k] by auto

lemma close_channel_tickets:
  assumes "inv_tickets w" and "bt_get (tw_channels w) k \<noteq> None"
    and "tw_state w' = tw_state w" and "tw_channels w' = bt_insert k ChanClosed (tw_channels w)"
    and "tw_held w' = tw_held w \<or> (\<exists>m. bt_get (tw_channels w) k = Some (ChanFull m) \<and> tw_held w' = insert k (tw_held w))"
  shows "inv_tickets w'"
proof (rule inv_tickets_shrink [OF assms(1)])
  show "bt_get (st_active (tw_state w')) j = None \<and> j \<notin> tw_held w'" if "queued_in (tw_state w') c t j" for c t j
    using that assms(3,5) inv_ticketsD(1,2) [OF assms(1), of c t j] full_not_queued [OF assms(1), of k _ c t] by auto
qed (use assms inv_ticketsD(4) [OF assms(1)] in \<open>auto split: if_splits\<close>)

lemma receive_permit_inv:
  assumes "traffic_inv tc w" and "receive_permit k w = (res, w')"
  shows "traffic_inv tc w'"
proof (cases "\<exists>m. bt_get (tw_channels w) k = Some (ChanFull m)")
  case False
  with assms show ?thesis by (auto simp: receive_permit_def split: option.splits channel.splits)
next
  case True
  then obtain m where m: "bt_get (tw_channels w) k = Some (ChanFull m)" ..
  have i: "inv_tickets w" "inv_permits w" using assms(1) by (simp_all add: traffic_inv_def)
  note p = inv_permitsD [OF i(2)]
  have m': "m = Inr k" if "m = Inr j" for j using p(3) m that by blast
  have w': "tw_state w' = tw_state w" "tw_channels w' = bt_insert k ChanClosed (tw_channels w)"
    "tw_held w' = (case m of Inl _ \<Rightarrow> tw_held w | Inr _ \<Rightarrow> insert k (tw_held w))"
    using assms(2) m m' by (cases m; auto simp: receive_permit_def)+
  have "tw_held w' = tw_held w \<or> (\<exists>m. bt_get (tw_channels w) k = Some (ChanFull m) \<and> tw_held w' = insert k (tw_held w))"
    using m by (cases m) (simp_all add: w'(3))
  then have "inv_tickets w'"
    using m by (intro close_channel_tickets [OF i(1) _ w'(1,2)]) simp_all
  moreover have "inv_permits w'"
  proof (cases m)
    case (Inl e)
    then have held: "tw_held w' = tw_held w" by (simp add: w')
    show ?thesis
      using i(2) m Inl unfolding inv_permits_def w'(1,2) held by (simp split: if_splits)
  next
    case (Inr j)
    then have held: "tw_held w' = insert k (tw_held w)" and "m = Inr k" using m' by (simp_all add: w')
    then show ?thesis
      using i(2) m unfolding inv_permits_def w'(1,2) held by (simp split: if_splits)
  qed
  ultimately show ?thesis using assms(1) w'(1) by (simp add: traffic_inv_def)
qed

lemma drop_receiver_inv:
  assumes "traffic_inv tc w" and "limits_fit tc"
  shows "traffic_inv tc (drop_receiver tc k now w)"
proof (cases "bt_get (tw_channels w) k")
  case None
  with assms show ?thesis by (simp add: drop_receiver_def)
next
  case (Some ch)
  let ?w = "w\<lparr>tw_channels := bt_insert k ChanClosed (tw_channels w)\<rparr>"
  have i: "inv_tickets w" "inv_permits w" using assms(1) by (simp_all add: traffic_inv_def)
  note p = inv_permitsD [OF i(2)]
  have t: "inv_tickets ?w" by (rule close_channel_tickets [OF i(1), of k]) (simp_all add: Some)
  show ?thesis
  proof (cases "\<exists>j. ch = ChanFull (Inr j)")
    case True
    then have ch: "ch = ChanFull (Inr k)" using p(3) Some by blast
    have held: "k \<notin> tw_held w" using p(2) [of k] Some ch by auto
    have "traffic_inv tc (snd (release tc k now ?w))"
    proof (rule release_inv_world [OF _ _ _ _ t assms(2)])
      show "bt_get (st_active (tw_state ?w)) j \<noteq> None \<longleftrightarrow>
          bt_get (tw_channels ?w) j = Some (ChanFull (Inr j)) \<or> j \<in> tw_held ?w" if "j \<noteq> k" for j
        using p(1) [of j] that by simp
      show "i = j" if "bt_get (tw_channels ?w) j = Some (ChanFull (Inr i))" for i j
        using p(3) [of j i] that by (simp split: if_splits)
    qed (use assms(1) held p(2) in \<open>auto simp: traffic_inv_def\<close>)
    with Some ch show ?thesis by (simp add: drop_receiver_def)
  next
    case False
    have "inv_permits ?w"
      using i(2) False Some unfolding inv_permits_def by (auto split: if_splits)
    with t assms(1) have "traffic_inv tc ?w" by (simp add: traffic_inv_def)
    with False Some show ?thesis by (auto simp: drop_receiver_def Let_def split: channel.split sum.split)
  qed
qed

subsection \<open>Draining\<close>

text \<open>
  While \<open>begin_drain\<close> walks over the queues it took, the queues still to be walked are no longer
  in the state. Putting them back gives a world in which every visited request leaves its queue.
\<close>

abbreviation with_waiting :: "traffic_world \<Rightarrow> waiting_queues \<Rightarrow> traffic_world" where
  "with_waiting w q \<equiv> w\<lparr>tw_state := (tw_state w)\<lparr>st_waiting := q\<rparr>\<rparr>"

lemma drain_one_inv:
  assumes "traffic_inv tc (with_waiting w q)" and "limits_fit tc" and "queue_of q c t = r # rest"
  shows "traffic_inv tc (with_waiting (drain_one p t r w) (set_queue q c t rest))"
  by (rule unqueue_inv [OF assms(1,2), of c t "[]" r rest])
    (use assms(3) in \<open>auto simp: drain_one_def Let_def oneshot_send_def record_rejection_locked_def
      traffic_core_def unqueue_def split: option.split channel.split\<close>)

lemma drain_queue_inv:
  assumes "limits_fit tc" and "traffic_inv tc (with_waiting w q)" and "queue_of q c t = rs"
  shows "\<exists>q'. traffic_inv tc (with_waiting (drain_queue tc (t, rs) w) q') \<and>
     (\<forall>c' t'. queue_of q' c' t' = (if c' = c \<and> t' = t then [] else queue_of q c' t'))"
proof (cases rs)
  case Nil
  with assms show ?thesis by (intro exI [of _ q]) (auto simp: drain_queue_def split: option.split)
next
  case (Cons r0 rest0)
  have "belongs tc c t" using assms(2,3) Cons by (auto simp: traffic_inv_def inv_config_def)
  then obtain p where p: "bt_get (tc_tenants tc) t = Some p" by (auto simp: belongs_def)
  have "\<exists>q'. traffic_inv tc (with_waiting (fold (drain_one p t) rs w) q') \<and>
     (\<forall>c' t'. queue_of q' c' t' = (if c' = c \<and> t' = t then [] else queue_of q c' t'))"
    using assms(2,3)
  proof (induction rs arbitrary: w q)
    case Nil
    then show ?case by (intro exI [of _ q]) auto
  next
    case (Cons r rs)
    from Cons.IH [OF drain_one_inv [OF Cons.prems(1) assms(1) Cons.prems(2), of p]] show ?case by force
  qed
  with p show ?thesis by (simp add: drain_queue_def)
qed

lemma drain_tenants_inv:
  assumes "limits_fit tc"
  shows "distinct (map fst tes) \<Longrightarrow> traffic_inv tc (with_waiting w q) \<Longrightarrow>
    (\<And>t rs. (t, rs) \<in> set tes \<Longrightarrow> queue_of q c t = rs) \<Longrightarrow>
    \<exists>q'. traffic_inv tc (with_waiting (fold (drain_queue tc) tes w) q') \<and>
      (\<forall>c' t'. queue_of q' c' t' = (if c' = c \<and> t' \<in> fst ` set tes then [] else queue_of q c' t'))"
proof (induction tes arbitrary: w q)
  case Nil
  then show ?case by (intro exI [of _ q]) simp
next
  case (Cons e tes)
  obtain t rs where e: "e = (t, rs)" by (cases e)
  have rs: "queue_of q c t = rs" using Cons.prems(3) by (simp add: e)
  obtain q1 where q1: "traffic_inv tc (with_waiting (drain_queue tc (t, rs) w) q1)"
    "\<And>c' t'. queue_of q1 c' t' = (if c' = c \<and> t' = t then [] else queue_of q c' t')"
    using drain_queue_inv [OF assms Cons.prems(2) rs] by blast
  have notin: "t \<notin> fst ` set tes" using Cons.prems(1) by (simp add: e)
  have "queue_of q1 c t' = rs'" if "(t', rs') \<in> set tes" for t' rs'
    using that notin Cons.prems(3) by (auto simp: q1(2) rev_image_eqI)
  with Cons.IH [OF _ q1(1)] Cons.prems(1) obtain q' where
    "traffic_inv tc (with_waiting (fold (drain_queue tc) tes (drain_queue tc (t, rs) w)) q')"
    "\<And>c' t'. queue_of q' c' t' = (if c' = c \<and> t' \<in> fst ` set tes then [] else queue_of q1 c' t')"
    by (auto simp: e)
  then show ?case by (intro exI [of _ q']) (auto simp: e q1(2))
qed

lemma drain_classes_inv:
  assumes "limits_fit tc"
  shows "distinct (map fst es) \<Longrightarrow> traffic_inv tc (with_waiting w q) \<Longrightarrow>
    (\<And>c ts t rs. (c, ts) \<in> set es \<Longrightarrow> (t, rs) \<in> set (entries ts) \<Longrightarrow> queue_of q c t = rs) \<Longrightarrow>
    \<exists>q'. traffic_inv tc (with_waiting (fold (\<lambda>ts. fold (drain_queue tc) (entries ts)) (map snd es) w) q') \<and>
      (\<forall>c' t'. queue_of q' c' t' =
        (if \<exists>ts. (c', ts) \<in> set es \<and> t' \<in> fst ` set (entries ts) then [] else queue_of q c' t'))"
proof (induction es arbitrary: w q)
  case Nil
  then show ?case by (intro exI [of _ q]) simp
next
  case (Cons e es)
  obtain c ts where e: "e = (c, ts)" by (cases e)
  have "\<exists>q'. traffic_inv tc (with_waiting (fold (drain_queue tc) (entries ts) w) q') \<and>
      (\<forall>c' t'. queue_of q' c' t' = (if c' = c \<and> t' \<in> fst ` set (entries ts) then [] else queue_of q c' t'))"
    using Cons.prems(2,3) by (intro drain_tenants_inv [OF assms entries_distinct]) (auto simp: e)
  then obtain q1 where q1: "traffic_inv tc (with_waiting (fold (drain_queue tc) (entries ts) w) q1)"
    "\<And>c' t'. queue_of q1 c' t' = (if c' = c \<and> t' \<in> fst ` set (entries ts) then [] else queue_of q c' t')"
    by blast
  have notin: "c \<notin> fst ` set es" using Cons.prems(1) by (simp add: e)
  have same: "queue_of q1 c' t' = rs" if "(c', ts') \<in> set es" "(t', rs) \<in> set (entries ts')" for c' ts' t' rs
    using that notin Cons.prems(3) [of c' ts' t' rs] by (auto simp: q1(2) rev_image_eqI)
  have "\<exists>q'. traffic_inv tc (with_waiting (fold (\<lambda>ts. fold (drain_queue tc) (entries ts)) (map snd es) (fold (drain_queue tc) (entries ts) w)) q') \<and>
      (\<forall>c' t'. queue_of q' c' t' =
        (if \<exists>ts. (c', ts) \<in> set es \<and> t' \<in> fst ` set (entries ts) then [] else queue_of q1 c' t'))"
    by (rule Cons.IH [OF _ q1(1)]) (use Cons.prems(1) same in auto)
  then obtain q' where
    "traffic_inv tc (with_waiting (fold (\<lambda>ts. fold (drain_queue tc) (entries ts)) (map snd es) (fold (drain_queue tc) (entries ts) w)) q')"
    "\<And>c' t'. queue_of q' c' t' =
        (if \<exists>ts. (c', ts) \<in> set es \<and> t' \<in> fst ` set (entries ts) then [] else queue_of q1 c' t')"
    by blast
  then show ?case by (intro exI [of _ q']) (auto simp: e q1(2))
qed

lemma drain_queue_waiting: "st_waiting (tw_state (drain_queue tc e w)) = st_waiting (tw_state w)"
proof -
  have "st_waiting (tw_state (fold (drain_one p t) rs w)) = st_waiting (tw_state w)" for p t rs
    by (induction rs arbitrary: w) (simp_all add: drain_one_def Let_def record_rejection_locked_def)
  then show ?thesis by (simp add: drain_queue_def split: option.split)
qed

lemma fold_keeps: "(\<And>x w. f (g x w) = f w) \<Longrightarrow> f (fold g xs w) = f w"
  by (induction xs arbitrary: w) simp_all

lemma begin_drain_waiting:
  "\<not> st_draining (tw_state w) \<Longrightarrow> st_waiting (tw_state (begin_drain tc w)) = bt_empty"
  by (simp add: begin_drain_def fold_keeps [of "\<lambda>w. st_waiting (tw_state w)"] drain_queue_waiting)

lemma begin_drain_inv:
  assumes "traffic_inv tc w" and "limits_fit tc"
  shows "traffic_inv tc (begin_drain tc w)"
proof (cases "st_draining (tw_state w)")
  case True
  with assms show ?thesis by (simp add: begin_drain_def)
next
  case False
  let ?q = "st_waiting (tw_state w)"
  let ?w = "w\<lparr>tw_state := (tw_state w)\<lparr>st_draining := True, st_waiting := bt_empty\<rparr>\<rparr>"
  have "traffic_inv tc (with_waiting ?w ?q)"
    using assms(1) by (subst traffic_inv_frame [of _ w]) (simp_all add: traffic_core_def)
  then have "\<exists>q'. traffic_inv tc (with_waiting (fold (\<lambda>ts. fold (drain_queue tc) (entries ts)) (map snd (entries ?q)) ?w) q') \<and>
      (\<forall>c t. queue_of q' c t =
        (if \<exists>ts. (c, ts) \<in> set (entries ?q) \<and> t \<in> fst ` set (entries ts) then [] else queue_of ?q c t))"
    by (rule drain_classes_inv [OF assms(2) entries_distinct]) (rule queue_of_entries)
  then obtain q' where q': "traffic_inv tc (with_waiting (begin_drain tc w) q')"
    "\<And>c t. queue_of q' c t =
       (if \<exists>ts. (c, ts) \<in> set (entries ?q) \<and> t \<in> fst ` set (entries ts) then [] else queue_of ?q c t)"
    unfolding begin_drain_def bt_values_def if_not_P [OF False] by blast
  have none: "queue_of q' c t = []" for c t
  proof (cases "queue_of ?q c t")
    case (Cons r rs)
    then obtain ts where "bt_get ?q c = Some ts" "bt_get ts t = Some (r # rs)"
      by (auto simp: queue_of_def split: option.splits)
    then show ?thesis by (auto simp: q'(2) bt_get_iff rev_image_eqI)
  qed (simp add: q'(2))
  let ?b = "begin_drain tc w"
  have "inv_queue tc (tw_state ?b) \<and> inv_config tc (tw_state ?b)"
    using q'(1) none begin_drain_waiting [OF False, of tc]
    by (simp add: traffic_inv_def inv_queue_def inv_config_def bt_contains_def)
  moreover have "inv_tickets ?b \<and> inv_permits ?b"
    using q'(1) none begin_drain_waiting [OF False, of tc]
    by (simp add: traffic_inv_def inv_tickets_def inv_permits_def queued_in_def)
  moreover have "inv_counters (tw_state ?b) \<and> inv_capacity tc (tw_state ?b)"
    using q'(1) inv_counters_frame [of "tw_state (with_waiting ?b q')" "tw_state ?b"]
      active_frame(3) [of "tw_state (with_waiting ?b q')" "tw_state ?b" tc]
    by (simp add: traffic_inv_def)
  ultimately show ?thesis by (simp add: traffic_inv_def)
qed

end
