(* ===== verification/Traffic_Props.thy ===== *)
theory Traffic_Props
  imports Traffic_Reach
begin

text \<open>
  The admission scheduler as a state machine: any interleaving of the critical sections of
  admission, cancellation, permit hand-over, release, drain and resume. The properties are those
  of every reachable world.
\<close>

section \<open>No admissible request is left waiting\<close>

definition quiet :: "traffic_controller \<Rightarrow> traffic_state \<Rightarrow> bool" where
  "quiet tc st \<longleftrightarrow>
     pol_max_active_requests (tc_policy tc) \<le> bt_len (st_active st) \<or> choose_candidate tc st = None"

lemma schedule_step_None_iff: "schedule_step tc now w = None \<longleftrightarrow> quiet tc (tw_state w)"
  by (auto simp: schedule_step_def quiet_def Let_def split: option.splits prod.splits)

lemma schedule_locked_quiet: "quiet tc (tw_state (schedule_locked tc now w))"
  using schedule_locked_quiescent [of tc now w] by (simp add: schedule_step_None_iff)

definition traffic_view where
  "traffic_view st =
     ((st_waiting st, st_active st), (st_class_active_requests st, st_class_active_tokens st),
      (st_tenant_active_requests st, st_tenant_active_tokens st), (st_class_vruntime st, st_tenant_vruntime st))"

lemma fits_view: "traffic_view st' = traffic_view st \<Longrightarrow> fits tc st' = fits tc st"
  by (intro ext) (simp add: fits_def traffic_view_def)

lemma tenant_candidates_view:
  "traffic_view st' = traffic_view st \<Longrightarrow> tenant_candidates tc st' n c k es = tenant_candidates tc st n c k es"
proof (induction es)
  case (Cons e es)
  then show ?case
    using fits_view [OF Cons.prems, of tc]
    by (cases e) (auto simp: traffic_view_def cong: if_cong split: list.split option.split)
qed simp

lemma class_candidates_view:
  "traffic_view st' = traffic_view st \<Longrightarrow> class_candidates tc st' n es = class_candidates tc st n es"
proof (induction es)
  case (Cons e es)
  then show ?case
    using tenant_candidates_view [OF Cons.prems, of tc n]
    by (cases e) (auto simp: traffic_view_def split: option.split)
qed simp

lemma quiet_view: "traffic_view st' = traffic_view st \<Longrightarrow> quiet tc st' = quiet tc st"
  using class_candidates_view [of st' st tc]
  by (simp add: quiet_def choose_candidate_def active_token_sum_def traffic_view_def)

lemma quiet_no_waiting: "st_waiting st = bt_empty \<Longrightarrow> quiet tc st"
  by (simp add: quiet_def choose_candidate_def first_sorted_def)

lemma reject_quiet [simp]: "quiet tc (tw_state (reject p reason w)) = quiet tc (tw_state w)"
  by (rule quiet_view) (simp add: reject_def record_rejection_locked_def traffic_view_def)

lemma admit_begin_quiet:
  "quiet tc (tw_state w) \<Longrightarrow> admit_begin tc n ctx cancelled now w = (res, w') \<Longrightarrow> quiet tc (tw_state w')"
  by (auto simp: admit_begin_def admit_locked_def Let_def schedule_locked_quiet
      split: sum.splits option.splits if_splits)

lemma cancel_waiter_quiet: "quiet tc (tw_state w) \<Longrightarrow> quiet tc (tw_state (cancel_waiter tc k p reason now w))"
  by (simp add: cancel_waiter_def Let_def schedule_locked_quiet split: option.split)

lemma release_quiet: "quiet tc (tw_state w) \<Longrightarrow> quiet tc (tw_state (snd (release tc k now w)))"
  by (simp add: release_def Let_def schedule_locked_quiet split: option.split prod.split)

lemma receive_permit_quiet: "quiet tc (tw_state w) \<Longrightarrow> quiet tc (tw_state (snd (receive_permit k w)))"
  by (simp add: receive_permit_def split: option.split channel.split)

lemma drop_receiver_quiet: "quiet tc (tw_state w) \<Longrightarrow> quiet tc (tw_state (drop_receiver tc k now w))"
  by (auto simp: drop_receiver_def Let_def intro!: release_quiet split: option.split channel.split sum.split)

lemma drop_permit_quiet: "quiet tc (tw_state w) \<Longrightarrow> quiet tc (tw_state (drop_permit tc k now w))"
  by (auto simp: drop_permit_def intro!: release_quiet)

lemma begin_drain_quiet: "quiet tc (tw_state w) \<Longrightarrow> quiet tc (tw_state (begin_drain tc w))"
  by (cases "st_draining (tw_state w)") (simp add: begin_drain_def, simp add: quiet_no_waiting begin_drain_waiting)

lemma resume_quiet [simp]: "quiet tc (tw_state (resume w)) = quiet tc (tw_state w)"
  by (rule quiet_view) (simp add: resume_def traffic_view_def)

lemma record_termination_quiet [simp]:
  "quiet tc (tw_state (record_termination tc' ctx reason w)) = quiet tc (tw_state w)"
  by (rule quiet_view) (simp add: record_termination_def traffic_view_def split: option.split)

lemma drain_expire_quiet: "drain_expire w cancelled = (rep, w', c') \<Longrightarrow> quiet tc (tw_state w') = quiet tc (tw_state w)"
  by (rule quiet_view) (auto simp: drain_expire_def Let_def traffic_view_def)

section \<open>The state machine\<close>

inductive traffic_step :: "traffic_controller \<Rightarrow> traffic_world \<Rightarrow> traffic_world \<Rightarrow> bool" for tc where
  step_admit: "admit_begin tc n ctx cancelled now w = (res, w') \<Longrightarrow> traffic_step tc w w'"
| step_cancel: "bt_get (tc_tenants tc) t = Some p \<Longrightarrow> traffic_step tc w (cancel_waiter tc k p reason now w)"
| step_receive: "receive_permit k w = (Some m, w') \<Longrightarrow> traffic_step tc w w'"
| step_drop_receiver: "traffic_step tc w (drop_receiver tc k now w)"
| step_drop_permit: "k \<in> tw_held w \<Longrightarrow> traffic_step tc w (drop_permit tc k now w)"
| step_begin_drain: "traffic_step tc w (begin_drain tc w)"
| step_resume: "traffic_step tc w (resume w)"
| step_expire: "drain_expire w cancelled = (rep, w', cancelled') \<Longrightarrow> traffic_step tc w w'"
| step_termination: "traffic_step tc w (record_termination tc ctx reason w)"

inductive traffic_reachable :: "traffic_controller \<Rightarrow> traffic_world \<Rightarrow> bool" for tc where
  reach_new: "traffic_reachable tc traffic_world_new"
| reach_step: "traffic_reachable tc w \<Longrightarrow> traffic_step tc w w' \<Longrightarrow> traffic_reachable tc w'"

inductive_cases traffic_stepE: "traffic_step tc w w'"

lemma new_inv: "traffic_inv tc traffic_world_new"
  by (simp add: traffic_inv_def traffic_world_new_def traffic_state_default_def inv_counters_def inv_capacity_def
      inv_config_def inv_queue_def inv_tickets_def inv_permits_def queued_in_def requests_where_def tokens_where_def
      queued_token_total_def bt_contains_def)

lemma new_quiet: "quiet tc (tw_state traffic_world_new)"
  by (rule quiet_no_waiting) (simp add: traffic_world_new_def traffic_state_default_def)

lemma step_quiet: "traffic_step tc w w' \<Longrightarrow> quiet tc (tw_state w) \<Longrightarrow> quiet tc (tw_state w')"
proof (induction rule: traffic_step.induct)
  case (step_admit n ctx cancelled now w res w')
  then show ?case by (rule admit_begin_quiet [rotated])
next
  case (step_receive k w m w')
  then show ?case using receive_permit_quiet [of tc w k] by simp
next
  case (step_expire w cancelled rep w' cancelled')
  then show ?case using drain_expire_quiet by blast
qed (simp_all add: cancel_waiter_quiet drop_receiver_quiet drop_permit_quiet begin_drain_quiet)

lemma reachable_quiet: "traffic_reachable tc w \<Longrightarrow> quiet tc (tw_state w)"
  by (induction rule: traffic_reachable.induct) (auto simp: new_quiet step_quiet)

subsection \<open>Tickets only grow\<close>

lemma deliver_next [simp]: "st_next_ticket (tw_state (deliver k w)) = st_next_ticket (tw_state w)"
  by (auto simp: deliver_def release_active_locked_def split: prod.split bool.split option.split)

lemma schedule_locked_next: "st_next_ticket (tw_state (schedule_locked tc now w)) = st_next_ticket (tw_state w)"
  by (rule schedule_locked_inv [where P = "\<lambda>w'. st_next_ticket (tw_state w') = st_next_ticket (tw_state w)"])
    (auto elim!: schedule_step_cases)

lemma release_next: "st_next_ticket (tw_state (snd (release tc k now w))) = st_next_ticket (tw_state w)"
  by (auto simp: release_def release_active_locked_def Let_def schedule_locked_next split: option.split)

lemma normalize_next [simp]: "st_next_ticket (normalize_idle_vruntime_locked tc p st) = st_next_ticket st"
  by (simp add: normalize_idle_vruntime_locked_def Let_def)

lemma admit_begin_next:
  assumes "admit_begin tc n ctx cancelled now w = (res, w')" and "st_next_ticket (tw_state w) \<le> u64_max"
  shows "st_next_ticket (tw_state w) \<le> st_next_ticket (tw_state w')"
    and "st_next_ticket (tw_state w') \<le> Suc (st_next_ticket (tw_state w))"
    and "st_next_ticket (tw_state w') \<le> u64_max"
  using assms
  by (auto simp: admit_begin_def admit_locked_def Let_def reject_def record_rejection_locked_def
      schedule_locked_next enqueue_def sat_add64_def split: sum.splits option.splits if_splits)

lemma drain_queue_next: "st_next_ticket (tw_state (drain_queue tc e w)) = st_next_ticket (tw_state w)"
proof -
  have "st_next_ticket (tw_state (fold (drain_one p t) rs w)) = st_next_ticket (tw_state w)" for p t rs
    by (induction rs arbitrary: w) (simp_all add: drain_one_def Let_def record_rejection_locked_def)
  then show ?thesis by (simp add: drain_queue_def split: option.split)
qed

lemma begin_drain_next [simp]: "st_next_ticket (tw_state (begin_drain tc w)) = st_next_ticket (tw_state w)"
  by (simp add: begin_drain_def fold_keeps [of "\<lambda>w. st_next_ticket (tw_state w)"] drain_queue_next)

lemma step_next:
  assumes "traffic_step tc w w'" and "st_next_ticket (tw_state w) \<le> u64_max"
  shows "st_next_ticket (tw_state w) \<le> st_next_ticket (tw_state w') \<and> st_next_ticket (tw_state w') \<le> u64_max"
  using assms
proof (induction rule: traffic_step.induct)
  case (step_admit n ctx cancelled now w res w')
  then show ?case using admit_begin_next [OF step_admit.hyps step_admit.prems] by blast
qed (auto simp: cancel_waiter_def reject_def record_rejection_locked_def schedule_locked_next receive_permit_def
    drop_receiver_def drop_permit_def release_next resume_def drain_expire_def record_termination_def Let_def
    split: option.splits channel.splits sum.splits)

subsection \<open>The invariant of the reachable worlds\<close>

lemma step_inv:
  assumes "traffic_step tc w w'" and "limits_fit tc" and "controller_ok tc" and "traffic_inv tc w"
    and "st_next_ticket (tw_state w) < u64_max"
  shows "traffic_inv tc w'"
  using assms
proof (induction rule: traffic_step.induct)
  case (step_admit n ctx cancelled now w res w')
  then show ?case by (intro admit_begin_inv [OF _ _ _ _ step_admit.hyps])
next
  case (step_expire w cancelled rep w' cancelled')
  then show ?case using drain_expire_inv by blast
qed (simp_all add: cancel_waiter_inv receive_permit_inv drop_receiver_inv drop_permit_inv begin_drain_inv)

lemma reachable_inv:
  assumes "traffic_reachable tc w" and "limits_fit tc" and "controller_ok tc"
  shows "st_next_ticket (tw_state w) \<le> u64_max \<and> (st_next_ticket (tw_state w) < u64_max \<longrightarrow> traffic_inv tc w)"
  using assms
proof (induction rule: traffic_reachable.induct)
  case reach_new
  then show ?case by (simp add: new_inv) (simp add: traffic_world_new_def traffic_state_default_def)
next
  case (reach_step w w')
  then show ?case using step_next [OF reach_step.hyps(2)] step_inv [OF reach_step.hyps(2)] by auto
qed

section \<open>What a quiet state means\<close>

lemma tenant_candidates_total:
  "(\<And>t q. (t, q) \<in> set es \<Longrightarrow> q \<noteq> [] \<Longrightarrow> bt_contains (tc_tenants tc) t) \<Longrightarrow>
   \<exists>cs. tenant_candidates tc st n c k es = Some cs"
proof (induction es)
  case (Cons e es)
  obtain cs where "tenant_candidates tc st n c k es = Some cs" using Cons.IH Cons.prems by fastforce
  moreover obtain t q where "e = (t, q)" by (cases e)
  ultimately show ?case
    using Cons.prems [of t q] by (cases q) (auto simp: bt_contains_def)
qed simp

lemma class_candidates_total:
  "(\<And>c ts. (c, ts) \<in> set es \<Longrightarrow> bt_contains (tc_classes tc) c \<and>
      (\<forall>t q. (t, q) \<in> set (entries ts) \<longrightarrow> q \<noteq> [] \<longrightarrow> bt_contains (tc_tenants tc) t)) \<Longrightarrow>
   \<exists>cs. class_candidates tc st n es = Some cs"
proof (induction es)
  case (Cons e es)
  obtain c ts where e: "e = (c, ts)" by (cases e)
  obtain cs where "class_candidates tc st n es = Some cs" using Cons.IH Cons.prems by fastforce
  moreover obtain k where "bt_get (tc_classes tc) c = Some k"
    using Cons.prems [of c ts] by (auto simp: e bt_contains_def)
  moreover obtain ds where "tenant_candidates tc st n c k (entries ts) = Some ds"
    using tenant_candidates_total [of "entries ts" tc st n c k] Cons.prems [of c ts] by (auto simp: e)
  ultimately show ?case by (auto simp: e split: option.split)
qed simp

lemma inv_config_tenant:
  assumes "inv_config tc st" and "queue_of (st_waiting st) c t \<noteq> []"
  shows "bt_contains (tc_tenants tc) t"
  using assms unfolding inv_config_def belongs_def bt_contains_def by fastforce

lemma inv_config_total:
  assumes "inv_config tc st"
  shows "\<exists>cs. class_candidates tc st n (entries (st_waiting st)) = Some cs"
proof (rule class_candidates_total)
  fix c ts
  assume e: "(c, ts) \<in> set (entries (st_waiting st))"
  then have "bt_contains (tc_classes tc) c"
    using assms by (auto simp: inv_config_def bt_contains_def simp flip: bt_get_iff)
  moreover have "bt_contains (tc_tenants tc) t" if "(t, q) \<in> set (entries ts)" "q \<noteq> []" for t q
    using that queue_of_entries [OF e that(1)] by (intro inv_config_tenant [OF assms, of c]) simp
  ultimately show "bt_contains (tc_classes tc) c \<and>
      (\<forall>t q. (t, q) \<in> set (entries ts) \<longrightarrow> q \<noteq> [] \<longrightarrow> bt_contains (tc_tenants tc) t)" by blast
qed

text \<open>A waiting head that fits is a candidate, so in a quiet state no head fits.\<close>

lemma candidate_listed:
  assumes "inv_config tc st" and k: "bt_get (tc_classes tc) c = Some k" and p: "bt_get (tc_tenants tc) t = Some p"
    and q: "queue_of (st_waiting st) c t = r # rest"
    and "bt_count (st_class_active_requests st) c < cp_max_active_requests k"
    and "fits tc st (active_token_sum st) c k t p r"
  obtains cs cand u s where
    "class_candidates tc st (active_token_sum st) (entries (st_waiting st)) = Some cs"
    "(bt_count (st_class_vruntime st) c, c, s) \<in> set cs"
    "first_sorted cand = Some (u, s)" "(bt_count (st_tenant_vruntime st) t, t) \<in> set cand"
    "\<And>v x. (v, x) \<in> set cand \<Longrightarrow> v = bt_count (st_tenant_vruntime st) x"
proof -
  obtain ts where ts: "(c, ts) \<in> set (entries (st_waiting st))" "(t, r # rest) \<in> set (entries ts)"
    using q by (auto simp: queue_of_def simp flip: bt_get_iff split: option.splits)
  obtain cs where cs: "class_candidates tc st (active_token_sum st) (entries (st_waiting st)) = Some cs"
    using inv_config_total [OF assms(1)] by blast
  have "\<exists>cand. tenant_candidates tc st (active_token_sum st) c k (entries ts) = Some cand"
    using queue_of_entries [OF ts(1)]
    by (intro tenant_candidates_total) (metis inv_config_tenant [OF assms(1)])
  then obtain cand where cand: "tenant_candidates tc st (active_token_sum st) c k (entries ts) = Some cand" ..
  have mem: "(bt_count (st_tenant_vruntime st) t, t) \<in> set cand"
    using ts(2) p assms(6) by (auto simp: tenant_candidates_mem [OF cand])
  then obtain u s where s: "first_sorted cand = Some (u, s)"
    using first_sorted_None_iff [of cand] by (cases "first_sorted cand") auto
  have "(bt_count (st_class_vruntime st) c, c, s) \<in> set cs"
    using ts(1) k assms(5) cand s by (auto simp: class_candidates_mem [OF cs])
  then show thesis
    by (rule that [OF cs _ s mem]) (simp add: tenant_candidates_mem [OF cand])
qed

lemma class_candidates_functional:
  assumes "class_candidates tc st n (entries (st_waiting st)) = Some cs"
    and "(v, c, t) \<in> set cs" and "(v', c, t') \<in> set cs"
  shows "t' = t"
  using assms(2,3) by (auto simp: class_candidates_mem [OF assms(1)] simp flip: bt_get_iff)

lemma quiet_head_does_not_fit:
  assumes "quiet tc st" and "bt_len (st_active st) < pol_max_active_requests (tc_policy tc)"
    and "inv_config tc st" and "bt_get (tc_classes tc) c = Some k" and "bt_get (tc_tenants tc) t = Some p"
    and "queue_of (st_waiting st) c t = r # rest"
    and "bt_count (st_class_active_requests st) c < cp_max_active_requests k"
  shows "\<not> fits tc st (active_token_sum st) c k t p r"
proof
  assume "fits tc st (active_token_sum st) c k t p r"
  then obtain cs v where "class_candidates tc st (active_token_sum st) (entries (st_waiting st)) = Some cs" "v \<in> set cs"
    using candidate_listed [OF assms(3-7)] by metis
  then have "choose_candidate tc st \<noteq> None"
    using first_sorted_None_iff [of cs] by (auto simp: choose_candidate_def)
  with assms(1,2) show False by (simp add: quiet_def)
qed

lemma fits_if_exact:
  assumes "limits_fit tc" and "inv_counters st" and "inv_capacity tc st"
    and "tokens_where (\<lambda>_. True) st + n \<le> pol_max_active_tokens (tc_policy tc)"
    and "tokens_where (\<lambda>a. ar_class a = c) st + n \<le> cp_max_active_tokens k"
    and "requests_where (\<lambda>a. ar_tenant a = t) st < tp_max_active_requests p"
    and "tokens_where (\<lambda>a. ar_tenant a = t) st + n \<le> tp_max_active_tokens p" and "qr_token_cost r = n"
  shows "fits tc st (active_token_sum st) c k t p r"
proof -
  have "active_token_sum st = tokens_where (\<lambda>_. True) st"
    using assms(1,4) by (intro active_token_sum_exact) (simp add: limits_fit_def)
  with assms show ?thesis
    by (auto simp: fits_def inv_counters_def sat_add64_def min_le_iff_disj)
qed

lemma controller_limits:
  assumes "controller_ok tc"
  shows "bt_get (tc_classes tc) c = Some k \<Longrightarrow> \<not> class_limits_invalid k"
    and "bt_get (tc_tenants tc) t = Some p \<Longrightarrow> \<not> tenant_limits_invalid p"
    and "0 < pol_max_active_requests (tc_policy tc)"
  using assms unfolding controller_ok_def by blast+

section \<open>Properties\<close>

text \<open>
  C15: capacity is never exceeded, provided that the policy's global token limit is below the
  largest \<open>u64\<close> (\<open>limits_fit\<close>) and the ticket counter has not run through all its values. In every
  reachable world of such a controller the active requests and their tokens stay within the global,
  class and tenant limits, and the counters the scheduler consults equal the true sums over the
  active requests, so none of them has wrapped. Validation accepts a limit of the largest \<open>u64\<close>
  too, and there the counters do wrap (the lemma \<open>unlimited_tokens_wrap\<close> below).
\<close>

theorem admission_capacity:
  assumes "traffic_controller_new p = Inr tc" and "limits_fit tc" and "traffic_reachable tc w"
    and "st_next_ticket (tw_state w) < u64_max"
  shows "inv_capacity tc (tw_state w) \<and> inv_counters (tw_state w)"
  using reachable_inv [OF assms(3,2)] controller_new_facts [OF assms(1)] assms(4)
  by (simp add: traffic_inv_def)

text \<open>The end of \<open>admit\<close> is a sequence of steps of the machine.\<close>

lemma admit_end_reachable:
  assumes "traffic_reachable tc w" and "bt_get (tc_tenants tc) t = Some p" and "admit_end tc p k outcome now w = (res, w')"
  shows "traffic_reachable tc w'"
proof -
  have cancel: "traffic_reachable tc (drop_receiver tc k now (cancel_waiter tc k p reason now w))" for reason
    by (rule reach_step [OF reach_step [OF assms(1) step_cancel [OF assms(2)]] step_drop_receiver])
  have "traffic_reachable tc w''" if "receive_permit k w = (Some m, w'')" for m w''
    by (rule reach_step [OF assms(1) step_receive [OF that]])
  moreover have "w'' = w" if "receive_permit k w = (None, w'')" for w''
    using that by (auto simp: receive_permit_def split: option.splits channel.splits)
  moreover have "traffic_reachable tc (drop_receiver tc k now w)"
    by (rule reach_step [OF assms(1) step_drop_receiver])
  ultimately show ?thesis
    using assms(3) cancel by (auto simp: admit_end_def split: wait_outcome.splits prod.splits option.splits)
qed

text \<open>
  C16: permits are linear. In every reachable world a request is active exactly when its permit is
  in its channel or held by a caller, and never both; so when every permit has been received and
  dropped, no capacity is occupied.
\<close>

theorem admission_permits:
  assumes "traffic_controller_new p = Inr tc" and "limits_fit tc" and "traffic_reachable tc w"
    and "st_next_ticket (tw_state w) < u64_max"
  shows "(bt_contains (st_active (tw_state w)) k \<longleftrightarrow>
      bt_get (tw_channels w) k = Some (ChanFull (Inr k)) \<or> k \<in> tw_held w) \<and>
     \<not> (bt_get (tw_channels w) k = Some (ChanFull (Inr k)) \<and> k \<in> tw_held w)"
proof -
  have "inv_permits w"
    using reachable_inv [OF assms(3,2)] controller_new_facts [OF assms(1)] assms(4) by (simp add: traffic_inv_def)
  from inv_permitsD(1,2) [OF this, of k] show ?thesis by (auto simp: bt_contains_def)
qed

text \<open>
  C17: the scheduler is work-conserving. Whenever the lock is free and a request heads its
  tenant's queue, some limit keeps it there: admitting it would exceed the global, class or tenant
  limit on requests or tokens.
\<close>

theorem admission_work_conserving:
  assumes "traffic_controller_new p = Inr tc" and "limits_fit tc" and "traffic_reachable tc w"
    and "st_next_ticket (tw_state w) < u64_max"
    and "bt_get (tc_classes tc) c = Some class" and "bt_get (tc_tenants tc) t = Some tenant"
    and "queue_of (st_waiting (tw_state w)) c t = head # tail"
  shows "pol_max_active_requests (tc_policy tc) \<le> bt_len (st_active (tw_state w)) \<or>
     cp_max_active_requests class \<le> requests_where (\<lambda>a. ar_class a = c) (tw_state w) \<or>
     tp_max_active_requests tenant \<le> requests_where (\<lambda>a. ar_tenant a = t) (tw_state w) \<or>
     pol_max_active_tokens (tc_policy tc) < tokens_where (\<lambda>_. True) (tw_state w) + qr_token_cost head \<or>
     cp_max_active_tokens class < tokens_where (\<lambda>a. ar_class a = c) (tw_state w) + qr_token_cost head \<or>
     tp_max_active_tokens tenant < tokens_where (\<lambda>a. ar_tenant a = t) (tw_state w) + qr_token_cost head"
proof -
  have "traffic_inv tc w" using reachable_inv [OF assms(3,2)] controller_new_facts [OF assms(1)] assms(4) by simp
  then have i: "inv_counters (tw_state w)" "inv_capacity tc (tw_state w)" "inv_config tc (tw_state w)"
    by (simp_all add: traffic_inv_def)
  note blocked = quiet_head_does_not_fit [OF reachable_quiet [OF assms(3)] _ i(3) assms(5-7)]
  show ?thesis
    using blocked i(1) fits_if_exact [OF assms(2) i(1,2) _ _ _ _ refl, of head c "class" t tenant]
    by (auto simp: inv_counters_def not_le [symmetric])
qed

text \<open>
  An idle controller has nobody waiting. Every queued request was checked against the limits
  when it was admitted, so when no request is active all queues are empty: no request can be
  stranded by requests that already finished.
\<close>

lemma admission_no_stall:
  assumes "traffic_controller_new p = Inr tc" and "limits_fit tc" and "traffic_reachable tc w"
    and "st_next_ticket (tw_state w) < u64_max" and "bt_len (st_active (tw_state w)) = 0"
  shows "queue_of (st_waiting (tw_state w)) c t = []"
proof (cases "queue_of (st_waiting (tw_state w)) c t")
  case (Cons r rest)
  have ok: "controller_ok tc" using controller_new_facts [OF assms(1)] by simp
  have "traffic_inv tc w" using reachable_inv [OF assms(3,2)] ok assms(4) by simp
  then have i: "inv_counters (tw_state w)" "inv_capacity tc (tw_state w)" "inv_config tc (tw_state w)" "inv_queue tc (tw_state w)"
    by (simp_all add: traffic_inv_def)
  obtain tenant where t: "bt_get (tc_tenants tc) t = Some tenant" "tp_service_class tenant = c"
    using i(3) Cons unfolding inv_config_def belongs_def by (metis list.distinct(1))
  obtain k where k: "bt_get (tc_classes tc) c = Some k" using controller_tenant [OF ok t(1)] t(2) by blast
  have zero: "requests_where P (tw_state w) = 0" "tokens_where P (tw_state w) = 0" for P
    using assms(5) by (simp_all add: requests_where_def tokens_where_def bt_sum_def bt_len_def bt_values_def)
  have lims: "0 < cp_max_active_requests k" "0 < tp_max_active_requests tenant" "0 < pol_max_active_requests (tc_policy tc)"
    using controller_limits(1) [OF ok k] controller_limits(2) [OF ok t(1)] controller_limits(3) [OF ok]
    by (auto simp: class_limits_invalid_def tenant_limits_invalid_def)
  have "affordable tc tenant (qr_token_cost r)" using inv_queue_tenant(5) [OF i(4) t] Cons by simp
  then have "fits tc (tw_state w) (active_token_sum (tw_state w)) c k t tenant r"
    using zero lims t(2) k by (intro fits_if_exact [OF assms(2) i(1,2) _ _ _ _ refl]) (auto simp: affordable_def)
  moreover have "\<not> fits tc (tw_state w) (active_token_sum (tw_state w)) c k t tenant r"
    using i(1) zero lims assms(5)
    by (intro quiet_head_does_not_fit [OF reachable_quiet [OF assms(3)] _ i(3) k t(1) Cons]) (simp_all add: inv_counters_def)
  ultimately show ?thesis by contradiction
qed

text \<open>
  Queues are bounded and first-in first-out. In every reachable world a tenant's queue
  counter is the length of its queue and within the tenant's limit, all queues together are within
  the global limit, and tickets increase along a queue.
\<close>

lemma admission_queues:
  assumes "traffic_controller_new p = Inr tc" and "limits_fit tc" and "traffic_reachable tc w"
    and "st_next_ticket (tw_state w) < u64_max" and "bt_get (tc_tenants tc) t = Some tenant"
  shows "let queue = queue_of (st_waiting (tw_state w)) (tp_service_class tenant) t in
     bt_count (st_tenant_queued_requests (tw_state w)) t = length queue \<and>
     length queue \<le> tp_max_queued_requests tenant \<and>
     queued_requests (tw_state w) \<le> pol_max_queued_requests (tc_policy tc) \<and>
     sorted_wrt (<) (map qr_ticket queue)"
proof -
  have "traffic_inv tc w" using reachable_inv [OF assms(3,2)] controller_new_facts [OF assms(1)] assms(4) by simp
  then have i: "inv_queue tc (tw_state w)" "inv_tickets w" by (simp_all add: traffic_inv_def)
  have le: "bt_sum (\<lambda>x. x) (st_tenant_queued_requests (tw_state w)) \<le> pol_max_queued_requests (tc_policy tc)"
    using i(1) by (simp add: inv_queue_def)
  moreover have "queued_requests (tw_state w) = bt_sum (\<lambda>x. x) (st_tenant_queued_requests (tw_state w))"
    using le assms(2) by (simp add: queued_requests_def bt_sum_def sum_u64_exact limits_fit_def)
  ultimately show ?thesis
    using inv_queue_tenant(1,4) [OF i(1) assms(5) refl] inv_ticketsD(4) [OF i(2)] by (simp add: Let_def)
qed

text \<open>
  A tenant of a class is admissible when its first waiting request would stay within every limit:
  the class and the tenant have a free slot, and the tokens it would bring the whole, the class and
  the tenant to, as a \<open>u64\<close> that stops at its largest value, are within their limits.
\<close>

definition admissible :: "traffic_controller \<Rightarrow> traffic_state \<Rightarrow> string \<Rightarrow> string \<Rightarrow> bool" where
  "admissible tc st c t \<longleftrightarrow>
     (\<exists>class tenant head tail. bt_get (tc_classes tc) c = Some class \<and> bt_get (tc_tenants tc) t = Some tenant \<and>
        queue_of (st_waiting st) c t = head # tail \<and>
        bt_count (st_class_active_requests st) c < cp_max_active_requests class \<and>
        bt_count (st_tenant_active_requests st) t < tp_max_active_requests tenant \<and>
        min (active_token_sum st + qr_token_cost head) u64_max \<le> pol_max_active_tokens (tc_policy tc) \<and>
        min (bt_count (st_class_active_tokens st) c + qr_token_cost head) u64_max \<le> cp_max_active_tokens class \<and>
        min (bt_count (st_tenant_active_tokens st) t + qr_token_cost head) u64_max \<le> tp_max_active_tokens tenant)"

lemma admissible_iff:
  "admissible tc st c t \<longleftrightarrow>
     (\<exists>class tenant head tail. bt_get (tc_classes tc) c = Some class \<and> bt_get (tc_tenants tc) t = Some tenant \<and>
        queue_of (st_waiting st) c t = head # tail \<and>
        bt_count (st_class_active_requests st) c < cp_max_active_requests class \<and>
        fits tc st (active_token_sum st) c class t tenant head)"
  by (auto simp: admissible_def fits_def sat_add64_def)

lemma chosen_least:
  assumes "choose_candidate tc st = Some (c, t)" and "inv_config tc st" and "admissible tc st c' t'"
  shows "(bt_count (st_class_vruntime st) c, c) \<le> (bt_count (st_class_vruntime st) c', c') \<and>
     (c' \<noteq> c \<or> (bt_count (st_tenant_vruntime st) t, t) \<le> (bt_count (st_tenant_vruntime st) t', t'))"
proof -
  from assms(3) obtain klass tenant head tail where adm:
    "bt_get (tc_classes tc) c' = Some klass" "bt_get (tc_tenants tc) t' = Some tenant"
    "queue_of (st_waiting st) c' t' = head # tail"
    "bt_count (st_class_active_requests st) c' < cp_max_active_requests klass"
    "fits tc st (active_token_sum st) c' klass t' tenant head"
    by (auto simp: admissible_iff)
  obtain cs cand u s where cs: "class_candidates tc st (active_token_sum st) (entries (st_waiting st)) = Some cs"
    and s: "(bt_count (st_class_vruntime st) c', c', s) \<in> set cs" "first_sorted cand = Some (u, s)"
    and cand: "(bt_count (st_tenant_vruntime st) t', t') \<in> set cand"
      "\<And>v x. (v, x) \<in> set cand \<Longrightarrow> v = bt_count (st_tenant_vruntime st) x"
    by (rule candidate_listed [OF assms(2) adm]) blast
  obtain v where v: "(v, c, t) \<in> set cs" "\<forall>y \<in> set cs. (v, c, t) \<le> y"
    using assms(1) cs by (auto simp: choose_candidate_def first_sorted_iff split: option.splits)
  have "v = bt_count (st_class_vruntime st) c" using v(1) by (simp add: class_candidates_mem [OF cs])
  with v(2) s(1) have le: "(bt_count (st_class_vruntime st) c, c, t) \<le> (bt_count (st_class_vruntime st) c', c', s)" by blast
  have "(u, s) \<in> set cand" "(u, s) \<le> (bt_count (st_tenant_vruntime st) t', t')"
    using s(2) cand(1) by (auto simp: first_sorted_iff)
  with cand(2) have tn: "(bt_count (st_tenant_vruntime st) s, s) \<le> (bt_count (st_tenant_vruntime st) t', t')" by metis
  have "s = t" if "c' = c" using class_candidates_functional [OF cs] s(1) v(1) that by blast
  with le tn show ?thesis by auto
qed

text \<open>
  C18: weighted fairness. In a state whose queues are those of configured classes and tenants the
  scheduler finds nobody exactly when no tenant is admissible. Whom it finds is admissible itself,
  of a class of least virtual runtime among the classes with an admissible tenant, and of least
  virtual runtime among the admissible tenants of that class, ties going to the smaller name.
\<close>

theorem choose_candidate_fair:
  assumes "inv_config tc st"
  shows "case choose_candidate tc st of
     None \<Rightarrow> \<forall>c t. \<not> admissible tc st c t
   | Some (c, t) \<Rightarrow> admissible tc st c t \<and>
       (\<forall>c' t'. admissible tc st c' t' \<longrightarrow>
          (bt_count (st_class_vruntime st) c, c) \<le> (bt_count (st_class_vruntime st) c', c') \<and>
          (c' \<noteq> c \<or> (bt_count (st_tenant_vruntime st) t, t) \<le> (bt_count (st_tenant_vruntime st) t', t')))"
proof (cases "choose_candidate tc st")
  case None
  have False if "admissible tc st c t" for c t
  proof -
    from that obtain cs v where "class_candidates tc st (active_token_sum st) (entries (st_waiting st)) = Some cs" "v \<in> set cs"
      using candidate_listed [OF assms] unfolding admissible_iff by metis
    with None first_sorted_None_iff [of cs] show False by (auto simp: choose_candidate_def)
  qed
  with None show ?thesis by auto
next
  case (Some ct)
  obtain c t where ct: "choose_candidate tc st = Some (c, t)" using Some by (cases ct) simp
  from ct have "admissible tc st c t"
    by (rule choose_candidate_Some) (auto simp: admissible_iff)
  with ct chosen_least [OF ct assms] show ?thesis by simp
qed

subsection \<open>Draining\<close>

lemma fold_stays: "P w \<Longrightarrow> (\<And>x w. P w \<Longrightarrow> P (f x w)) \<Longrightarrow> P (fold f xs w)"
  by (induction xs arbitrary: w) auto

lemma fold_reaches:
  assumes "x \<in> set xs" and "P w" and "\<And>y w. P w \<Longrightarrow> P (f y w)" and "\<And>y w. Q w \<Longrightarrow> Q (f y w)"
    and "\<And>w. P w \<Longrightarrow> Q (f x w)"
  shows "Q (fold f xs w)"
proof -
  obtain pre post where xs: "xs = pre @ x # post" using assms(1) by (metis split_list)
  have "P (fold f pre w)" by (rule fold_stays, rule assms(2)) (rule assms(3))
  then have "Q (f x (fold f pre w))" by (rule assms(5))
  then have "Q (fold f post (f x (fold f pre w)))" by (rule fold_stays) (rule assms(4))
  then show ?thesis by (simp add: xs)
qed

definition told_draining :: "u64 \<Rightarrow> traffic_world \<Rightarrow> bool" where
  "told_draining k w \<longleftrightarrow> bt_get (tw_channels w) k = Some (ChanFull (Inl Draining))"

definition may_be_told :: "u64 \<Rightarrow> traffic_world \<Rightarrow> bool" where
  "may_be_told k w \<longleftrightarrow> bt_get (tw_channels w) k = Some ChanOpen \<or> told_draining k w"

lemma drain_one_told:
  "told_draining k w \<Longrightarrow> told_draining k (drain_one p t r w)"
  "may_be_told k w \<Longrightarrow> may_be_told k (drain_one p t r w)"
  "may_be_told (qr_ticket r) w \<Longrightarrow> told_draining (qr_ticket r) (drain_one p t r w)"
  by (auto simp: may_be_told_def told_draining_def drain_one_def Let_def oneshot_send_def
      split: option.splits channel.splits)

lemma drain_queue_told:
  "told_draining k w \<Longrightarrow> told_draining k (drain_queue tc e w)"
  "may_be_told k w \<Longrightarrow> may_be_told k (drain_queue tc e w)"
  by (auto simp: drain_queue_def split: option.split intro: fold_stays drain_one_told)

lemma drain_queue_tells:
  assumes "may_be_told (qr_ticket r) w" and "r \<in> set rs" and "bt_contains (tc_tenants tc) t"
  shows "told_draining (qr_ticket r) (drain_queue tc (t, rs) w)"
proof -
  obtain p where "bt_get (tc_tenants tc) t = Some p" using assms(3) by (auto simp: bt_contains_def)
  moreover have "told_draining (qr_ticket r) (fold (drain_one p t) rs w)"
    by (rule fold_reaches [where P = "may_be_told (qr_ticket r)", OF assms(2,1)]) (simp_all add: drain_one_told)
  ultimately show ?thesis by (simp add: drain_queue_def)
qed

lemma drain_class_tells:
  assumes "may_be_told (qr_ticket r) w" and "r \<in> set rs" and "(t, rs) \<in> set (entries ts)"
    and "bt_contains (tc_tenants tc) t"
  shows "told_draining (qr_ticket r) (fold (drain_queue tc) (entries ts) w)"
  by (rule fold_reaches [where P = "may_be_told (qr_ticket r)", OF assms(3,1)])
    (use assms in \<open>auto intro: drain_queue_told drain_queue_tells\<close>)

lemma begin_drain_tells:
  assumes "\<not> st_draining (tw_state w)" and "inv_config tc (tw_state w)" and "queued_in (tw_state w) c t k"
    and "bt_get (tw_channels w) k = Some ChanOpen"
  shows "told_draining k (begin_drain tc w)"
proof -
  obtain r where r: "r \<in> set (queue_of (st_waiting (tw_state w)) c t)" "k = qr_ticket r"
    using assms(3) by (auto simp: queued_in_def)
  then obtain ts rs where "bt_get (st_waiting (tw_state w)) c = Some ts" "bt_get ts t = Some rs" "r \<in> set rs"
    by (cases "bt_get (st_waiting (tw_state w)) c"; cases "bt_get (the (bt_get (st_waiting (tw_state w)) c)) t")
      (auto simp: queue_of_def)
  then have ts: "(c, ts) \<in> set (entries (st_waiting (tw_state w)))" "(t, rs) \<in> set (entries ts)" "r \<in> set rs"
    by (simp_all add: bt_get_iff)
  have t: "bt_contains (tc_tenants tc) t" using r(1) by (intro inv_config_tenant [OF assms(2), of c]) auto
  let ?w = "w\<lparr>tw_state := (tw_state w)\<lparr>st_draining := True, st_waiting := bt_empty\<rparr>\<rparr>"
  have "told_draining k (fold (\<lambda>ts. fold (drain_queue tc) (entries ts)) (bt_values (st_waiting (tw_state w))) ?w)"
  proof (rule fold_reaches [where P = "may_be_told k" and x = ts])
    show "ts \<in> set (bt_values (st_waiting (tw_state w)))" using ts(1) by (force simp: bt_values_def)
    show "may_be_told k ?w" using assms(4) by (simp add: may_be_told_def)
    show "told_draining k (fold (drain_queue tc) (entries ts) w)" if "may_be_told k w" for w
      using drain_class_tells [OF _ ts(3,2) t] that r(2) by simp
  qed (auto intro: fold_stays drain_queue_told)
  with assms(1) show ?thesis by (simp add: begin_drain_def)
qed

lemma drain_queue_active: "st_active (tw_state (drain_queue tc e w)) = st_active (tw_state w)"
proof -
  have "st_active (tw_state (fold (drain_one p t) rs w)) = st_active (tw_state w)" for p t rs
    by (induction rs arbitrary: w) (simp_all add: drain_one_def Let_def record_rejection_locked_def)
  then show ?thesis by (simp add: drain_queue_def split: option.split)
qed

lemma drain_queue_draining: "st_draining (tw_state (drain_queue tc e w)) = st_draining (tw_state w)"
proof -
  have "st_draining (tw_state (fold (drain_one p t) rs w)) = st_draining (tw_state w)" for p t rs
    by (induction rs arbitrary: w) (simp_all add: drain_one_def Let_def record_rejection_locked_def)
  then show ?thesis by (simp add: drain_queue_def split: option.split)
qed

text \<open>
  C19: a drain answers everybody. When a drain begins, every request still waiting is told that the
  controller is draining, all queues are empty afterwards, and the active requests keep running.
\<close>

theorem begin_drain_answers:
  assumes "traffic_controller_new p = Inr tc" and "limits_fit tc" and "traffic_reachable tc w"
    and "st_next_ticket (tw_state w) < u64_max" and "\<not> is_draining w"
    and "queued_in (tw_state w) c t k" and "bt_get (tw_channels w) k = Some ChanOpen"
  shows "bt_get (tw_channels (begin_drain tc w)) k = Some (ChanFull (Inl Draining)) \<and>
     queue_of (st_waiting (tw_state (begin_drain tc w))) c' t' = [] \<and>
     st_active (tw_state (begin_drain tc w)) = st_active (tw_state w) \<and> is_draining (begin_drain tc w)"
proof -
  have nd: "\<not> st_draining (tw_state w)" using assms(5) by (simp add: is_draining_def)
  have "inv_config tc (tw_state w)"
    using reachable_inv [OF assms(3,2)] controller_new_facts [OF assms(1)] assms(4) by (simp add: traffic_inv_def)
  from begin_drain_tells [OF nd this assms(6,7)] begin_drain_waiting [OF nd, of tc] nd show ?thesis
    by (simp add: told_draining_def is_draining_def begin_drain_def
        fold_keeps [of "\<lambda>w. st_active (tw_state w)"] drain_queue_active
        fold_keeps [of "\<lambda>w. st_draining (tw_state w)"] drain_queue_draining)
qed

text \<open>
  A draining controller admits nobody. Whatever the request, the attempt fails and the active
  requests, the queues and the channels are untouched.
\<close>

lemma draining_admits_nobody:
  assumes "is_draining w" and "admit_begin tc n ctx cancelled now w = (res, w')"
  shows "\<not> is_ok res \<and> st_active (tw_state w') = st_active (tw_state w) \<and>
     st_waiting (tw_state w') = st_waiting (tw_state w) \<and> tw_channels w' = tw_channels w"
  using assms
  by (auto simp: is_draining_def admit_begin_def admit_locked_def Let_def reject_def record_rejection_locked_def
      split: sum.splits option.splits if_splits)

section \<open>Concrete worlds\<close>

text \<open>
  A controller with room for one active request. Of two admitted requests the first is active,
  with its permit in its channel, and the second waits.
\<close>

definition narrow_policy :: traffic_policy where
  "narrow_policy = traffic_policy_default\<lparr>pol_max_active_requests := 1\<rparr>"

definition narrow_controller :: traffic_controller where
  "narrow_controller = sample_controller\<lparr>tc_policy := narrow_policy\<rparr>"

definition sample_context :: operation_context where
  "sample_context = with_deadline 1000 (with_tenant_id ''default'' (operation_context_new ''r'' 7))"

definition first_world :: traffic_world where
  "first_world = snd (admit_begin narrow_controller 10 sample_context {} 5 traffic_world_new)"

definition busy_world :: traffic_world where
  "busy_world = snd (admit_begin narrow_controller 20 sample_context {} 6 first_world)"

lemma bt_insert_twice: "bt_insert k v (bt_insert k u m) = bt_insert k v m"
  by (rule bt_ext) simp

lemmas world_evals =
  narrow_controller_def narrow_policy_def sample_controller_def traffic_policy_default_def sample_context_def
  bt_of_list_def bt_get_def bt_len_def bt_values_def bt_keys_def bt_insert_twice admit_begin_def ensure_active_def
  with_deadline_def with_tenant_id_def operation_context_new_def is_cancelled_def Let_def admit_locked_def
  traffic_world_new_def traffic_state_default_def queued_requests_def sum_u64_def bt_count_def
  normalize_idle_vruntime_locked_def class_is_busy_def tenant_is_busy_def class_queue_nonempty_def queue_of_def
  set_queue_def class_floor_def tenant_floor_def min_or_default_def enqueue_def increment_def wrap_add64_def
  sat_add64_def u64_max_def active_token_utilization_bps_def schedule_locked.simps schedule_step_def
  choose_candidate_def first_sorted_def active_token_sum_def fits_def dequeue_head_def activate_def charge_def
  deliver_def oneshot_send_def virtual_runtime_delta_def sat_mul128_def sat_add128_def u128_max_def increment128_def
  wrap_add128_def decrement_def wrap_sub64_def VIRTUAL_RUNTIME_SCALE_def

lemma narrow_new: "traffic_controller_new narrow_policy = Inr narrow_controller"
  by (simp add: traffic_controller_new_def traffic_policy_validate_def traffic_policy_default_def narrow_policy_def
      MAX_SERVICE_CLASSES_def MAX_TENANTS_def validate_label_def label_byte_def is_ascii_alphanumeric_def
      class_limits_invalid_def tenant_limits_invalid_def duration_from_secs_def bt_contains_def
      narrow_controller_def sample_controller_def less_eq_char_def)

lemma narrow_fits: "limits_fit narrow_controller"
  by (simp add: limits_fit_def narrow_controller_def narrow_policy_def traffic_policy_default_def u64_max_def)

lemma busy_reachable: "traffic_reachable narrow_controller busy_world"
  unfolding busy_world_def first_world_def
  by (intro reach_step [OF reach_step [OF reach_new]] step_admit) (rule prod.collapse [symmetric])+

lemma first_world_eval:
  "first_world =
    \<lparr>tw_state =
      \<lparr>st_next_ticket = 1, st_draining = False,
       st_waiting = bt_insert ''standard'' (bt_insert ''default'' [] bt_empty) bt_empty,
       st_active = bt_insert 1
         \<lparr>ar_tenant = ''default'', ar_class = ''standard'', ar_token_cost = 10, ar_cancellation = 7\<rparr> bt_empty,
       st_class_active_requests = bt_insert ''standard'' 1 bt_empty,
       st_class_active_tokens = bt_insert ''standard'' 10 bt_empty,
       st_tenant_active_requests = bt_insert ''default'' 1 bt_empty,
       st_tenant_active_tokens = bt_insert ''default'' 10 bt_empty,
       st_tenant_queued_requests = bt_insert ''default'' 0 bt_empty,
       st_tenant_queued_tokens = bt_insert ''default'' 0 bt_empty,
       st_class_vruntime = bt_insert ''standard'' 10000000 bt_empty,
       st_tenant_vruntime = bt_insert ''default'' 10000000 bt_empty,
       st_admissions = 
         bt_insert (''standard'', ''default'', ''admitted'') 1 (bt_insert (''standard'', ''default'', ''queued'') 1 bt_empty),
       st_rejections = bt_empty, st_terminations = bt_empty,
       st_queue_wait_micros = bt_insert (''standard'', ''default'') 0 bt_empty,
       st_queue_wait_count = bt_insert (''standard'', ''default'') 1 bt_empty,
       st_forced_cancellations = 0\<rparr>,
     tw_channels = bt_insert 1 (ChanFull (Inr 1)) bt_empty, tw_held = {}\<rparr>"
  unfolding first_world_def by (simp add: world_evals)

lemma busy_world_full:
  "busy_world =
    \<lparr>tw_state =
      \<lparr>st_next_ticket = 2, st_draining = False,
       st_waiting = bt_insert ''standard'' (bt_insert ''default'' 
         [\<lparr>qr_ticket = 2, qr_token_cost = 20, qr_enqueued_at = 6, qr_cancellation = 7\<rparr>] bt_empty) bt_empty,
       st_active = bt_insert 1
         \<lparr>ar_tenant = ''default'', ar_class = ''standard'', ar_token_cost = 10, ar_cancellation = 7\<rparr> bt_empty,
       st_class_active_requests = bt_insert ''standard'' 1 bt_empty,
       st_class_active_tokens = bt_insert ''standard'' 10 bt_empty,
       st_tenant_active_requests = bt_insert ''default'' 1 bt_empty,
       st_tenant_active_tokens = bt_insert ''default'' 10 bt_empty,
       st_tenant_queued_requests = bt_insert ''default'' 1 bt_empty,
       st_tenant_queued_tokens = bt_insert ''default'' 20 bt_empty,
       st_class_vruntime = bt_insert ''standard'' 10000000 bt_empty,
       st_tenant_vruntime = bt_insert ''default'' 10000000 bt_empty,
       st_admissions = bt_insert (''standard'', ''default'', ''queued'') 2
         (bt_insert (''standard'', ''default'', ''admitted'') 1 (bt_insert (''standard'', ''default'', ''queued'') 1 bt_empty)),
       st_rejections = bt_empty, st_terminations = bt_empty,
       st_queue_wait_micros = bt_insert (''standard'', ''default'') 0 bt_empty,
       st_queue_wait_count = bt_insert (''standard'', ''default'') 1 bt_empty,
       st_forced_cancellations = 0\<rparr>,
     tw_channels = bt_insert 2 ChanOpen (bt_insert 1 (ChanFull (Inr 1)) bt_empty), tw_held = {}\<rparr>"
  unfolding busy_world_def first_world_eval by (simp add: world_evals) (simp add: numeral_2_eq_2)

lemma busy_world_eval:
  "st_next_ticket (tw_state busy_world) = 2"
  "st_waiting (tw_state busy_world) = bt_insert ''standard'' (bt_insert ''default''
     [\<lparr>qr_ticket = 2, qr_token_cost = 20, qr_enqueued_at = 6, qr_cancellation = 7\<rparr>] bt_empty) bt_empty"
  "tw_channels busy_world = bt_insert 2 ChanOpen (bt_insert 1 (ChanFull (Inr 1)) bt_empty)"
  "st_draining (tw_state busy_world) = False" "tw_held busy_world = {}"
  by (simp_all add: busy_world_full)

lemma busy_ticket: "st_next_ticket (tw_state busy_world) < u64_max"
  by (simp add: busy_world_eval u64_max_def)

lemma busy_queue: "queue_of (st_waiting (tw_state busy_world)) ''standard'' ''default'' =
    [\<lparr>qr_ticket = 2, qr_token_cost = 20, qr_enqueued_at = 6, qr_cancellation = 7\<rparr>]"
  by (simp add: busy_world_eval queue_of_def)

lemma narrow_get:
  "bt_get (tc_tenants narrow_controller) ''default'' = Some (hd (pol_tenants traffic_policy_default))"
  "bt_get (tc_classes narrow_controller) ''standard'' = Some (hd (pol_classes traffic_policy_default))"
  by (simp_all add: narrow_controller_def sample_controller_def bt_of_list_def)

theorem admission_capacity_witness:
  "inv_capacity narrow_controller (tw_state busy_world) \<and> inv_counters (tw_state busy_world)"
  by (rule admission_capacity [OF narrow_new narrow_fits busy_reachable busy_ticket])

theorem admission_permits_witness:
  "bt_contains (st_active (tw_state busy_world)) 1 \<and> \<not> bt_contains (st_active (tw_state busy_world)) 2"
  using admission_permits [OF narrow_new narrow_fits busy_reachable busy_ticket, of 1]
    admission_permits [OF narrow_new narrow_fits busy_reachable busy_ticket, of 2]
  by (simp add: busy_world_eval)

theorem admission_work_conserving_witness:
  "pol_max_active_requests (tc_policy narrow_controller) \<le> bt_len (st_active (tw_state busy_world)) \<or>
     cp_max_active_requests (hd (pol_classes traffic_policy_default)) \<le> requests_where (\<lambda>a. ar_class a = ''standard'') (tw_state busy_world) \<or>
     tp_max_active_requests (hd (pol_tenants traffic_policy_default)) \<le> requests_where (\<lambda>a. ar_tenant a = ''default'') (tw_state busy_world) \<or>
     pol_max_active_tokens (tc_policy narrow_controller) < tokens_where (\<lambda>_. True) (tw_state busy_world) + 20 \<or>
     cp_max_active_tokens (hd (pol_classes traffic_policy_default)) < tokens_where (\<lambda>a. ar_class a = ''standard'') (tw_state busy_world) + 20 \<or>
     tp_max_active_tokens (hd (pol_tenants traffic_policy_default)) < tokens_where (\<lambda>a. ar_tenant a = ''default'') (tw_state busy_world) + 20"
  using admission_work_conserving [OF narrow_new narrow_fits busy_reachable busy_ticket narrow_get(2,1) busy_queue] by simp

theorem begin_drain_answers_witness:
  "bt_get (tw_channels (begin_drain narrow_controller busy_world)) 2 = Some (ChanFull (Inl Draining))"
proof -
  have "queued_in (tw_state busy_world) ''standard'' ''default'' 2" by (simp add: queued_in_def busy_queue)
  moreover have "bt_get (tw_channels busy_world) 2 = Some ChanOpen" by (simp add: busy_world_eval)
  moreover have "\<not> is_draining busy_world" by (simp add: is_draining_def busy_world_eval)
  ultimately show ?thesis
    using begin_drain_answers [OF narrow_new narrow_fits busy_reachable busy_ticket] by blast
qed

text \<open>
  Three tenants of two classes wait. The tenant of least virtual runtime asks for more tokens than
  it may have, so the other tenant of its class is chosen, since that class has had less service
  than the other.
\<close>

definition fair_class :: "string \<Rightarrow> service_class_policy" where
  "fair_class c = (hd (pol_classes traffic_policy_default))\<lparr>cp_id := c\<rparr>"

definition fair_tenant :: "string \<Rightarrow> string \<Rightarrow> tenant_policy" where
  "fair_tenant t c = (hd (pol_tenants traffic_policy_default))\<lparr>tp_id := t, tp_service_class := c, tp_max_active_tokens := 100\<rparr>"

definition fair_controller :: traffic_controller where
  "fair_controller = sample_controller
     \<lparr>tc_classes := bt_of_list [(''batch'', fair_class ''batch''), (''chat'', fair_class ''chat'')],
      tc_tenants := bt_of_list [(''a'', fair_tenant ''a'' ''batch''), (''b'', fair_tenant ''b'' ''chat''),
        (''c'', fair_tenant ''c'' ''chat'')]\<rparr>"

definition fair_head :: "u64 \<Rightarrow> u64 \<Rightarrow> queued_request" where
  "fair_head k n = \<lparr>qr_ticket = k, qr_token_cost = n, qr_enqueued_at = 0, qr_cancellation = 7\<rparr>"

definition fair_state :: traffic_state where
  "fair_state = traffic_state_default
     \<lparr>st_waiting := bt_of_list [(''batch'', bt_of_list [(''a'', [fair_head 1 10])]),
        (''chat'', bt_of_list [(''b'', [fair_head 2 20]), (''c'', [fair_head 3 500])])],
      st_class_vruntime := bt_of_list [(''batch'', 9), (''chat'', 4)],
      st_tenant_vruntime := bt_of_list [(''a'', 1), (''b'', 7), (''c'', 3)]\<rparr>"

lemma fair_config: "inv_config fair_controller fair_state"
  by (auto simp: inv_config_def fair_state_def fair_controller_def bt_of_list_def bt_contains_def queue_of_def belongs_def
      fair_tenant_def split: if_splits)

lemma fair_choice: "choose_candidate fair_controller fair_state = Some (''chat'', ''b'')"
  by (simp add: fair_controller_def fair_state_def fair_class_def fair_tenant_def fair_head_def world_evals)

lemma fair_admissible:
  "admissible fair_controller fair_state ''batch'' ''a''"
  "\<not> admissible fair_controller fair_state ''chat'' ''c''"
  by (simp_all add: admissible_def fair_controller_def fair_state_def fair_class_def fair_tenant_def fair_head_def world_evals)

theorem choose_candidate_fair_witness:
  "admissible fair_controller fair_state ''chat'' ''b'' \<and> \<not> admissible fair_controller fair_state ''chat'' ''c'' \<and>
   (bt_count (st_class_vruntime fair_state) ''chat'', ''chat'') < (bt_count (st_class_vruntime fair_state) ''batch'', ''batch'')"
proof -
  have "(bt_count (st_class_vruntime fair_state) ''chat'', ''chat'') \<le> (bt_count (st_class_vruntime fair_state) ''batch'', ''batch'')"
    and "admissible fair_controller fair_state ''chat'' ''b''"
    using choose_candidate_fair [OF fair_config, unfolded fair_choice option.case prod.case] fair_admissible(1) by blast+
  moreover have "(''chat'' :: string) \<noteq> ''batch''" by simp
  ultimately show ?thesis using fair_admissible(2) by (metis less_le prod.inject)
qed

subsection \<open>A token limit of the largest integer\<close>

definition unlimited_policy :: traffic_policy where
  "unlimited_policy =
     \<lparr>pol_max_active_requests = 2, pol_max_active_tokens = u64_max, pol_max_queued_requests = 2,
      pol_default_output_tokens = 1,
      pol_classes = [\<lparr>cp_id = ''c'', cp_weight = 1, cp_max_active_requests = 2,
        cp_max_active_tokens = u64_max, cp_shed_at_global_utilization_bps = None\<rparr>],
      pol_tenants = [\<lparr>tp_id = ''t'', tp_service_class = ''c'', tp_weight = 1,
        tp_max_active_requests = 2, tp_max_active_tokens = u64_max, tp_max_queued_requests = 2,
        tp_max_tokens_per_request = u64_max, tp_default_request_timeout = 1, tp_max_request_timeout = 1\<rparr>]\<rparr>"

definition unlimited_controller :: traffic_controller where
  "unlimited_controller =
     \<lparr>tc_policy = unlimited_policy,
      tc_classes = bt_of_list [(''c'', hd (pol_classes unlimited_policy))],
      tc_tenants = bt_of_list [(''t'', hd (pol_tenants unlimited_policy))]\<rparr>"

definition huge_context :: operation_context where
  "huge_context = with_tenant_id ''t'' (operation_context_new ''r'' 0)"

definition huge_world :: traffic_world where
  "huge_world = snd (admit_begin unlimited_controller (2 ^ 63) huge_context {} 0
     (snd (admit_begin unlimited_controller (2 ^ 63) huge_context {} 0 traffic_world_new)))"

lemma unlimited_new: "traffic_controller_new unlimited_policy = Inr unlimited_controller"
  by (simp add: traffic_controller_new_def traffic_policy_validate_def unlimited_policy_def
      MAX_SERVICE_CLASSES_def MAX_TENANTS_def validate_label_def label_byte_def is_ascii_alphanumeric_def
      class_limits_invalid_def tenant_limits_invalid_def bt_contains_def unlimited_controller_def
      less_eq_char_def u64_max_def)

lemma huge_reachable: "traffic_reachable unlimited_controller huge_world"
  unfolding huge_world_def
  by (intro reach_step [OF reach_step [OF reach_new]] step_admit) (rule prod.collapse [symmetric])+

definition huge_request :: active_request where
  "huge_request = \<lparr>ar_tenant = ''t'', ar_class = ''c'', ar_token_cost = 2 ^ 63, ar_cancellation = 0\<rparr>"

lemma huge_first:
  "snd (admit_begin unlimited_controller (2 ^ 63) huge_context {} 0 traffic_world_new) =
    \<lparr>tw_state =
      \<lparr>st_next_ticket = 1, st_draining = False,
       st_waiting = bt_insert ''c'' (bt_insert ''t'' [] bt_empty) bt_empty,
       st_active = bt_insert 1 huge_request bt_empty,
       st_class_active_requests = bt_insert ''c'' 1 bt_empty,
       st_class_active_tokens = bt_insert ''c'' (2 ^ 63) bt_empty,
       st_tenant_active_requests = bt_insert ''t'' 1 bt_empty,
       st_tenant_active_tokens = bt_insert ''t'' (2 ^ 63) bt_empty,
       st_tenant_queued_requests = bt_insert ''t'' 0 bt_empty,
       st_tenant_queued_tokens = bt_insert ''t'' 0 bt_empty,
       st_class_vruntime = bt_insert ''c'' (2 ^ 63 * 1000000) bt_empty,
       st_tenant_vruntime = bt_insert ''t'' (2 ^ 63 * 1000000) bt_empty,
       st_admissions = bt_insert (''c'', ''t'', ''admitted'') 1 (bt_insert (''c'', ''t'', ''queued'') 1 bt_empty),
       st_rejections = bt_empty, st_terminations = bt_empty,
       st_queue_wait_micros = bt_insert (''c'', ''t'') 0 bt_empty,
       st_queue_wait_count = bt_insert (''c'', ''t'') 1 bt_empty,
       st_forced_cancellations = 0\<rparr>,
     tw_channels = bt_insert 1 (ChanFull (Inr 1)) bt_empty, tw_held = {}\<rparr>"
  unfolding unlimited_controller_def unlimited_policy_def huge_context_def huge_request_def
  by (simp add: world_evals)

lemma huge_second:
  "huge_world =
    \<lparr>tw_state =
      \<lparr>st_next_ticket = 2, st_draining = False,
       st_waiting = bt_insert ''c'' (bt_insert ''t'' [] bt_empty) bt_empty,
       st_active = bt_insert 2 huge_request (bt_insert 1 huge_request bt_empty),
       st_class_active_requests = bt_insert ''c'' 2 bt_empty,
       st_class_active_tokens = bt_insert ''c'' 0 bt_empty,
       st_tenant_active_requests = bt_insert ''t'' 2 bt_empty,
       st_tenant_active_tokens = bt_insert ''t'' 0 bt_empty,
       st_tenant_queued_requests = bt_insert ''t'' 0 bt_empty,
       st_tenant_queued_tokens = bt_insert ''t'' 0 bt_empty,
       st_class_vruntime = bt_insert ''c'' (2 ^ 64 * 1000000) bt_empty,
       st_tenant_vruntime = bt_insert ''t'' (2 ^ 64 * 1000000) bt_empty,
       st_admissions = bt_insert (''c'', ''t'', ''admitted'') 2 (bt_insert (''c'', ''t'', ''queued'') 2
         (bt_insert (''c'', ''t'', ''admitted'') 1 (bt_insert (''c'', ''t'', ''queued'') 1 bt_empty))),
       st_rejections = bt_empty, st_terminations = bt_empty,
       st_queue_wait_micros = bt_insert (''c'', ''t'') 0 bt_empty,
       st_queue_wait_count = bt_insert (''c'', ''t'') 2 bt_empty,
       st_forced_cancellations = 0\<rparr>,
     tw_channels = bt_insert 2 (ChanFull (Inr 2)) (bt_insert 1 (ChanFull (Inr 1)) bt_empty), tw_held = {}\<rparr>"
  unfolding huge_world_def huge_first
  unfolding unlimited_controller_def unlimited_policy_def huge_context_def huge_request_def
  by (simp add: world_evals) (simp add: numeral_2_eq_2)

lemma huge_eval:
  "tokens_where (\<lambda>_. True) (tw_state huge_world) = 2 ^ 64 \<and>
   bt_count (st_class_active_tokens (tw_state huge_world)) ''c'' = 0"
  by (simp add: huge_second tokens_where_def bt_sum_insert_fresh huge_request_def bt_count_def)

text \<open>
  The bound on the token limit is necessary. Validation accepts the largest \<open>u64\<close> as a token
  limit; the saturating comparison then admits two requests whose tokens together exceed that
  limit, and the class counter wraps to zero while both are active.
\<close>

lemma unlimited_tokens_wrap:
  "\<exists>w. traffic_controller_new unlimited_policy = Inr unlimited_controller \<and> traffic_reachable unlimited_controller w \<and>
     pol_max_active_tokens unlimited_policy < tokens_where (\<lambda>_. True) (tw_state w) \<and>
     bt_count (st_class_active_tokens (tw_state w)) ''c'' = 0"
  using unlimited_new huge_reachable huge_eval
  by (intro exI [of _ huge_world]) (simp add: unlimited_policy_def u64_max_def)

end
