(* ===== verification/Planner.thy ===== *)
theory Planner
  imports Core_Model
begin

text \<open>
  The cost-based planner, \<open>crates/planner/src/lib.rs\<close>: cost terms with saturating totals, the
  eligibility filter of execution targets and of state paths, and the selection loop of
  \<open>CostBasedPlanner::plan\<close>. The list \<open>feasible_paths\<close> is the specification the loop is
  compared with: the loop selects its first minimum by total cost and stable key.
\<close>

section \<open>Data\<close>

record cost_breakdown =
  cb_queue_micros :: u64
  cb_unmatched_prefill_micros :: u64
  cb_state_materialization_micros :: u64
  cb_decode_micros :: u64
  cb_topology_micros :: u64
  cb_policy_micros :: u64

definition total_micros :: "cost_breakdown \<Rightarrow> u64" where
  "total_micros c =
     sat_add64 (sat_add64 (sat_add64 (sat_add64 (sat_add64 (cb_queue_micros c)
       (cb_unmatched_prefill_micros c)) (cb_state_materialization_micros c))
       (cb_decode_micros c)) (cb_topology_micros c)) (cb_policy_micros c)"

record execution_estimate =
  ee_unmatched_prefill_micros :: u64
  ee_decode_micros :: u64
  ee_topology_micros :: u64
  ee_policy_micros :: u64

record state_path_candidate =
  spc_state :: state_descriptor
  spc_compatibility :: compatibility_result
  spc_option :: materialization_option
  spc_materialization_estimate_micros :: "u64 option"
  spc_estimate :: execution_estimate

record planning_candidate =
  pc_target :: execution_target
  pc_capabilities :: engine_capabilities
  pc_snapshot :: engine_snapshot
  pc_cold_estimate :: execution_estimate
  pc_state_paths :: "state_path_candidate list"

record state_observation =
  so_unavailable_stores :: "(store_id, string) btree"

datatype fallback_action = ColdOnSameTarget | Replan | Fail

record routing_policy =
  rp_allow_cold_on_store_outage :: bool
  rp_import_failure_fallback :: fallback_action

definition routing_policy_default :: routing_policy where
  "routing_policy_default =
     \<lparr>rp_allow_cold_on_store_outage = True, rp_import_failure_fallback = ColdOnSameTarget\<rparr>"

record planning_input =
  in_request :: canonical_request
  in_candidates :: "planning_candidate list"
  in_state_observation :: state_observation
  in_policy :: routing_policy

record state_reuse_plan =
  ru_state :: state_descriptor
  ru_compatibility :: compatibility_result
  ru_option :: materialization_option

datatype execution_path = Cold | Reuse state_reuse_plan

record placement_plan =
  pp_target :: execution_target
  pp_path :: execution_path
  pp_predicted_cost :: cost_breakdown
  pp_fallback :: fallback_action
  pp_rationale :: "string list"

record feasible_path =
  fp_target :: execution_target
  fp_path :: execution_path
  fp_cost :: cost_breakdown
  fp_fallback :: fallback_action
  fp_stable_key :: string
  fp_rationale :: "string list"

datatype planning_error = NoFeasibleCandidate | StoreUnavailable

section \<open>The selection loop\<close>

definition fp_key :: "feasible_path \<Rightarrow> u64 \<times> string" where
  "fp_key p = (total_micros (fp_cost p), fp_stable_key p)"

definition is_better_than :: "feasible_path \<Rightarrow> feasible_path \<Rightarrow> bool" where
  "is_better_than a b \<longleftrightarrow>
     (total_micros (fp_cost a), fp_stable_key a) < (total_micros (fp_cost b), fp_stable_key b)"

definition consider_path :: "feasible_path option \<Rightarrow> feasible_path \<Rightarrow> feasible_path option" where
  "consider_path best candidate =
     (if (case best of None \<Rightarrow> True | Some current \<Rightarrow> is_better_than candidate current)
      then Some candidate else best)"

definition cost_for :: "u64 \<Rightarrow> execution_estimate \<Rightarrow> u64 \<Rightarrow> cost_breakdown" where
  "cost_for queue_micros e state_materialization_micros =
     \<lparr>cb_queue_micros = queue_micros,
      cb_unmatched_prefill_micros = ee_unmatched_prefill_micros e,
      cb_state_materialization_micros = state_materialization_micros,
      cb_decode_micros = ee_decode_micros e,
      cb_topology_micros = ee_topology_micros e,
      cb_policy_micros = ee_policy_micros e\<rparr>"

definition candidate_rejected :: "planning_input \<Rightarrow> planning_candidate \<Rightarrow> bool" where
  "candidate_rejected input c \<longleftrightarrow>
     et_model (pc_target c) \<noteq> rq_model (in_request input) \<or>
     es_target_id (pc_snapshot c) \<noteq> et_id (pc_target c) \<or>
     \<not> es_ready (pc_snapshot c) \<or>
     \<not> satisfies (pc_capabilities c) (rq_requirements (in_request input))"

definition store_unavailable_for :: "planning_input \<Rightarrow> state_path_candidate \<Rightarrow> bool" where
  "store_unavailable_for input sp \<longleftrightarrow>
     bt_contains (so_unavailable_stores (in_state_observation input)) (mo_store (spc_option sp))"

definition state_path_rejected ::
    "planning_input \<Rightarrow> planning_candidate \<Rightarrow> state_path_candidate \<Rightarrow> bool" where
  "state_path_rejected input c sp \<longleftrightarrow>
     \<not> is_compatible (spc_compatibility sp) \<or>
     sd_store (spc_state sp) \<noteq> mo_store (spc_option sp) \<or>
     sd_id (spc_state sp) \<noteq> mo_source_state (spc_option sp) \<or>
     sd_kind (spc_state sp) \<noteq> mo_state_kind (spc_option sp) \<or>
     sd_model (spc_state sp) \<noteq> rq_model (in_request input) \<or>
     mo_target_id (spc_option sp) \<noteq> et_id (pc_target c) \<or>
     mo_target_engine (spc_option sp) \<noteq> et_engine (pc_target c) \<or>
     sd_kind (spc_state sp) \<notin> ec_supported_state_kinds (pc_capabilities c) \<or>
     (case sd_relevant_input_semantics (spc_state sp) of
        None \<Rightarrow> False
      | Some identity \<Rightarrow> identity \<noteq> si_input (rq_semantic_identity (in_request input)))"

definition queue_micros_of :: "planning_candidate \<Rightarrow> u64" where
  "queue_micros_of c =
     (case es_estimated_queue_micros (pc_snapshot c) of None \<Rightarrow> u64_max | Some q \<Rightarrow> q)"

definition cold_path :: "planning_candidate \<Rightarrow> feasible_path" where
  "cold_path c =
     \<lparr>fp_target = pc_target c, fp_path = Cold,
      fp_cost = cost_for (queue_micros_of c) (pc_cold_estimate c) 0,
      fp_fallback = Fail,
      fp_stable_key = et_id (pc_target c) @ '':0:cold'',
      fp_rationale = [''feasible cold execution path'']\<rparr>"

definition reuse_path ::
    "planning_input \<Rightarrow> planning_candidate \<Rightarrow> state_path_candidate \<Rightarrow> feasible_path" where
  "reuse_path input c sp =
     \<lparr>fp_target = pc_target c,
      fp_path = Reuse \<lparr>ru_state = spc_state sp, ru_compatibility = spc_compatibility sp,
                       ru_option = spc_option sp\<rparr>,
      fp_cost = cost_for (queue_micros_of c) (spc_estimate sp)
        (case spc_materialization_estimate_micros sp of
           None \<Rightarrow> mo_estimated_transfer_micros (spc_option sp) | Some m \<Rightarrow> m),
      fp_fallback = rp_import_failure_fallback (in_policy input),
      fp_stable_key = et_id (pc_target c) @ '':1:'' @ sd_id (spc_state sp) @ '':'' @ mo_id (spc_option sp),
      fp_rationale = [''compatible state path passed correctness and capability filters'']\<rparr>"

text \<open>
  The two nested loops over candidates and their state paths, with the two mutable variables
  \<open>best\<close> and \<open>unavailable_path_seen\<close> as the state.
\<close>

type_synonym plan_state = "feasible_path option \<times> bool"

fun plan_state_paths ::
    "planning_input \<Rightarrow> planning_candidate \<Rightarrow> state_path_candidate list \<Rightarrow> plan_state \<Rightarrow> plan_state" where
  "plan_state_paths input c [] st = st"
| "plan_state_paths input c (sp # sps) (best, seen) =
     plan_state_paths input c sps
       (if store_unavailable_for input sp then (best, True)
        else if state_path_rejected input c sp then (best, seen)
        else (consider_path best (reuse_path input c sp), seen))"

fun plan_candidates ::
    "planning_input \<Rightarrow> planning_candidate list \<Rightarrow> plan_state \<Rightarrow> plan_state" where
  "plan_candidates input [] st = st"
| "plan_candidates input (c # cs) (best, seen) =
     plan_candidates input cs
       (if candidate_rejected input c then (best, seen)
        else plan_state_paths input c (pc_state_paths c) (consider_path best (cold_path c), seen))"

definition plan :: "planning_input \<Rightarrow> (placement_plan, planning_error) result" where
  "plan input =
     (case plan_candidates input (in_candidates input) (None, False) of
        (None, _) \<Rightarrow> Inl NoFeasibleCandidate
      | (Some selected, unavailable_path_seen) \<Rightarrow>
          if unavailable_path_seen \<and> \<not> rp_allow_cold_on_store_outage (in_policy input) \<and>
             fp_path selected = Cold
          then Inl StoreUnavailable
          else Inr \<lparr>pp_target = fp_target selected, pp_path = fp_path selected,
                    pp_predicted_cost = fp_cost selected, pp_fallback = fp_fallback selected,
                    pp_rationale = fp_rationale selected\<rparr>)"

section \<open>Specification\<close>

definition path_usable :: "planning_input \<Rightarrow> planning_candidate \<Rightarrow> state_path_candidate \<Rightarrow> bool" where
  "path_usable input c sp \<longleftrightarrow>
     \<not> store_unavailable_for input sp \<and> \<not> state_path_rejected input c sp"

definition candidate_paths :: "planning_input \<Rightarrow> planning_candidate \<Rightarrow> feasible_path list" where
  "candidate_paths input c =
     (if candidate_rejected input c then []
      else cold_path c # map (reuse_path input c) (filter (path_usable input c) (pc_state_paths c)))"

definition feasible_paths :: "planning_input \<Rightarrow> feasible_path list" where
  "feasible_paths input = concat (map (candidate_paths input) (in_candidates input))"

definition outage_seen :: "planning_input \<Rightarrow> bool" where
  "outage_seen input \<longleftrightarrow>
     (\<exists>c \<in> set (in_candidates input). \<not> candidate_rejected input c \<and>
        (\<exists>sp \<in> set (pc_state_paths c). store_unavailable_for input sp))"

section \<open>The loop computes the specification\<close>

interpretation path_choice: keyed_choice is_better_than fp_key
  by unfold_locales (simp add: is_better_than_def fp_key_def)

lemma consider_path_keep_better: "consider_path = keep_better is_better_than"
  by (rule ext, rule ext) (auto simp: consider_path_def split: option.splits)

lemma plan_state_paths_spec:
  "plan_state_paths input c sps (best, seen) =
     (foldl consider_path best (map (reuse_path input c) (filter (path_usable input c) sps)),
      seen \<or> (\<exists>sp \<in> set sps. store_unavailable_for input sp))"
  by (induction sps arbitrary: best seen) (auto simp: path_usable_def)

lemma plan_candidates_spec:
  "plan_candidates input cs (best, seen) =
     (foldl consider_path best (concat (map (candidate_paths input) cs)),
      seen \<or> (\<exists>c \<in> set cs. \<not> candidate_rejected input c \<and>
                (\<exists>sp \<in> set (pc_state_paths c). store_unavailable_for input sp)))"
  by (induction cs arbitrary: best seen)
    (auto simp: plan_state_paths_spec candidate_paths_def)

lemma plan_loop:
  "plan_candidates input (in_candidates input) (None, False) =
     (foldl (keep_better is_better_than) None (feasible_paths input), outage_seen input)"
  by (simp add: plan_candidates_spec feasible_paths_def outage_seen_def consider_path_keep_better)

definition plan_of :: "feasible_path \<Rightarrow> placement_plan" where
  "plan_of p = \<lparr>pp_target = fp_target p, pp_path = fp_path p, pp_predicted_cost = fp_cost p,
                pp_fallback = fp_fallback p, pp_rationale = fp_rationale p\<rparr>"

definition outage_blocks :: "planning_input \<Rightarrow> feasible_path \<Rightarrow> bool" where
  "outage_blocks input p \<longleftrightarrow>
     outage_seen input \<and> \<not> rp_allow_cold_on_store_outage (in_policy input) \<and> fp_path p = Cold"

lemma plan_eq_choice:
  "plan input =
     (case foldl (keep_better is_better_than) None (feasible_paths input) of
        None \<Rightarrow> Inl NoFeasibleCandidate
      | Some p \<Rightarrow> if outage_blocks input p then Inl StoreUnavailable else Inr (plan_of p))"
  by (simp add: plan_def plan_loop plan_of_def outage_blocks_def split: option.splits)

lemma plan_Inr_iff:
  "plan input = Inr q \<longleftrightarrow>
     (\<exists>p. foldl (keep_better is_better_than) None (feasible_paths input) = Some p \<and>
          \<not> outage_blocks input p \<and> q = plan_of p)"
  by (auto simp: plan_eq_choice split: option.splits)

lemma plan_Inr_minimal:
  assumes "plan input = Inr q"
  obtains p where "p \<in> set (feasible_paths input)" "q = plan_of p" "\<not> outage_blocks input p"
    "\<And>r. r \<in> set (feasible_paths input) \<Longrightarrow> fp_key p \<le> fp_key r"
  using assms path_choice.foldl_keep_better_minimal [of "feasible_paths input"]
  by (auto simp: plan_Inr_iff)

lemma feasible_paths_empty_iff:
  "feasible_paths input = [] \<longleftrightarrow> (\<forall>c \<in> set (in_candidates input). candidate_rejected input c)"
  by (auto simp: feasible_paths_def candidate_paths_def)

lemma in_feasible_paths_iff:
  "p \<in> set (feasible_paths input) \<longleftrightarrow>
     (\<exists>c \<in> set (in_candidates input). \<not> candidate_rejected input c \<and>
        (p = cold_path c \<or>
         (\<exists>sp \<in> set (pc_state_paths c). path_usable input c sp \<and> p = reuse_path input c sp)))"
  by (auto simp: feasible_paths_def candidate_paths_def)

lemma total_micros_eq:
  "total_micros c =
     min (cb_queue_micros c + cb_unmatched_prefill_micros c + cb_state_materialization_micros c +
          cb_decode_micros c + cb_topology_micros c + cb_policy_micros c) u64_max"
  by (auto simp: total_micros_def arith64 min_def)

lemma path_usable_facts:
  assumes "path_usable input c sp"
  shows "is_compatible (spc_compatibility sp)"
    and "sd_model (spc_state sp) = rq_model (in_request input)"
    and "sd_store (spc_state sp) = mo_store (spc_option sp)"
    and "sd_id (spc_state sp) = mo_source_state (spc_option sp)"
    and "sd_kind (spc_state sp) = mo_state_kind (spc_option sp)"
    and "mo_target_id (spc_option sp) = et_id (pc_target c)"
    and "mo_target_engine (spc_option sp) = et_engine (pc_target c)"
    and "sd_kind (spc_state sp) \<in> ec_supported_state_kinds (pc_capabilities c)"
    and "bt_get (so_unavailable_stores (in_state_observation input)) (mo_store (spc_option sp)) = None"
    and "sd_relevant_input_semantics (spc_state sp)
           \<in> {None, Some (si_input (rq_semantic_identity (in_request input)))}"
  using assms
  by (auto simp: path_usable_def state_path_rejected_def store_unavailable_for_def bt_contains_def
      split: option.splits)

section \<open>Properties\<close>

text \<open>
  C8: the selection loop of \<open>CostBasedPlanner::plan\<close> returns the first minimum, by total cost
  and then stable key, of the list of all feasible paths; it fails with
  \<open>NoFeasibleCandidate\<close> when that list is empty and with \<open>StoreUnavailable\<close> when the
  minimum is cold, a store outage hid a path and the policy forbids cold degradation.
\<close>

theorem plan_selects_first_minimum:
  "plan input =
     (if feasible_paths input = [] then Inl NoFeasibleCandidate
      else let p = arg_min_list fp_key (feasible_paths input)
           in if outage_blocks input p then Inl StoreUnavailable else Inr (plan_of p))"
  by (simp add: plan_eq_choice path_choice.foldl_keep_better Let_def)

text \<open>
  C9: a returned plan only uses an eligible target (model identity, matching ready snapshot,
  capabilities) and, when it reuses state, only a compatible state of an available store that
  matches the request's model, the target, its engine generation and its state kinds.
\<close>

theorem plan_sound:
  assumes "plan input = Inr q"
  shows "\<exists>c \<in> set (in_candidates input). pp_target q = pc_target c \<and>
     et_model (pp_target q) = rq_model (in_request input) \<and>
     es_target_id (pc_snapshot c) = et_id (pp_target q) \<and> es_ready (pc_snapshot c) \<and>
     satisfies (pc_capabilities c) (rq_requirements (in_request input)) \<and>
     (case pp_path q of
        Cold \<Rightarrow> pp_fallback q = Fail
      | Reuse r \<Rightarrow>
          pp_fallback q = rp_import_failure_fallback (in_policy input) \<and>
          is_compatible (ru_compatibility r) \<and>
          sd_model (ru_state r) = rq_model (in_request input) \<and>
          sd_store (ru_state r) = mo_store (ru_option r) \<and>
          sd_id (ru_state r) = mo_source_state (ru_option r) \<and>
          sd_kind (ru_state r) = mo_state_kind (ru_option r) \<and>
          mo_target_id (ru_option r) = et_id (pp_target q) \<and>
          mo_target_engine (ru_option r) = et_engine (pp_target q) \<and>
          sd_kind (ru_state r) \<in> ec_supported_state_kinds (pc_capabilities c) \<and>
          bt_get (so_unavailable_stores (in_state_observation input)) (mo_store (ru_option r)) = None \<and>
          sd_relevant_input_semantics (ru_state r)
            \<in> {None, Some (si_input (rq_semantic_identity (in_request input)))})"
proof -
  obtain p where p: "p \<in> set (feasible_paths input)" "q = plan_of p"
    using assms by (rule plan_Inr_minimal)
  from p(1) obtain c where c: "c \<in> set (in_candidates input)" "\<not> candidate_rejected input c"
    and shape: "p = cold_path c \<or>
      (\<exists>sp \<in> set (pc_state_paths c). path_usable input c sp \<and> p = reuse_path input c sp)"
    by (auto simp: in_feasible_paths_iff)
  note eligible = c(2) [unfolded candidate_rejected_def]
  from shape show ?thesis
  proof
    assume "p = cold_path c"
    with c(1) eligible show ?thesis
      unfolding p(2) by (intro bexI [of _ c]) (auto simp: plan_of_def cold_path_def)
  next
    assume "\<exists>sp \<in> set (pc_state_paths c). path_usable input c sp \<and> p = reuse_path input c sp"
    then obtain sp where sp: "path_usable input c sp" "p = reuse_path input c sp" by blast
    with c(1) eligible path_usable_facts [OF sp(1)] show ?thesis
      unfolding p(2) by (intro bexI [of _ c]) (simp_all add: plan_of_def reuse_path_def)
  qed
qed

text \<open>
  The predicted total of a returned plan is no larger than the total of the cold path of
  any eligible candidate, nor than that of any of its usable state paths.
\<close>

lemma plan_optimal:
  assumes "plan input = Inr q" and "c \<in> set (in_candidates input)" and "\<not> candidate_rejected input c"
  shows "total_micros (pp_predicted_cost q) \<le> total_micros (cost_for (queue_micros_of c) (pc_cold_estimate c) 0)
    \<and> (\<forall>sp \<in> set (pc_state_paths c). path_usable input c sp \<longrightarrow>
          total_micros (pp_predicted_cost q) \<le> total_micros (fp_cost (reuse_path input c sp)))"
proof -
  obtain p where p: "q = plan_of p" "\<And>r. r \<in> set (feasible_paths input) \<Longrightarrow> fp_key p \<le> fp_key r"
    using plan_Inr_minimal [OF assms(1)] by metis
  have le: "total_micros (pp_predicted_cost q) \<le> total_micros (fp_cost r)"
    if "r \<in> set (feasible_paths input)" for r
    using p(2) [OF that] unfolding p(1) by (auto simp: fp_key_def plan_of_def less_eq_prod_def)
  have "cold_path c \<in> set (feasible_paths input)"
    using assms by (auto simp: in_feasible_paths_iff)
  then have "total_micros (pp_predicted_cost q) \<le> total_micros (cost_for (queue_micros_of c) (pc_cold_estimate c) 0)"
    using le by (fastforce simp: cold_path_def)
  moreover have "reuse_path input c sp \<in> set (feasible_paths input)"
    if "sp \<in> set (pc_state_paths c)" and "path_usable input c sp" for sp
    using assms that by (auto simp: in_feasible_paths_iff)
  ultimately show ?thesis using le by blast
qed

text \<open>
  Planning fails with \<open>NoFeasibleCandidate\<close> exactly when every candidate is rejected by
  the model, readiness or capability filter: a state path never decides feasibility.
\<close>

lemma plan_infeasible_iff:
  "plan input = Inl NoFeasibleCandidate \<longleftrightarrow>
     list_all (candidate_rejected input) (in_candidates input)"
  using feasible_paths_empty_iff [of input]
  by (auto simp: list_all_iff plan_eq_choice path_choice.foldl_keep_better split: option.splits)

text \<open>
  C10: when the policy forbids cold degradation and an outage hid a state path of an eligible
  candidate, no cold plan is returned.
\<close>

theorem plan_outage_never_cold:
  assumes "\<not> rp_allow_cold_on_store_outage (in_policy input)" and "outage_seen input"
    and "plan input = Inr q"
  shows "pp_path q \<noteq> Cold"
proof -
  obtain p where "q = plan_of p" and "\<not> outage_blocks input p"
    using assms(3) by (rule plan_Inr_minimal)
  with assms(1,2) show ?thesis by (simp add: outage_blocks_def plan_of_def)
qed

text \<open>
  C11: the decision does not depend on the order in which targets were discovered, as long as
  feasible paths have pairwise different keys.
\<close>

theorem plan_order_independent:
  assumes "set cs = set (in_candidates input)" and "inj_on fp_key (set (feasible_paths input))"
  shows "plan (input\<lparr>in_candidates := cs\<rparr>) = plan input"
proof -
  let ?i = "input\<lparr>in_candidates := cs\<rparr>"
  have frame: "candidate_rejected ?i = candidate_rejected input"
    "path_usable ?i = path_usable input" "reuse_path ?i = reuse_path input"
    "store_unavailable_for ?i = store_unavailable_for input"
    by (intro ext; simp add: candidate_rejected_def path_usable_def state_path_rejected_def
        store_unavailable_for_def reuse_path_def split: option.split)+
  have paths: "set (feasible_paths ?i) = set (feasible_paths input)"
    using assms(1) by (auto simp: in_feasible_paths_iff frame)
  have blocks: "outage_blocks ?i = outage_blocks input"
    using assms(1) by (intro ext) (simp add: outage_blocks_def outage_seen_def frame)
  have "foldl (keep_better is_better_than) None (feasible_paths ?i) =
        foldl (keep_better is_better_than) None (feasible_paths input)"
    using paths assms(2) by (intro path_choice.foldl_keep_better_perm) simp_all
  then show ?thesis by (simp add: plan_eq_choice blocks cong: option.case_cong)
qed

text \<open>
  A candidate whose queue estimate is unknown is costed at the saturated maximum, so it is
  only selected when no feasible path has a smaller total.
\<close>

lemma unknown_queue_saturates:
  assumes "es_estimated_queue_micros (pc_snapshot c) = None"
  shows "total_micros (fp_cost (cold_path c)) = u64_max \<and>
         total_micros (fp_cost (reuse_path input c sp)) = u64_max"
  using assms
  by (simp_all add: total_micros_eq cold_path_def reuse_path_def cost_for_def queue_micros_of_def min_def)

section \<open>A concrete planning problem\<close>

text \<open>
  Two targets, one with a short queue and one without a queue estimate. Each has a usable state
  path and one whose option names a different store than its state, which the planner rejects,
  or counts as hidden by an outage when that other store is down.
\<close>

definition sample_estimate :: "u64 \<Rightarrow> execution_estimate" where
  "sample_estimate prefill =
     \<lparr>ee_unmatched_prefill_micros = prefill, ee_decode_micros = 80, ee_topology_micros = 0,
      ee_policy_micros = 0\<rparr>"

definition sample_state_path :: "execution_target \<Rightarrow> state_path_candidate" where
  "sample_state_path t =
     \<lparr>spc_state = sample_state, spc_compatibility = compatible ''ok'',
      spc_option = sample_option t 5, spc_materialization_estimate_micros = None,
      spc_estimate = sample_estimate 10\<rparr>"

definition sample_candidate :: "string \<Rightarrow> u64 option \<Rightarrow> planning_candidate" where
  "sample_candidate tid queue =
     (let t = sample_target tid ''e1'' in
      \<lparr>pc_target = t, pc_capabilities = sample_capabilities, pc_snapshot = sample_snapshot tid queue,
       pc_cold_estimate = sample_estimate 30,
       pc_state_paths = [sample_state_path t,
         (sample_state_path t)\<lparr>spc_option := (sample_option t 5)\<lparr>mo_store := ''zz''\<rparr>\<rparr>]\<rparr>)"

definition sample_planning_input :: "(store_id, string) btree \<Rightarrow> bool \<Rightarrow> planning_input" where
  "sample_planning_input down allow =
     \<lparr>in_request = sample_request,
      in_candidates = [sample_candidate ''b'' None, sample_candidate ''a'' (Some 7)],
      in_state_observation = \<lparr>so_unavailable_stores = down\<rparr>,
      in_policy = \<lparr>rp_allow_cold_on_store_outage = allow, rp_import_failure_fallback = Replan\<rparr>\<rparr>"

lemmas sample_planning_defs = sample_planning_input_def sample_candidate_def sample_estimate_def
  sample_state_path_def sample_defs Let_def

lemma sample_candidate_eligible:
  "\<not> candidate_rejected (sample_planning_input down allow) (sample_candidate tid queue)"
  by (simp add: candidate_rejected_def satisfies_def sample_planning_defs)

lemma sample_paths:
  assumes "bt_get down ''st'' = None"
  shows "feasible_paths (sample_planning_input down allow) =
     (let i = sample_planning_input down allow; b = sample_candidate ''b'' None;
          a = sample_candidate ''a'' (Some 7) in
      [cold_path b, reuse_path i b (sample_state_path (sample_target ''b'' ''e1'')),
       cold_path a, reuse_path i a (sample_state_path (sample_target ''a'' ''e1''))])"
  using assms
  by (simp add: feasible_paths_def candidate_paths_def candidate_rejected_def path_usable_def
      store_unavailable_for_def bt_contains_def state_path_rejected_def is_compatible_def
      compatible_def satisfies_def sample_planning_defs)

definition sample_chosen_path :: "(store_id, string) btree \<Rightarrow> bool \<Rightarrow> feasible_path" where
  "sample_chosen_path down allow =
     reuse_path (sample_planning_input down allow) (sample_candidate ''a'' (Some 7))
       (sample_state_path (sample_target ''a'' ''e1''))"

lemma sample_plan:
  assumes "bt_get down ''st'' = None"
  shows "plan (sample_planning_input down allow) = Inr (plan_of (sample_chosen_path down allow))"
  unfolding plan_eq_choice sample_paths [OF assms]
  by (simp add: is_better_than_def total_micros_eq cold_path_def sample_chosen_path_def
      reuse_path_def cost_for_def queue_micros_of_def u64_max_def outage_blocks_def plan_of_def
      sample_planning_defs)

theorem plan_sound_witness:
  "\<exists>c \<in> set (in_candidates (sample_planning_input bt_empty True)). es_ready (pc_snapshot c) \<and>
     satisfies (pc_capabilities c) (rq_requirements sample_request)"
  using plan_sound [OF sample_plan [of bt_empty True]]
  by (auto simp: sample_planning_input_def)

theorem plan_outage_never_cold_witness:
  "pp_path (plan_of (sample_chosen_path (bt_insert ''zz'' ''down'' bt_empty) False)) \<noteq> Cold"
proof -
  let ?down = "bt_insert ''zz'' ''down'' bt_empty :: (store_id, string) btree"
  have "outage_seen (sample_planning_input ?down False)"
    using sample_candidate_eligible [of ?down False "''b''" None]
    by (auto simp: outage_seen_def store_unavailable_for_def bt_contains_def sample_planning_defs)
  moreover have "\<not> rp_allow_cold_on_store_outage (in_policy (sample_planning_input ?down False))"
    by (simp add: sample_planning_input_def)
  ultimately show ?thesis
    using plan_outage_never_cold sample_plan [of ?down False] by simp
qed

theorem plan_order_independent_witness:
  "plan ((sample_planning_input bt_empty True)\<lparr>in_candidates :=
     [sample_candidate ''a'' (Some 7), sample_candidate ''b'' None]\<rparr>) = plan (sample_planning_input bt_empty True)"
proof (rule plan_order_independent)
  show "set [sample_candidate ''a'' (Some 7), sample_candidate ''b'' None] =
        set (in_candidates (sample_planning_input bt_empty True))"
    by (auto simp: sample_planning_input_def)
  show "inj_on fp_key (set (feasible_paths (sample_planning_input bt_empty True)))"
    by (simp add: sample_paths Let_def inj_on_def fp_key_def cold_path_def reuse_path_def
        sample_candidate_def sample_target_def sample_state_path_def)
qed

end
