(* ===== verification/Registry.thy ===== *)
theory Registry
  imports Core_Model
begin

text \<open>
  The engine registry of \<open>crates/engine/src/lib.rs\<close>: registered adapters, their lifecycle
  (ready, draining, stopped) and the executions in progress. The registry asks an adapter only for
  its \<open>instance()\<close>, so the adapter is a type parameter with that function as an argument. A
  poisoned lock is not modelled. \<open>rw_permits\<close> are the execution permits that callers hold: an
  \<open>EngineExecutionPermit\<close> is released by its \<open>Drop\<close>.
\<close>

section \<open>State\<close>

datatype registry_reason = DuplicateEngine engine_instance_id | DuplicateRequest request_id | GraceRange

datatype engine_error =
    EngineContext context_error
  | EngineTargetNotFound string
  | EngineRegistry registry_reason
  | EngineStaleGeneration
  | EngineDraining
  | EngineStopped
  | EngineUnsupported string
  | EngineStateImport string
  | EngineExecution string

type_synonym engine_stream = "(engine_event, engine_error) result list"

datatype engine_lifecycle = LifeReady | LifeDraining | LifeStopped

record 'a registered_engine =
  re_adapter :: 'a
  re_lifecycle :: engine_lifecycle
  re_active :: "(request_id, cancel_token) btree"

type_synonym 'a engine_registry = "(engine_instance_id, 'a registered_engine) btree"

record engine_drain_report =
  ed_completed :: bool
  ed_forced_cancellations :: usize

definition registry_new :: "'a engine_registry" where
  "registry_new = bt_empty"

section \<open>Registration and lookup\<close>

definition register ::
    "('a \<Rightarrow> engine_instance) \<Rightarrow> 'a \<Rightarrow> 'a engine_registry \<Rightarrow> (unit, engine_error) result \<times> 'a engine_registry" where
  "register inst adapter reg =
     (let engine_id = er_id (ei_reference (inst adapter)) in
      if bt_contains reg engine_id then (Inl (EngineRegistry (DuplicateEngine engine_id)), reg)
      else (Inr (), bt_insert engine_id
              \<lparr>re_adapter = adapter, re_lifecycle = LifeReady, re_active = bt_empty\<rparr> reg))"

definition adapters :: "'a engine_registry \<Rightarrow> 'a list" where
  "adapters reg = map re_adapter (bt_values reg)"

definition routable_adapters :: "'a engine_registry \<Rightarrow> 'a list" where
  "routable_adapters reg =
     map re_adapter (filter (\<lambda>e. re_lifecycle e = LifeReady) (bt_values reg))"

definition adapter_for ::
    "('a \<Rightarrow> engine_instance) \<Rightarrow> execution_target \<Rightarrow> 'a engine_registry \<Rightarrow> ('a, engine_error) result" where
  "adapter_for inst target reg =
     (case bt_get reg (er_id (et_engine target)) of
        None \<Rightarrow> Inl (EngineTargetNotFound (et_id target))
      | Some entry \<Rightarrow>
          if er_generation (ei_reference (inst (re_adapter entry))) \<noteq> er_generation (et_engine target)
          then Inl EngineStaleGeneration
          else Inr (re_adapter entry))"

definition engine_lifecycle_of :: "engine_instance_id \<Rightarrow> 'a engine_registry \<Rightarrow> (engine_lifecycle, engine_error) result" where
  "engine_lifecycle_of engine_id reg =
     (case bt_get reg engine_id of
        None \<Rightarrow> Inl (EngineTargetNotFound engine_id)
      | Some entry \<Rightarrow> Inr (re_lifecycle entry))"

definition active_executions :: "'a engine_registry \<Rightarrow> usize" where
  "active_executions reg = sum_u64 (map (\<lambda>e. bt_len (re_active e)) (bt_values reg))"

definition active_executions_for :: "engine_instance_id \<Rightarrow> 'a engine_registry \<Rightarrow> (usize, engine_error) result" where
  "active_executions_for engine_id reg =
     (case bt_get reg engine_id of
        None \<Rightarrow> Inl (EngineTargetNotFound engine_id)
      | Some entry \<Rightarrow> Inr (bt_len (re_active entry)))"

section \<open>Executions\<close>

type_synonym execution_permit = "engine_instance_id \<times> request_id"

definition acquire_execution ::
    "('a \<Rightarrow> engine_instance) \<Rightarrow> execution_target \<Rightarrow> operation_context \<Rightarrow> cancel_token set \<Rightarrow> instant
     \<Rightarrow> 'a engine_registry \<Rightarrow> (execution_permit, engine_error) result \<times> 'a engine_registry" where
  "acquire_execution inst target context cancelled now reg =
     (case ensure_active context cancelled now of
        Inl e \<Rightarrow> (Inl (EngineContext e), reg)
      | Inr _ \<Rightarrow>
          (case bt_get reg (er_id (et_engine target)) of
             None \<Rightarrow> (Inl (EngineTargetNotFound (et_id target)), reg)
           | Some entry \<Rightarrow>
               if er_generation (ei_reference (inst (re_adapter entry))) \<noteq> er_generation (et_engine target)
               then (Inl EngineStaleGeneration, reg)
               else
                 (case re_lifecycle entry of
                    LifeDraining \<Rightarrow> (Inl EngineDraining, reg)
                  | LifeStopped \<Rightarrow> (Inl EngineStopped, reg)
                  | LifeReady \<Rightarrow>
                      if bt_contains (re_active entry) (oc_request_id context)
                      then (Inl (EngineRegistry (DuplicateRequest (oc_request_id context))), reg)
                      else (Inr (er_id (et_engine target), oc_request_id context),
                            bt_insert (er_id (et_engine target))
                              (entry\<lparr>re_active := bt_insert (oc_request_id context) (oc_cancellation context) (re_active entry)\<rparr>)
                              reg))))"

text \<open>\<open>release_execution\<close>; the flag says whether the waiters of a drain are notified.\<close>

definition release_execution ::
    "engine_instance_id \<Rightarrow> request_id \<Rightarrow> 'a engine_registry \<Rightarrow> bool \<times> 'a engine_registry" where
  "release_execution engine_id rid reg =
     (case bt_get reg engine_id of
        None \<Rightarrow> (False, reg)
      | Some entry \<Rightarrow>
          if bt_contains (re_active entry) rid then
            (let entry' = entry\<lparr>re_active := bt_remove rid (re_active entry)\<rparr>
             in (True, bt_insert engine_id
                  (if re_lifecycle entry' = LifeDraining \<and> bt_len (re_active entry') = 0
                   then entry'\<lparr>re_lifecycle := LifeStopped\<rparr> else entry') reg))
          else (False, reg))"

section \<open>Draining\<close>

definition drain_entry :: "'a registered_engine \<Rightarrow> 'a registered_engine" where
  "drain_entry e = (if re_lifecycle e = LifeReady then e\<lparr>re_lifecycle := LifeDraining\<rparr> else e)"

definition stop_entry :: "'a registered_engine \<Rightarrow> 'a registered_engine" where
  "stop_entry e =
     (if re_lifecycle e = LifeDraining \<and> bt_len (re_active e) = 0 then e\<lparr>re_lifecycle := LifeStopped\<rparr> else e)"

definition resume_entry :: "'a registered_engine \<Rightarrow> 'a registered_engine" where
  "resume_entry e = (if re_lifecycle e = LifeDraining then e\<lparr>re_lifecycle := LifeReady\<rparr> else e)"

definition update_entry ::
    "('a registered_engine \<Rightarrow> 'a registered_engine) \<Rightarrow> engine_instance_id \<Rightarrow> 'a engine_registry
     \<Rightarrow> (unit, engine_error) result \<times> 'a engine_registry" where
  "update_entry f engine_id reg =
     (case bt_get reg engine_id of
        None \<Rightarrow> (Inl (EngineTargetNotFound engine_id), reg)
      | Some entry \<Rightarrow> (Inr (), bt_insert engine_id (f entry) reg))"

definition registry_begin_drain_all :: "'a engine_registry \<Rightarrow> 'a engine_registry" where
  "registry_begin_drain_all reg = bt_map_values drain_entry reg"

definition registry_begin_drain ::
    "engine_instance_id \<Rightarrow> 'a engine_registry \<Rightarrow> (unit, engine_error) result \<times> 'a engine_registry" where
  "registry_begin_drain = update_entry drain_entry"

definition registry_resume ::
    "engine_instance_id \<Rightarrow> 'a engine_registry \<Rightarrow> (unit, engine_error) result \<times> 'a engine_registry" where
  "registry_resume = update_entry resume_entry"

definition stop_drained :: "'a engine_registry \<Rightarrow> 'a engine_registry" where
  "stop_drained reg = bt_map_values stop_entry reg"

definition stop_drained_engine ::
    "engine_instance_id \<Rightarrow> 'a engine_registry \<Rightarrow> (unit, engine_error) result \<times> 'a engine_registry" where
  "stop_drained_engine = update_entry stop_entry"

text \<open>
  The rounds of \<open>drain_all\<close> and \<open>drain\<close> after the drain began: each time the task is woken it
  checks for executions in progress and, when there are none, stops the engines; when the grace
  period ends it cancels the executions in progress and leaves the lifecycle alone.
\<close>

definition drain_all_check :: "'a engine_registry \<Rightarrow> engine_drain_report option" where
  "drain_all_check reg =
     (if active_executions reg = 0 then Some \<lparr>ed_completed = True, ed_forced_cancellations = 0\<rparr> else None)"

definition drain_check :: "engine_instance_id \<Rightarrow> 'a engine_registry \<Rightarrow> (engine_drain_report option, engine_error) result" where
  "drain_check engine_id reg =
     and_then (active_executions_for engine_id reg)
       (\<lambda>n. Inr (if n = 0 then Some \<lparr>ed_completed = True, ed_forced_cancellations = 0\<rparr> else None))"

definition drain_all_expire :: "'a engine_registry \<Rightarrow> cancel_token set \<Rightarrow> engine_drain_report \<times> cancel_token set" where
  "drain_all_expire reg cancelled =
     (let cancellations = concat (map (\<lambda>e. bt_values (re_active e)) (bt_values reg))
      in (\<lparr>ed_completed = False, ed_forced_cancellations = length cancellations\<rparr>, fold cancel cancellations cancelled))"

definition engine_drain_expire ::
    "engine_instance_id \<Rightarrow> 'a engine_registry \<Rightarrow> cancel_token set
     \<Rightarrow> (engine_drain_report \<times> cancel_token set, engine_error) result" where
  "engine_drain_expire engine_id reg cancelled =
     (case bt_get reg engine_id of
        None \<Rightarrow> Inl (EngineTargetNotFound engine_id)
      | Some entry \<Rightarrow>
          (let cancellations = bt_values (re_active entry)
           in Inr (\<lparr>ed_completed = False, ed_forced_cancellations = length cancellations\<rparr>,
                   fold cancel cancellations cancelled)))"

section \<open>The registry as a state machine\<close>

record 'a registry_world =
  rw_entries :: "'a engine_registry"
  rw_permits :: "execution_permit set"

inductive registry_step :: "('a \<Rightarrow> engine_instance) \<Rightarrow> 'a registry_world \<Rightarrow> 'a registry_world \<Rightarrow> bool" for inst where
  reg_register: "register inst a (rw_entries w) = (r, es) \<Longrightarrow> registry_step inst w (w\<lparr>rw_entries := es\<rparr>)"
| reg_acquire: "acquire_execution inst target ctx cancelled now (rw_entries w) = (Inr permit, es) \<Longrightarrow>
    registry_step inst w \<lparr>rw_entries = es, rw_permits = insert permit (rw_permits w)\<rparr>"
| reg_release: "(e, rid) \<in> rw_permits w \<Longrightarrow> release_execution e rid (rw_entries w) = (n, es) \<Longrightarrow>
    registry_step inst w \<lparr>rw_entries = es, rw_permits = rw_permits w - {(e, rid)}\<rparr>"
| reg_drain_all: "registry_step inst w (w\<lparr>rw_entries := registry_begin_drain_all (rw_entries w)\<rparr>)"
| reg_drain: "registry_begin_drain e (rw_entries w) = (r, es) \<Longrightarrow> registry_step inst w (w\<lparr>rw_entries := es\<rparr>)"
| reg_resume: "registry_resume e (rw_entries w) = (r, es) \<Longrightarrow> registry_step inst w (w\<lparr>rw_entries := es\<rparr>)"
| reg_stop_all: "registry_step inst w (w\<lparr>rw_entries := stop_drained (rw_entries w)\<rparr>)"
| reg_stop: "stop_drained_engine e (rw_entries w) = (r, es) \<Longrightarrow> registry_step inst w (w\<lparr>rw_entries := es\<rparr>)"

inductive registry_reachable :: "('a \<Rightarrow> engine_instance) \<Rightarrow> 'a registry_world \<Rightarrow> bool" for inst where
  registry_init: "registry_reachable inst \<lparr>rw_entries = registry_new, rw_permits = {}\<rparr>"
| registry_next: "registry_reachable inst w \<Longrightarrow> registry_step inst w w' \<Longrightarrow> registry_reachable inst w'"

definition registry_inv :: "'a registry_world \<Rightarrow> bool" where
  "registry_inv w \<longleftrightarrow>
     (\<forall>e rid. (e, rid) \<in> rw_permits w \<longleftrightarrow>
        (\<exists>entry. bt_get (rw_entries w) e = Some entry \<and> bt_contains (re_active entry) rid)) \<and>
     (\<forall>e entry. bt_get (rw_entries w) e = Some entry \<longrightarrow> re_lifecycle entry = LifeStopped \<longrightarrow>
        bt_len (re_active entry) = 0)"

lemma entry_updates [simp]:
  "re_active (drain_entry e) = re_active e" "re_active (stop_entry e) = re_active e"
  "re_active (resume_entry e) = re_active e" "re_adapter (drain_entry e) = re_adapter e"
  "re_adapter (stop_entry e) = re_adapter e" "re_adapter (resume_entry e) = re_adapter e"
  by (simp_all add: drain_entry_def stop_entry_def resume_entry_def)

lemma entry_stopped:
  "re_lifecycle (drain_entry e) = LifeStopped \<longleftrightarrow> re_lifecycle e = LifeStopped"
  "re_lifecycle (resume_entry e) = LifeStopped \<longleftrightarrow> re_lifecycle e = LifeStopped"
  "re_lifecycle (stop_entry e) = LifeStopped \<longleftrightarrow>
     re_lifecycle e = LifeStopped \<or> re_lifecycle e = LifeDraining \<and> bt_len (re_active e) = 0"
  by (cases "re_lifecycle e"; simp add: drain_entry_def stop_entry_def resume_entry_def)+

text \<open>Changing entries without touching their executions, and stopping only idle ones, is harmless.\<close>

lemma registry_inv_update:
  assumes "registry_inv w" and "rw_permits w' = rw_permits w"
    and "\<And>e. rel_option (\<lambda>x y. re_active y = re_active x \<and>
      (re_lifecycle y = LifeStopped \<longrightarrow> re_lifecycle x = LifeStopped \<or> bt_len (re_active x) = 0))
      (bt_get (rw_entries w) e) (bt_get (rw_entries w') e)"
  shows "registry_inv w'"
proof -
  have bwd: "\<exists>x. bt_get (rw_entries w) e = Some x \<and> re_active y = re_active x \<and>
        (re_lifecycle y = LifeStopped \<longrightarrow> re_lifecycle x = LifeStopped \<or> bt_len (re_active x) = 0)"
    if "bt_get (rw_entries w') e = Some y" for e y
    using assms(3) [of e] that by (auto simp: option_rel_Some2)
  have idle: "bt_len (re_active x) = 0" if "bt_get (rw_entries w) e = Some x" "re_lifecycle x = LifeStopped" for e x
    using assms(1) that unfolding registry_inv_def by blast
  have "(e, rid) \<in> rw_permits w' \<longleftrightarrow> (\<exists>y. bt_get (rw_entries w') e = Some y \<and> bt_contains (re_active y) rid)" for e rid
  proof -
    have "(e, rid) \<in> rw_permits w' \<longleftrightarrow> (\<exists>x. bt_get (rw_entries w) e = Some x \<and> bt_contains (re_active x) rid)"
      using assms(1,2) unfolding registry_inv_def by simp
    also have "\<dots> \<longleftrightarrow> (\<exists>y. bt_get (rw_entries w') e = Some y \<and> bt_contains (re_active y) rid)"
      using assms(3) [of e] by (cases "bt_get (rw_entries w) e"; cases "bt_get (rw_entries w') e") auto
    finally show ?thesis .
  qed
  moreover have "bt_len (re_active y) = 0" if "bt_get (rw_entries w') e = Some y" "re_lifecycle y = LifeStopped" for e y
    using bwd [OF that(1)] that(2) idle by force
  ultimately show ?thesis unfolding registry_inv_def by blast
qed

lemma update_entry_inv:
  assumes "registry_inv w" and "update_entry f e (rw_entries w) = (r, es)"
    and "\<And>x. re_active (f x) = re_active x"
    and "\<And>x. re_lifecycle (f x) = LifeStopped \<Longrightarrow> re_lifecycle x = LifeStopped \<or> bt_len (re_active x) = 0"
  shows "registry_inv (w\<lparr>rw_entries := es\<rparr>)"
proof (rule registry_inv_update [OF assms(1)])
  fix e'
  show "rel_option (\<lambda>x y. re_active y = re_active x \<and>
      (re_lifecycle y = LifeStopped \<longrightarrow> re_lifecycle x = LifeStopped \<or> bt_len (re_active x) = 0))
      (bt_get (rw_entries w) e') (bt_get (rw_entries (w\<lparr>rw_entries := es\<rparr>)) e')"
    using assms(2,3) assms(4) [of "the (bt_get (rw_entries w) e)"]
    by (auto simp: update_entry_def option.rel_refl split: option.splits)
qed simp

lemma map_entries_inv:
  assumes "registry_inv w" and "\<And>x. re_active (f x) = re_active x"
    and "\<And>x. re_lifecycle (f x) = LifeStopped \<Longrightarrow> re_lifecycle x = LifeStopped \<or> bt_len (re_active x) = 0"
  shows "registry_inv (w\<lparr>rw_entries := bt_map_values f (rw_entries w)\<rparr>)"
proof (rule registry_inv_update [OF assms(1)])
  fix e
  show "rel_option (\<lambda>x y. re_active y = re_active x \<and>
      (re_lifecycle y = LifeStopped \<longrightarrow> re_lifecycle x = LifeStopped \<or> bt_len (re_active x) = 0))
      (bt_get (rw_entries w) e) (bt_get (rw_entries (w\<lparr>rw_entries := bt_map_values f (rw_entries w)\<rparr>)) e)"
    using assms(2,3) by (cases "bt_get (rw_entries w) e") auto
qed simp

lemma acquire_execution_Ok:
  "acquire_execution inst target ctx cancelled now reg = (Inr permit, reg') \<longleftrightarrow>
   ensure_active ctx cancelled now = Inr () \<and> permit = (er_id (et_engine target), oc_request_id ctx) \<and>
   (\<exists>entry. bt_get reg (er_id (et_engine target)) = Some entry \<and> re_lifecycle entry = LifeReady \<and>
      er_generation (ei_reference (inst (re_adapter entry))) = er_generation (et_engine target) \<and>
      \<not> bt_contains (re_active entry) (oc_request_id ctx) \<and>
      reg' = bt_insert (er_id (et_engine target))
        (entry\<lparr>re_active := bt_insert (oc_request_id ctx) (oc_cancellation ctx) (re_active entry)\<rparr>) reg)"
  by (auto simp: acquire_execution_def split: sum.splits option.splits engine_lifecycle.splits)

lemma register_inv:
  assumes "registry_inv w" and "register inst a (rw_entries w) = (r, es)"
  shows "registry_inv (w\<lparr>rw_entries := es\<rparr>)"
proof (cases "bt_contains (rw_entries w) (er_id (ei_reference (inst a)))")
  case True
  with assms show ?thesis by (auto simp add: register_def Let_def)
next
  case False
  then have "bt_get (rw_entries w) (er_id (ei_reference (inst a))) = None" by (simp add: bt_contains_def)
  with False assms show ?thesis
    by (auto simp: register_def Let_def registry_inv_def bt_contains_def split: if_splits)
qed

lemma acquire_inv:
  assumes "registry_inv w" and "acquire_execution inst target ctx cancelled now (rw_entries w) = (Inr permit, es)"
  shows "registry_inv \<lparr>rw_entries = es, rw_permits = insert permit (rw_permits w)\<rparr>"
proof -
  obtain entry where "bt_get (rw_entries w) (er_id (et_engine target)) = Some entry" "re_lifecycle entry = LifeReady"
    "permit = (er_id (et_engine target), oc_request_id ctx)"
    "es = bt_insert (er_id (et_engine target))
        (entry\<lparr>re_active := bt_insert (oc_request_id ctx) (oc_cancellation ctx) (re_active entry)\<rparr>) (rw_entries w)"
    using assms(2) by (auto simp: acquire_execution_Ok)
  with assms(1) show ?thesis
    unfolding registry_inv_def by (auto simp: bt_contains_def split: if_splits)
qed

lemma release_inv_registry:
  assumes "registry_inv w" and "(e, rid) \<in> rw_permits w" and "release_execution e rid (rw_entries w) = (n, es)"
  shows "registry_inv \<lparr>rw_entries = es, rw_permits = rw_permits w - {(e, rid)}\<rparr>"
proof -
  obtain entry where entry: "bt_get (rw_entries w) e = Some entry" "bt_contains (re_active entry) rid"
    using assms(1,2) unfolding registry_inv_def by blast
  then have "es = bt_insert e (stop_entry (entry\<lparr>re_active := bt_remove rid (re_active entry)\<rparr>)) (rw_entries w)"
    using assms(3) by (auto simp: release_execution_def stop_entry_def Let_def)
  moreover have "re_lifecycle entry \<noteq> LifeStopped"
    using assms(1) entry bt_len_zero_iff [of "re_active entry"] unfolding registry_inv_def bt_contains_def by metis
  ultimately show ?thesis
    using assms(1) entry unfolding registry_inv_def
    by (auto simp: bt_contains_def entry_stopped split: if_splits)
qed

lemma registry_step_inv: "registry_step inst w w' \<Longrightarrow> registry_inv w \<Longrightarrow> registry_inv w'"
proof (induction rule: registry_step.induct)
  case (reg_drain e w r es)
  then show ?case by (intro update_entry_inv [of w drain_entry e]) (simp_all add: registry_begin_drain_def entry_stopped)
next
  case (reg_resume e w r es)
  then show ?case by (intro update_entry_inv [of w resume_entry e]) (simp_all add: registry_resume_def entry_stopped)
next
  case (reg_stop e w r es)
  then show ?case by (intro update_entry_inv [of w stop_entry e]) (auto simp add: stop_drained_engine_def entry_stopped)
next
  case (reg_drain_all w)
  then show ?case unfolding registry_begin_drain_all_def by (rule map_entries_inv) (simp_all add: entry_stopped)
next
  case (reg_stop_all w)
  then show ?case unfolding stop_drained_def by (rule map_entries_inv) (auto simp add: entry_stopped)
qed (auto intro: register_inv acquire_inv release_inv_registry)

lemma registry_reachable_inv: "registry_reachable inst w \<Longrightarrow> registry_inv w"
proof (induction rule: registry_reachable.induct)
  case registry_init
  then show ?case by (simp add: registry_inv_def registry_new_def)
qed (rule registry_step_inv)

text \<open>
  C33: engines stop only when idle. In every reachable registry an execution is recorded on its
  engine exactly while its permit is held, and a stopped engine has none, whatever the
  interleaving of acquisitions, releases, drains, resumptions and stops.
\<close>

theorem registry_safe:
  assumes "registry_reachable inst w" and "bt_get (rw_entries w) e = Some entry"
  shows "(bt_contains (re_active entry) rid \<longleftrightarrow> (e, rid) \<in> rw_permits w) \<and>
     (re_lifecycle entry \<noteq> LifeStopped \<or> bt_len (re_active entry) = 0)"
proof -
  have "registry_inv w" by (rule registry_reachable_inv [OF assms(1)])
  with assms(2) show ?thesis unfolding registry_inv_def by auto
qed

text \<open>
  An execution is admitted exactly on an active context, a registered engine of the target's
  generation that is ready, and a request id not already running there; the permit then names that
  engine and request.
\<close>

lemma acquire_execution_iff:
  "is_ok (fst (acquire_execution inst target ctx cancelled now reg)) \<longleftrightarrow>
   ensure_active ctx cancelled now = Inr () \<and>
   (\<exists>entry. bt_get reg (er_id (et_engine target)) = Some entry \<and> re_lifecycle entry = LifeReady \<and>
      adapter_for inst target reg = Inr (re_adapter entry) \<and> re_adapter entry \<in> set (routable_adapters reg) \<and>
      \<not> bt_contains (re_active entry) (oc_request_id ctx))"
proof -
  have routable: "re_adapter entry \<in> set (routable_adapters reg)"
    if "bt_get reg k = Some entry" "re_lifecycle entry = LifeReady" for k entry
    using that by (force simp: routable_adapters_def bt_values_def bt_get_iff)
  show ?thesis
    by (auto simp: acquire_execution_def adapter_for_def intro: routable
        split: sum.splits option.splits engine_lifecycle.splits if_splits)
qed

text \<open>
  A drain finishes by itself. When the last execution of a draining engine is released, the
  engine is stopped; no other engine changes.
\<close>

lemma last_release_stops:
  assumes "bt_get reg e = Some entry" and "re_lifecycle entry = LifeDraining"
    and "bt_contains (re_active entry) rid" and "bt_len (re_active entry) = 1"
  shows "engine_lifecycle_of e (snd (release_execution e rid reg)) = Inr LifeStopped \<and>
     (e' = e \<or> bt_get (snd (release_execution e rid reg)) e' = bt_get reg e')"
proof -
  obtain tok where "bt_get (re_active entry) rid = Some tok" using assms(3) by (auto simp: bt_contains_def)
  from bt_len_remove [OF this] assms(4) have "bt_len (bt_remove rid (re_active entry)) = 0" by simp
  with assms show ?thesis by (simp add: release_execution_def engine_lifecycle_of_def Let_def)
qed

section \<open>A concrete engine\<close>

text \<open>The adapter is represented by its instance.\<close>

abbreviation registry_target :: execution_target where
  "registry_target \<equiv> sample_target ''t1'' ''e1''"

definition sample_engine :: engine_instance where
  "sample_engine = \<lparr>ei_reference = et_engine registry_target, ei_runtime = \<lparr>ri_kind = ''fake'', ri_runtime_version = ''1'', ri_adapter_version = ''1''\<rparr>,
     ei_topology = ''local'', ei_hardware = ''cpu'', ei_health_endpoint = None\<rparr>"

definition sample_entry :: "engine_lifecycle \<Rightarrow> engine_instance registered_engine" where
  "sample_entry life = \<lparr>re_adapter = sample_engine, re_lifecycle = life, re_active = bt_insert ''r'' 7 bt_empty\<rparr>"

definition sample_registry :: "engine_instance engine_registry" where
  "sample_registry = bt_insert (er_id (et_engine registry_target)) (sample_entry LifeReady) bt_empty"

lemma sample_registry_reachable:
  "registry_reachable id \<lparr>rw_entries = sample_registry, rw_permits = {(er_id (et_engine registry_target), ''r'')}\<rparr>"
proof -
  let ?e = "er_id (et_engine registry_target)"
  let ?idle = "\<lparr>re_adapter = sample_engine, re_lifecycle = LifeReady, re_active = bt_empty\<rparr>"
  have "register id sample_engine registry_new = (Inr (), bt_insert ?e ?idle bt_empty)"
    by (simp add: register_def registry_new_def sample_engine_def bt_contains_def)
  from registry_next [OF registry_init reg_register [of id sample_engine "\<lparr>rw_entries = registry_new, rw_permits = {}\<rparr>", simplified, OF this]]
  have one: "registry_reachable id \<lparr>rw_entries = bt_insert ?e ?idle bt_empty, rw_permits = {}\<rparr>" by simp
  have twice: "bt_insert ?e x (bt_insert ?e y bt_empty) = bt_insert ?e x bt_empty" for x y :: "engine_instance registered_engine"
    by (rule bt_ext) simp
  have "acquire_execution id registry_target (operation_context_new ''r'' 7) {} 0 (bt_insert ?e ?idle bt_empty) =
      (Inr (?e, ''r''), sample_registry)"
    by (simp add: acquire_execution_def ensure_active_def operation_context_new_def is_cancelled_def bt_contains_def
        sample_engine_def sample_registry_def sample_entry_def twice)
  from registry_next [OF one reg_acquire [of id registry_target "operation_context_new ''r'' 7" "{}" 0
        "\<lparr>rw_entries = bt_insert ?e ?idle bt_empty, rw_permits = {}\<rparr>", simplified, OF this]]
  show ?thesis by simp
qed

theorem registry_safe_witness:
  "bt_contains (re_active (sample_entry LifeReady)) ''r'' \<longleftrightarrow>
     (er_id (et_engine registry_target), ''r'') \<in> {(er_id (et_engine registry_target), ''r'')}"
  using registry_safe [OF sample_registry_reachable, of "er_id (et_engine registry_target)" "sample_entry LifeReady" "''r''"]
  by (simp add: sample_registry_def)

end
