(* ===== verification/Fake_Engine.thy ===== *)
theory Fake_Engine
  imports Registry Decimal Str_Search
begin

text \<open>
  The deterministic engine adapter of \<open>crates/engine/src/fake.rs\<close>: its state with the imports in
  progress, the operations of the trait \<open>EngineAdapter\<close> on it, and the event stream of an
  execution. The atomics and the import map behind its mutex are fields of a record. The delays
  only postpone events and are not modelled; a stream is the list of the events it yields.
\<close>

section \<open>State\<close>

record fake_engine_call_counts =
  ec_prepare :: usize
  ec_commit :: usize
  ec_abort :: usize
  ec_execute :: usize
  ec_cancel :: usize

record fake_tool_call =
  ft_call_id :: string
  ft_name :: string
  ft_argument_deltas :: "string list"

record fake_engine_output =
  fo_token_deltas :: "u32 list list"
  fo_text_deltas :: "string list"
  fo_reasoning_deltas :: "string list"
  fo_tool_calls :: "fake_tool_call list"
  fo_finish_reason :: engine_finish_reason

definition fake_engine_output_default :: fake_engine_output where
  "fake_engine_output_default =
     \<lparr>fo_token_deltas = [[42]], fo_text_deltas = [], fo_reasoning_deltas = [], fo_tool_calls = [],
      fo_finish_reason = FinishStop\<rparr>"

record fake_engine =
  fe_instance_template :: engine_instance
  fe_target_template :: execution_target
  fe_capabilities :: engine_capabilities
  fe_output :: fake_engine_output
  fe_generation :: u64
  fe_next_import :: u64
  fe_imports :: "(import_id, state_import_spec) btree"
  fe_calls :: fake_engine_call_counts

definition fake_engine_new :: "engine_instance \<Rightarrow> execution_target \<Rightarrow> engine_capabilities \<Rightarrow> fake_engine" where
  "fake_engine_new inst target capabilities =
     \<lparr>fe_instance_template = inst, fe_target_template = target, fe_capabilities = capabilities,
      fe_output = fake_engine_output_default, fe_generation = er_generation (ei_reference inst),
      fe_next_import = 1, fe_imports = bt_empty,
      fe_calls = \<lparr>ec_prepare = 0, ec_commit = 0, ec_abort = 0, ec_execute = 0, ec_cancel = 0\<rparr>\<rparr>"

definition with_output :: "fake_engine_output \<Rightarrow> fake_engine \<Rightarrow> fake_engine" where
  "with_output out e = e\<lparr>fe_output := out\<rparr>"

definition current_target :: "fake_engine \<Rightarrow> execution_target" where
  "current_target e =
     (fe_target_template e)\<lparr>et_engine := (et_engine (fe_target_template e))\<lparr>er_generation := fe_generation e\<rparr>\<rparr>"

definition restart :: "fake_engine \<Rightarrow> u64 \<times> fake_engine" where
  "restart e = (wrap_add64 (fe_generation e) 1, e\<lparr>fe_generation := wrap_add64 (fe_generation e) 1\<rparr>)"

definition validate_target :: "execution_target \<Rightarrow> fake_engine \<Rightarrow> (unit, engine_error) result" where
  "validate_target target e =
     (if et_id target \<noteq> et_id (fe_target_template e)
        \<or> er_id (et_engine target) \<noteq> er_id (ei_reference (fe_instance_template e))
      then Inl (EngineTargetNotFound (et_id target))
      else if er_generation (et_engine target) \<noteq> fe_generation e then Inl EngineStaleGeneration
      else Inr ())"

definition validate_engine_ref :: "engine_instance_ref \<Rightarrow> fake_engine \<Rightarrow> (unit, engine_error) result" where
  "validate_engine_ref engine e =
     (if er_id engine \<noteq> er_id (ei_reference (fe_instance_template e)) then Inl (EngineTargetNotFound (er_id engine))
      else if er_generation engine \<noteq> fe_generation e then Inl EngineStaleGeneration
      else Inr ())"

section \<open>The adapter\<close>

definition engine_guard ::
    "operation_context \<Rightarrow> cancel_token set \<Rightarrow> instant \<Rightarrow> (unit, engine_error) result" where
  "engine_guard c cancelled now =
     (case ensure_active c cancelled now of Inl e \<Rightarrow> Inl (EngineContext e) | Inr u \<Rightarrow> Inr u)"

definition fake_instance :: "fake_engine \<Rightarrow> engine_instance" where
  "fake_instance e =
     (fe_instance_template e)\<lparr>ei_reference :=
        (ei_reference (fe_instance_template e))\<lparr>er_generation := fe_generation e\<rparr>\<rparr>"

definition fake_execution_targets ::
    "operation_context \<Rightarrow> cancel_token set \<Rightarrow> instant \<Rightarrow> fake_engine \<Rightarrow> (execution_target list, engine_error) result" where
  "fake_execution_targets context cancelled now e =
     and_then (engine_guard context cancelled now) (\<lambda>_. Inr [current_target e])"

definition fake_capabilities_of ::
    "execution_target \<Rightarrow> operation_context \<Rightarrow> cancel_token set \<Rightarrow> instant \<Rightarrow> fake_engine
     \<Rightarrow> (engine_capabilities, engine_error) result" where
  "fake_capabilities_of target context cancelled now e =
     and_then (engine_guard context cancelled now)
       (\<lambda>_. and_then (validate_target target e) (\<lambda>_. Inr (fe_capabilities e)))"

definition fake_snapshot ::
    "execution_target \<Rightarrow> operation_context \<Rightarrow> cancel_token set \<Rightarrow> instant \<Rightarrow> fake_engine
     \<Rightarrow> (engine_snapshot, engine_error) result" where
  "fake_snapshot target context cancelled now e =
     and_then (engine_guard context cancelled now)
       (\<lambda>_. and_then (validate_target target e)
         (\<lambda>_. Inr \<lparr>es_target_id = et_id target, es_ready = True, es_telemetry_status = Fresh,
            es_telemetry_confidence = High, es_telemetry_source = ''locus.fake.v1'',
            es_observed_at_unix_millis = 1, es_valid_until_unix_millis = u64_max,
            es_running_requests = Some 0, es_waiting_requests = Some 0, es_estimated_queue_micros = Some 0,
            es_kv_cache_usage_permyriad = Some 0, es_prefill_tokens_per_second = Some 100000,
            es_decode_tokens_per_second = Some 50000, es_observation_revision = 1, es_degraded_reason = None\<rparr>))"

definition import_id_of :: "u64 \<Rightarrow> import_id" where
  "import_id_of n = ''import-'' @ nat_to_dec n"

definition sixty_seconds :: duration where
  "sixty_seconds = 60 * 1000000000"

definition fake_prepare_state_import ::
    "execution_target \<Rightarrow> state_import_spec \<Rightarrow> operation_context \<Rightarrow> cancel_token set \<Rightarrow> instant
     \<Rightarrow> fake_engine \<Rightarrow> (state_import_target, engine_error) result \<times> fake_engine" where
  "fake_prepare_state_import target spec context cancelled now e =
     (case and_then (engine_guard context cancelled now) (\<lambda>_. validate_target target e) of
        Inl err \<Rightarrow> (Inl err, e)
      | Inr _ \<Rightarrow>
          if \<not> is_compatible (im_compatibility spec)
          then (Inl (EngineStateImport ''incompatible state reached import preparation''), e)
          else if im_state_kind spec \<notin> ec_supported_state_kinds (fe_capabilities e)
          then (Inl (EngineUnsupported (''state kind '' @ im_state_kind spec)), e)
          else
            (let import_id = import_id_of (fe_next_import e) in
             (Inr \<lparr>it_import_id = import_id, it_target_id = et_id target, it_engine = et_engine target,
                   it_state_kind = im_state_kind spec,
                   it_sink = \<lparr>oh_namespace = ''locus.fake.engine-sink.v1'', oh_value = et_id target\<rparr>,
                   it_expires_at = now + sixty_seconds\<rparr>,
              e\<lparr>fe_calls := (fe_calls e)\<lparr>ec_prepare := wrap_add64 (ec_prepare (fe_calls e)) 1\<rparr>,
                fe_next_import := wrap_add64 (fe_next_import e) 1,
                fe_imports := bt_insert import_id spec (fe_imports e)\<rparr>)))"

definition fake_commit_state_import ::
    "state_import_target \<Rightarrow> transfer_receipt \<Rightarrow> operation_context \<Rightarrow> cancel_token set \<Rightarrow> instant
     \<Rightarrow> fake_engine \<Rightarrow> (prepared_state_attachment, engine_error) result \<times> fake_engine" where
  "fake_commit_state_import import receipt context cancelled now e =
     (case and_then (engine_guard context cancelled now) (\<lambda>_. validate_engine_ref (it_engine import) e) of
        Inl err \<Rightarrow> (Inl err, e)
      | Inr _ \<Rightarrow>
          if it_expires_at import \<le> now then (Inl (EngineStateImport ''import target expired''), e)
          else if rc_import_id receipt \<noteq> it_import_id import
          then (Inl (EngineStateImport ''transfer receipt does not match import''), e)
          else
            (let e' = e\<lparr>fe_calls := (fe_calls e)\<lparr>ec_commit := wrap_add64 (ec_commit (fe_calls e)) 1\<rparr>\<rparr> in
             case bt_get (fe_imports e') (it_import_id import) of
               None \<Rightarrow> (Inl (EngineStateImport ''unknown import handle''), e')
             | Some spec \<Rightarrow>
                 (Inr \<lparr>pa_id = ''attachment-'' @ it_import_id import, pa_target_id = it_target_id import,
                       pa_engine = it_engine import, pa_state_kind = it_state_kind import,
                       pa_boundary = im_boundary spec, pa_expires_at = now + sixty_seconds\<rparr>,
                  e'\<lparr>fe_imports := bt_remove (it_import_id import) (fe_imports e')\<rparr>)))"

definition fake_abort_state_import ::
    "state_import_target \<Rightarrow> operation_context \<Rightarrow> fake_engine \<Rightarrow> (unit, engine_error) result \<times> fake_engine" where
  "fake_abort_state_import import context e =
     (Inr (), e\<lparr>fe_calls := (fe_calls e)\<lparr>ec_abort := wrap_add64 (ec_abort (fe_calls e)) 1\<rparr>,
                fe_imports := bt_remove (it_import_id import) (fe_imports e)\<rparr>)"

subsection \<open>The event stream\<close>

text \<open>Each loop over the configured deltas takes and returns the next sequence number.\<close>

fun number_events :: "(u64 \<Rightarrow> engine_event) list \<Rightarrow> u64 \<Rightarrow> engine_event list \<times> u64" where
  "number_events [] n = ([], n)"
| "number_events (f # fs) n = (let (es, m) = number_events fs (wrap_add64 n 1) in (f n # es, m))"

definition tool_call_events :: "request_id \<Rightarrow> fake_tool_call \<Rightarrow> (u64 \<Rightarrow> engine_event) list" where
  "tool_call_events rid c =
     [\<lambda>n. ToolCallStarted rid n (ft_call_id c) (ft_name c)] @
     map (\<lambda>d n. ToolCallArgumentsDelta rid n (ft_call_id c) d) (ft_argument_deltas c) @
     [\<lambda>n. ToolCallCompleted rid n (ft_call_id c)]"

definition delta_events :: "request_id \<Rightarrow> fake_engine_output \<Rightarrow> (u64 \<Rightarrow> engine_event) list" where
  "delta_events rid out =
     map (\<lambda>ids n. TokenDelta rid n ids) (fo_token_deltas out) @
     map (\<lambda>txt n. TextDelta rid n txt) (fo_text_deltas out) @
     map (\<lambda>txt n. ReasoningDelta rid n txt) (fo_reasoning_deltas out) @
     concat (map (tool_call_events rid) (fo_tool_calls out))"

definition fake_output_tokens :: "fake_engine_output \<Rightarrow> u64" where
  "fake_output_tokens out =
     sat_add64 (sum_u64 (map length (fo_token_deltas out)))
       (sum_u64 (map (\<lambda>d. length (char_indices d)) (fo_text_deltas out)))"

definition fake_input_tokens :: "canonical_request \<Rightarrow> u64" where
  "fake_input_tokens request =
     sum_u64 (List.map_filter
       (\<lambda>item. case ii_value item of TokenSequence tokens \<Rightarrow> Some (length (ts_token_ids tokens)) | _ \<Rightarrow> None)
       (ib_items (rq_input request)))"

definition fake_events :: "canonical_request \<Rightarrow> fake_engine_output \<Rightarrow> engine_event list" where
  "fake_events request out =
     [Accepted (rq_id request)] @ fst (number_events (delta_events (rq_id request) out) 1) @
     [Finished (rq_id request) (fo_finish_reason out)
       \<lparr>us_input_tokens = fake_input_tokens request, us_output_tokens = fake_output_tokens out\<rparr>]"

definition fake_execute ::
    "execution_target \<Rightarrow> canonical_request \<Rightarrow> prepared_state_attachment option \<Rightarrow> operation_context
     \<Rightarrow> cancel_token set \<Rightarrow> instant \<Rightarrow> fake_engine \<Rightarrow> (engine_stream, engine_error) result \<times> fake_engine" where
  "fake_execute target request state context cancelled now e =
     (case and_then (engine_guard context cancelled now) (\<lambda>_. validate_target target e) of
        Inl err \<Rightarrow> (Inl err, e)
      | Inr _ \<Rightarrow>
          if (case state of None \<Rightarrow> False | Some attachment \<Rightarrow> \<not> attachment_is_valid_for attachment target now)
          then (Inl (EngineStateImport ''prepared state is not valid for target generation''), e)
          else (Inr (map Inr (fake_events request (fe_output e))),
                e\<lparr>fe_calls := (fe_calls e)\<lparr>ec_execute := wrap_add64 (ec_execute (fe_calls e)) 1\<rparr>\<rparr>))"

definition fake_cancel ::
    "request_id \<Rightarrow> operation_context \<Rightarrow> cancel_token set \<Rightarrow> instant \<Rightarrow> fake_engine \<Rightarrow> (unit, engine_error) result \<times> fake_engine" where
  "fake_cancel rid context cancelled now e =
     (case engine_guard context cancelled now of
        Inl err \<Rightarrow> (Inl err, e)
      | Inr _ \<Rightarrow> (Inr (), e\<lparr>fe_calls := (fe_calls e)\<lparr>ec_cancel := wrap_add64 (ec_cancel (fe_calls e)) 1\<rparr>\<rparr>))"

section \<open>Properties\<close>

lemma import_id_of_inject [simp]: "import_id_of m = import_id_of n \<longleftrightarrow> m = n"
  by (simp add: import_id_of_def)

text \<open>All imports in progress were numbered before the next one.\<close>

definition imports_numbered :: "fake_engine \<Rightarrow> bool" where
  "imports_numbered e \<longleftrightarrow>
     (\<forall>k. bt_contains (fe_imports e) k \<longrightarrow> (\<exists>n < fe_next_import e. k = import_id_of n)) \<and> fe_next_import e < u64_max"

fun event_sequence :: "engine_event \<Rightarrow> u64 option" where
  "event_sequence (TokenDelta _ n _) = Some n"
| "event_sequence (TextDelta _ n _) = Some n"
| "event_sequence (ReasoningDelta _ n _) = Some n"
| "event_sequence (ToolCallStarted _ n _ _) = Some n"
| "event_sequence (ToolCallArgumentsDelta _ n _ _) = Some n"
| "event_sequence (ToolCallCompleted _ n _) = Some n"
| "event_sequence _ = None"

lemma number_events_sequence:
  assumes "\<And>f n. f \<in> set fs \<Longrightarrow> event_sequence (f n) = Some n" and "n + length fs \<le> u64_max"
  shows "map event_sequence (fst (number_events fs n)) = map Some [n..<n + length fs]"
  using assms
proof (induction fs arbitrary: n)
  case (Cons f fs)
  have "map event_sequence (fst (number_events fs (Suc n))) = map Some [Suc n..<Suc n + length fs]"
    using Cons.prems by (intro Cons.IH) simp_all
  moreover have "event_sequence (f n) = Some n" using Cons.prems(1) by simp
  moreover have "[n..<n + length (f # fs)] = n # [Suc n..<Suc n + length fs]"
    by (simp add: upt_conv_Cons del: upt_Suc)
  ultimately show ?case
    using Cons.prems(2) by (simp add: wrap_add64_exact case_prod_unfold Let_def del: upt_Suc)
qed simp

lemma delta_events_sequence: "f \<in> set (delta_events rid out) \<Longrightarrow> event_sequence (f n) = Some n"
  by (auto simp: delta_events_def tool_call_events_def)

text \<open>
  The event stream of an execution begins with its acceptance, ends with its completion, and
  in between the deltas carry the consecutive sequence numbers from one.
\<close>

lemma fake_stream_shape:
  assumes "length (delta_events (rq_id request) (fe_output e)) < u64_max"
    and "fst (fake_execute target request state context cancelled now e) = Inr (map Inr events)"
  shows "hd events = Accepted (rq_id request) \<and>
     map event_sequence (tl (butlast events)) = map Some [1..<length events - 1] \<and>
     (\<exists>reason usage. last events = Finished (rq_id request) reason usage)"
proof -
  let ?fs = "delta_events (rq_id request) (fe_output e)"
  have ev: "events = fake_events request (fe_output e)"
    using assms(2) by (auto simp: fake_execute_def split: sum.splits if_splits)
  have seq: "map event_sequence (fst (number_events ?fs 1)) = map Some [1..<1 + length ?fs]"
    using assms(1) by (intro number_events_sequence) (simp_all add: delta_events_sequence)
  then have "length (fst (number_events ?fs 1)) = length ?fs" by (metis length_map length_upt add_diff_cancel_left')
  with seq show ?thesis by (simp add: ev fake_events_def butlast_append)
qed

end
