(* ===== verification/Store.thy ===== *)
theory Store
  imports Core_Model
begin

text \<open>
  The state stores of \<open>crates/store\<close>: the trait \<open>StateStore\<close> (\<open>lib.rs\<close>) as the locale
  \<open>state_store\<close>, the null store and the fake store (\<open>fake.rs\<close>) as its instances. The atomics
  of the fake store are fields of a record that its operations return updated. An error message is
  represented by the branch that produces it.
\<close>

section \<open>Errors\<close>

datatype store_reason =
    NullCannotMaterialize
  | FakeOutage
  | FakeMaterializationFailure
  | ForeignOption
  | ImportMismatch
  | ImportExpired
  | OtherStoreReason string

datatype store_error =
    StoreContext context_error
  | StoreErrUnavailable store_reason
  | StoreErrUnsupported store_reason
  | StoreErrIncompatible store_reason
  | StoreErrProtocol store_reason
  | StoreErrMaterialization store_reason

definition store_guard ::
    "operation_context \<Rightarrow> cancel_token set \<Rightarrow> instant \<Rightarrow> (unit, store_error) result" where
  "store_guard c cancelled now =
     (case ensure_active c cancelled now of Inl e \<Rightarrow> Inl (StoreContext e) | Inr u \<Rightarrow> Inr u)"

section \<open>The null store\<close>

definition null_store_identity :: store_id where
  "null_store_identity = ''locus.null-state-store''"

definition null_lookup ::
    "state_requirement \<Rightarrow> operation_context \<Rightarrow> cancel_token set \<Rightarrow> instant
     \<Rightarrow> unit \<Rightarrow> (state_descriptor list, store_error) result \<times> unit" where
  "null_lookup requirement context cancelled now s =
     (and_then (store_guard context cancelled now) (\<lambda>_. Inr []), s)"

definition null_estimate ::
    "state_descriptor \<Rightarrow> execution_target \<Rightarrow> operation_context \<Rightarrow> cancel_token set \<Rightarrow> instant
     \<Rightarrow> unit \<Rightarrow> (materialization_option list, store_error) result \<times> unit" where
  "null_estimate state target context cancelled now s =
     (and_then (store_guard context cancelled now) (\<lambda>_. Inr []), s)"

definition null_materialize ::
    "materialization_option \<Rightarrow> state_import_target \<Rightarrow> operation_context \<Rightarrow> cancel_token set \<Rightarrow> instant
     \<Rightarrow> unit \<Rightarrow> (transfer_receipt, store_error) result \<times> unit" where
  "null_materialize opt target context cancelled now s =
     (and_then (store_guard context cancelled now) (\<lambda>_. Inl (StoreErrUnsupported NullCannotMaterialize)), s)"

section \<open>The fake store\<close>

record fake_state_call_counts =
  fc_lookup :: usize
  fc_estimate :: usize
  fc_materialize :: usize

record fake_store =
  fs_identity :: store_id
  fs_states :: "state_descriptor list"
  fs_options :: "materialization_option list"
  fs_unavailable :: bool
  fs_fail_materialization :: bool
  fs_calls :: fake_state_call_counts

definition fake_store_new :: "store_id \<Rightarrow> state_descriptor list \<Rightarrow> materialization_option list \<Rightarrow> fake_store" where
  "fake_store_new identity states options =
     \<lparr>fs_identity = identity, fs_states = states, fs_options = options, fs_unavailable = False,
      fs_fail_materialization = False, fs_calls = \<lparr>fc_lookup = 0, fc_estimate = 0, fc_materialize = 0\<rparr>\<rparr>"

definition set_unavailable :: "bool \<Rightarrow> fake_store \<Rightarrow> fake_store" where
  "set_unavailable b s = s\<lparr>fs_unavailable := b\<rparr>"

definition set_fail_materialization :: "bool \<Rightarrow> fake_store \<Rightarrow> fake_store" where
  "set_fail_materialization b s = s\<lparr>fs_fail_materialization := b\<rparr>"

definition fake_state_call_counts_of :: "fake_store \<Rightarrow> fake_state_call_counts" where
  "fake_state_call_counts_of s = fs_calls s"

definition state_matches :: "state_requirement \<Rightarrow> state_descriptor \<Rightarrow> bool" where
  "state_matches requirement state \<longleftrightarrow>
     sd_model state = sq_model requirement \<and> sd_kind state \<in> sq_accepted_state_kinds requirement \<and>
     (case sd_relevant_input_semantics state of
        None \<Rightarrow> True | Some identity \<Rightarrow> identity = sq_input_semantics requirement)"

definition fake_lookup ::
    "state_requirement \<Rightarrow> operation_context \<Rightarrow> cancel_token set \<Rightarrow> instant
     \<Rightarrow> fake_store \<Rightarrow> (state_descriptor list, store_error) result \<times> fake_store" where
  "fake_lookup requirement context cancelled now s =
     (case store_guard context cancelled now of
        Inl e \<Rightarrow> (Inl e, s)
      | Inr _ \<Rightarrow>
          (let s' = s\<lparr>fs_calls := (fs_calls s)\<lparr>fc_lookup := wrap_add64 (fc_lookup (fs_calls s)) 1\<rparr>\<rparr>
           in if fs_unavailable s' then (Inl (StoreErrUnavailable FakeOutage), s')
              else (Inr (filter (state_matches requirement) (fs_states s')), s')))"

definition fake_estimate ::
    "state_descriptor \<Rightarrow> execution_target \<Rightarrow> operation_context \<Rightarrow> cancel_token set \<Rightarrow> instant
     \<Rightarrow> fake_store \<Rightarrow> (materialization_option list, store_error) result \<times> fake_store" where
  "fake_estimate state target context cancelled now s =
     (case store_guard context cancelled now of
        Inl e \<Rightarrow> (Inl e, s)
      | Inr _ \<Rightarrow>
          (let s' = s\<lparr>fs_calls := (fs_calls s)\<lparr>fc_estimate := wrap_add64 (fc_estimate (fs_calls s)) 1\<rparr>\<rparr>
           in if fs_unavailable s' then (Inl (StoreErrUnavailable FakeOutage), s')
              else (Inr (filter (\<lambda>opt. mo_source_state opt = sd_id state \<and> mo_target_id opt = et_id target) (fs_options s')), s')))"

definition fake_materialize ::
    "materialization_option \<Rightarrow> state_import_target \<Rightarrow> operation_context \<Rightarrow> cancel_token set \<Rightarrow> instant
     \<Rightarrow> fake_store \<Rightarrow> (transfer_receipt, store_error) result \<times> fake_store" where
  "fake_materialize opt target context cancelled now s =
     (case store_guard context cancelled now of
        Inl e \<Rightarrow> (Inl e, s)
      | Inr _ \<Rightarrow>
          (let s' = s\<lparr>fs_calls := (fs_calls s)\<lparr>fc_materialize := wrap_add64 (fc_materialize (fs_calls s)) 1\<rparr>\<rparr>
           in (if fs_unavailable s' then Inl (StoreErrUnavailable FakeOutage)
               else if fs_fail_materialization s' then Inl (StoreErrMaterialization FakeMaterializationFailure)
               else if mo_store opt \<noteq> fs_identity s' then Inl (StoreErrMaterialization ForeignOption)
               else if mo_target_id opt \<noteq> it_target_id target \<or> mo_target_engine opt \<noteq> it_engine target
                     \<or> mo_state_kind opt \<noteq> it_state_kind target
               then Inl (StoreErrMaterialization ImportMismatch)
               else if it_expires_at target \<le> now then Inl (StoreErrMaterialization ImportExpired)
               else Inr \<lparr>rc_import_id = it_import_id target, rc_store = fs_identity s', rc_bytes_transferred = 4096,
                         rc_receipt = \<lparr>oh_namespace = ''locus.fake.transfer-receipt.v1'', oh_value = mo_id opt\<rparr>\<rparr>,
               s')))"

section \<open>The contract of a state store\<close>

text \<open>
  What the runtime relies on: an inactive context is refused with the context's error and without
  an effect, found states match the requirement, options are for the asked state and target, and
  a receipt names the import it was made for.
\<close>

locale state_store =
  fixes lookup :: "state_requirement \<Rightarrow> operation_context \<Rightarrow> cancel_token set \<Rightarrow> instant
      \<Rightarrow> 's \<Rightarrow> (state_descriptor list, store_error) result \<times> 's"
    and estimate :: "state_descriptor \<Rightarrow> execution_target \<Rightarrow> operation_context \<Rightarrow> cancel_token set \<Rightarrow> instant
      \<Rightarrow> 's \<Rightarrow> (materialization_option list, store_error) result \<times> 's"
    and materialize :: "materialization_option \<Rightarrow> state_import_target \<Rightarrow> operation_context \<Rightarrow> cancel_token set \<Rightarrow> instant
      \<Rightarrow> 's \<Rightarrow> (transfer_receipt, store_error) result \<times> 's"
  assumes lookup_guard: "ensure_active c k now = Inl e \<Longrightarrow> lookup req c k now s = (Inl (StoreContext e), s)"
    and materialize_guard: "ensure_active c k now = Inl e \<Longrightarrow> materialize opt imp c k now s = (Inl (StoreContext e), s)"
    and lookup_sound: "lookup req c k now s = (Inr ds, s') \<Longrightarrow> list_all (state_matches req) ds"
    and estimate_sound: "estimate d t c k now s = (Inr opts, s') \<Longrightarrow>
      list_all (\<lambda>opt. mo_source_state opt = sd_id d \<and> mo_target_id opt = et_id t) opts"
    and materialize_sound: "materialize opt imp c k now s = (Inr r, s') \<Longrightarrow> rc_import_id r = it_import_id imp"
begin

text \<open>A successful lookup or transfer is evidence of an active context.\<close>

lemma lookup_active: "lookup req c k now s = (Inr ds, s') \<Longrightarrow> ensure_active c k now = Inr ()"
  by (cases "ensure_active c k now") (auto simp: lookup_guard)

lemma materialize_active: "materialize opt imp c k now s = (Inr r, s') \<Longrightarrow> ensure_active c k now = Inr ()"
  by (cases "ensure_active c k now") (auto simp: materialize_guard)

text \<open>What discovery yields: matching states with options for the target.\<close>

lemma discovered_path:
  assumes "lookup req c k now s = (Inr ds, s1)" and "d \<in> set ds"
    and "estimate d t c k now s1 = (Inr opts, s2)" and "opt \<in> set opts"
  shows "sd_model d = sq_model req \<and> sd_kind d \<in> sq_accepted_state_kinds req \<and>
    mo_source_state opt = sd_id d \<and> mo_target_id opt = et_id t"
  using lookup_sound [OF assms(1)] estimate_sound [OF assms(3)] assms(2,4)
  by (auto simp: list_all_iff state_matches_def)

end

interpretation null_store: state_store null_lookup null_estimate null_materialize
  by unfold_locales
    (auto simp: null_lookup_def null_estimate_def null_materialize_def store_guard_def and_then_Inr_iff)

interpretation fake_store: state_store fake_lookup fake_estimate fake_materialize
  by unfold_locales
    (auto simp: fake_lookup_def fake_estimate_def fake_materialize_def store_guard_def Let_def list_all_iff
      split: sum.splits if_splits)

lemma fake_materialize_Ok:
  "fst (fake_materialize opt imp c k now s) = Inr r \<Longrightarrow>
   mo_store opt = fs_identity s \<and> mo_target_id opt = it_target_id imp \<and> mo_target_engine opt = it_engine imp \<and>
   mo_state_kind opt = it_state_kind imp \<and> now < it_expires_at imp \<and> rc_import_id r = it_import_id imp"
  by (auto simp: fake_materialize_def Let_def split: sum.splits if_splits)

end
