(* ===== verification/Executor.thy ===== *)
theory Executor
  imports Planner Fake_Engine Store
begin

text \<open>
  The plan executor of \<open>crates/planner/src/executor.rs\<close>. It drives an engine adapter and a state
  store through their traits; here they are the functions of an \<open>adapter_ops\<close> record over a world
  they share. Every \<open>context.run(...)\<close> may be interrupted by the context's cancellation or
  deadline, before or after the operation has taken effect in the world; how each await of one
  execution ends, and the clock readings, are the fields of \<open>exec_env\<close>.

  The world belongs to other executions too, and an engine may restart while this one waits: the
  parameter \<open>others\<close> is what happens in the world before and after the operation of each await.
  The executor looks its adapter up again for a fallback and for every clean-up, in the world as it
  is then.
\<close>

section \<open>The interfaces\<close>

record 'w adapter_ops =
  op_lookup :: "execution_target \<Rightarrow> 'w \<Rightarrow> (unit, engine_error) result"
  op_prepare :: "execution_target \<Rightarrow> state_import_spec \<Rightarrow> operation_context \<Rightarrow> 'w
      \<Rightarrow> (state_import_target, engine_error) result \<times> 'w"
  op_commit :: "state_import_target \<Rightarrow> transfer_receipt \<Rightarrow> operation_context \<Rightarrow> 'w
      \<Rightarrow> (prepared_state_attachment, engine_error) result \<times> 'w"
  op_abort :: "state_import_target \<Rightarrow> operation_context \<Rightarrow> 'w \<Rightarrow> (unit, engine_error) result \<times> 'w"
  op_execute :: "execution_target \<Rightarrow> canonical_request \<Rightarrow> prepared_state_attachment option \<Rightarrow> operation_context \<Rightarrow> 'w
      \<Rightarrow> (engine_stream, engine_error) result \<times> 'w"
  op_materialize :: "materialization_option \<Rightarrow> state_import_target \<Rightarrow> operation_context \<Rightarrow> 'w
      \<Rightarrow> (transfer_receipt, store_error) result \<times> 'w"

datatype await_outcome = Completes | Interrupted context_error bool

definition run_await :: "await_outcome \<Rightarrow> ('w \<Rightarrow> 'r \<times> 'w) \<Rightarrow> 'w \<Rightarrow> ('r, context_error) result \<times> 'w" where
  "run_await a f w =
     (case a of
        Completes \<Rightarrow> apfst Inr (f w)
      | Interrupted e effect \<Rightarrow> (Inl e, if effect then snd (f w) else w))"

text \<open>
  The awaits of one execution; each is reached at most once, so a function of the moment and the
  world can be any interference that a run meets.
\<close>

datatype exec_await = AtPrepare | AtMaterialize | AtCommit | AtExecute | AtAbort | AtFallback

datatype exec_moment = Before exec_await | After exec_await

type_synonym 'w interference = "exec_moment \<Rightarrow> 'w \<Rightarrow> 'w"

definition await_at ::
    "'w interference \<Rightarrow> exec_await \<Rightarrow> await_outcome \<Rightarrow> ('w \<Rightarrow> 'r \<times> 'w) \<Rightarrow> 'w \<Rightarrow> ('r, context_error) result \<times> 'w" where
  "await_at others a outcome f w = apsnd (others (After a)) (run_await outcome f (others (Before a) w))"

record exec_env =
  xe_prepare :: await_outcome
  xe_materialize :: await_outcome
  xe_commit :: await_outcome
  xe_execute :: await_outcome
  xe_abort :: await_outcome
  xe_fallback :: await_outcome
  xe_activation_started :: instant
  xe_materialization_started :: instant
  xe_materialization_done :: instant
  xe_stream_ready :: instant
  xe_cleanup_at :: instant
  xe_cleanup_token :: cancel_token

section \<open>Results\<close>

datatype executed_path = ExecutedCold | ExecutedReuse

record materialization_timing =
  mt_store :: string
  mt_state_kind :: string
  mt_target_id :: string
  mt_store_estimated_micros :: u64
  mt_actual_micros :: u64

record plan_execution_metadata =
  pm_executed_path :: executed_path
  pm_fallback_used :: bool
  pm_materialization :: "materialization_timing option"
  pm_topology_micros :: "u64 option"

record plan_execution =
  px_stream :: engine_stream
  px_metadata :: plan_execution_metadata

datatype exec_cause = CauseEngine engine_error | CauseStore store_error | CauseContext context_error

datatype plan_execution_error =
    PxContext context_error
  | PxEngine engine_error
  | PxStore store_error
  | PxInvalidPlan
  | PxPlannedPathFailed exec_cause
  | PxReplanRequired exec_cause
  | PxCleanupFailed exec_cause engine_error

type_synonym plan_execution_result = "(plan_execution, plan_execution_error) result"

definition elapsed_micros :: "instant \<Rightarrow> instant \<Rightarrow> u64" where
  "elapsed_micros started now = min ((now - started) div 1000) u64_max"

section \<open>Executing a plan\<close>

definition apply_fallback ::
    "'w adapter_ops \<Rightarrow> 'w interference \<Rightarrow> exec_env \<Rightarrow> fallback_action \<Rightarrow> placement_plan \<Rightarrow> canonical_request \<Rightarrow> operation_context
     \<Rightarrow> exec_cause \<Rightarrow> materialization_timing option \<Rightarrow> 'w \<Rightarrow> plan_execution_result \<times> 'w" where
  "apply_fallback ops others env fallback pl request context cause materialization w =
     (case fallback of
        ColdOnSameTarget \<Rightarrow>
          (case op_lookup ops (pp_target pl) w of
             Inl e \<Rightarrow> (Inl (PxEngine e), w)
           | Inr _ \<Rightarrow>
               (case await_at others AtFallback (xe_fallback env) (op_execute ops (pp_target pl) request None context) w of
                  (Inl e, w') \<Rightarrow> (Inl (PxContext e), w')
                | (Inr (Inl e), w') \<Rightarrow> (Inl (PxEngine e), w')
                | (Inr (Inr events), w') \<Rightarrow>
                    (Inr \<lparr>px_stream = events, px_metadata =
                       \<lparr>pm_executed_path = ExecutedCold, pm_fallback_used = True,
                        pm_materialization = materialization, pm_topology_micros = None\<rparr>\<rparr>, w')))
      | Replan \<Rightarrow> (Inl (PxReplanRequired cause), w)
      | Fail \<Rightarrow> (Inl (PxPlannedPathFailed cause), w))"

definition cleanup_context :: "exec_env \<Rightarrow> operation_context \<Rightarrow> operation_context" where
  "cleanup_context env context =
     with_deadline (xe_cleanup_at env + 2000000000)
       (operation_context_new (oc_request_id context) (xe_cleanup_token env))"

text \<open>The abort that the three clean-up paths share, with the error it turns into.\<close>

definition abort_import ::
    "'w adapter_ops \<Rightarrow> 'w interference \<Rightarrow> exec_env \<Rightarrow> state_import_target \<Rightarrow> placement_plan \<Rightarrow> operation_context \<Rightarrow> exec_cause
     \<Rightarrow> 'w \<Rightarrow> (unit, plan_execution_error) result \<times> 'w" where
  "abort_import ops others env import pl context cause w =
     (case op_lookup ops (pp_target pl) w of
        Inl e \<Rightarrow> (Inl (PxEngine e), w)
      | Inr _ \<Rightarrow>
          (case await_at others AtAbort (xe_abort env) (op_abort ops import (cleanup_context env context)) w of
             (Inr (Inr _), w') \<Rightarrow> (Inr (), w')
           | (Inr (Inl cleanup), w') \<Rightarrow> (Inl (PxCleanupFailed cause cleanup), w')
           | (Inl cleanup, w') \<Rightarrow> (Inl (PxCleanupFailed cause (EngineContext cleanup)), w')))"

definition abort_then_fallback ::
    "'w adapter_ops \<Rightarrow> 'w interference \<Rightarrow> exec_env \<Rightarrow> state_import_target \<Rightarrow> placement_plan \<Rightarrow> canonical_request \<Rightarrow> operation_context
     \<Rightarrow> exec_cause \<Rightarrow> materialization_timing option \<Rightarrow> 'w \<Rightarrow> plan_execution_result \<times> 'w" where
  "abort_then_fallback ops others env import pl request context cause materialization w =
     (case abort_import ops others env import pl context cause w of
        (Inl e, w') \<Rightarrow> (Inl e, w')
      | (Inr _, w') \<Rightarrow> apply_fallback ops others env (pp_fallback pl) pl request context cause materialization w')"

definition abort_after_context_error ::
    "'w adapter_ops \<Rightarrow> 'w interference \<Rightarrow> exec_env \<Rightarrow> state_import_target \<Rightarrow> placement_plan \<Rightarrow> operation_context \<Rightarrow> context_error
     \<Rightarrow> 'w \<Rightarrow> plan_execution_result \<times> 'w" where
  "abort_after_context_error ops others env import pl context error w =
     (case abort_import ops others env import pl context (CauseContext error) w of
        (Inl e, w') \<Rightarrow> (Inl e, w')
      | (Inr _, w') \<Rightarrow> (Inl (PxContext error), w'))"

definition abort_after_engine_error ::
    "'w adapter_ops \<Rightarrow> 'w interference \<Rightarrow> exec_env \<Rightarrow> state_import_target \<Rightarrow> placement_plan \<Rightarrow> operation_context \<Rightarrow> engine_error
     \<Rightarrow> 'w \<Rightarrow> plan_execution_result \<times> 'w" where
  "abort_after_engine_error ops others env import pl context error w =
     (case abort_import ops others env import pl context (CauseEngine error) w of
        (Inl e, w') \<Rightarrow> (Inl e, w')
      | (Inr _, w') \<Rightarrow> (Inl (PxEngine error), w'))"

definition timing_of :: "exec_env \<Rightarrow> placement_plan \<Rightarrow> state_reuse_plan \<Rightarrow> materialization_timing" where
  "timing_of env pl reuse =
     \<lparr>mt_store = mo_store (ru_option reuse), mt_state_kind = mo_state_kind (ru_option reuse),
      mt_target_id = et_id (pp_target pl),
      mt_store_estimated_micros = mo_estimated_transfer_micros (ru_option reuse),
      mt_actual_micros = elapsed_micros (xe_materialization_started env) (xe_materialization_done env)\<rparr>"

text \<open>The steps of the reuse path, each with its error branches.\<close>

definition attach_and_run ::
    "'w adapter_ops \<Rightarrow> 'w interference \<Rightarrow> exec_env \<Rightarrow> placement_plan \<Rightarrow> state_reuse_plan \<Rightarrow> canonical_request \<Rightarrow> operation_context
     \<Rightarrow> state_import_target \<Rightarrow> prepared_state_attachment \<Rightarrow> 'w \<Rightarrow> plan_execution_result \<times> 'w" where
  "attach_and_run ops others env pl reuse request context import attachment w =
     (case await_at others AtExecute (xe_execute env) (op_execute ops (pp_target pl) request (Some attachment) context) w of
        (Inr (Inr events), w') \<Rightarrow>
          (Inr \<lparr>px_stream = events, px_metadata =
             \<lparr>pm_executed_path = ExecutedReuse, pm_fallback_used = False,
              pm_materialization = Some (timing_of env pl reuse),
              pm_topology_micros = Some (sat_sub64 (elapsed_micros (xe_activation_started env) (xe_stream_ready env))
                (mt_actual_micros (timing_of env pl reuse)))\<rparr>\<rparr>, w')
      | (Inr (Inl (EngineContext e)), w') \<Rightarrow> abort_after_context_error ops others env import pl context e w'
      | (Inr (Inl e), w') \<Rightarrow> abort_after_engine_error ops others env import pl context e w'
      | (Inl e, w') \<Rightarrow> abort_after_context_error ops others env import pl context e w')"

definition commit_import ::
    "'w adapter_ops \<Rightarrow> 'w interference \<Rightarrow> exec_env \<Rightarrow> placement_plan \<Rightarrow> state_reuse_plan \<Rightarrow> canonical_request \<Rightarrow> operation_context
     \<Rightarrow> state_import_target \<Rightarrow> transfer_receipt \<Rightarrow> 'w \<Rightarrow> plan_execution_result \<times> 'w" where
  "commit_import ops others env pl reuse request context import receipt w =
     (case await_at others AtCommit (xe_commit env) (op_commit ops import receipt context) w of
        (Inr (Inr attachment), w') \<Rightarrow> attach_and_run ops others env pl reuse request context import attachment w'
      | (Inr (Inl (EngineContext e)), w') \<Rightarrow> abort_after_context_error ops others env import pl context e w'
      | (Inr (Inl e), w') \<Rightarrow>
          abort_then_fallback ops others env import pl request context (CauseEngine e) (Some (timing_of env pl reuse)) w'
      | (Inl e, w') \<Rightarrow> abort_after_context_error ops others env import pl context e w')"

definition transfer_state ::
    "'w adapter_ops \<Rightarrow> 'w interference \<Rightarrow> exec_env \<Rightarrow> placement_plan \<Rightarrow> state_reuse_plan \<Rightarrow> canonical_request \<Rightarrow> operation_context
     \<Rightarrow> state_import_target \<Rightarrow> 'w \<Rightarrow> plan_execution_result \<times> 'w" where
  "transfer_state ops others env pl reuse request context import w =
     (case await_at others AtMaterialize (xe_materialize env) (op_materialize ops (ru_option reuse) import context) w of
        (Inr (Inr receipt), w') \<Rightarrow> commit_import ops others env pl reuse request context import receipt w'
      | (Inr (Inl (StoreContext e)), w') \<Rightarrow> abort_after_context_error ops others env import pl context e w'
      | (Inr (Inl e), w') \<Rightarrow> abort_then_fallback ops others env import pl request context (CauseStore e) None w'
      | (Inl e, w') \<Rightarrow> abort_after_context_error ops others env import pl context e w')"

definition execute_reuse ::
    "'w adapter_ops \<Rightarrow> 'w interference \<Rightarrow> exec_env \<Rightarrow> placement_plan \<Rightarrow> state_reuse_plan \<Rightarrow> canonical_request \<Rightarrow> operation_context
     \<Rightarrow> 'w \<Rightarrow> plan_execution_result \<times> 'w" where
  "execute_reuse ops others env pl reuse request context w =
     (case await_at others AtPrepare (xe_prepare env)
        (op_prepare ops (pp_target pl) (spec_from_plan (ru_state reuse) (ru_compatibility reuse)) context) w of
        (Inr (Inr import), w') \<Rightarrow> transfer_state ops others env pl reuse request context import w'
      | (Inr (Inl (EngineContext e)), w') \<Rightarrow> (Inl (PxContext e), w')
      | (Inr (Inl e), w') \<Rightarrow> apply_fallback ops others env (pp_fallback pl) pl request context (CauseEngine e) None w'
      | (Inl e, w') \<Rightarrow> (Inl (PxContext e), w'))"

definition execute_plan ::
    "'w adapter_ops \<Rightarrow> 'w interference \<Rightarrow> exec_env \<Rightarrow> cancel_token set \<Rightarrow> instant \<Rightarrow> placement_plan \<Rightarrow> canonical_request \<Rightarrow> operation_context
     \<Rightarrow> 'w \<Rightarrow> plan_execution_result \<times> 'w" where
  "execute_plan ops others env cancelled now pl request context w =
     (case ensure_active context cancelled now of
        Inl e \<Rightarrow> (Inl (PxContext e), w)
      | Inr _ \<Rightarrow>
          if rq_model request \<noteq> et_model (pp_target pl) then (Inl PxInvalidPlan, w)
          else
            (case op_lookup ops (pp_target pl) w of
               Inl e \<Rightarrow> (Inl (PxEngine e), w)
             | Inr _ \<Rightarrow>
                 (case pp_path pl of
                    Reuse reuse \<Rightarrow> execute_reuse ops others env pl reuse request context w
                  | Cold \<Rightarrow>
                      (case await_at others AtExecute (xe_execute env) (op_execute ops (pp_target pl) request None context) w of
                         (Inl e, w') \<Rightarrow> (Inl (PxContext e), w')
                       | (Inr (Inl e), w') \<Rightarrow> (Inl (PxEngine e), w')
                       | (Inr (Inr events), w') \<Rightarrow>
                           (Inr \<lparr>px_stream = events, px_metadata =
                              \<lparr>pm_executed_path = ExecutedCold, pm_fallback_used = False,
                               pm_materialization = None, pm_topology_micros = None\<rparr>\<rparr>, w')))))"

section \<open>The contract of an engine that imports state\<close>

lemma await_at_keeps:
  assumes "await_at others a outcome f w = (r, w')" and "P w" and "\<And>m v. P v \<Longrightarrow> P (others m v)"
    and "\<And>v y v'. f v = (y, v') \<Longrightarrow> P v \<Longrightarrow> P v'"
  shows "P w'"
proof -
  obtain y v where f: "f (others (Before a) w) = (y, v)" by fastforce
  have "P (others (Before a) w)" and "P v" using assms(2,3) assms(4) [OF f] by simp_all
  with assms(1,3) f show ?thesis
    by (cases outcome) (auto simp: await_at_def run_await_def split: if_splits)
qed

lemma await_at_Inr:
  assumes "await_at others a outcome f w = (Inr y, w')"
  obtains v where "f (others (Before a) w) = (y, v)" "w' = others (After a) v"
  using assms by (cases outcome; cases "f (others (Before a) w)") (auto simp: await_at_def run_await_def)

text \<open>
  What an execution never breaks once it holds of an import: \<open>others\<close> and the operations that the
  executor calls for that import keep it.
\<close>

definition kept :: "'w adapter_ops \<Rightarrow> 'w interference \<Rightarrow> state_import_target \<Rightarrow> ('w \<Rightarrow> bool) \<Rightarrow> bool" where
  "kept ops others import P \<longleftrightarrow>
     (\<forall>m v. P v \<longrightarrow> P (others m v)) \<and>
     (\<forall>t rq st c v y v'. op_execute ops t rq st c v = (y, v') \<longrightarrow> P v \<longrightarrow> P v') \<and>
     (\<forall>opt c v y v'. op_materialize ops opt import c v = (y, v') \<longrightarrow> P v \<longrightarrow> P v') \<and>
     (\<forall>rc c v y v'. op_commit ops import rc c v = (y, v') \<longrightarrow> P v \<longrightarrow> P v') \<and>
     (\<forall>c v y v'. op_abort ops import c v = (y, v') \<longrightarrow> P v \<longrightarrow> P v')"

lemma kept_others: "kept ops others import P \<Longrightarrow> P v \<Longrightarrow> P (others m v)"
  by (simp add: kept_def)

lemma kept_awaits:
  assumes "kept ops others import P" and "P w"
  shows "await_at others a oc (op_execute ops t rq st c) w = (r1, w') \<Longrightarrow> P w'"
    and "await_at others a oc (op_materialize ops opt import c) w = (r2, w') \<Longrightarrow> P w'"
    and "await_at others a oc (op_commit ops import rc c) w = (r3, w') \<Longrightarrow> P w'"
    and "await_at others a oc (op_abort ops import c) w = (r4, w') \<Longrightarrow> P w'"
proof -
  note k = assms(1) [unfolded kept_def]
  show "P w'" if "await_at others a oc (op_execute ops t rq st c) w = (r1, w')"
    using that assms(2) by (rule await_at_keeps) (use k in metis)+
  show "P w'" if "await_at others a oc (op_materialize ops opt import c) w = (r2, w')"
    using that assms(2) by (rule await_at_keeps) (use k in metis)+
  show "P w'" if "await_at others a oc (op_commit ops import rc c) w = (r3, w')"
    using that assms(2) by (rule await_at_keeps) (use k in metis)+
  show "P w'" if "await_at others a oc (op_abort ops import c) w = (r4, w')"
    using that assms(2) by (rule await_at_keeps) (use k in metis)+
qed

lemma fallback_kept:
  assumes "kept ops others import P" and "P w" and "apply_fallback ops others env fb pl rq c cause m w = (r, w')"
  shows "P w'"
proof (cases "await_at others AtFallback (xe_fallback env) (op_execute ops (pp_target pl) rq None c) w")
  case (Pair x w1)
  with assms kept_awaits(1) [OF assms(1,2) Pair] show ?thesis
    by (auto simp: apply_fallback_def split: fallback_action.splits sum.splits)
qed

lemma abort_import_kept:
  assumes "kept ops others import P" and "P w" and "abort_import ops others env import pl c cause w = (r, w')"
  shows "P w'"
proof (cases "await_at others AtAbort (xe_abort env) (op_abort ops import (cleanup_context env c)) w")
  case (Pair x w1)
  with assms kept_awaits(4) [OF assms(1,2) Pair] show ?thesis
    by (auto simp: abort_import_def split: sum.splits)
qed

lemma abort_paths_kept:
  assumes "kept ops others import P" and "P w"
  shows "abort_then_fallback ops others env import pl rq c cause m w = (r, w') \<Longrightarrow> P w'"
    and "abort_after_context_error ops others env import pl c ce w = (r, w') \<Longrightarrow> P w'"
    and "abort_after_engine_error ops others env import pl c ee w = (r, w') \<Longrightarrow> P w'"
proof -
  show "P w'" if "abort_then_fallback ops others env import pl rq c cause m w = (r, w')"
  proof (cases "abort_import ops others env import pl c cause w")
    case (Pair x w1)
    note P1 = abort_import_kept [OF assms Pair]
    from that Pair P1 fallback_kept [OF assms(1) P1] show ?thesis by (cases x) (simp_all add: abort_then_fallback_def)
  qed
  show "P w'" if "abort_after_context_error ops others env import pl c ce w = (r, w')"
    using that abort_import_kept [OF assms, of env pl c "CauseContext ce"]
    by (simp add: abort_after_context_error_def split: prod.splits sum.splits)
  show "P w'" if "abort_after_engine_error ops others env import pl c ee w = (r, w')"
    using that abort_import_kept [OF assms, of env pl c "CauseEngine ee"]
    by (simp add: abort_after_engine_error_def split: prod.splits sum.splits)
qed

lemma attach_kept:
  assumes "kept ops others import P" and "P w" and "attach_and_run ops others env pl reuse rq c import att w = (r, w')"
  shows "P w'"
proof (cases "await_at others AtExecute (xe_execute env) (op_execute ops (pp_target pl) rq (Some att) c) w")
  case (Pair x w1)
  from assms(3) Pair abort_paths_kept(2,3) [OF assms(1) kept_awaits(1) [OF assms(1,2) Pair]]
    kept_awaits(1) [OF assms(1,2) Pair] show ?thesis
    by (auto simp: attach_and_run_def split: sum.splits engine_error.splits)
qed

lemma commit_kept:
  assumes "kept ops others import P" and "P w" and "commit_import ops others env pl reuse rq c import rc w = (r, w')"
  shows "P w'"
proof (cases "await_at others AtCommit (xe_commit env) (op_commit ops import rc c) w")
  case (Pair x w1)
  note P1 = kept_awaits(3) [OF assms(1,2) Pair]
  from assms(3) Pair abort_paths_kept(1,2) [OF assms(1) P1] attach_kept [OF assms(1) P1] show ?thesis
    by (auto simp: commit_import_def split: sum.splits engine_error.splits)
qed

lemma transfer_kept:
  assumes "kept ops others import P" and "P w" and "transfer_state ops others env pl reuse rq c import w = (r, w')"
  shows "P w'"
proof (cases "await_at others AtMaterialize (xe_materialize env) (op_materialize ops (ru_option reuse) import c) w")
  case (Pair x w1)
  note P1 = kept_awaits(2) [OF assms(1,2) Pair]
  from assms(3) Pair abort_paths_kept(1,2) [OF assms(1) P1] commit_kept [OF assms(1) P1] show ?thesis
    by (auto simp: transfer_state_def split: sum.splits store_error.splits)
qed

text \<open>
  \<open>pending\<close> are the imports an engine has prepared and neither committed nor aborted, \<open>issued\<close> the
  identifiers it has given out. Preparing gives out a fresh one, committing and aborting remove it,
  nothing else touches them; and no operation of the executor changes what the registry answers.
\<close>

locale importing_engine =
  fixes ops :: "'w adapter_ops"
    and pending :: "'w \<Rightarrow> import_id set"
    and issued :: "'w \<Rightarrow> import_id set"
    and fresh_ids :: "'w \<Rightarrow> bool"
  assumes fresh_pending: "fresh_ids w \<Longrightarrow> pending w \<subseteq> issued w"
    and prepare_Ok: "fresh_ids w \<Longrightarrow> op_prepare ops t sp c w = (Inr imp, w') \<Longrightarrow>
      it_import_id imp \<notin> issued w \<and> issued w' = insert (it_import_id imp) (issued w) \<and>
      pending w' = insert (it_import_id imp) (pending w)"
    and prepare_Err: "op_prepare ops t sp c w = (Inl e, w') \<Longrightarrow> pending w' = pending w \<and> issued w' = issued w"
    and materialize_pending: "op_materialize ops opt imp c w = (r, w') \<Longrightarrow> pending w' = pending w \<and> issued w' = issued w"
    and commit_Ok: "op_commit ops imp rc c w = (Inr a, w') \<Longrightarrow> pending w' = pending w - {it_import_id imp} \<and> issued w' = issued w"
    and commit_Err: "op_commit ops imp rc c w = (Inl e, w') \<Longrightarrow> pending w' = pending w \<and> issued w' = issued w"
    and abort_Ok: "op_abort ops imp c w = (Inr (), w') \<Longrightarrow> pending w' = pending w - {it_import_id imp}"
    and abort_only: "op_abort ops imp c w = (r3, w') \<Longrightarrow>
      pending w - {it_import_id imp} \<subseteq> pending w' \<and> pending w' \<subseteq> pending w \<and> issued w' = issued w"
    and execute_pending: "op_execute ops t rq st c w = (r', w') \<Longrightarrow> pending w' = pending w \<and> issued w' = issued w"
    and prepare_lookup: "op_prepare ops t sp c w = (r1, w') \<Longrightarrow> op_lookup ops t' w' = op_lookup ops t' w"
    and materialize_lookup: "op_materialize ops opt imp c w = (r, w') \<Longrightarrow> op_lookup ops t' w' = op_lookup ops t' w"
    and commit_lookup: "op_commit ops imp rc c w = (r2, w') \<Longrightarrow> op_lookup ops t' w' = op_lookup ops t' w"
    and abort_lookup: "op_abort ops imp c w = (r3, w') \<Longrightarrow> op_lookup ops t' w' = op_lookup ops t' w"
    and execute_lookup: "op_execute ops t rq st c w = (r', w') \<Longrightarrow> op_lookup ops t' w' = op_lookup ops t' w"
begin

text \<open>
  What the executor relies on of the others: identifiers stay given out and are not given out
  again. \<open>Q\<close> says what the registry may come to answer for the target \<open>t\<close>.
\<close>

definition rely :: "'w interference \<Rightarrow> execution_target \<Rightarrow> ((unit, engine_error) result \<Rightarrow> bool) \<Rightarrow> bool" where
  "rely others t Q \<longleftrightarrow>
     (\<forall>m v. issued v \<subseteq> issued (others m v) \<and> issued v \<inter> pending (others m v) \<subseteq> pending v \<and>
        (fresh_ids v \<longrightarrow> fresh_ids (others m v)) \<and> (Q (op_lookup ops t v) \<longrightarrow> Q (op_lookup ops t (others m v))))"

definition known :: "execution_target \<Rightarrow> ((unit, engine_error) result \<Rightarrow> bool) \<Rightarrow> import_id \<Rightarrow> 'w \<Rightarrow> bool" where
  "known t Q k v \<longleftrightarrow> k \<in> issued v \<and> Q (op_lookup ops t v)"

definition settled :: "execution_target \<Rightarrow> ((unit, engine_error) result \<Rightarrow> bool) \<Rightarrow> import_id \<Rightarrow> 'w \<Rightarrow> bool" where
  "settled t Q k v \<longleftrightarrow> known t Q k v \<and> k \<notin> pending v"

definition excused :: "((unit, engine_error) result \<Rightarrow> bool) \<Rightarrow> plan_execution_result \<Rightarrow> bool" where
  "excused Q r \<longleftrightarrow> (\<exists>c e. r = Inl (PxCleanupFailed c e)) \<or> (\<exists>e. r = Inl (PxEngine e) \<and> Q (Inl e))"

lemma commit_only:
  assumes "op_commit ops imp rc c w = (r, w')"
  shows "pending w - {it_import_id imp} \<subseteq> pending w'" "pending w' \<subseteq> pending w" "issued w' = issued w"
  using assms commit_Ok [of imp rc c w _ w'] commit_Err [of imp rc c w _ w'] by (cases r; auto)+

text \<open>A property of the identifiers given out, of one import and of the registry's answer that only grows is kept.\<close>

lemma keptI:
  assumes others: "\<And>m v. P v \<Longrightarrow> P (others m v)"
    and ops: "\<And>v v'. P v \<Longrightarrow> issued v' = issued v \<Longrightarrow> op_lookup ops t v' = op_lookup ops t v \<Longrightarrow>
      pending v - {it_import_id imp} \<subseteq> pending v' \<Longrightarrow> pending v' \<subseteq> pending v \<Longrightarrow> P v'"
  shows "kept ops others imp P"
  unfolding kept_def
proof (intro conjI allI impI)
  show "P (others m v)" if "P v" for m v using others that .
next
  fix t' rq st c v y v' assume "op_execute ops t' rq st c v = (y, v')" "P v"
  then show "P v'" using execute_pending [of t' rq st c v y v'] execute_lookup [of t' rq st c v y v' t] by (intro ops [of v v']) auto
next
  fix opt c v y v' assume "op_materialize ops opt imp c v = (y, v')" "P v"
  then show "P v'" using materialize_pending [of opt imp c v y v'] materialize_lookup [of opt imp c v y v' t] by (intro ops [of v v']) auto
next
  fix rc c v y v' assume "op_commit ops imp rc c v = (y, v')" "P v"
  then show "P v'" using commit_only [of imp rc c v y v'] commit_lookup [of imp rc c v y v' t] by (intro ops [of v v']) auto
next
  fix c v y v' assume "op_abort ops imp c v = (y, v')" "P v"
  then show "P v'" using abort_only [of imp c v y v'] abort_lookup [of imp c v y v' t] by (intro ops [of v v']) auto
qed

lemma known_kept: "rely others t Q \<Longrightarrow> kept ops others imp (known t Q k)"
  by (rule keptI [where t = t]) (auto simp: rely_def known_def)

lemma settled_kept: "rely others t Q \<Longrightarrow> kept ops others imp (settled t Q k)"
  by (rule keptI [where t = t]) (auto simp: rely_def settled_def known_def)

text \<open>A clean-up aborts the import, or its result says that it did not.\<close>

lemma abort_import_settles:
  assumes rely: "rely others (pp_target pl) Q" and known: "known (pp_target pl) Q (it_import_id imp) w"
    and run: "abort_import ops others env imp pl c cause w = (x, w')"
  shows "(x = Inr () \<and> settled (pp_target pl) Q (it_import_id imp) w') \<or> (\<exists>e. x = Inl e \<and> excused Q (Inl e))"
proof (cases "op_lookup ops (pp_target pl) w")
  case (Inl e)
  with run known show ?thesis by (auto simp: abort_import_def excused_def known_def)
next
  case (Inr u)
  obtain y w1 where aw: "await_at others AtAbort (xe_abort env) (op_abort ops imp (cleanup_context env c)) w = (y, w1)"
    by fastforce
  have "settled (pp_target pl) Q (it_import_id imp) w1" if y: "y = Inr (Inr ())"
  proof -
    obtain v where v: "op_abort ops imp (cleanup_context env c) (others (Before AtAbort) w) = (Inr (), v)"
        "w1 = others (After AtAbort) v"
      using aw y by (blast elim: await_at_Inr)
    have "known (pp_target pl) Q (it_import_id imp) (others (Before AtAbort) w)"
      using known_kept [OF rely] known by (rule kept_others)
    then have "settled (pp_target pl) Q (it_import_id imp) v"
      using v(1) abort_Ok [OF v(1)] abort_only [OF v(1)] abort_lookup [OF v(1)] by (auto simp: settled_def known_def)
    then show ?thesis unfolding v(2) by (rule kept_others [OF settled_kept [OF rely]])
  qed
  with run Inr aw show ?thesis by (auto simp: abort_import_def excused_def split: sum.splits)
qed

lemma abort_paths_settle:
  assumes rely: "rely others (pp_target pl) Q" and known: "known (pp_target pl) Q (it_import_id imp) w"
  shows "abort_then_fallback ops others env imp pl rq c cause m w = (r, w') \<Longrightarrow>
       settled (pp_target pl) Q (it_import_id imp) w' \<or> excused Q r"
    and "abort_after_context_error ops others env imp pl c ce w = (r, w') \<Longrightarrow>
       settled (pp_target pl) Q (it_import_id imp) w' \<or> excused Q r"
proof -
  show "settled (pp_target pl) Q (it_import_id imp) w' \<or> excused Q r"
    if "abort_then_fallback ops others env imp pl rq c cause m w = (r, w')"
  proof (cases "abort_import ops others env imp pl c cause w")
    case (Pair x w1)
    from abort_import_settles [OF rely known Pair] show ?thesis
    proof (elim disjE conjE exE)
      assume "x = Inr ()" and "settled (pp_target pl) Q (it_import_id imp) w1"
      with that Pair fallback_kept [OF settled_kept [OF rely]] show ?thesis by (simp add: abort_then_fallback_def)
    next
      fix e assume "x = Inl e" and "excused Q (Inl e)"
      with that Pair show ?thesis by (simp add: abort_then_fallback_def)
    qed
  qed
  show "settled (pp_target pl) Q (it_import_id imp) w' \<or> excused Q r"
    if "abort_after_context_error ops others env imp pl c ce w = (r, w')"
  proof (cases "abort_import ops others env imp pl c (CauseContext ce) w")
    case (Pair x w1)
    from that Pair abort_import_settles [OF rely known Pair] show ?thesis by (auto simp: abort_after_context_error_def)
  qed
qed

lemma commit_settles:
  assumes rely: "rely others (pp_target pl) Q" and known: "known (pp_target pl) Q (it_import_id imp) w"
    and run: "commit_import ops others env pl reuse rq c imp rc w = (r, w')"
  shows "settled (pp_target pl) Q (it_import_id imp) w' \<or> excused Q r"
proof (cases "await_at others AtCommit (xe_commit env) (op_commit ops imp rc c) w")
  case (Pair x w1)
  note known1 = kept_awaits(3) [OF known_kept [OF rely] known Pair]
  have "settled (pp_target pl) Q (it_import_id imp) w1" if x: "x = Inr (Inr a)" for a
  proof -
    obtain v where v: "op_commit ops imp rc c (others (Before AtCommit) w) = (Inr a, v)" "w1 = others (After AtCommit) v"
      using Pair x by (blast elim: await_at_Inr)
    have "known (pp_target pl) Q (it_import_id imp) (others (Before AtCommit) w)"
      using known_kept [OF rely] known by (rule kept_others)
    then have "settled (pp_target pl) Q (it_import_id imp) v"
      using commit_Ok [OF v(1)] commit_lookup [OF v(1)] by (auto simp: settled_def known_def)
    then show ?thesis unfolding v(2) by (rule kept_others [OF settled_kept [OF rely]])
  qed
  with run Pair abort_paths_settle [OF rely known1] attach_kept [OF settled_kept [OF rely]] show ?thesis
    by (auto simp: commit_import_def split: sum.splits engine_error.splits)
qed

lemma transfer_settles:
  assumes rely: "rely others (pp_target pl) Q" and known: "known (pp_target pl) Q (it_import_id imp) w"
    and run: "transfer_state ops others env pl reuse rq c imp w = (r, w')"
  shows "settled (pp_target pl) Q (it_import_id imp) w' \<or> excused Q r"
proof (cases "await_at others AtMaterialize (xe_materialize env) (op_materialize ops (ru_option reuse) imp c) w")
  case (Pair x w1)
  note known1 = kept_awaits(2) [OF known_kept [OF rely] known Pair]
  from run Pair abort_paths_settle [OF rely known1] commit_settles [OF rely known1] show ?thesis
    by (auto simp: transfer_state_def split: sum.splits store_error.splits)
qed

text \<open>The import that the execution itself prepared is gone at the end, or the result says why not.\<close>

lemma execute_settles:
  assumes rely: "rely others (pp_target pl) Q" and run: "execute_plan ops others env cancelled now pl rq c w = (r, w')"
    and path: "pp_path pl = Reuse reuse" and completes: "xe_prepare env = Completes" and fresh: "fresh_ids w"
    and prep: "op_prepare ops (pp_target pl) (spec_from_plan (ru_state reuse) (ru_compatibility reuse)) c
        (others (Before AtPrepare) w) = (Inr imp, v)"
    and Q: "\<And>u. Q (Inr u)"
  shows "it_import_id imp \<notin> pending w' \<or> excused Q r"
proof -
  let ?w1 = "others (Before AtPrepare) w"
  have new: "it_import_id imp \<notin> issued ?w1" "it_import_id imp \<in> issued v"
    using prepare_Ok [OF _ prep] rely fresh by (auto simp: rely_def)
  have "issued w \<subseteq> issued ?w1" using rely by (simp add: rely_def)
  then have "it_import_id imp \<notin> pending w" using new(1) fresh_pending [OF fresh] by auto
  moreover have "settled (pp_target pl) Q (it_import_id imp) w' \<or> excused Q r"
    if "op_lookup ops (pp_target pl) w = Inr u" "execute_reuse ops others env pl reuse rq c w = (r, w')" for u
  proof (rule transfer_settles [OF rely])
    have "Q (op_lookup ops (pp_target pl) ?w1)" using that(1) Q [of u] rely by (simp add: rely_def)
    then have "known (pp_target pl) Q (it_import_id imp) v" using new(2) prepare_lookup [OF prep] by (simp add: known_def)
    then show "known (pp_target pl) Q (it_import_id imp) (others (After AtPrepare) v)"
      by (rule kept_others [OF known_kept [OF rely]])
    show "transfer_state ops others env pl reuse rq c imp (others (After AtPrepare) v) = (r, w')"
      using that(2) completes prep by (simp add: execute_reuse_def await_at_def run_await_def)
  qed
  ultimately show ?thesis
    using run path by (auto simp: execute_plan_def settled_def split: sum.splits if_splits)
qed

text \<open>The import of another execution is not touched.\<close>

lemma execute_frame:
  assumes others: "\<And>m v. k \<in> issued v \<Longrightarrow> k \<in> issued (others m v) \<and> (k \<in> pending (others m v) \<longleftrightarrow> k \<in> pending v)"
    and fresh: "fresh_ids w" "\<And>m v. fresh_ids v \<Longrightarrow> fresh_ids (others m v)" and k: "k \<in> issued w"
    and run: "execute_plan ops others env cancelled now pl rq c w = (r, w')"
  shows "k \<in> pending w' \<longleftrightarrow> k \<in> pending w"
proof -
  define P where "P v \<longleftrightarrow> k \<in> issued v \<and> (k \<in> pending v \<longleftrightarrow> k \<in> pending w)" for v
  have keep: "kept ops others imp P" if "it_import_id imp \<noteq> k" for imp
    by (rule keptI) (use others that in \<open>auto simp: P_def\<close>)
  obtain other :: state_import_target where "it_import_id other \<noteq> k"
    by (metis list.distinct(1) state_import_target.select_convs(1))
  note other = keep [OF this]
  have P: "P w" "P (others (Before AtPrepare) w)" using k others by (auto simp: P_def)
  have reuse: "P w'" if run: "execute_reuse ops others env pl reuse rq c w = (r, w')" for reuse
  proof -
    let ?sp = "spec_from_plan (ru_state reuse) (ru_compatibility reuse)"
    obtain x w1 where aw: "await_at others AtPrepare (xe_prepare env) (op_prepare ops (pp_target pl) ?sp c) w = (x, w1)" by fastforce
    obtain y v where op: "op_prepare ops (pp_target pl) ?sp c (others (Before AtPrepare) w) = (y, v)" by fastforce
    have Ok: "it_import_id imp \<noteq> k \<and> P v" if "y = Inr imp" for imp
      using that op prepare_Ok [OF fresh(2) [OF fresh(1)]] P(2) by (force simp: P_def)
    have "P v" using Ok op prepare_Err P(2) by (cases y) (fastforce simp: P_def)+
    then have P1: "P w1" using aw op P(2) others by (cases "xe_prepare env") (auto simp: await_at_def run_await_def P_def split: if_splits)
    have own: "it_import_id imp \<noteq> k" if "x = Inr (Inr imp)" for imp
      using Ok [of imp] op aw [unfolded that] by (auto elim!: await_at_Inr)
    show ?thesis
    proof (cases "\<exists>imp. x = Inr (Inr imp)")
      case True
      then obtain imp where x: "x = Inr (Inr imp)" by blast
      with run aw have "transfer_state ops others env pl reuse rq c imp w1 = (r, w')" by (simp add: execute_reuse_def)
      with P1 own [OF x] show ?thesis using transfer_kept [OF keep] by blast
    next
      case False
      with run aw P1 fallback_kept [OF other P1] show ?thesis
        by (auto simp: execute_reuse_def split: sum.splits engine_error.splits)
    qed
  qed
  have cold: "P w'" if "await_at others AtExecute (xe_execute env) (op_execute ops (pp_target pl) rq None c) w = (x, w')" for x
    using kept_awaits(1) [OF other P(1) that] .
  have "P w'"
    using run reuse cold P(1)
    by (auto simp: execute_plan_def split: sum.splits if_splits execution_path.splits prod.splits)
  then show ?thesis by (simp add: P_def)
qed

end

section \<open>The fake engine and store fulfil the contract\<close>

text \<open>The world of the executor's tests, with the clock and the cancelled tokens that the fakes read.\<close>

record fake_world =
  fw_engine :: fake_engine
  fw_store :: fake_store
  fw_cancelled :: "cancel_token set"
  fw_now :: instant

definition fake_registry :: "fake_engine \<Rightarrow> fake_engine engine_registry" where
  "fake_registry e =
     bt_insert (er_id (ei_reference (fe_instance_template e)))
       \<lparr>re_adapter = e, re_lifecycle = LifeReady, re_active = bt_empty\<rparr> bt_empty"

definition on_engine :: "(fake_engine \<Rightarrow> 'r \<times> fake_engine) \<Rightarrow> fake_world \<Rightarrow> 'r \<times> fake_world" where
  "on_engine f w = (case f (fw_engine w) of (r, e) \<Rightarrow> (r, w\<lparr>fw_engine := e\<rparr>))"

definition on_store :: "(fake_store \<Rightarrow> 'r \<times> fake_store) \<Rightarrow> fake_world \<Rightarrow> 'r \<times> fake_world" where
  "on_store f w = (case f (fw_store w) of (r, s) \<Rightarrow> (r, w\<lparr>fw_store := s\<rparr>))"

definition fake_ops :: "fake_world adapter_ops" where
  "fake_ops =
     \<lparr>op_lookup = (\<lambda>t w. and_then (adapter_for fake_instance t (fake_registry (fw_engine w))) (\<lambda>_. Inr ())),
      op_prepare = (\<lambda>t sp c w. on_engine (fake_prepare_state_import t sp c (fw_cancelled w) (fw_now w)) w),
      op_commit = (\<lambda>imp rc c w. on_engine (fake_commit_state_import imp rc c (fw_cancelled w) (fw_now w)) w),
      op_abort = (\<lambda>imp c. on_engine (fake_abort_state_import imp c)),
      op_execute = (\<lambda>t rq st c w. on_engine (fake_execute t rq st c (fw_cancelled w) (fw_now w)) w),
      op_materialize = (\<lambda>opt imp c w. on_store (fake_materialize opt imp c (fw_cancelled w) (fw_now w)) w)\<rparr>"

definition fake_pending :: "fake_world \<Rightarrow> import_id set" where
  "fake_pending w = set (bt_keys (fe_imports (fw_engine w)))"

definition fake_issued :: "fake_world \<Rightarrow> import_id set" where
  "fake_issued w = import_id_of ` {..<fe_next_import (fw_engine w)}"

lemma fake_pending_iff: "k \<in> fake_pending w \<longleftrightarrow> bt_contains (fe_imports (fw_engine w)) k"
  by (simp add: fake_pending_def set_bt_keys bt_contains_def)

lemma on_engine_iff: "on_engine f w = (r, w') \<longleftrightarrow> (\<exists>e. f (fw_engine w) = (r, e) \<and> w' = w\<lparr>fw_engine := e\<rparr>)"
  by (auto simp: on_engine_def split: prod.splits)

lemma on_store_iff: "on_store f w = (r, w') \<longleftrightarrow> (\<exists>s. f (fw_store w) = (r, s) \<and> w' = w\<lparr>fw_store := s\<rparr>)"
  by (auto simp: on_store_def split: prod.splits)

lemma fake_imports_after:
  "fake_prepare_state_import t sp c k now e = (Inr imp, e1) \<Longrightarrow>
     it_import_id imp = import_id_of (fe_next_import e) \<and> fe_imports e1 = bt_insert (it_import_id imp) sp (fe_imports e) \<and>
     fe_next_import e1 = wrap_add64 (fe_next_import e) 1"
  "fake_prepare_state_import t sp c k now e = (Inl err, e1) \<Longrightarrow> e1 = e"
  "fake_commit_state_import i rc c k now e = (Inr att, e1) \<Longrightarrow> fe_imports e1 = bt_remove (it_import_id i) (fe_imports e)"
  "fake_commit_state_import i rc c k now e = (Inl err, e1) \<Longrightarrow> fe_imports e1 = fe_imports e"
  "fake_commit_state_import i rc c k now e = (res', e1) \<Longrightarrow> fe_next_import e1 = fe_next_import e"
  "fake_execute t rq st c k now e = (res, e1) \<Longrightarrow> fe_imports e1 = fe_imports e \<and> fe_next_import e1 = fe_next_import e"
  by (auto simp: fake_prepare_state_import_def fake_commit_state_import_def fake_execute_def Let_def
      split: sum.splits if_splits option.splits)

definition same_engine :: "fake_engine \<Rightarrow> fake_engine \<Rightarrow> bool" where
  "same_engine e e' \<longleftrightarrow> fe_instance_template e' = fe_instance_template e \<and> fe_generation e' = fe_generation e"

lemma fake_same_engine:
  "fake_prepare_state_import t sp c k now e = (r1, e1) \<Longrightarrow> same_engine e e1"
  "fake_commit_state_import i rc c k now e = (r2, e1) \<Longrightarrow> same_engine e e1"
  "fake_execute t rq st c k now e = (r3, e1) \<Longrightarrow> same_engine e e1"
  "fake_abort_state_import i c e = (r4, e1) \<Longrightarrow> same_engine e e1"
  by (auto simp: same_engine_def fake_abort_state_import_def fake_prepare_state_import_def fake_commit_state_import_def fake_execute_def Let_def
      split: sum.splits if_splits option.splits)

lemma fake_lookup_engine:
  "same_engine (fw_engine v) (fw_engine v') \<Longrightarrow> op_lookup fake_ops t v' = op_lookup fake_ops t v"
  by (simp add: fake_ops_def same_engine_def adapter_for_def fake_registry_def fake_instance_def)

lemma fake_lookup_same:
  "same_engine (fw_engine w) e \<Longrightarrow>
   op_lookup fake_ops t (w\<lparr>fw_engine := e\<rparr>) = op_lookup fake_ops t w"
  by (rule fake_lookup_engine) simp

interpretation fake_exec: importing_engine fake_ops fake_pending fake_issued
    "\<lambda>w. imports_numbered (fw_engine w)"
proof unfold_locales
  fix w :: fake_world assume "imports_numbered (fw_engine w)"
  then show "fake_pending w \<subseteq> fake_issued w" by (auto simp: imports_numbered_def fake_pending_iff fake_issued_def)
next
  fix w t sp c imp w'
  assume num: "imports_numbered (fw_engine w)" and run: "op_prepare fake_ops t sp c w = (Inr imp, w')"
  then obtain e where p: "fake_prepare_state_import t sp c (fw_cancelled w) (fw_now w) (fw_engine w) = (Inr imp, e)" "w' = w\<lparr>fw_engine := e\<rparr>"
    by (auto simp: fake_ops_def on_engine_iff)
  have "wrap_add64 (fe_next_import (fw_engine w)) 1 = Suc (fe_next_import (fw_engine w))"
    using num by (simp add: imports_numbered_def wrap_add64_exact)
  with fake_imports_after(1) [OF p(1)] p(2)
  show "it_import_id imp \<notin> fake_issued w \<and> fake_issued w' = insert (it_import_id imp) (fake_issued w) \<and>
      fake_pending w' = insert (it_import_id imp) (fake_pending w)"
    by (auto simp: fake_issued_def lessThan_Suc fake_pending_iff bt_contains_def split: if_splits)
next
  fix imp rc c w a w'
  assume "op_commit fake_ops imp rc c w = (Inr a, w')"
  then obtain e where "fake_commit_state_import imp rc c (fw_cancelled w) (fw_now w) (fw_engine w) = (Inr a, e)" "w' = w\<lparr>fw_engine := e\<rparr>"
    by (auto simp: fake_ops_def on_engine_iff)
  with fake_imports_after(3,5) show "fake_pending w' = fake_pending w - {it_import_id imp} \<and> fake_issued w' = fake_issued w"
    by (fastforce simp: fake_issued_def fake_pending_iff bt_contains_def set_eq_iff split: if_splits)
next
  fix t t' sp c w r w'
  assume "op_prepare fake_ops t sp c w = (r, w')"
  then show "op_lookup fake_ops t' w' = op_lookup fake_ops t' w"
    using fake_same_engine(1) fake_lookup_same by (fastforce simp: fake_ops_def on_engine_iff)
next
  fix imp rc c w r w' t'
  assume "op_commit fake_ops imp rc c w = (r, w')"
  then show "op_lookup fake_ops t' w' = op_lookup fake_ops t' w"
    using fake_same_engine(2) fake_lookup_same by (fastforce simp: fake_ops_def on_engine_iff)
next
  fix imp c w r w' t'
  assume "op_abort fake_ops imp c w = (r, w')"
  then show "op_lookup fake_ops t' w' = op_lookup fake_ops t' w"
    using fake_same_engine(4) fake_lookup_same by (fastforce simp: fake_ops_def on_engine_iff)
next
  fix t rq st c w r w' t'
  assume "op_execute fake_ops t rq st c w = (r, w')"
  then show "op_lookup fake_ops t' w' = op_lookup fake_ops t' w"
    using fake_same_engine(3) fake_lookup_same by (fastforce simp: fake_ops_def on_engine_iff)
qed (auto simp: fake_ops_def on_engine_iff on_store_iff fake_pending_iff fake_issued_def set_eq_iff bt_contains_def
    fake_abort_state_import_def dest: fake_imports_after split: if_splits)

text \<open>
  What others may do to the engine while an execution waits: prepare, commit and abort imports of
  their own, restart it, even exchange its template. Numbers of imports are not used twice, as the
  counter of the engine does not wrap.
\<close>

definition foreign_step :: "fake_engine \<Rightarrow> fake_engine \<Rightarrow> bool" where
  "foreign_step e e' \<longleftrightarrow>
     fe_next_import e \<le> fe_next_import e' \<and> (imports_numbered e \<longrightarrow> imports_numbered e') \<and>
     (\<forall>n < fe_next_import e. bt_contains (fe_imports e') (import_id_of n) \<longrightarrow> bt_contains (fe_imports e) (import_id_of n))"

lemma foreign_step_refl [simp]: "foreign_step e e"
  by (simp add: foreign_step_def)

lemma foreign_stepI:
  assumes "fe_next_import e' = fe_next_import e" and "\<And>k. bt_contains (fe_imports e') k \<Longrightarrow> bt_contains (fe_imports e) k"
  shows "foreign_step e e'"
  using assms by (fastforce simp: foreign_step_def imports_numbered_def)

lemma foreign_step_fake:
  "foreign_step e (snd (restart e))"
  "foreign_step e (snd (fake_abort_state_import i c e))"
  "fake_commit_state_import i rc c cancelled now e = (r1, e1) \<Longrightarrow> foreign_step e e1"
  "fake_execute t rq st c cancelled now e = (r2, e1) \<Longrightarrow> foreign_step e e1"
proof -
  show "foreign_step e (snd (restart e))" by (rule foreign_stepI) (simp_all add: restart_def)
  show "foreign_step e (snd (fake_abort_state_import i c e))"
    by (rule foreign_stepI) (auto simp: fake_abort_state_import_def bt_contains_def split: if_splits)
  show "foreign_step e e1" if "fake_commit_state_import i rc c cancelled now e = (r1, e1)"
  proof (rule foreign_stepI)
    show "bt_contains (fe_imports e) k" if "bt_contains (fe_imports e1) k" for k
      using that \<open>fake_commit_state_import i rc c cancelled now e = (r1, e1)\<close>
      by (cases r1) (auto simp: bt_contains_def fake_imports_after(3,4) split: if_splits)
  qed (rule fake_imports_after(5) [OF that])
  show "foreign_step e e1" if "fake_execute t rq st c cancelled now e = (r2, e1)"
    using fake_imports_after(6) [OF that] by (intro foreign_stepI) simp_all
qed

lemma foreign_step_prepare:
  assumes "fake_prepare_state_import t sp c cancelled now e = (r, e1)" and "Suc (fe_next_import e) < u64_max"
  shows "foreign_step e e1"
proof (cases r)
  case (Inr imp)
  with assms fake_imports_after(1) [of t sp c cancelled now e imp e1] show ?thesis
    by (auto simp: foreign_step_def imports_numbered_def wrap_add64_exact bt_contains_def less_Suc_eq split: if_splits)
qed (use assms fake_imports_after(2) [of t sp c cancelled now e _ e1] in auto)

lemma fake_lookup_cases:
  "op_lookup fake_ops t w \<in> {Inr (), Inl EngineStaleGeneration, Inl (EngineTargetNotFound (et_id t))}"
  by (auto simp: fake_ops_def adapter_for_def split: option.splits)

lemma fake_rely:
  assumes "\<And>m v. foreign_step (fw_engine v) (fw_engine (others m v))"
    and "\<And>m v. Q (op_lookup fake_ops t v) \<Longrightarrow> Q (op_lookup fake_ops t (others m v))"
  shows "fake_exec.rely others t Q"
  unfolding fake_exec.rely_def
proof (intro allI conjI impI)
  fix m v
  note step = assms(1) [of v m, unfolded foreign_step_def]
  show "fake_issued v \<subseteq> fake_issued (others m v)" using step by (auto simp: fake_issued_def)
  show "fake_issued v \<inter> fake_pending (others m v) \<subseteq> fake_pending v"
    using step by (auto simp: fake_issued_def fake_pending_iff)
qed (use assms in \<open>auto simp: foreign_step_def\<close>)

section \<open>Properties\<close>

text \<open>
  C32: no import is left behind in silence. While an execution waits, the others may do with the
  engine whatever \<open>foreign_step\<close> permits: imports of their own, a restart, the passing of time and
  cancellations. Once the preparation of its import has been answered, an execution that leaves
  this import in progress says so: its result is a failed clean-up; or the engine was restarted or
  replaced meanwhile, and the result is the registry's refusal of the target, a stale generation or
  an unknown target, since the clean-up looks the adapter up again before it can abort (the lemma
  \<open>restart_leaks_import\<close> below). An import of another execution, which the others leave alone, is
  as it was.
\<close>

theorem executor_no_import_leak:
  assumes run: "execute_plan fake_ops others env (fw_cancelled w) (fw_now w) pl request context w = (r, w')"
    and others: "\<And>m v. foreign_step (fw_engine v) (fw_engine (others m v))"
    and numbered: "imports_numbered (fw_engine w)"
    and path: "pp_path pl = Reuse reuse" and answered: "xe_prepare env = Completes"
    and prepared: "op_prepare fake_ops (pp_target pl) (spec_from_plan (ru_state reuse) (ru_compatibility reuse)) context
        (others (Before AtPrepare) w) = (Inr imp, v)"
  shows "(bt_contains (fe_imports (fw_engine w')) (it_import_id imp) \<longrightarrow>
       (\<exists>cause e. r = Inl (PxCleanupFailed cause e)) \<or>
       (\<not> (\<forall>m v. same_engine (fw_engine v) (fw_engine (others m v))) \<and>
        r \<in> {Inl (PxEngine EngineStaleGeneration), Inl (PxEngine (EngineTargetNotFound (et_id (pp_target pl))))})) \<and>
     (\<forall>n < fe_next_import (fw_engine w).
       (\<forall>m v. n < fe_next_import (fw_engine v) \<longrightarrow>
          bt_contains (fe_imports (fw_engine (others m v))) (import_id_of n) = bt_contains (fe_imports (fw_engine v)) (import_id_of n)) \<longrightarrow>
       bt_contains (fe_imports (fw_engine w')) (import_id_of n) = bt_contains (fe_imports (fw_engine w)) (import_id_of n))"
proof (intro conjI allI impI)
  assume left: "bt_contains (fe_imports (fw_engine w')) (it_import_id imp)"
  have settles: "fake_exec.excused Q r"
    if "\<And>m v. Q (op_lookup fake_ops (pp_target pl) v) \<Longrightarrow> Q (op_lookup fake_ops (pp_target pl) (others m v))" "Q (Inr ())" for Q
    using fake_exec.execute_settles [OF fake_rely [where Q = Q, OF others that(1)] run path answered numbered prepared] that(2) left
    by (simp add: fake_pending_iff)
  have "fake_exec.excused (\<lambda>x. x \<in> {Inr (), Inl EngineStaleGeneration, Inl (EngineTargetNotFound (et_id (pp_target pl)))}) r"
    by (rule settles) (rule fake_lookup_cases, simp)
  moreover have "fake_exec.excused (\<lambda>x. x = Inr ()) r"
    if same: "\<forall>m v. same_engine (fw_engine v) (fw_engine (others m v))"
    by (rule settles) (use same fake_lookup_engine in metis, simp)
  ultimately show "(\<exists>cause e. r = Inl (PxCleanupFailed cause e)) \<or>
      (\<not> (\<forall>m v. same_engine (fw_engine v) (fw_engine (others m v))) \<and>
       r \<in> {Inl (PxEngine EngineStaleGeneration), Inl (PxEngine (EngineTargetNotFound (et_id (pp_target pl))))})"
    by (auto simp: fake_exec.excused_def)
next
  fix n
  assume n: "n < fe_next_import (fw_engine w)" and keep: "\<forall>m v. n < fe_next_import (fw_engine v) \<longrightarrow>
      bt_contains (fe_imports (fw_engine (others m v))) (import_id_of n) = bt_contains (fe_imports (fw_engine v)) (import_id_of n)"
  have "import_id_of n \<in> fake_pending w' \<longleftrightarrow> import_id_of n \<in> fake_pending w"
  proof (rule fake_exec.execute_frame [OF _ numbered _ _ run])
    fix m v assume "import_id_of n \<in> fake_issued v"
    then have lt: "n < fe_next_import (fw_engine v)" by (auto simp: fake_issued_def)
    with others [of v m] keep show "import_id_of n \<in> fake_issued (others m v) \<and>
        (import_id_of n \<in> fake_pending (others m v)) = (import_id_of n \<in> fake_pending v)"
      by (auto simp: fake_issued_def fake_pending_iff foreign_step_def)
  qed (use n others in \<open>auto simp: fake_issued_def foreign_step_def\<close>)
  then show "bt_contains (fe_imports (fw_engine w')) (import_id_of n) = bt_contains (fe_imports (fw_engine w)) (import_id_of n)"
    by (simp add: fake_pending_iff)
qed

text \<open>
  What ran is what the metadata says. A successful execution either followed the plan, cold or
  with the state attached, or fell back to a cold run on the planned target, which only the
  fallback \<open>ColdOnSameTarget\<close> of a reuse plan permits.
\<close>

lemma executor_metadata:
  assumes "execute_plan ops others env cancelled now pl request context w = (Inr ex, w')"
  shows "rq_model request = et_model (pp_target pl) \<and>
     (if pm_executed_path (px_metadata ex) = ExecutedReuse
      then pp_path pl \<noteq> Cold \<and> \<not> pm_fallback_used (px_metadata ex) \<and> pm_materialization (px_metadata ex) \<noteq> None \<and>
           pm_topology_micros (px_metadata ex) \<noteq> None
      else pm_topology_micros (px_metadata ex) = None \<and>
           (if pm_fallback_used (px_metadata ex) then pp_path pl \<noteq> Cold \<and> pp_fallback pl = ColdOnSameTarget
            else pp_path pl = Cold \<and> pm_materialization (px_metadata ex) = None))"
  using assms
  by (auto simp: execute_plan_def execute_reuse_def transfer_state_def commit_import_def attach_and_run_def
      abort_then_fallback_def abort_after_context_error_def abort_after_engine_error_def apply_fallback_def
      split: sum.splits if_splits execution_path.splits prod.splits engine_error.splits store_error.splits
        fallback_action.splits)

section \<open>A concrete execution\<close>

text \<open>
  The store fails to transfer the planned state, and meanwhile another execution prepares an import
  of its own; the import is aborted and the request runs cold.
\<close>

definition demo_world :: fake_world where
  "demo_world =
     \<lparr>fw_engine = fake_engine_new sample_engine registry_target sample_capabilities,
      fw_store = set_fail_materialization True
        (fake_store_new ''st'' [sample_state] [sample_option registry_target 5]),
      fw_cancelled = {}, fw_now = 0\<rparr>"

definition demo_plan :: placement_plan where
  "demo_plan =
     \<lparr>pp_target = registry_target,
      pp_path = Reuse \<lparr>ru_state = sample_state, ru_compatibility = compatible ''checked'',
        ru_option = sample_option registry_target 5\<rparr>,
      pp_predicted_cost = cost_for 0 (sample_estimate 7) 5,
      pp_fallback = ColdOnSameTarget, pp_rationale = []\<rparr>"

definition demo_env :: exec_env where
  "demo_env =
     \<lparr>xe_prepare = Completes, xe_materialize = Completes, xe_commit = Completes, xe_execute = Completes,
      xe_abort = Completes, xe_fallback = Completes, xe_activation_started = 0, xe_materialization_started = 0,
      xe_materialization_done = 0, xe_stream_ready = 0, xe_cleanup_at = 0, xe_cleanup_token = 1\<rparr>"

definition demo_others :: "fake_world interference" where
  "demo_others m v =
     (if m = Before AtMaterialize \<and> Suc (fe_next_import (fw_engine v)) < u64_max
      then snd (op_prepare fake_ops registry_target (spec_from_plan sample_state (compatible ''checked''))
        (operation_context_new ''r2'' 5) v)
      else v)"

definition demo_run :: "plan_execution_result \<times> fake_world" where
  "demo_run = execute_plan fake_ops demo_others demo_env {} 0 demo_plan sample_request (operation_context_new ''r1'' 0) demo_world"

lemma demo_others_foreign: "foreign_step (fw_engine v) (fw_engine (demo_others m v))"
  by (auto simp: demo_others_def fake_ops_def on_engine_def split: prod.split intro: foreign_step_prepare)

lemmas demo_run_simps = execute_plan_def execute_reuse_def transfer_state_def abort_then_fallback_def
  abort_import_def apply_fallback_def await_at_def run_await_def demo_env_def demo_plan_def demo_world_def fake_ops_def
  on_engine_def on_store_def fake_prepare_state_import_def fake_abort_state_import_def fake_execute_def
  fake_materialize_def store_guard_def engine_guard_def ensure_active_def is_cancelled_def
  operation_context_new_def adapter_for_def fake_registry_def fake_instance_def validate_target_def
  fake_engine_new_def fake_store_new_def set_fail_materialization_def sample_engine_def sample_defs
  spec_from_plan_def compatible_def is_compatible_def Let_def

lemma demo_run_result:
  "fst demo_run = Inr
     \<lparr>px_stream = map Inr (fake_events sample_request fake_engine_output_default), px_metadata =
        \<lparr>pm_executed_path = ExecutedCold, pm_fallback_used = True, pm_materialization = None,
         pm_topology_micros = None\<rparr>\<rparr>"
  "bt_contains (fe_imports (fw_engine (snd demo_run))) (import_id_of 2)"
  by (simp_all add: bt_contains_def demo_run_def demo_others_def demo_run_simps wrap_add64_def u64_max_def)

lemma demo_prepares:
  "fst (op_prepare fake_ops (pp_target demo_plan) (spec_from_plan sample_state (compatible ''checked''))
     (operation_context_new ''r1'' 0) (demo_others (Before AtPrepare) demo_world)) =
   Inr \<lparr>it_import_id = import_id_of 1, it_target_id = et_id registry_target, it_engine = et_engine registry_target,
     it_state_kind = sd_kind sample_state,
     it_sink = \<lparr>oh_namespace = ''locus.fake.engine-sink.v1'', oh_value = et_id registry_target\<rparr>,
     it_expires_at = sixty_seconds\<rparr>"
  by (simp add: demo_others_def demo_run_simps)

theorem executor_no_import_leak_witness:
  "\<not> bt_contains (fe_imports (fw_engine (snd demo_run))) (import_id_of 1) \<and>
   bt_contains (fe_imports (fw_engine (snd demo_run))) (import_id_of 2)"
proof -
  let ?prep = "op_prepare fake_ops (pp_target demo_plan) (spec_from_plan sample_state (compatible ''checked''))
     (operation_context_new ''r1'' 0) (demo_others (Before AtPrepare) demo_world)"
  obtain imp v where prep: "?prep = (Inr imp, v)" "it_import_id imp = import_id_of 1"
    using demo_prepares by (cases ?prep) simp
  have run: "execute_plan fake_ops demo_others demo_env (fw_cancelled demo_world) (fw_now demo_world) demo_plan sample_request
      (operation_context_new ''r1'' 0) demo_world = (fst demo_run, snd demo_run)"
    by (simp add: demo_run_def demo_world_def)
  have "imports_numbered (fw_engine demo_world)"
    by (simp add: imports_numbered_def demo_world_def fake_engine_new_def bt_contains_def u64_max_def)
  from executor_no_import_leak [OF run demo_others_foreign this, where imp = imp and v = v] prep
  have "\<not> bt_contains (fe_imports (fw_engine (snd demo_run))) (import_id_of 1)"
    by (simp add: demo_run_result(1) demo_plan_def demo_env_def)
  with demo_run_result(2) show ?thesis by blast
qed

section \<open>An engine that restarts\<close>

text \<open>
  The engine restarts after it has prepared the import. The transfer fails, and the clean-up asks the
  registry for the adapter of the planned target, whose generation is stale by now: the execution
  returns that error, no abort is sent, and the import stays with the engine. The engine would have
  accepted the abort.
\<close>

definition restart_others :: "fake_world interference" where
  "restart_others m v = (if m = After AtPrepare then v\<lparr>fw_engine := snd (restart (fw_engine v))\<rparr> else v)"

lemma restart_leaks_import:
  "let (r, w) = execute_plan fake_ops restart_others demo_env {} 0 demo_plan sample_request
      (operation_context_new ''r1'' 0) demo_world in
   r = Inl (PxEngine EngineStaleGeneration) \<and> bt_contains (fe_imports (fw_engine w)) (import_id_of 1) \<and>
   ec_abort (fe_calls (fw_engine w)) = 0 \<and>
   (it_import_id i = import_id_of 1 \<longrightarrow>
      \<not> bt_contains (fe_imports (snd (fake_abort_state_import i c (fw_engine w)))) (import_id_of 1))"
  by (simp add: bt_contains_def restart_others_def restart_def demo_run_simps wrap_add64_def u64_max_def)

section \<open>An interrupted preparation\<close>

text \<open>
  Why the answer of the preparation is a hypothesis. The executor returns the context error of an
  interrupted preparation without an abort, since it has no import to abort. An engine that records
  the import before its answer arrives keeps it until it expires; the fake engine, which records and
  answers in one poll, shows what the executor does when its preparation is cut in between.
\<close>

lemma interrupted_prepare_leaks:
  "let (r, w) = execute_plan fake_ops (\<lambda>_ v. v) (demo_env\<lparr>xe_prepare := Interrupted CtxCancelled True\<rparr>) {} 0 demo_plan
      sample_request (operation_context_new ''r1'' 0) demo_world in
   r = Inl (PxContext CtxCancelled) \<and>
   bt_contains (fe_imports (fw_engine w)) (import_id_of 1) \<and>
   \<not> bt_contains (fe_imports (fw_engine demo_world)) (import_id_of 1)"
  by (simp add: demo_run_simps bt_contains_def)

end
