(* ===== verification/Calibration.thy ===== *)
theory Calibration
  imports Planner Decimal Json
begin

text \<open>
  The persistent calibrator, \<open>crates/planner/src/calibration.rs\<close>: the policy and its
  validation, the bounded moving averages per engine, the application of the learned costs to a
  planning input, the promotion gates and the write-ahead persistence of the state. The external
  crate \<open>serde_json\<close> prints the keys and prints and parses the state: it is the parameter
  \<open>cal_env\<close>. The file system of the standard library is a map from paths to contents, and every
  call into it may fail as the argument \<open>persist_faults\<close> or \<open>load_faults\<close> says. The state mutex
  is poisoned only by a panic while it is held; no operation under it panics on a validated policy,
  so the error \<open>LockPoisoned\<close> does not arise here.
\<close>

section \<open>Policy\<close>

datatype placement_mode = Shadow | Active

record calibration_policy =
  cy_ewma_alpha_bps :: u32
  cy_min_samples_per_metric :: u64
  cy_max_mape_bps :: u64
  cy_min_shadow_decisions :: u64
  cy_min_shadow_agreement_bps :: u64
  cy_conservative_queue_micros :: u64
  cy_conservative_queue_micros_per_waiting_request :: u64
  cy_conservative_prefill_micros_per_token :: u64
  cy_conservative_decode_micros_per_token :: u64
  cy_conservative_materialization_ratio_bps :: u64
  cy_conservative_topology_micros :: u64
  cy_max_unit_micros :: u64
  cy_max_materialization_ratio_bps :: u64
  cy_persistence_flush_every_updates :: u64
  cy_max_records :: usize
  cy_max_materialization_paths_per_record :: usize
  cy_max_state_bytes :: usize

definition calibration_policy_default :: calibration_policy where
  "calibration_policy_default =
     \<lparr>cy_ewma_alpha_bps = 1250, cy_min_samples_per_metric = 32, cy_max_mape_bps = 2500,
      cy_min_shadow_decisions = 128, cy_min_shadow_agreement_bps = 9500,
      cy_conservative_queue_micros = 5000000,
      cy_conservative_queue_micros_per_waiting_request = 1000000,
      cy_conservative_prefill_micros_per_token = 100,
      cy_conservative_decode_micros_per_token = 1000,
      cy_conservative_materialization_ratio_bps = 15000, cy_conservative_topology_micros = 0,
      cy_max_unit_micros = 60000000, cy_max_materialization_ratio_bps = 100000,
      cy_persistence_flush_every_updates = 16, cy_max_records = 4096,
      cy_max_materialization_paths_per_record = 256, cy_max_state_bytes = 32 * 1024 * 1024\<rparr>"

type_synonym io_error = string

datatype calibration_limit =
    StateBytes nat usize
  | FileBytes nat usize
  | RecordCount nat usize
  | PathCount usize

record file_path =
  path_dir :: "string list"
  path_name :: string

datatype calibration_error =
    InvalidPolicy
  | CalLockPoisoned
  | CalRead file_path io_error
  | CalParse file_path
  | CalSchema string string
  | CalSerialize
  | CalWrite file_path io_error
  | CalLimit calibration_limit

definition calibration_policy_validate :: "calibration_policy \<Rightarrow> (unit, calibration_error) result" where
  "calibration_policy_validate p =
     (if cy_ewma_alpha_bps p = 0 \<or> 10000 < cy_ewma_alpha_bps p \<or> cy_min_samples_per_metric p = 0 \<or>
         cy_max_mape_bps p = 0 \<or> cy_min_shadow_decisions p = 0 \<or> cy_min_shadow_agreement_bps p = 0 \<or>
         10000 < cy_min_shadow_agreement_bps p \<or> cy_conservative_queue_micros p = 0 \<or>
         cy_conservative_queue_micros_per_waiting_request p = 0 \<or>
         cy_conservative_prefill_micros_per_token p = 0 \<or>
         cy_conservative_decode_micros_per_token p = 0 \<or>
         cy_conservative_materialization_ratio_bps p < 10000 \<or> cy_max_unit_micros p = 0 \<or>
         cy_max_materialization_ratio_bps p < cy_conservative_materialization_ratio_bps p \<or>
         cy_persistence_flush_every_updates p = 0 \<or> cy_max_records p = 0 \<or>
         cy_max_materialization_paths_per_record p = 0 \<or> cy_max_state_bytes p = 0
      then Inl InvalidPolicy else Inr ())"

section \<open>Keys and observations\<close>

record calibration_key =
  ck_engine_id :: string
  ck_engine_generation :: u64
  ck_model_revision :: string
  ck_adapter_revision :: "string option"
  ck_execution_profile :: string

definition key_from_target :: "execution_target \<Rightarrow> calibration_key" where
  "key_from_target target =
     \<lparr>ck_engine_id = er_id (et_engine target), ck_engine_generation = er_generation (et_engine target),
      ck_model_revision = mi_model_revision (et_model target),
      ck_adapter_revision = mi_adapter_revision (et_model target),
      ck_execution_profile = mi_execution_profile (et_model target)\<rparr>"

definition key_json :: "calibration_key \<Rightarrow> json" where
  "key_json k =
     JArray [JString (ck_engine_id k), JNumber (nat_to_dec (ck_engine_generation k)),
             JString (ck_model_revision k),
             (case ck_adapter_revision k of None \<Rightarrow> JNull | Some r \<Rightarrow> JString r),
             JString (ck_execution_profile k)]"

definition key_stable_id :: "(json \<Rightarrow> string) \<Rightarrow> calibration_key \<Rightarrow> string" where
  "key_stable_id to_string k = to_string (key_json k)"

definition materialization_key :: "(json \<Rightarrow> string) \<Rightarrow> string \<Rightarrow> string \<Rightarrow> string \<Rightarrow> string" where
  "materialization_key to_string store kind target_id =
     to_string (JArray [JString store, JString kind, JString target_id])"

record materialization_observation =
  mob_store :: string
  mob_state_kind :: string
  mob_target_id :: string
  mob_estimated_micros :: u64
  mob_actual_micros :: u64

definition observation_stable_id :: "(json \<Rightarrow> string) \<Rightarrow> materialization_observation \<Rightarrow> string" where
  "observation_stable_id to_string m =
     materialization_key to_string (mob_store m) (mob_state_kind m) (mob_target_id m)"

record calibration_observation =
  cob_key :: calibration_key
  cob_waiting_requests :: "u64 option"
  cob_input_tokens :: u64
  cob_output_tokens :: u64
  cob_time_to_first_token_micros :: "u64 option"
  cob_generation_micros :: "u64 option"
  cob_topology_micros :: "u64 option"
  cob_materialization :: "materialization_observation option"
  cob_completed :: bool

record candidate_calibration_evidence =
  cev_key :: calibration_key
  cev_snapshot_fresh :: bool
  cev_queue_calibration_required :: bool
  cev_used_conservative_queue :: bool
  cev_used_conservative_prefill :: bool
  cev_used_conservative_decode :: bool
  cev_revision :: u64

record calibration_application =
  cap_input :: planning_input
  cap_evidence :: "(string, candidate_calibration_evidence) btree"
  cap_revision :: u64

record promotion_status =
  ps_qualified :: bool
  ps_revision :: u64
  ps_reasons :: "string list"

record calibration_status =
  cs_revision :: u64
  cs_persistent :: bool
  cs_persistence_healthy :: bool
  cs_dirty_updates :: u64
  cs_shadow_decisions :: u64
  cs_shadow_agreements :: u64
  cs_replay_mismatches :: u64

section \<open>The learned state\<close>

record metric_estimate =
  me_estimate :: u64
  me_samples :: u64
  me_mape_bps :: u64

definition metric_default :: metric_estimate where
  "metric_default = \<lparr>me_estimate = 0, me_samples = 0, me_mape_bps = 0\<rparr>"

record calibration_record =
  crd_last_updated_revision :: u64
  crd_queue :: metric_estimate
  crd_prefill :: metric_estimate
  crd_decode :: metric_estimate
  crd_topology :: metric_estimate
  crd_materialization :: "(string, metric_estimate) btree"

definition record_default :: calibration_record where
  "record_default =
     \<lparr>crd_last_updated_revision = 0, crd_queue = metric_default, crd_prefill = metric_default,
      crd_decode = metric_default, crd_topology = metric_default, crd_materialization = bt_empty\<rparr>"

record shadow_evidence =
  sh_decisions :: u64
  sh_agreements :: u64
  sh_replay_mismatches :: u64

record calibration_state =
  cst_schema_version :: string
  cst_revision :: u64
  cst_records :: "(string, calibration_record) btree"
  cst_shadow :: shadow_evidence

definition cal_schema_version :: string where
  "cal_schema_version = ''locus.calibration-state.v1''"

definition calibration_state_default :: calibration_state where
  "calibration_state_default =
     \<lparr>cst_schema_version = cal_schema_version, cst_revision = 0, cst_records = bt_empty,
      cst_shadow = \<lparr>sh_decisions = 0, sh_agreements = 0, sh_replay_mismatches = 0\<rparr>\<rparr>"

subsection \<open>Moving averages\<close>

definition weighted_average :: "u64 \<Rightarrow> u64 \<Rightarrow> u64 \<Rightarrow> u64" where
  "weighted_average previous sample alpha_bps =
     (let retained = sat_sub64 10000 alpha_bps;
          total = sat_add128 (sat_mul128 previous retained) (sat_mul128 sample alpha_bps) div 10000
      in if total \<le> u64_max then total else u64_max)"

definition abs_diff64 :: "u64 \<Rightarrow> u64 \<Rightarrow> u64" where
  "abs_diff64 a b = (if a < b then b - a else a - b)"

definition metric_update :: "u64 \<Rightarrow> calibration_policy \<Rightarrow> u64 \<Rightarrow> metric_estimate \<Rightarrow> metric_estimate" where
  "metric_update sample policy maximum m =
     (let sample = clamp64 sample 1 maximum in
      if me_samples m = 0 then \<lparr>me_estimate = sample, me_samples = 1, me_mape_bps = 0\<rparr>
      else
        (let error_bps = sat_mul64 (abs_diff64 (me_estimate m) sample) 10000 div max sample 1 in
         \<lparr>me_estimate = weighted_average (me_estimate m) sample (cy_ewma_alpha_bps policy),
          me_samples = sat_add64 (me_samples m) 1,
          me_mape_bps = weighted_average (me_mape_bps m) error_bps (cy_ewma_alpha_bps policy)\<rparr>))"

definition value_or :: "metric_estimate \<Rightarrow> u64 \<Rightarrow> u64" where
  "value_or m fallback = (if me_samples m = 0 then fallback else me_estimate m)"

text \<open>\<open>min_by_key\<close> over the iteration of the map, with the key \<open>(last_updated_revision, key)\<close>.\<close>

definition record_age :: "string \<times> calibration_record \<Rightarrow> u64 \<times> string" where
  "record_age e = (crd_last_updated_revision (snd e), fst e)"

definition older_record :: "string \<times> calibration_record \<Rightarrow> string \<times> calibration_record \<Rightarrow> bool" where
  "older_record a b \<longleftrightarrow> record_age a < record_age b"

interpretation eviction: keyed_choice older_record record_age
  by unfold_locales (rule older_record_def)

definition ensure_record_capacity :: "string \<Rightarrow> usize \<Rightarrow> calibration_state \<Rightarrow> calibration_state" where
  "ensure_record_capacity incoming maximum st =
     (if bt_contains (cst_records st) incoming \<or> bt_len (cst_records st) < maximum then st
      else case foldl (keep_better older_record) None (entries (cst_records st)) of
        None \<Rightarrow> st
      | Some (oldest, _) \<Rightarrow> st\<lparr>cst_records := bt_remove oldest (cst_records st)\<rparr>)"

section \<open>Applying the calibration to a planning input\<close>

definition queue_estimate ::
    "calibration_policy \<Rightarrow> calibration_record option \<Rightarrow> u64 option \<Rightarrow> u64 option \<Rightarrow> u64 \<times> bool" where
  "queue_estimate policy record waiting_requests direct_estimate =
     (case direct_estimate of
        Some direct \<Rightarrow> (direct, False)
      | None \<Rightarrow>
          (case waiting_requests of
             None \<Rightarrow> (cy_conservative_queue_micros policy, True)
           | Some waiting \<Rightarrow>
               if waiting = 0 then (0, False)
               else
                 (let metric = map_option crd_queue record;
                      unit_micros = (case metric of
                          None \<Rightarrow> cy_conservative_queue_micros_per_waiting_request policy
                        | Some m \<Rightarrow> value_or m (cy_conservative_queue_micros_per_waiting_request policy))
                  in (sat_mul64 waiting unit_micros,
                      case metric of None \<Rightarrow> True | Some m \<Rightarrow> me_samples m = 0))))"

definition option_filter :: "('a \<Rightarrow> bool) \<Rightarrow> 'a option \<Rightarrow> 'a option" where
  "option_filter P x = (case x of Some v \<Rightarrow> if P v then Some v else None | None \<Rightarrow> None)"

definition unit_estimate ::
    "calibration_policy \<Rightarrow> metric_estimate option \<Rightarrow> u64 option \<Rightarrow> u64 \<Rightarrow> u64 \<times> bool" where
  "unit_estimate policy metric telemetry_rate conservative =
     (case option_filter (\<lambda>m. 0 < me_samples m) metric of
        Some m \<Rightarrow> (me_estimate m, False)
      | None \<Rightarrow>
          (case option_filter (\<lambda>rate. 0 < rate) telemetry_rate of
             Some rate \<Rightarrow> (clamp64 (1000000 div rate) 1 (cy_max_unit_micros policy), False)
           | None \<Rightarrow> (conservative, True)))"

definition input_token_count :: "planning_input \<Rightarrow> u64" where
  "input_token_count input =
     sum_u64 (List.map_filter
       (\<lambda>item. case ii_value item of TokenSequence tokens \<Rightarrow> Some (length (ts_token_ids tokens)) | _ \<Rightarrow> None)
       (ib_items (rq_input (in_request input))))"

definition apply_path ::
    "(json \<Rightarrow> string) \<Rightarrow> calibration_policy \<Rightarrow> calibration_record option \<Rightarrow> execution_target_id
     \<Rightarrow> u64 \<Rightarrow> u64 \<Rightarrow> u64 \<Rightarrow> u64 \<Rightarrow> state_path_candidate \<Rightarrow> state_path_candidate" where
  "apply_path to_string policy record target_id input_tokens output_tokens prefill_unit decode_unit sp =
     (let covered = sum_u64 (map cc_covered_units (rb_covered_components (sd_boundary (spc_state sp))));
          path_key = materialization_key to_string (mo_store (spc_option sp)) (mo_state_kind (spc_option sp)) target_id;
          ratio = (case option_filter (\<lambda>m. 0 < me_samples m)
                     (Option.bind record (\<lambda>r. bt_get (crd_materialization r) path_key)) of
              None \<Rightarrow> cy_conservative_materialization_ratio_bps policy
            | Some m \<Rightarrow> me_estimate m)
      in sp\<lparr>spc_estimate := (spc_estimate sp)
              \<lparr>ee_unmatched_prefill_micros := sat_mul64 (sat_sub64 input_tokens covered) prefill_unit,
               ee_decode_micros := sat_mul64 output_tokens decode_unit,
               ee_topology_micros := (case record of
                   None \<Rightarrow> cy_conservative_topology_micros policy
                 | Some r \<Rightarrow> value_or (crd_topology r) (cy_conservative_topology_micros policy))\<rparr>,
            spc_materialization_estimate_micros :=
              Some (sat_mul64 (mo_estimated_transfer_micros (spc_option sp)) ratio div 10000)\<rparr>)"

definition apply_candidate ::
    "(json \<Rightarrow> string) \<Rightarrow> calibration_policy \<Rightarrow> calibration_state \<Rightarrow> u64 \<Rightarrow> u64 \<Rightarrow> u64
     \<Rightarrow> planning_candidate \<Rightarrow> planning_candidate \<times> candidate_calibration_evidence" where
  "apply_candidate to_string policy st input_tokens output_tokens now_unix_millis c =
     (let key = key_from_target (pc_target c);
          record = bt_get (cst_records st) (key_stable_id to_string key);
          snapshot = pc_snapshot c;
          snapshot_fresh = telemetry_is_fresh_at snapshot now_unix_millis;
          waiting = (if snapshot_fresh then es_waiting_requests snapshot else None);
          direct = (if snapshot_fresh then es_estimated_queue_micros snapshot else None);
          queue_required = (direct = None \<and> (case waiting of None \<Rightarrow> True | Some w \<Rightarrow> 0 < w));
          (queue_micros, conservative_queue) = queue_estimate policy record waiting direct;
          (prefill_unit, conservative_prefill) = unit_estimate policy (map_option crd_prefill record)
             (if snapshot_fresh then es_prefill_tokens_per_second snapshot else None)
             (cy_conservative_prefill_micros_per_token policy);
          (decode_unit, conservative_decode) = unit_estimate policy (map_option crd_decode record)
             (if snapshot_fresh then es_decode_tokens_per_second snapshot else None)
             (cy_conservative_decode_micros_per_token policy)
      in (c\<lparr>pc_snapshot := snapshot\<lparr>es_estimated_queue_micros := Some queue_micros\<rparr>,
            pc_cold_estimate := (pc_cold_estimate c)
              \<lparr>ee_unmatched_prefill_micros := sat_mul64 input_tokens prefill_unit,
               ee_decode_micros := sat_mul64 output_tokens decode_unit, ee_topology_micros := 0\<rparr>,
            pc_state_paths := map (apply_path to_string policy record (et_id (pc_target c))
              input_tokens output_tokens prefill_unit decode_unit) (pc_state_paths c)\<rparr>,
          \<lparr>cev_key = key, cev_snapshot_fresh = snapshot_fresh, cev_queue_calibration_required = queue_required,
           cev_used_conservative_queue = conservative_queue, cev_used_conservative_prefill = conservative_prefill,
           cev_used_conservative_decode = conservative_decode, cev_revision = cst_revision st\<rparr>))"

definition calibration_apply ::
    "(json \<Rightarrow> string) \<Rightarrow> calibration_policy \<Rightarrow> calibration_state \<Rightarrow> planning_input \<Rightarrow> u64 \<Rightarrow> calibration_application" where
  "calibration_apply to_string policy st input now_unix_millis =
     (let input_tokens = input_token_count input;
          output_tokens = (case sp_max_output_tokens (rq_sampling (in_request input)) of None \<Rightarrow> 16 | Some n \<Rightarrow> n);
          applied = map (apply_candidate to_string policy st input_tokens output_tokens now_unix_millis) (in_candidates input)
      in \<lparr>cap_input = input\<lparr>in_candidates := map fst applied\<rparr>,
          cap_evidence = foldl (\<lambda>m (c, e). bt_insert (et_id (pc_target c)) e m) bt_empty applied,
          cap_revision = cst_revision st\<rparr>)"

section \<open>Properties of the averages\<close>

lemma weighted_sum_between:
  assumes "a \<le> (10000 :: nat)"
  shows "min p s \<le> (p * (10000 - a) + s * a) div 10000" and "(p * (10000 - a) + s * a) div 10000 \<le> max p s"
proof -
  have "min p s * (10000 - a) + min p s * a \<le> p * (10000 - a) + s * a"
    by (intro add_mono mult_le_mono) auto
  moreover have "min p s * (10000 - a) + min p s * a = min p s * 10000"
    using assms by (simp flip: distrib_left)
  ultimately show "min p s \<le> (p * (10000 - a) + s * a) div 10000"
    by (simp add: less_eq_div_iff_mult_less_eq mult.commute)
  have "p * (10000 - a) + s * a \<le> max p s * (10000 - a) + max p s * a"
    by (intro add_mono mult_le_mono) auto
  moreover have "max p s * (10000 - a) + max p s * a = max p s * 10000"
    using assms by (simp flip: distrib_left)
  ultimately show "(p * (10000 - a) + s * a) div 10000 \<le> max p s"
    by (metis div_le_mono nonzero_mult_div_cancel_right zero_neq_numeral)
qed

lemma u128_no_saturation:
  assumes "a \<le> 10000" "p \<le> u64_max" "s \<le> u64_max"
  shows "p * (10000 - a) + s * a \<le> u128_max"
proof -
  have "p * (10000 - a) + s * a \<le> u64_max * (10000 - a) + u64_max * a"
    using assms by (intro add_mono mult_le_mono) auto
  also have "\<dots> = u64_max * 10000" using assms(1) by (simp flip: distrib_left)
  also have "\<dots> \<le> u128_max" by (simp add: u64_max_def u128_max_def)
  finally show ?thesis .
qed

text \<open>The saturating 128-bit computation never saturates: it is the exact weighted average.\<close>

lemma weighted_average_exact:
  assumes "a \<le> 10000" "p \<le> u64_max" "s \<le> u64_max"
  shows "weighted_average p s a = (p * (10000 - a) + s * a) div 10000"
proof -
  have no_sat: "p * (10000 - a) + s * a \<le> u128_max" using assms by (rule u128_no_saturation)
  then have "p * (10000 - a) \<le> u128_max" "s * a \<le> u128_max" by linarith+
  moreover have "(p * (10000 - a) + s * a) div 10000 \<le> u64_max"
    using weighted_sum_between(2) [OF assms(1), of p s] assms(2,3) by linarith
  ultimately show ?thesis
    using no_sat by (simp add: weighted_average_def sat_mul128_def sat_add128_def sat_sub64_def Let_def)
qed

lemma weighted_average_between:
  assumes "a \<le> 10000" "p \<le> u64_max" "s \<le> u64_max"
  shows "min p s \<le> weighted_average p s a" and "weighted_average p s a \<le> max p s"
  using weighted_sum_between [OF assms(1), of p s] by (simp_all add: weighted_average_exact [OF assms])

text \<open>An estimate that has samples lies between one and the maximum of its metric.\<close>

definition metric_ok :: "u64 \<Rightarrow> metric_estimate \<Rightarrow> bool" where
  "metric_ok maximum m \<longleftrightarrow> me_samples m \<noteq> 0 \<longrightarrow> 1 \<le> me_estimate m \<and> me_estimate m \<le> maximum"

lemma metric_update_between:
  assumes "cy_ewma_alpha_bps policy \<le> 10000" "1 \<le> maximum" "maximum \<le> u64_max" "metric_ok maximum m" "me_samples m \<noteq> 0"
  shows "min (me_estimate m) (clamp64 sample 1 maximum) \<le> me_estimate (metric_update sample policy maximum m) \<and>
     me_estimate (metric_update sample policy maximum m) \<le> max (me_estimate m) (clamp64 sample 1 maximum)"
proof -
  have "clamp64 sample 1 maximum \<le> u64_max" "me_estimate m \<le> u64_max"
    using assms clamp64_bounds [of 1 maximum sample] by (auto simp: metric_ok_def)
  with weighted_average_between [OF assms(1)] assms(5) show ?thesis
    by (simp add: metric_update_def Let_def)
qed

lemma metric_update_ok:
  assumes "cy_ewma_alpha_bps policy \<le> 10000" "1 \<le> maximum" "maximum \<le> u64_max" "metric_ok maximum m"
  shows "metric_ok maximum (metric_update sample policy maximum m)"
proof (cases "me_samples m = 0")
  case True
  then show ?thesis using clamp64_bounds [OF assms(2), of sample] by (simp add: metric_ok_def metric_update_def Let_def)
next
  case False
  with metric_update_between [OF assms False, of sample] assms(4) clamp64_bounds [OF assms(2), of sample]
  show ?thesis by (auto simp: metric_ok_def min_def max_def split: if_splits)
qed

lemma metric_default_ok [simp]: "metric_ok maximum metric_default"
  by (simp add: metric_ok_def metric_default_def)

text \<open>
  The learned estimates are bounded and stable. Updating a metric keeps its estimate between
  one and its maximum, counts the sample, and moves the estimate only between its old value and the
  clamped sample; the 128-bit average loses nothing to saturation.
\<close>

lemma metric_update_bounded:
  assumes "calibration_policy_validate policy = Inr ()" and "1 \<le> maximum" and "maximum \<le> u64_max"
    and "metric_ok maximum m"
  shows "metric_ok maximum (metric_update sample policy maximum m) \<and>
     me_samples (metric_update sample policy maximum m) \<noteq> 0 \<and>
     (me_samples m = 0 \<or>
      me_estimate (metric_update sample policy maximum m) \<in>
        {min (me_estimate m) (clamp64 sample 1 maximum) .. max (me_estimate m) (clamp64 sample 1 maximum)})"
proof -
  have alpha: "cy_ewma_alpha_bps policy \<le> 10000"
    using assms(1) by (simp add: calibration_policy_validate_def split: if_splits)
  have "me_samples (metric_update sample policy maximum m) \<noteq> 0"
    by (simp add: metric_update_def Let_def sat_add64_def u64_max_def)
  with metric_update_ok [OF alpha assms(2-4)] metric_update_between [OF alpha assms(2-4)] show ?thesis by auto
qed

section \<open>Calibration changes costs, not feasibility\<close>

lemma apply_path_same [simp]:
  "spc_state (apply_path ts policy r tid it ot pu du sp) = spc_state sp"
  "spc_compatibility (apply_path ts policy r tid it ot pu du sp) = spc_compatibility sp"
  "spc_option (apply_path ts policy r tid it ot pu du sp) = spc_option sp"
  by (simp_all add: apply_path_def Let_def)

lemma apply_candidate_same [simp]:
  "pc_target (fst (apply_candidate ts policy st it ot now c)) = pc_target c"
  "pc_capabilities (fst (apply_candidate ts policy st it ot now c)) = pc_capabilities c"
  "es_ready (pc_snapshot (fst (apply_candidate ts policy st it ot now c))) = es_ready (pc_snapshot c)"
  "es_target_id (pc_snapshot (fst (apply_candidate ts policy st it ot now c))) = es_target_id (pc_snapshot c)"
  by (simp_all add: apply_candidate_def Let_def split: prod.splits)

lemma apply_candidate_paths:
  "\<exists>r pu du. pc_state_paths (fst (apply_candidate ts policy st it ot now c)) =
     map (apply_path ts policy r (et_id (pc_target c)) it ot pu du) (pc_state_paths c)"
  unfolding apply_candidate_def Let_def case_prod_beta
  by (intro exI) (simp del: map_eq_conv)

lemma calibration_apply_input [simp]:
  "in_request (cap_input (calibration_apply ts policy st input now)) = in_request input"
  "in_state_observation (cap_input (calibration_apply ts policy st input now)) = in_state_observation input"
  "in_policy (cap_input (calibration_apply ts policy st input now)) = in_policy input"
  by (simp_all add: calibration_apply_def Let_def)

lemma calibration_apply_candidates:
  "in_candidates (cap_input (calibration_apply ts policy st input now)) =
     map (\<lambda>c. fst (apply_candidate ts policy st (input_token_count input)
        (case sp_max_output_tokens (rq_sampling (in_request input)) of None \<Rightarrow> 16 | Some n \<Rightarrow> n) now c))
       (in_candidates input)"
  by (simp add: calibration_apply_def Let_def comp_def)

definition path_signature :: "feasible_path \<Rightarrow> execution_target \<times> execution_path \<times> fallback_action \<times> string" where
  "path_signature p = (fp_target p, fp_path p, fp_fallback p, fp_stable_key p)"

lemma candidate_rejected_calibrated:
  "candidate_rejected (cap_input (calibration_apply ts policy st input now')) (fst (apply_candidate ts policy st it ot now c)) =
    candidate_rejected input c"
  by (simp add: candidate_rejected_def)

lemma path_usable_calibrated:
  "path_usable (cap_input (calibration_apply ts policy st input now')) (fst (apply_candidate ts policy st it ot now c))
      (apply_path ts policy r tid it ot pu du sp) = path_usable input c sp"
  by (simp add: path_usable_def store_unavailable_for_def state_path_rejected_def split: option.splits)

lemma candidate_paths_calibrated:
  "map path_signature (candidate_paths (cap_input (calibration_apply ts policy st input now'))
      (fst (apply_candidate ts policy st it ot now c))) =
     map path_signature (candidate_paths input c)"
proof -
  obtain r pu du where paths: "pc_state_paths (fst (apply_candidate ts policy st it ot now c)) =
     map (apply_path ts policy r (et_id (pc_target c)) it ot pu du) (pc_state_paths c)"
    using apply_candidate_paths by blast
  show ?thesis
    by (simp add: candidate_paths_def candidate_rejected_calibrated paths filter_map comp_def
        path_usable_calibrated path_signature_def cold_path_def reuse_path_def)
qed

lemma store_unavailable_calibrated:
  "Bex (set (pc_state_paths (fst (apply_candidate ts policy st it ot now c))))
      (store_unavailable_for (cap_input (calibration_apply ts policy st input now'))) =
    Bex (set (pc_state_paths c)) (store_unavailable_for input)"
proof -
  obtain r pu du where paths: "pc_state_paths (fst (apply_candidate ts policy st it ot now c)) =
     map (apply_path ts policy r (et_id (pc_target c)) it ot pu du) (pc_state_paths c)"
    using apply_candidate_paths by blast
  have "store_unavailable_for (cap_input (calibration_apply ts policy st input now'))
      (apply_path ts policy r (et_id (pc_target c)) it ot pu du sp) = store_unavailable_for input sp" for sp
    by (simp add: store_unavailable_for_def)
  then show ?thesis by (simp add: paths)
qed

lemma calibration_outage_seen:
  "outage_seen (cap_input (calibration_apply ts policy st input now)) = outage_seen input"
  by (simp add: outage_seen_def calibration_apply_candidates candidate_rejected_calibrated
      store_unavailable_calibrated)

lemma feasible_paths_calibrated:
  "map path_signature (feasible_paths (cap_input (calibration_apply ts policy st input now))) =
     map path_signature (feasible_paths input)"
  by (simp add: feasible_paths_def calibration_apply_candidates map_concat comp_def candidate_paths_calibrated)

text \<open>
  Calibration prices paths and does nothing else. For every planning input the feasible paths
  of the calibrated input are those of the input, in the same order, with the same targets,
  reuse plans, fallbacks and stable keys, and the outage flag of the planner is the same: hard
  constraints cannot be bypassed by a learned cost.
\<close>

lemma calibration_keeps_feasibility:
  "map path_signature (feasible_paths (cap_input (calibration_apply to_string policy st input now))) =
     map path_signature (feasible_paths input) \<and>
   outage_seen (cap_input (calibration_apply to_string policy st input now)) = outage_seen input"
  by (simp add: feasible_paths_calibrated calibration_outage_seen)

end
