(* ===== verification/Calibrator.thy ===== *)
theory Calibrator
  imports Calibration
begin

text \<open>
  The stateful half of \<open>crates/planner/src/calibration.rs\<close>: the \<open>PersistentCalibrator\<close> with its
  state, its health flag and its count of unsaved updates, the observations and shadow decisions
  that change it, the promotion gates, and the file it is loaded from and persisted to.
\<close>

section \<open>Files\<close>

type_synonym files = "file_path \<Rightarrow> string option"

definition path_parent :: "file_path \<Rightarrow> file_path option" where
  "path_parent p = (if path_dir p = [] then None
     else Some \<lparr>path_dir = butlast (path_dir p), path_name = last (path_dir p)\<rparr>)"

text \<open>\<open>Path::file_stem\<close>: the name up to its last dot, the whole name if that dot leads it.\<close>

definition file_stem :: "string \<Rightarrow> string" where
  "file_stem name =
     (let before = rev (tl (dropWhile (\<lambda>c. c \<noteq> CHR ''.'') (rev name))) in
      if name = ''..'' \<or> CHR ''.'' \<notin> set name \<or> before = [] then name else before)"

definition with_extension :: "string \<Rightarrow> file_path \<Rightarrow> file_path" where
  "with_extension ext p = p\<lparr>path_name := file_stem (path_name p) @ ''.'' @ ext\<rparr>"

definition temporary_path :: "file_path \<Rightarrow> file_path" where
  "temporary_path = with_extension ''locus-calibration.tmp''"

text \<open>
  The faults of the calls of \<open>persist_state\<close>. A failed write leaves the temporary file with any
  content, or without one.
\<close>

record persist_faults =
  pf_create_dir :: "io_error option"
  pf_write :: "(io_error \<times> string option) option"
  pf_sync_file :: "io_error option"
  pf_rename :: "io_error option"
  pf_sync_dir :: "io_error option"

definition no_faults :: persist_faults where
  "no_faults = \<lparr>pf_create_dir = None, pf_write = None, pf_sync_file = None, pf_rename = None, pf_sync_dir = None\<rparr>"

definition parent_call :: "file_path \<Rightarrow> io_error option \<Rightarrow> (unit, calibration_error) result" where
  "parent_call path fault =
     (case path_parent path of
        None \<Rightarrow> Inr ()
      | Some parent \<Rightarrow> (case fault of None \<Rightarrow> Inr () | Some e \<Rightarrow> Inl (CalWrite parent e)))"

definition persist_state ::
    "file_path \<Rightarrow> string \<Rightarrow> persist_faults \<Rightarrow> files \<Rightarrow> (unit, calibration_error) result \<times> files" where
  "persist_state path bytes faults files =
     (case parent_call path (pf_create_dir faults) of
        Inl e \<Rightarrow> (Inl e, files)
      | Inr _ \<Rightarrow>
          (let temporary = temporary_path path in
           case pf_write faults of
             Some (e, content) \<Rightarrow> (Inl (CalWrite temporary e), files(temporary := content))
           | None \<Rightarrow>
               (let files = files(temporary \<mapsto> bytes) in
                case pf_sync_file faults of
                  Some e \<Rightarrow> (Inl (CalWrite temporary e), files)
                | None \<Rightarrow>
                    (case pf_rename faults of
                       Some e \<Rightarrow> (Inl (CalWrite path e), files)
                     | None \<Rightarrow> (parent_call path (pf_sync_dir faults),
                                (files(temporary := None))(path \<mapsto> bytes))))))"

section \<open>The calibrator\<close>

record cal_env =
  ce_to_string :: "json \<Rightarrow> string"
  ce_to_vec :: "calibration_state \<Rightarrow> string option"
  ce_from_slice :: "string \<Rightarrow> calibration_state option"

record calibrator =
  cl_policy :: calibration_policy
  cl_state :: calibration_state
  cl_state_path :: "file_path option"
  cl_persistence_healthy :: bool
  cl_dirty_updates :: u64

record load_faults =
  lf_metadata :: "io_error option"
  lf_read :: "io_error option"

definition read_file :: "file_path \<Rightarrow> io_error option \<Rightarrow> files \<Rightarrow> (string, calibration_error) result" where
  "read_file path fault files =
     (case fault of
        Some e \<Rightarrow> Inl (CalRead path e)
      | None \<Rightarrow> (case files path of None \<Rightarrow> Inl (CalRead path ''not found'') | Some bytes \<Rightarrow> Inr bytes))"

definition load_state ::
    "cal_env \<Rightarrow> file_path \<Rightarrow> calibration_policy \<Rightarrow> load_faults \<Rightarrow> files \<Rightarrow> (calibration_state, calibration_error) result" where
  "load_state env path policy faults files =
     and_then (read_file path (lf_metadata faults) files) (\<lambda>content.
     if cy_max_state_bytes policy < length content
     then Inl (CalLimit (FileBytes (length content) (cy_max_state_bytes policy)))
     else and_then (read_file path (lf_read faults) files) (\<lambda>bytes.
       case ce_from_slice env bytes of
         None \<Rightarrow> Inl (CalParse path)
       | Some st \<Rightarrow>
           if cst_schema_version st \<noteq> cal_schema_version
           then Inl (CalSchema cal_schema_version (cst_schema_version st))
           else if cy_max_records policy < bt_len (cst_records st)
           then Inl (CalLimit (RecordCount (bt_len (cst_records st)) (cy_max_records policy)))
           else if list_ex (\<lambda>r. cy_max_materialization_paths_per_record policy < bt_len (crd_materialization r))
                     (bt_values (cst_records st))
           then Inl (CalLimit (PathCount (cy_max_materialization_paths_per_record policy)))
           else Inr st))"

definition calibrator_load ::
    "cal_env \<Rightarrow> calibration_policy \<Rightarrow> file_path option \<Rightarrow> load_faults \<Rightarrow> files \<Rightarrow> (calibrator, calibration_error) result" where
  "calibrator_load env policy state_path faults files =
     and_then (calibration_policy_validate policy) (\<lambda>_.
     and_then (case state_path of
         Some path \<Rightarrow> if files path \<noteq> None then load_state env path policy faults files
                      else Inr calibration_state_default
       | None \<Rightarrow> Inr calibration_state_default)
       (\<lambda>st. Inr \<lparr>cl_policy = policy, cl_state = st, cl_state_path = state_path,
                  cl_persistence_healthy = True, cl_dirty_updates = 0\<rparr>))"

definition is_persistent :: "calibrator \<Rightarrow> bool" where
  "is_persistent c \<longleftrightarrow> cl_state_path c \<noteq> None"

record cal_world =
  cw_cal :: calibrator
  cw_files :: files

abbreviation with_health :: "bool \<Rightarrow> cal_world \<Rightarrow> cal_world" where
  "with_health h w \<equiv> w\<lparr>cw_cal := (cw_cal w)\<lparr>cl_persistence_healthy := h\<rparr>\<rparr>"

abbreviation with_dirty :: "u64 \<Rightarrow> cal_world \<Rightarrow> cal_world" where
  "with_dirty n w \<equiv> w\<lparr>cw_cal := (cw_cal w)\<lparr>cl_dirty_updates := n\<rparr>\<rparr>"

abbreviation with_state :: "calibration_state \<Rightarrow> cal_world \<Rightarrow> cal_world" where
  "with_state st w \<equiv> w\<lparr>cw_cal := (cw_cal w)\<lparr>cl_state := st\<rparr>\<rparr>"

definition persist_locked ::
    "cal_env \<Rightarrow> persist_faults \<Rightarrow> cal_world \<Rightarrow> (unit, calibration_error) result \<times> cal_world" where
  "persist_locked env faults w =
     (case cl_state_path (cw_cal w) of
        None \<Rightarrow> (Inr (), w)
      | Some path \<Rightarrow>
          (case ce_to_vec env (cl_state (cw_cal w)) of
             None \<Rightarrow> (Inl CalSerialize, with_health False w)
           | Some bytes \<Rightarrow>
               if cy_max_state_bytes (cl_policy (cw_cal w)) < length bytes
               then (Inl (CalLimit (StateBytes (length bytes) (cy_max_state_bytes (cl_policy (cw_cal w))))),
                     with_health False w)
               else
                 (case persist_state path bytes faults (cw_files w) of
                    (Inl e, files) \<Rightarrow> (Inl e, with_health False (w\<lparr>cw_files := files\<rparr>))
                  | (Inr _, files) \<Rightarrow> (Inr (), with_health True (w\<lparr>cw_files := files\<rparr>)))))"

text \<open>Persist and, on success, forget the count of unsaved updates.\<close>

definition persist_clean ::
    "cal_env \<Rightarrow> persist_faults \<Rightarrow> cal_world \<Rightarrow> (unit, calibration_error) result \<times> cal_world" where
  "persist_clean env faults w =
     (case persist_locked env faults w of
        (Inl e, w) \<Rightarrow> (Inl e, w)
      | (Inr _, w) \<Rightarrow> (Inr (), with_dirty 0 w))"

definition commit_update_locked ::
    "cal_env \<Rightarrow> persist_faults \<Rightarrow> cal_world \<Rightarrow> (unit, calibration_error) result \<times> cal_world" where
  "commit_update_locked env faults w =
     (let dirty = wrap_add64 (cl_dirty_updates (cw_cal w)) 1; w = with_dirty dirty w in
      if is_persistent (cw_cal w) \<and> cy_persistence_flush_every_updates (cl_policy (cw_cal w)) \<le> dirty
      then persist_clean env faults w else (Inr (), w))"

definition calibrator_flush ::
    "cal_env \<Rightarrow> persist_faults \<Rightarrow> cal_world \<Rightarrow> (unit, calibration_error) result \<times> cal_world" where
  "calibrator_flush env faults w =
     (if \<not> is_persistent (cw_cal w) \<or> cl_dirty_updates (cw_cal w) = 0 then (Inr (), w)
      else persist_clean env faults w)"

definition calibrator_status :: "calibrator \<Rightarrow> calibration_status" where
  "calibrator_status c =
     (let st = cl_state c in
      \<lparr>cs_revision = cst_revision st, cs_persistent = is_persistent c,
       cs_persistence_healthy = cl_persistence_healthy c, cs_dirty_updates = cl_dirty_updates c,
       cs_shadow_decisions = sh_decisions (cst_shadow st), cs_shadow_agreements = sh_agreements (cst_shadow st),
       cs_replay_mismatches = sh_replay_mismatches (cst_shadow st)\<rparr>)"

section \<open>Observations\<close>

definition observation_has_sample :: "calibration_observation \<Rightarrow> bool" where
  "observation_has_sample obs \<longleftrightarrow>
     (cob_time_to_first_token_micros obs \<noteq> None \<and> 0 < cob_input_tokens obs \<and> cob_waiting_requests obs \<noteq> None) \<or>
     (cob_generation_micros obs \<noteq> None \<and> 0 < cob_output_tokens obs) \<or>
     cob_topology_micros obs \<noteq> None \<or>
     (case cob_materialization obs of None \<Rightarrow> False | Some m \<Rightarrow> 0 < mob_estimated_micros m)"

text \<open>The four parts of an observation; each returns whether it changed the record.\<close>

definition observe_ttft ::
    "calibration_policy \<Rightarrow> calibration_observation \<Rightarrow> calibration_record \<Rightarrow> calibration_record \<times> bool" where
  "observe_ttft policy obs record =
     (case (cob_time_to_first_token_micros obs, cob_waiting_requests obs) of
        (Some ttft, Some waiting) \<Rightarrow>
          if cob_input_tokens obs = 0 then (record, False)
          else if waiting = 0
          then (record\<lparr>crd_prefill := metric_update (ttft div max (cob_input_tokens obs) 1) policy
                  (cy_max_unit_micros policy) (crd_prefill record)\<rparr>, True)
          else
            (let prefill_unit = value_or (crd_prefill record) (cy_conservative_prefill_micros_per_token policy);
                 prefill = sat_mul64 (cob_input_tokens obs) prefill_unit;
                 residual = sat_sub64 ttft prefill
             in (record\<lparr>crd_queue := metric_update (residual div waiting) policy
                   (cy_max_unit_micros policy) (crd_queue record)\<rparr>, True))
      | _ \<Rightarrow> (record, False))"

definition observe_decode ::
    "calibration_policy \<Rightarrow> calibration_observation \<Rightarrow> calibration_record \<Rightarrow> calibration_record \<times> bool" where
  "observe_decode policy obs record =
     (case cob_generation_micros obs of
        Some micros \<Rightarrow>
          if 0 < cob_output_tokens obs
          then (record\<lparr>crd_decode := metric_update (micros div cob_output_tokens obs) policy
                  (cy_max_unit_micros policy) (crd_decode record)\<rparr>, True)
          else (record, False)
      | None \<Rightarrow> (record, False))"

definition observe_topology ::
    "calibration_policy \<Rightarrow> calibration_observation \<Rightarrow> calibration_record \<Rightarrow> calibration_record \<times> bool" where
  "observe_topology policy obs record =
     (case cob_topology_micros obs of
        Some micros \<Rightarrow>
          (record\<lparr>crd_topology := metric_update micros policy (cy_max_unit_micros policy) (crd_topology record)\<rparr>, True)
      | None \<Rightarrow> (record, False))"

definition make_path_room :: "string \<Rightarrow> usize \<Rightarrow> (string, metric_estimate) btree \<Rightarrow> (string, metric_estimate) btree" where
  "make_path_room incoming maximum paths =
     (if \<not> bt_contains paths incoming \<and> maximum \<le> bt_len paths
      then (case bt_keys paths of [] \<Rightarrow> paths | oldest # _ \<Rightarrow> bt_remove oldest paths)
      else paths)"

definition observe_materialization ::
    "(json \<Rightarrow> string) \<Rightarrow> calibration_policy \<Rightarrow> calibration_observation \<Rightarrow> calibration_record \<Rightarrow> calibration_record \<times> bool" where
  "observe_materialization to_string policy obs record =
     (case cob_materialization obs of
        None \<Rightarrow> (record, False)
      | Some m \<Rightarrow>
          if mob_estimated_micros m = 0 then (record, False)
          else
            (let stable_id = observation_stable_id to_string m;
                 paths = make_path_room stable_id (cy_max_materialization_paths_per_record policy)
                   (crd_materialization record);
                 ratio_bps = sat_mul64 (mob_actual_micros m) 10000 div mob_estimated_micros m;
                 metric = (case bt_get paths stable_id of None \<Rightarrow> metric_default | Some e \<Rightarrow> e)
             in (record\<lparr>crd_materialization := bt_insert stable_id
                   (metric_update ratio_bps policy (cy_max_materialization_ratio_bps policy) metric) paths\<rparr>, True)))"

definition observe_record ::
    "(json \<Rightarrow> string) \<Rightarrow> calibration_policy \<Rightarrow> calibration_observation \<Rightarrow> calibration_record \<Rightarrow> calibration_record \<times> bool" where
  "observe_record to_string policy obs record =
     (let (record, changed1) = observe_ttft policy obs record;
          (record, changed2) = observe_decode policy obs record;
          (record, changed3) = observe_topology policy obs record;
          (record, changed4) = observe_materialization to_string policy obs record
      in (record, changed1 \<or> changed2 \<or> changed3 \<or> changed4))"

definition record_observation ::
    "cal_env \<Rightarrow> persist_faults \<Rightarrow> calibration_observation \<Rightarrow> cal_world \<Rightarrow> (unit, calibration_error) result \<times> cal_world" where
  "record_observation env faults obs w =
     (if \<not> cob_completed obs \<or> \<not> observation_has_sample obs then (Inr (), w)
      else
        (let policy = cl_policy (cw_cal w);
             stable_id = key_stable_id (ce_to_string env) (cob_key obs);
             st = ensure_record_capacity stable_id (cy_max_records policy) (cl_state (cw_cal w));
             next_revision = sat_add64 (cst_revision st) 1;
             record = (case bt_get (cst_records st) stable_id of None \<Rightarrow> record_default | Some r \<Rightarrow> r);
             (record, changed) = observe_record (ce_to_string env) policy obs record
         in if changed
            then commit_update_locked env faults (with_state
              (st\<lparr>cst_records := bt_insert stable_id (record\<lparr>crd_last_updated_revision := next_revision\<rparr>) (cst_records st),
                  cst_revision := next_revision\<rparr>) w)
            else (Inr (), with_state (st\<lparr>cst_records := bt_insert stable_id record (cst_records st)\<rparr>) w)))"

definition record_shadow_decision ::
    "cal_env \<Rightarrow> persist_faults \<Rightarrow> bool \<Rightarrow> string \<Rightarrow> string \<Rightarrow> cal_world \<Rightarrow> (unit, calibration_error) result \<times> cal_world" where
  "record_shadow_decision env faults replay_consistent legacy_fingerprint calibrated_fingerprint w =
     (let st = cl_state (cw_cal w); sh = cst_shadow st;
          sh = sh\<lparr>sh_decisions := sat_add64 (sh_decisions sh) 1\<rparr>;
          sh = (if legacy_fingerprint = calibrated_fingerprint
                then sh\<lparr>sh_agreements := sat_add64 (sh_agreements sh) 1\<rparr> else sh);
          sh = (if \<not> replay_consistent
                then sh\<lparr>sh_replay_mismatches := sat_add64 (sh_replay_mismatches sh) 1\<rparr> else sh)
      in commit_update_locked env faults
           (with_state (st\<lparr>cst_shadow := sh, cst_revision := sat_add64 (cst_revision st) 1\<rparr>) w))"

section \<open>Promotion\<close>

definition qualify_metric :: "metric_estimate option \<Rightarrow> string \<Rightarrow> calibration_policy \<Rightarrow> string list" where
  "qualify_metric metric name policy =
     (case metric of
        None \<Rightarrow> [name @ '' calibration is missing'']
      | Some m \<Rightarrow>
          (if me_samples m < cy_min_samples_per_metric policy
           then [name @ '' samples '' @ nat_to_dec (me_samples m) @ ''/'' @ nat_to_dec (cy_min_samples_per_metric policy)]
           else []) @
          (if cy_max_mape_bps policy < me_mape_bps m
           then [name @ '' MAPE '' @ nat_to_dec (me_mape_bps m) @ '' bps exceeds '' @
                 nat_to_dec (cy_max_mape_bps policy) @ '' bps'']
           else []))"

definition shadow_reasons :: "calibrator \<Rightarrow> string list" where
  "shadow_reasons c =
     (let policy = cl_policy c; sh = cst_shadow (cl_state c) in
      (if \<not> is_persistent c then [''calibration state is not persistent''] else []) @
      (if \<not> cl_persistence_healthy c then [''calibration persistence is unhealthy''] else []) @
      (if sh_decisions sh < cy_min_shadow_decisions policy
       then [''shadow decisions '' @ nat_to_dec (sh_decisions sh) @ ''/'' @ nat_to_dec (cy_min_shadow_decisions policy)]
       else []) @
      (if sh_decisions sh = 0 then []
       else
         (let agreement_bps = sat_mul64 (sh_agreements sh) 10000 div sh_decisions sh in
          if agreement_bps < cy_min_shadow_agreement_bps policy
          then [''shadow agreement '' @ nat_to_dec agreement_bps @ '' bps is below '' @
                nat_to_dec (cy_min_shadow_agreement_bps policy) @ '' bps'']
          else [])) @
      (if 0 < sh_replay_mismatches sh
       then [''deterministic replay mismatches: '' @ nat_to_dec (sh_replay_mismatches sh)] else []))"

definition evidence_reasons ::
    "(json \<Rightarrow> string) \<Rightarrow> calibrator \<Rightarrow> placement_plan \<Rightarrow> candidate_calibration_evidence \<Rightarrow> string list" where
  "evidence_reasons to_string c pl ev =
     (let policy = cl_policy c;
          record = bt_get (cst_records (cl_state c)) (key_stable_id to_string (cev_key ev))
      in
      (if \<not> cev_snapshot_fresh ev then [''selected target telemetry is stale or unavailable''] else []) @
      qualify_metric (map_option crd_prefill record) ''prefill'' policy @
      qualify_metric (map_option crd_decode record) ''decode'' policy @
      (if cev_queue_calibration_required ev
       then qualify_metric (map_option crd_queue record) ''queue'' policy else []) @
      (case pp_path pl of
         Cold \<Rightarrow> []
       | Reuse reuse \<Rightarrow>
           qualify_metric (map_option crd_topology record) ''topology'' policy @
           (let key = materialization_key to_string (mo_store (ru_option reuse)) (mo_state_kind (ru_option reuse))
                        (et_id (pp_target pl))
            in qualify_metric (Option.bind record (\<lambda>r. bt_get (crd_materialization r) key)) ''materialization'' policy)))"

definition promotion_status_of ::
    "cal_env \<Rightarrow> persist_faults \<Rightarrow> placement_plan \<Rightarrow> candidate_calibration_evidence option \<Rightarrow> cal_world
     \<Rightarrow> (promotion_status, calibration_error) result \<times> cal_world" where
  "promotion_status_of env faults pl evidence w =
     (let c = cw_cal w; revision = cst_revision (cl_state c) in
      case evidence of
        None \<Rightarrow> (Inr \<lparr>ps_qualified = False, ps_revision = revision,
                     ps_reasons = shadow_reasons c @ [''selected target has no calibration evidence'']\<rparr>, w)
      | Some ev \<Rightarrow>
          (let reasons = shadow_reasons c @ evidence_reasons (ce_to_string env) c pl ev;
               qualified = (reasons = []);
               status = \<lparr>ps_qualified = qualified, ps_revision = revision, ps_reasons = reasons\<rparr>
           in if qualified \<and> 0 < cl_dirty_updates c
              then (case persist_clean env faults w of
                      (Inl e, w) \<Rightarrow> (Inl e, w)
                    | (Inr _, w) \<Rightarrow> (Inr status, w))
              else (Inr status, w)))"

section \<open>Fingerprints of plans\<close>

definition plan_decision_fingerprint :: "placement_plan \<Rightarrow> string" where
  "plan_decision_fingerprint pl =
     et_id (pp_target pl) @ ''|'' @
     (case pp_path pl of
        Cold \<Rightarrow> ''cold''
      | Reuse reuse \<Rightarrow> ''reuse:'' @ sd_id (ru_state reuse) @ '':'' @ mo_id (ru_option reuse))"

fun join_strings :: "string \<Rightarrow> string list \<Rightarrow> string" where
  "join_strings sep [] = []"
| "join_strings sep [x] = x"
| "join_strings sep (x # y # ys) = x @ sep @ join_strings sep (y # ys)"

definition plan_fingerprint :: "placement_plan \<Rightarrow> string" where
  "plan_fingerprint pl =
     plan_decision_fingerprint pl @ ''|'' @ nat_to_dec (total_micros (pp_predicted_cost pl)) @ ''|'' @
     join_strings '';'' (pp_rationale pl)"

section \<open>Persistence is atomic\<close>

lemma file_stem_extension: "file_stem name @ ''.locus-calibration.tmp'' \<noteq> name"
proof
  assume eq: "file_stem name @ ''.locus-calibration.tmp'' = name"
  have tail: "rev name = rev ''.locus-calibration.tmp'' @ rev (file_stem name)" by (subst eq [symmetric]) simp
  have "tl (dropWhile (\<lambda>c. c \<noteq> CHR ''.'') (rev name)) = rev ''.locus-calibration'' @ rev (file_stem name)"
    unfolding tail by simp
  then have "file_stem name = name \<or> file_stem name = file_stem name @ ''.locus-calibration''"
    unfolding file_stem_def [of name] Let_def by auto
  with eq show False by auto
qed

lemma temporary_path_differs [simp]: "temporary_path path \<noteq> path"
proof
  assume "temporary_path path = path"
  then have "path_name (temporary_path path) = path_name path" by simp
  then show False using file_stem_extension [of "path_name path"]
    by (simp add: temporary_path_def with_extension_def)
qed

lemmas path_differs_temporary [simp] = temporary_path_differs [symmetric]

lemma persist_state_cases:
  assumes "persist_state path bytes faults files = (r, files')"
  shows "files' path = files path \<and> r \<noteq> Inr () \<or> files' path = Some bytes \<and> files' (temporary_path path) = None"
  using assms by (auto simp: persist_state_def Let_def split: sum.splits option.splits prod.splits)

text \<open>
  C37: persistence is atomic. Whichever call of \<open>persist_state\<close> fails, and however much a failed
  write left in the temporary file, the state file holds its old content or the whole new one, no
  file other than the two is touched, and a success means the new content is in place and the
  temporary file is gone.
\<close>

theorem persist_state_atomic:
  assumes "persist_state path bytes faults files = (r, files')"
  shows "files' path \<in> {files path, Some bytes} \<and> {p. files' p \<noteq> files p} \<subseteq> {path, temporary_path path} \<and>
     (r \<noteq> Inr () \<or> files' path = Some bytes \<and> files' (temporary_path path) = None)"
  using assms persist_state_cases [OF assms]
  by (auto simp: persist_state_def Let_def split: sum.splits option.splits prod.splits if_splits)

abbreviation sample_path :: file_path where
  "sample_path \<equiv> \<lparr>path_dir = [''var''], path_name = ''calibration.json''\<rparr>"

theorem persist_state_atomic_witness:
  "snd (persist_state sample_path ''new'' (no_faults\<lparr>pf_rename := Some ''EIO''\<rparr>) [sample_path \<mapsto> ''old'']) sample_path
     \<in> {Some ''old'', Some ''new''}"
proof -
  let ?r = "persist_state sample_path ''new'' (no_faults\<lparr>pf_rename := Some ''EIO''\<rparr>) [sample_path \<mapsto> ''old'']"
  have "?r = (fst ?r, snd ?r)" by simp
  from persist_state_atomic [OF this] show ?thesis by simp
qed

section \<open>Reachable calibrators\<close>

inductive cal_step :: "cal_env \<Rightarrow> cal_world \<Rightarrow> cal_world \<Rightarrow> bool" for env where
  step_observation: "record_observation env faults obs w = (r, w') \<Longrightarrow> cal_step env w w'"
| step_shadow: "record_shadow_decision env faults consistent a b w = (r, w') \<Longrightarrow> cal_step env w w'"
| step_promotion: "promotion_status_of env faults pl ev w = (r', w') \<Longrightarrow> cal_step env w w'"
| step_flush: "calibrator_flush env faults w = (r, w') \<Longrightarrow> cal_step env w w'"

inductive cal_reachable :: "cal_env \<Rightarrow> cal_world \<Rightarrow> bool" for env where
  reach_load: "calibrator_load env policy path faults files = Inr c \<Longrightarrow>
     cal_reachable env \<lparr>cw_cal = c, cw_files = files\<rparr>"
| reach_step: "cal_reachable env w \<Longrightarrow> cal_step env w w' \<Longrightarrow> cal_reachable env w'"

text \<open>What persisting can change: the files, the health flag and the count of unsaved updates.\<close>

definition same_learning :: "cal_world \<Rightarrow> cal_world \<Rightarrow> bool" where
  "same_learning w w' \<longleftrightarrow> cl_policy (cw_cal w') = cl_policy (cw_cal w) \<and>
     cl_state (cw_cal w') = cl_state (cw_cal w) \<and> cl_state_path (cw_cal w') = cl_state_path (cw_cal w)"

lemma persist_locked_same: "persist_locked env faults w = (r, w') \<Longrightarrow> same_learning w w'"
  by (auto simp: persist_locked_def same_learning_def split: option.splits if_splits prod.splits sum.splits)

lemma persist_clean_same: "persist_clean env faults w = (r, w') \<Longrightarrow> same_learning w w'"
  by (auto simp: persist_clean_def same_learning_def dest!: persist_locked_same split: prod.splits sum.splits)

lemma commit_update_same: "commit_update_locked env faults w = (r, w') \<Longrightarrow> same_learning w w'"
  by (auto simp: commit_update_locked_def Let_def same_learning_def dest!: persist_clean_same split: if_splits)

lemma flush_same: "calibrator_flush env faults w = (r, w') \<Longrightarrow> same_learning w w'"
  by (auto simp: calibrator_flush_def same_learning_def dest!: persist_clean_same split: if_splits)

lemma promotion_same: "promotion_status_of env faults pl ev w = (r, w') \<Longrightarrow> same_learning w w'"
  by (auto simp: promotion_status_of_def Let_def same_learning_def dest!: persist_clean_same
      split: if_splits option.splits prod.splits sum.splits)

subsection \<open>Sizes\<close>

definition cal_sized :: "calibration_policy \<Rightarrow> calibration_state \<Rightarrow> bool" where
  "cal_sized policy st \<longleftrightarrow> cst_schema_version st = cal_schema_version \<and>
     bt_len (cst_records st) \<le> cy_max_records policy \<and>
     (\<forall>k r. bt_get (cst_records st) k = Some r \<longrightarrow>
        bt_len (crd_materialization r) \<le> cy_max_materialization_paths_per_record policy)"

lemma bt_len_insert_le: "bt_len m < n \<or> bt_contains m k \<and> bt_len m \<le> n \<Longrightarrow> bt_len (bt_insert k v m) \<le> n"
  by (cases "bt_get m k") (auto simp: bt_contains_def)

lemma bt_len_remove_le: "bt_len (bt_remove k m) \<le> bt_len m"
  by (cases "bt_get m k") (auto dest!: bt_len_remove)

lemma make_path_room_sized:
  assumes "bt_len paths \<le> n" "0 < n"
  shows "bt_len (bt_insert k v (make_path_room k n paths)) \<le> n"
proof (rule bt_len_insert_le, cases "bt_contains paths k \<or> bt_len paths < n")
  case True
  with assms show "bt_len (make_path_room k n paths) < n \<or>
      bt_contains (make_path_room k n paths) k \<and> bt_len (make_path_room k n paths) \<le> n"
    by (auto simp: make_path_room_def)
next
  case False
  then obtain old v ps where e: "entries paths = (old, v) # ps"
    using assms by (cases "entries paths") (auto simp: bt_len_def)
  then have "bt_get paths old = Some v" by (simp add: bt_get_iff)
  from bt_len_remove [OF this] False assms e show "bt_len (make_path_room k n paths) < n \<or>
      bt_contains (make_path_room k n paths) k \<and> bt_len (make_path_room k n paths) \<le> n"
    by (simp add: make_path_room_def bt_keys_def)
qed

lemma observe_record_sized:
  assumes "observe_record ts policy obs r = (r', changed)" "0 < cy_max_materialization_paths_per_record policy"
    and "bt_len (crd_materialization r) \<le> cy_max_materialization_paths_per_record policy"
  shows "bt_len (crd_materialization r') \<le> cy_max_materialization_paths_per_record policy"
proof -
  have m: "crd_materialization (fst (observe_ttft policy obs r)) = crd_materialization r"
    "crd_materialization (fst (observe_decode policy obs r)) = crd_materialization r"
    "crd_materialization (fst (observe_topology policy obs r)) = crd_materialization r" for r
    by (auto simp: observe_ttft_def observe_decode_def observe_topology_def Let_def split: option.splits)
  have "bt_len (crd_materialization (fst (observe_materialization ts policy obs q))) \<le>
      cy_max_materialization_paths_per_record policy"
    if "crd_materialization q = crd_materialization r" for q
    using that assms(2,3)
    by (auto simp: observe_materialization_def Let_def make_path_room_sized split: option.splits)
  with assms(1) m show ?thesis by (auto simp: observe_record_def Let_def case_prod_beta)
qed

lemma ensure_record_capacity_sized:
  assumes "cal_sized policy st"
  shows "cal_sized policy (ensure_record_capacity k n st)"
  using assms by (auto simp: ensure_record_capacity_def cal_sized_def intro: order_trans [OF bt_len_remove_le]
      split: option.splits if_splits)

lemma ensure_record_capacity_room:
  assumes "bt_len (cst_records st) \<le> n" "0 < n"
  shows "bt_contains (cst_records (ensure_record_capacity k n st)) k \<or>
    bt_len (cst_records (ensure_record_capacity k n st)) < n"
proof (cases "bt_contains (cst_records st) k \<or> bt_len (cst_records st) < n")
  case True
  then show ?thesis by (auto simp: ensure_record_capacity_def)
next
  case False
  with assms have "entries (cst_records st) \<noteq> []" by (auto simp: bt_len_def)
  then obtain old r where best: "foldl (keep_better older_record) None (entries (cst_records st)) = Some (old, r)"
    by (cases "arg_min_list record_age (entries (cst_records st))") (simp add: eviction.foldl_keep_better)
  then have "bt_get (cst_records st) old = Some r"
    using eviction.foldl_keep_better_minimal by (fastforce simp: bt_get_iff)
  from bt_len_remove [OF this] best False assms show ?thesis by (simp add: ensure_record_capacity_def)
qed

lemma record_observation_sized:
  assumes "record_observation env faults obs w = (r, w')" and valid: "calibration_policy_validate (cl_policy (cw_cal w)) = Inr ()"
    and sized: "cal_sized (cl_policy (cw_cal w)) (cl_state (cw_cal w))"
  shows "cl_policy (cw_cal w') = cl_policy (cw_cal w) \<and> cal_sized (cl_policy (cw_cal w)) (cl_state (cw_cal w'))"
proof -
  let ?policy = "cl_policy (cw_cal w)" and ?k = "key_stable_id (ce_to_string env) (cob_key obs)"
  let ?st = "ensure_record_capacity ?k (cy_max_records ?policy) (cl_state (cw_cal w))"
  let ?old = "case bt_get (cst_records ?st) ?k of None \<Rightarrow> record_default | Some r \<Rightarrow> r"
  have limits: "0 < cy_max_records ?policy" "0 < cy_max_materialization_paths_per_record ?policy"
    using valid by (auto simp: calibration_policy_validate_def split: if_splits)
  have st: "cal_sized ?policy ?st" by (rule ensure_record_capacity_sized [OF sized])
  have room: "bt_len (bt_insert ?k v (cst_records ?st)) \<le> cy_max_records ?policy" for v
    using ensure_record_capacity_room [of "cl_state (cw_cal w)" "cy_max_records ?policy" ?k] sized limits(1) st
    by (intro bt_len_insert_le) (auto simp: cal_sized_def)
  obtain new changed where obs: "observe_record (ce_to_string env) ?policy obs ?old = (new, changed)" by fastforce
  have "bt_len (crd_materialization ?old) \<le> cy_max_materialization_paths_per_record ?policy"
    using st by (auto simp: cal_sized_def record_default_def split: option.splits)
  with observe_record_sized [OF obs limits(2)]
  have "bt_len (crd_materialization new) \<le> cy_max_materialization_paths_per_record ?policy" .
  with st room have "cal_sized ?policy (?st\<lparr>cst_records := bt_insert ?k (new\<lparr>crd_last_updated_revision := n\<rparr>) (cst_records ?st), cst_revision := n\<rparr>)"
    "cal_sized ?policy (?st\<lparr>cst_records := bt_insert ?k new (cst_records ?st)\<rparr>)" for n
    by (auto simp: cal_sized_def)
  with assms(1) sized obs show ?thesis
    by (auto simp: record_observation_def Let_def same_learning_def dest!: commit_update_same split: if_splits)
qed

lemma shadow_sized:
  assumes "record_shadow_decision env faults consistent a b w = (r, w')"
    and "cal_sized (cl_policy (cw_cal w)) (cl_state (cw_cal w))"
  shows "cl_policy (cw_cal w') = cl_policy (cw_cal w) \<and> cal_sized (cl_policy (cw_cal w)) (cl_state (cw_cal w'))"
  using assms by (auto simp: record_shadow_decision_def Let_def same_learning_def cal_sized_def dest!: commit_update_same)

definition cal_inv :: "cal_world \<Rightarrow> bool" where
  "cal_inv w \<longleftrightarrow> calibration_policy_validate (cl_policy (cw_cal w)) = Inr () \<and>
     cal_sized (cl_policy (cw_cal w)) (cl_state (cw_cal w))"

lemma cal_step_inv: "cal_step env w w' \<Longrightarrow> cal_inv w \<Longrightarrow> cal_inv w'"
  by (induction rule: cal_step.induct)
    (auto simp: cal_inv_def same_learning_def dest!: record_observation_sized shadow_sized promotion_same flush_same)

lemma bt_get_value: "bt_get m k = Some v \<Longrightarrow> v \<in> set (bt_values m)"
  by (force simp: bt_values_def bt_get_iff)

lemma load_state_sized:
  assumes "load_state env path policy faults files = Inr st"
  shows "cal_sized policy st"
proof -
  have "\<forall>r \<in> set (bt_values (cst_records st)).
      bt_len (crd_materialization r) \<le> cy_max_materialization_paths_per_record policy"
    and "cst_schema_version st = cal_schema_version" "bt_len (cst_records st) \<le> cy_max_records policy"
    using assms by (auto simp: load_state_def and_then_Inr_iff list_ex_iff not_less split: option.splits if_splits)
  then show ?thesis using bt_get_value by (fastforce simp: cal_sized_def)
qed

lemma default_sized [simp]: "cal_sized policy calibration_state_default"
  by (simp add: cal_sized_def calibration_state_default_def)

lemma load_sized: "calibrator_load env policy path faults files = Inr c \<Longrightarrow>
   cl_policy c = policy \<and> calibration_policy_validate policy = Inr () \<and> cal_sized policy (cl_state c)"
  by (auto simp: calibrator_load_def and_then_Inr_iff dest: load_state_sized split: option.splits if_splits)

lemma cal_reachable_inv: "cal_reachable env w \<Longrightarrow> cal_inv w"
proof (induction rule: cal_reachable.induct)
  case (reach_load policy path faults files c)
  then show ?case using load_sized by (auto simp: cal_inv_def)
qed (rule cal_step_inv)

section \<open>Properties\<close>

text \<open>
  C39: the learned state is bounded. A calibrator loaded from any accepted file and driven by any
  sequence of observations, shadow decisions, promotions and flushes, with any file system faults,
  keeps at most \<open>max_records\<close> records of at most \<open>max_materialization_paths_per_record\<close> paths each,
  under the schema it was loaded with.
\<close>

theorem calibrator_bounded:
  assumes "cal_reachable env w" and "bt_get (cst_records (cl_state (cw_cal w))) k = Some r"
  shows "bt_len (cst_records (cl_state (cw_cal w))) \<le> cy_max_records (cl_policy (cw_cal w)) \<and>
     bt_len (crd_materialization r) \<le> cy_max_materialization_paths_per_record (cl_policy (cw_cal w)) \<and>
     cst_schema_version (cl_state (cw_cal w)) = cal_schema_version"
  using cal_reachable_inv [OF assms(1)] assms(2) by (auto simp: cal_inv_def cal_sized_def)

text \<open>
  C38: what was flushed is what a restart reads. When a flush with unsaved updates succeeds on a
  reachable calibrator, loading the state file under the same policy gives back exactly the
  calibrator after the flush, provided \<open>serde_json\<close> parses what it printed for this state.
\<close>

theorem calibrator_restart:
  assumes "cal_reachable env w" and "calibrator_flush env faults w = (Inr (), w')"
    and "is_persistent (cw_cal w)" and "0 < cl_dirty_updates (cw_cal w)"
    and "\<And>bytes. ce_to_vec env (cl_state (cw_cal w)) = Some bytes \<Longrightarrow> ce_from_slice env bytes = Some (cl_state (cw_cal w))"
  shows "calibrator_load env (cl_policy (cw_cal w)) (cl_state_path (cw_cal w)) \<lparr>lf_metadata = None, lf_read = None\<rparr>
     (cw_files w') = Inr (cw_cal w')"
proof -
  obtain path where path: "cl_state_path (cw_cal w) = Some path" using assms(3) by (auto simp: is_persistent_def)
  obtain bytes files where bytes: "ce_to_vec env (cl_state (cw_cal w)) = Some bytes"
    "length bytes \<le> cy_max_state_bytes (cl_policy (cw_cal w))"
    "persist_state path bytes faults (cw_files w) = (Inr (), files)"
    "w' = with_dirty 0 (with_health True (w\<lparr>cw_files := files\<rparr>))"
    using assms(2-4) path by (auto simp: calibrator_flush_def persist_clean_def persist_locked_def
        split: option.splits if_splits prod.splits sum.splits)
  have stored: "files path = Some bytes" using persist_state_cases [OF bytes(3)] by simp
  have inv: "calibration_policy_validate (cl_policy (cw_cal w)) = Inr ()"
    "cal_sized (cl_policy (cw_cal w)) (cl_state (cw_cal w))"
    using cal_reachable_inv [OF assms(1)] by (auto simp: cal_inv_def)
  have "\<not> list_ex (\<lambda>r. cy_max_materialization_paths_per_record (cl_policy (cw_cal w)) < bt_len (crd_materialization r))
      (bt_values (cst_records (cl_state (cw_cal w))))"
    using inv(2) by (auto simp: list_ex_iff bt_values_def cal_sized_def bt_get_iff not_less)
  then have "load_state env path (cl_policy (cw_cal w)) \<lparr>lf_metadata = None, lf_read = None\<rparr> files = Inr (cl_state (cw_cal w))"
    using assms(5) [OF bytes(1)] bytes(2) stored inv(2) by (simp add: load_state_def read_file_def cal_sized_def)
  then show ?thesis by (simp add: calibrator_load_def inv(1) path stored bytes(4))
qed

definition metric_qualified :: "calibration_policy \<Rightarrow> metric_estimate option \<Rightarrow> bool" where
  "metric_qualified policy metric \<longleftrightarrow>
     (case metric of
        None \<Rightarrow> False
      | Some m \<Rightarrow> cy_min_samples_per_metric policy \<le> me_samples m \<and> me_mape_bps m \<le> cy_max_mape_bps policy)"

definition promotion_gates_hold ::
    "(json \<Rightarrow> string) \<Rightarrow> calibrator \<Rightarrow> placement_plan \<Rightarrow> candidate_calibration_evidence \<Rightarrow> bool" where
  "promotion_gates_hold to_string c pl ev \<longleftrightarrow>
     (let policy = cl_policy c; sh = cst_shadow (cl_state c);
          record = bt_get (cst_records (cl_state c)) (key_stable_id to_string (cev_key ev)) in
      is_persistent c \<and> cl_persistence_healthy c \<and>
      cy_min_shadow_decisions policy \<le> sh_decisions sh \<and>
      (sh_decisions sh = 0 \<or> cy_min_shadow_agreement_bps policy \<le> sat_mul64 (sh_agreements sh) 10000 div sh_decisions sh) \<and>
      sh_replay_mismatches sh = 0 \<and> cev_snapshot_fresh ev \<and>
      metric_qualified policy (map_option crd_prefill record) \<and>
      metric_qualified policy (map_option crd_decode record) \<and>
      (\<not> cev_queue_calibration_required ev \<or> metric_qualified policy (map_option crd_queue record)) \<and>
      (case pp_path pl of
         Cold \<Rightarrow> True
       | Reuse reuse \<Rightarrow> metric_qualified policy (map_option crd_topology record) \<and>
           metric_qualified policy (Option.bind record (\<lambda>r. bt_get (crd_materialization r)
             (materialization_key to_string (mo_store (ru_option reuse)) (mo_state_kind (ru_option reuse)) (et_id (pp_target pl)))))))"

lemma qualify_metric_empty: "qualify_metric metric name policy = [] \<longleftrightarrow> metric_qualified policy metric"
  by (auto simp: qualify_metric_def metric_qualified_def split: option.splits)

lemma reasons_empty:
  "shadow_reasons c @ evidence_reasons to_string c pl ev = [] \<longleftrightarrow> promotion_gates_hold to_string c pl ev"
  by (simp add: shadow_reasons_def evidence_reasons_def promotion_gates_hold_def qualify_metric_empty Let_def not_less
      split: execution_path.splits)

lemma persist_clean_dirty: "persist_clean env faults w = (Inr (), w') \<Longrightarrow> cl_dirty_updates (cw_cal w') = 0"
  by (auto simp: persist_clean_def split: prod.splits sum.splits)

text \<open>
  C35: promotion fails closed. The status is qualified exactly when every gate holds: durable and
  healthy state, enough shadow decisions that agree often enough, no replay mismatch, fresh
  telemetry, and enough accurate samples for each cost term the plan uses; and a qualified
  calibrator has no unsaved update left.
\<close>

theorem promotion_fails_closed:
  assumes "promotion_status_of env faults pl (Some ev) w = (Inr status, w')"
  shows "(ps_qualified status \<longleftrightarrow> promotion_gates_hold (ce_to_string env) (cw_cal w) pl ev) \<and>
     (\<not> ps_qualified status \<or> cl_dirty_updates (cw_cal w') = 0)"
  using assms
  by (auto simp: promotion_status_of_def Let_def reasons_empty simp del: append_is_Nil_conv dest: persist_clean_dirty
      split: if_splits prod.splits sum.splits)

lemma cal_step_mismatch:
  assumes "cal_step env w w'" and "0 < sh_replay_mismatches (cst_shadow (cl_state (cw_cal w)))"
  shows "0 < sh_replay_mismatches (cst_shadow (cl_state (cw_cal w')))"
  using assms
proof cases
  case (step_observation faults obs r)
  have "cst_shadow (ensure_record_capacity k n st) = cst_shadow st" for k n st
    by (auto simp: ensure_record_capacity_def split: option.splits)
  with step_observation assms(2) show ?thesis
    by (auto simp: record_observation_def Let_def same_learning_def dest!: commit_update_same split: if_splits prod.splits)
next
  case (step_shadow faults consistent a b r)
  with assms(2) show ?thesis
    by (auto simp: record_shadow_decision_def Let_def same_learning_def sat_add64_def u64_max_def dest!: commit_update_same
        split: if_splits)
qed (use assms(2) in \<open>auto simp: same_learning_def dest!: promotion_same flush_same\<close>)

lemma shadow_mismatches:
  assumes "record_shadow_decision env faults consistent a b w = (r, w')"
  shows "sh_replay_mismatches (cst_shadow (cl_state (cw_cal w'))) =
     (if consistent then sh_replay_mismatches (cst_shadow (cl_state (cw_cal w)))
      else sat_add64 (sh_replay_mismatches (cst_shadow (cl_state (cw_cal w)))) 1)"
  using assms by (auto simp: record_shadow_decision_def Let_def same_learning_def dest!: commit_update_same)

text \<open>
  C36: one nondeterministic replay blocks promotion for good. After a shadow decision whose replay
  gave another plan has been recorded, even when saving the record failed, no later sequence of
  operations of this calibrator makes any plan qualify, and the status names the mismatches among
  its reasons; a decision whose replay agreed leaves the count of mismatches as it was.
\<close>

theorem replay_mismatch_blocks_promotion:
  assumes recorded: "record_shadow_decision env faults replay_consistent legacy calibrated w = (r, w1)"
    and later: "(cal_step env)\<^sup>*\<^sup>* w1 w'"
    and status: "promotion_status_of env faults' pl ev w' = (Inr status, w'')"
  shows "if replay_consistent
     then sh_replay_mismatches (cst_shadow (cl_state (cw_cal w1))) = sh_replay_mismatches (cst_shadow (cl_state (cw_cal w)))
     else \<not> ps_qualified status \<and>
       (\<exists>n > 0. ''deterministic replay mismatches: '' @ nat_to_dec n \<in> set (ps_reasons status))"
proof (cases replay_consistent)
  case False
  let ?n = "sh_replay_mismatches (cst_shadow (cl_state (cw_cal w')))"
  have "0 < sh_replay_mismatches (cst_shadow (cl_state (cw_cal w1)))"
    using shadow_mismatches [OF recorded] False by (simp add: sat_add64_def u64_max_def)
  with later have n: "0 < ?n"
    by (induction rule: rtranclp_induct) (auto dest: cal_step_mismatch)
  then have named: "''deterministic replay mismatches: '' @ nat_to_dec ?n \<in> set (shadow_reasons (cw_cal w'))"
    by (simp add: shadow_reasons_def Let_def)
  then have "shadow_reasons (cw_cal w') \<noteq> []" by auto
  with status have "\<not> ps_qualified status" and "set (shadow_reasons (cw_cal w')) \<subseteq> set (ps_reasons status)"
    by (auto simp: promotion_status_of_def Let_def split: option.splits if_splits prod.splits sum.splits)
  with False n named show ?thesis by auto
qed (use shadow_mismatches [OF recorded] in simp)

section \<open>A concrete calibrator\<close>

text \<open>
  The demonstration codec prints every state as one byte and parses it as the state after one
  observation of a sample target; the policy asks for a single sample and a single decision.
\<close>

definition demo_policy :: calibration_policy where
  "demo_policy = calibration_policy_default
     \<lparr>cy_min_samples_per_metric := 1, cy_min_shadow_decisions := 1, cy_max_records := 2,
      cy_max_materialization_paths_per_record := 2\<rparr>"

definition demo_observation :: calibration_observation where
  "demo_observation =
     \<lparr>cob_key = key_from_target (sample_target ''t1'' ''e1''), cob_waiting_requests = Some 0,
      cob_input_tokens = 3, cob_output_tokens = 4, cob_time_to_first_token_micros = Some 30,
      cob_generation_micros = Some 80, cob_topology_micros = None, cob_materialization = None,
      cob_completed = True\<rparr>"

definition demo_record :: calibration_record where
  "demo_record = record_default
     \<lparr>crd_last_updated_revision := 1,
      crd_prefill := \<lparr>me_estimate = 10, me_samples = 1, me_mape_bps = 0\<rparr>,
      crd_decode := \<lparr>me_estimate = 20, me_samples = 1, me_mape_bps = 0\<rparr>\<rparr>"

definition demo_state :: calibration_state where
  "demo_state = calibration_state_default\<lparr>cst_records := bt_insert ''k'' demo_record bt_empty, cst_revision := 1\<rparr>"

definition demo_cal_env :: cal_env where
  "demo_cal_env = \<lparr>ce_to_string = (\<lambda>_. ''k''), ce_to_vec = (\<lambda>_. Some ''s''), ce_from_slice = (\<lambda>_. Some demo_state)\<rparr>"

definition demo_calibrator :: "calibration_state \<Rightarrow> u64 \<Rightarrow> calibrator" where
  "demo_calibrator st dirty = \<lparr>cl_policy = demo_policy, cl_state = st, cl_state_path = Some sample_path,
     cl_persistence_healthy = True, cl_dirty_updates = dirty\<rparr>"

abbreviation demo_cal_world :: "calibration_state \<Rightarrow> u64 \<Rightarrow> cal_world" where
  "demo_cal_world st dirty \<equiv> \<lparr>cw_cal = demo_calibrator st dirty, cw_files = (\<lambda>_. None)\<rparr>"

lemma demo_policy_valid: "calibration_policy_validate demo_policy = Inr ()"
  by (simp add: calibration_policy_validate_def demo_policy_def calibration_policy_default_def)

lemma demo_observation_step:
  "record_observation demo_cal_env no_faults demo_observation (demo_cal_world calibration_state_default 0) =
     (Inr (), demo_cal_world demo_state 1)"
  by (simp add: record_observation_def demo_observation_def observation_has_sample_def demo_cal_env_def
      key_stable_id_def demo_calibrator_def ensure_record_capacity_def calibration_state_default_def bt_contains_def
      observe_record_def observe_ttft_def observe_decode_def observe_topology_def observe_materialization_def
      record_default_def metric_default_def metric_update_def clamp64_def demo_policy_def calibration_policy_default_def
      commit_update_locked_def wrap_add64_def sat_add64_def u64_max_def is_persistent_def demo_state_def demo_record_def Let_def)

lemma demo_reachable: "cal_reachable demo_cal_env (demo_cal_world demo_state 1)"
proof (rule reach_step)
  have "calibrator_load demo_cal_env demo_policy (Some sample_path) \<lparr>lf_metadata = None, lf_read = None\<rparr> (\<lambda>_. None) =
      Inr (demo_calibrator calibration_state_default 0)"
    by (simp add: calibrator_load_def demo_policy_valid demo_calibrator_def)
  then show "cal_reachable demo_cal_env (demo_cal_world calibration_state_default 0)" by (rule reach_load)
  show "cal_step demo_cal_env (demo_cal_world calibration_state_default 0) (demo_cal_world demo_state 1)"
    by (rule step_observation) (rule demo_observation_step)
qed

theorem calibrator_bounded_witness: "bt_len (crd_materialization demo_record) \<le> 2"
  using calibrator_bounded [OF demo_reachable, of "''k''" demo_record]
  by (simp add: demo_calibrator_def demo_state_def demo_policy_def)

theorem calibrator_restart_witness:
  "calibrator_load demo_cal_env demo_policy (Some sample_path) \<lparr>lf_metadata = None, lf_read = None\<rparr>
     [sample_path \<mapsto> ''s''] = Inr (demo_calibrator demo_state 0)"
proof -
  let ?files = "((\<lambda>_. None)(temporary_path sample_path := None))(sample_path \<mapsto> ''s'') :: files"
  have "calibrator_flush demo_cal_env no_faults (demo_cal_world demo_state 1) =
      (Inr (), \<lparr>cw_cal = demo_calibrator demo_state 0, cw_files = ?files\<rparr>)"
    by (simp add: calibrator_flush_def persist_clean_def persist_locked_def persist_state_def parent_call_def
        path_parent_def no_faults_def demo_calibrator_def demo_cal_env_def is_persistent_def demo_policy_def
        calibration_policy_default_def Let_def)
  from calibrator_restart [OF demo_reachable this]
  have "calibrator_load demo_cal_env demo_policy (Some sample_path) \<lparr>lf_metadata = None, lf_read = None\<rparr> ?files =
      Inr (demo_calibrator demo_state 0)"
    by (simp add: demo_calibrator_def demo_cal_env_def is_persistent_def)
  then show ?thesis by (simp add: fun_upd_idem)
qed

definition demo_evidence :: candidate_calibration_evidence where
  "demo_evidence = \<lparr>cev_key = key_from_target (sample_target ''t1'' ''e1''), cev_snapshot_fresh = True,
     cev_queue_calibration_required = False, cev_used_conservative_queue = False, cev_used_conservative_prefill = False,
     cev_used_conservative_decode = False, cev_revision = 1\<rparr>"

definition demo_cold_plan :: placement_plan where
  "demo_cold_plan = \<lparr>pp_target = sample_target ''t1'' ''e1'', pp_path = Cold,
     pp_predicted_cost = cost_for 0 \<lparr>ee_unmatched_prefill_micros = 0, ee_decode_micros = 0, ee_topology_micros = 0,
       ee_policy_micros = 0\<rparr> 0, pp_fallback = Fail, pp_rationale = []\<rparr>"

definition demo_shadowed :: calibration_state where
  "demo_shadowed = demo_state\<lparr>cst_shadow := \<lparr>sh_decisions = 1, sh_agreements = 1, sh_replay_mismatches = 0\<rparr>\<rparr>"

lemmas demo_promotion_defs = promotion_status_of_def shadow_reasons_def evidence_reasons_def qualify_metric_def
  demo_calibrator_def demo_cal_env_def demo_evidence_def demo_cold_plan_def demo_state_def demo_record_def
  key_stable_id_def is_persistent_def demo_policy_def calibration_policy_default_def sat_mul64_def u64_max_def Let_def

lemma demo_promotion:
  "promotion_status_of demo_cal_env no_faults demo_cold_plan (Some demo_evidence) (demo_cal_world demo_shadowed 0) =
     (Inr \<lparr>ps_qualified = True, ps_revision = 1, ps_reasons = []\<rparr>, demo_cal_world demo_shadowed 0)"
  by (simp add: demo_promotion_defs demo_shadowed_def)

theorem promotion_fails_closed_witness:
  "promotion_gates_hold (\<lambda>_. ''k'') (demo_calibrator demo_shadowed 0) demo_cold_plan demo_evidence"
  using promotion_fails_closed [OF demo_promotion] by (simp add: demo_cal_env_def)

text \<open>The same calibrator records a mismatch and then a consistent decision.\<close>

definition demo_mismatched :: cal_world where
  "demo_mismatched = snd (record_shadow_decision demo_cal_env no_faults False ''a'' ''a'' (demo_cal_world demo_state 0))"

definition demo_afterwards :: cal_world where
  "demo_afterwards = snd (record_shadow_decision demo_cal_env no_faults True ''a'' ''a'' demo_mismatched)"

lemma demo_afterwards_count: "sh_replay_mismatches (cst_shadow (cl_state (cw_cal demo_afterwards))) = 1"
proof -
  have "sh_replay_mismatches (cst_shadow (cl_state (cw_cal demo_mismatched))) = 1"
    unfolding demo_mismatched_def by (subst shadow_mismatches [OF prod.collapse [symmetric]])
      (simp add: demo_calibrator_def demo_state_def calibration_state_default_def sat_add64_def u64_max_def)
  then show ?thesis unfolding demo_afterwards_def by (subst shadow_mismatches [OF prod.collapse [symmetric]]) simp
qed

theorem replay_mismatch_blocks_promotion_witness:
  "\<not> ps_qualified (projr (fst (promotion_status_of demo_cal_env no_faults demo_cold_plan (Some demo_evidence) demo_afterwards)))"
proof -
  have recorded: "record_shadow_decision demo_cal_env no_faults False ''a'' ''a'' (demo_cal_world demo_state 0) =
      (fst (record_shadow_decision demo_cal_env no_faults False ''a'' ''a'' (demo_cal_world demo_state 0)), demo_mismatched)"
    by (simp add: demo_mismatched_def)
  have "cal_step demo_cal_env demo_mismatched demo_afterwards"
    by (rule step_shadow [where r = "fst (record_shadow_decision demo_cal_env no_faults True ''a'' ''a'' demo_mismatched)"])
      (simp add: demo_afterwards_def)
  then have later: "(cal_step demo_cal_env)\<^sup>*\<^sup>* demo_mismatched demo_afterwards" ..
  have "\<exists>status w. promotion_status_of demo_cal_env no_faults demo_cold_plan (Some demo_evidence) demo_afterwards = (Inr status, w)"
    using demo_afterwards_count by (simp add: promotion_status_of_def shadow_reasons_def Let_def)
  then show ?thesis using replay_mismatch_blocks_promotion [OF recorded later] by fastforce
qed

section \<open>Fingerprints\<close>

text \<open>
  The separators of a decision fingerprint are not escaped: a colon inside an identifier makes two
  different reuse decisions look the same, so a shadow disagreement between them is counted as an
  agreement.
\<close>

definition reuse_decision :: "string \<Rightarrow> string \<Rightarrow> placement_plan" where
  "reuse_decision state_id option_id = demo_cold_plan
     \<lparr>pp_path := Reuse \<lparr>ru_state = sample_state\<lparr>sd_id := state_id\<rparr>, ru_compatibility = compatible ''checked'',
        ru_option = (sample_option (sample_target ''t1'' ''e1'') 5)\<lparr>mo_id := option_id\<rparr>\<rparr>\<rparr>"

theorem decision_fingerprint_collides:
  "plan_decision_fingerprint (reuse_decision ''a:b'' ''c'') = plan_decision_fingerprint (reuse_decision ''a'' ''b:c'') \<and>
   reuse_decision ''a:b'' ''c'' \<noteq> reuse_decision ''a'' ''b:c''"
proof -
  have "pp_path (reuse_decision ''a:b'' ''c'') \<noteq> pp_path (reuse_decision ''a'' ''b:c'')"
    by (simp add: reuse_decision_def sample_state_def)
  then show ?thesis by (auto simp: plan_decision_fingerprint_def reuse_decision_def demo_cold_plan_def)
qed

end
