(* ===== verification/Fingerprint.thy ===== *)
theory Fingerprint
  imports Core_Model
begin

text \<open>
  The input fingerprint that the runtime sends to the state store, \<open>input_fingerprint\<close> and
  \<open>mix_fingerprint\<close> of \<open>crates/runtime/src/lib.rs\<close>: the 64-bit FNV-1a hash of the model identity,
  the input semantics and the items, as machine words.
\<close>

section \<open>The hash\<close>

unbundle bit_operations_syntax

definition mix_byte :: "64 word \<Rightarrow> nat \<Rightarrow> 64 word" where
  "mix_byte hash byte = (hash XOR of_nat byte) * 0x100000001b3"

definition mix_fingerprint :: "nat list \<Rightarrow> 64 word \<Rightarrow> 64 word" where
  "mix_fingerprint bytes hash = foldl mix_byte hash bytes"

abbreviation str_bytes :: "string \<Rightarrow> nat list" where
  "str_bytes s \<equiv> map of_char s"

definition u32_to_le_bytes :: "u32 \<Rightarrow> nat list" where
  "u32_to_le_bytes n = [n mod 256, n div 256 mod 256, n div 65536 mod 256, n div 16777216 mod 256]"

text \<open>\<open>{hash:016x}\<close>: sixteen lower-case hexadecimal digits.\<close>

definition hex_char :: "nat \<Rightarrow> char" where
  "hex_char d = char_of (if d < 10 then 48 + d else 87 + d)"

definition hex16 :: "64 word \<Rightarrow> string" where
  "hex16 w = map (\<lambda>i. hex_char (unat w div 16 ^ i mod 16)) (rev [0..<16])"

text \<open>
  \<open>debug\<close> is the derived \<open>Debug\<close> output of an input item, which the code mixes in for every item
  that is not a token sequence.
\<close>

definition mix_item :: "(input_item_value \<Rightarrow> string) \<Rightarrow> 64 word \<Rightarrow> input_item \<Rightarrow> 64 word" where
  "mix_item debug hash item =
     (let hash = mix_fingerprint (str_bytes (ii_id item)) hash in
      case ii_value item of
        TokenSequence tokens \<Rightarrow> foldl (\<lambda>h t. mix_fingerprint (u32_to_le_bytes t) h) hash (ts_token_ids tokens)
      | other \<Rightarrow> mix_fingerprint (str_bytes (debug other)) hash)"

definition input_fingerprint :: "(input_item_value \<Rightarrow> string) \<Rightarrow> canonical_request \<Rightarrow> string" where
  "input_fingerprint debug request =
     (let model = rq_model request; semantics = si_input (rq_semantic_identity request);
          hash = 0xcbf29ce484222325;
          hash = mix_fingerprint (str_bytes (mi_model_revision model)) hash;
          hash = mix_fingerprint (str_bytes (case mi_adapter_revision model of None \<Rightarrow> [] | Some r \<Rightarrow> r)) hash;
          hash = mix_fingerprint (str_bytes (mi_execution_profile model)) hash;
          hash = mix_fingerprint (str_bytes (sc_fingerprint (is_tokenizer semantics))) hash;
          hash = mix_fingerprint (str_bytes (sc_fingerprint (is_template semantics))) hash;
          hash = foldl (mix_item debug) hash (ib_items (rq_input request))
      in ''locus-input-fnv1a64-v1:'' @ hex16 hash)"

section \<open>Injectivity and ambiguity\<close>

lemma mix_fingerprint_append [simp]: "mix_fingerprint (xs @ ys) h = mix_fingerprint ys (mix_fingerprint xs h)"
  by (simp add: mix_fingerprint_def)

text \<open>The multiplier of the hash is odd, hence invertible: mixing is injective in the hash and in each byte.\<close>

lemma fnv_prime_inverse: "(0x100000001b3 :: 64 word) * 0xce965057aff6957b = 1"
  by simp

lemma fnv_mult_cancel: "x * (0x100000001b3 :: 64 word) = y * 0x100000001b3 \<longleftrightarrow> x = y"
proof
  assume "x * (0x100000001b3 :: 64 word) = y * 0x100000001b3"
  then have "x * ((0x100000001b3 :: 64 word) * 0xce965057aff6957b) = y * (0x100000001b3 * 0xce965057aff6957b)"
    by (simp only: mult.assoc [symmetric])
  then show "x = y" by (simp only: fnv_prime_inverse mult_1_right)
qed simp

lemma word_xor_cancel: "(a XOR c = b XOR c) \<longleftrightarrow> a = (b :: 64 word)"
proof
  assume "a XOR c = b XOR c"
  then have "(a XOR c) XOR c = (b XOR c) XOR c" by (rule arg_cong)
  then show "a = b" by (simp only: xor.assoc xor_self_eq xor.right_neutral)
qed simp

lemma mix_byte_inject: "mix_byte h b = mix_byte g b \<longleftrightarrow> h = g"
  unfolding mix_byte_def fnv_mult_cancel word_xor_cancel ..

lemma mix_fingerprint_inject: "mix_fingerprint bs h = mix_fingerprint bs g \<longleftrightarrow> h = g"
  by (induction bs arbitrary: h g) (simp_all add: mix_fingerprint_def mix_byte_inject)

lemma word_of_byte_inject: "a < 256 \<Longrightarrow> b < 256 \<Longrightarrow> (of_nat a :: 64 word) = of_nat b \<longleftrightarrow> a = b"
  by (simp add: word_of_nat_eq_iff take_bit_nat_eq_self)

lemma mix_byte_byte_inject: "a < 256 \<Longrightarrow> b < 256 \<Longrightarrow> mix_byte h a = mix_byte h b \<longleftrightarrow> a = b"
  by (simp add: mix_byte_def fnv_mult_cancel xor.commute [of h] word_xor_cancel word_of_byte_inject)

text \<open>
  Two equally long byte strings that differ in exactly one place hash differently: the hash after
  that place differs, and mixing the common rest is injective.
\<close>

lemma mix_one_difference:
  assumes "a < 256" "b < 256" "a \<noteq> b"
  shows "mix_fingerprint (xs @ a # ys) h \<noteq> mix_fingerprint (xs @ b # ys) h"
proof -
  have "mix_fingerprint (xs @ c # ys) h = mix_fingerprint ys (mix_byte (mix_fingerprint xs h) c)" for c
    by (simp add: mix_fingerprint_def)
  with assms show ?thesis by (simp add: mix_fingerprint_inject mix_byte_byte_inject)
qed

text \<open>
  The fields are mixed one after the other without a separator or a length, so moving bytes from
  the end of one field to the start of the next does not change the fingerprint.
\<close>

theorem fingerprint_ambiguous:
  "input_fingerprint debug (request\<lparr>rq_model := \<lparr>mi_model_revision = x @ y, mi_adapter_revision = None,
      mi_execution_profile = z\<rparr>\<rparr>) =
   input_fingerprint debug (request\<lparr>rq_model := \<lparr>mi_model_revision = x, mi_adapter_revision = None,
      mi_execution_profile = y @ z\<rparr>\<rparr>)"
  by (simp add: input_fingerprint_def Let_def) (simp add: mix_fingerprint_def)

end
