(* ===== verification/Placement.thy ===== *)
theory Placement
  imports Calibrator Registry Store Fingerprint
begin

text \<open>
  Placement in \<open>crates/runtime/src/lib.rs\<close>: the discovery of targets over the engine registry, the
  planning input built from the targets and the state store, the choice between the legacy and the
  calibrated plan, and the audit of all paths. The adapters and the store are called through their
  traits, here the records \<open>discovery_ops\<close> and \<open>store_ops\<close>; the store's state is threaded through.
\<close>

section \<open>Errors\<close>

datatype discovery_failure =
    AdapterFailed engine_error
  | NoSemanticProfile execution_target_id
  | TargetNotReady execution_target_id

datatype discovery_problem =
    NoTargets "discovery_failure list"
  | NoProfilesRegistered
  | NoReadyTarget "discovery_failure list"
  | RequiredWithoutProfile string
  | RequiredNotReady "string list" "discovery_failure list"

datatype placement_error =
    PlStore store_error
  | PlPlanning planning_error
  | PlDiscovery discovery_problem

datatype placement_configuration_error = ActiveConfirmation | PersistenceRequired

section \<open>Target discovery\<close>

record discovered_target =
  dt_target :: execution_target
  dt_capabilities :: engine_capabilities
  dt_snapshot :: engine_snapshot

record 'a discovery_ops =
  dp_targets :: "'a \<Rightarrow> (execution_target list, engine_error) result"
  dp_capabilities :: "'a \<Rightarrow> execution_target \<Rightarrow> (engine_capabilities, engine_error) result"
  dp_snapshot :: "'a \<Rightarrow> execution_target \<Rightarrow> (engine_snapshot, engine_error) result"

type_synonym discovery = "discovered_target list \<times> discovery_failure list"

definition discover_target ::
    "'a discovery_ops \<Rightarrow> canonical_request \<Rightarrow> 'a \<Rightarrow> discovery \<Rightarrow> execution_target \<Rightarrow> discovery" where
  "discover_target ops request adapter acc target =
     (let (discovered, failures) = acc in
      if et_model target \<noteq> rq_model request then acc
      else
        (case dp_capabilities ops adapter target of
           Inl e \<Rightarrow> (discovered, failures @ [AdapterFailed e])
         | Inr capabilities \<Rightarrow>
             (case dp_snapshot ops adapter target of
                Inl e \<Rightarrow> (discovered, failures @ [AdapterFailed e])
              | Inr snapshot \<Rightarrow>
                  (discovered @ [\<lparr>dt_target = target, dt_capabilities = capabilities, dt_snapshot = snapshot\<rparr>],
                   failures))))"

definition discover_adapter ::
    "'a discovery_ops \<Rightarrow> canonical_request \<Rightarrow> discovery \<Rightarrow> 'a \<Rightarrow> discovery" where
  "discover_adapter ops request acc adapter =
     (case dp_targets ops adapter of
        Inl e \<Rightarrow> (fst acc, snd acc @ [AdapterFailed e])
      | Inr targets \<Rightarrow> foldl (discover_target ops request adapter) acc targets)"

definition discover ::
    "'a discovery_ops \<Rightarrow> 'a engine_registry \<Rightarrow> canonical_request \<Rightarrow> (discovered_target list, placement_error) result" where
  "discover ops reg request =
     (let (discovered, failures) = foldl (discover_adapter ops request) ([], []) (routable_adapters reg);
          discovered = sort_key (\<lambda>d. et_id (dt_target d)) discovered
      in if discovered = [] \<and> failures \<noteq> [] then Inl (PlDiscovery (NoTargets failures)) else Inr discovered)"

section \<open>Estimates and compatibility\<close>

definition request_token_count :: "canonical_request \<Rightarrow> u64" where
  "request_token_count request =
     sum_u64 (List.map_filter
       (\<lambda>item. case ii_value item of TokenSequence tokens \<Rightarrow> Some (length (ts_token_ids tokens)) | _ \<Rightarrow> None)
       (ib_items (rq_input request)))"

definition cold_estimate :: "canonical_request \<Rightarrow> execution_estimate" where
  "cold_estimate request =
     \<lparr>ee_unmatched_prefill_micros = sat_mul64 (request_token_count request) 10,
      ee_decode_micros = sat_mul64 (case sp_max_output_tokens (rq_sampling request) of None \<Rightarrow> 16 | Some n \<Rightarrow> n) 20,
      ee_topology_micros = 0, ee_policy_micros = 0\<rparr>"

definition reuse_estimate :: "state_descriptor \<Rightarrow> canonical_request \<Rightarrow> execution_estimate" where
  "reuse_estimate state request =
     (let covered = sum_u64 (map cc_covered_units (rb_covered_components (sd_boundary state)));
          unmatched = sat_sub64 (request_token_count request) covered
      in (cold_estimate request)\<lparr>ee_unmatched_prefill_micros := sat_mul64 unmatched 10\<rparr>)"

definition compatibility_for :: "state_descriptor \<Rightarrow> canonical_request \<Rightarrow> compatibility_result" where
  "compatibility_for state request =
     (if sd_model state \<noteq> rq_model request then incompatible ''model execution identity mismatch''
      else case sd_relevant_input_semantics state of
        Some identity \<Rightarrow>
          if identity \<noteq> si_input (rq_semantic_identity request)
          then incompatible ''input semantic identity mismatch''
          else compatible ''model and input semantics match''
      | None \<Rightarrow> \<lparr>cp_verdict = UnknownVerdict, cp_checked_dimensions = [''model_execution''],
                 cp_evidence = [''store omitted input semantic identity''], cp_required_conversion = None\<rparr>)"

section \<open>The planning input\<close>

record 'w store_ops =
  sto_identity :: store_id
  sto_lookup :: "state_requirement \<Rightarrow> 'w \<Rightarrow> (state_descriptor list, store_error) result \<times> 'w"
  sto_estimate :: "state_descriptor \<Rightarrow> execution_target \<Rightarrow> 'w \<Rightarrow> (materialization_option list, store_error) result \<times> 'w"

fun store_reason_text :: "store_reason \<Rightarrow> string" where
  "store_reason_text NullCannotMaterialize = ''null store cannot materialize state''"
| "store_reason_text FakeOutage = ''configured fake outage''"
| "store_reason_text FakeMaterializationFailure = ''configured fake materialization failure''"
| "store_reason_text ForeignOption = ''materialization option belongs to another store''"
| "store_reason_text ImportMismatch = ''import target does not match materialization option''"
| "store_reason_text ImportExpired = ''import target expired before transfer''"
| "store_reason_text (OtherStoreReason s) = s"

definition mark_unavailable :: "'w store_ops \<Rightarrow> store_reason \<Rightarrow> state_observation \<Rightarrow> state_observation" where
  "mark_unavailable store reason obs =
     obs\<lparr>so_unavailable_stores := bt_insert (sto_identity store) (store_reason_text reason) (so_unavailable_stores obs)\<rparr>"

definition first_token_ids :: "canonical_request \<Rightarrow> u32 list option" where
  "first_token_ids request =
     (case List.map_filter
        (\<lambda>item. case ii_value item of TokenSequence tokens \<Rightarrow> Some (ts_token_ids tokens) | _ \<Rightarrow> None)
        (ib_items (rq_input request)) of
        [] \<Rightarrow> None | ids # _ \<Rightarrow> Some ids)"

definition state_requirement_for ::
    "(input_item_value \<Rightarrow> string) \<Rightarrow> state_kind set \<Rightarrow> canonical_request \<Rightarrow> state_requirement" where
  "state_requirement_for debug kinds request =
     \<lparr>sq_model = rq_model request, sq_input_semantics = si_input (rq_semantic_identity request),
      sq_accepted_state_kinds = kinds, sq_input_fingerprint = input_fingerprint debug request,
      sq_query_token_ids = first_token_ids request, sq_tenant_scope = None\<rparr>"

definition state_path_of ::
    "canonical_request \<Rightarrow> state_descriptor \<Rightarrow> materialization_option \<Rightarrow> state_path_candidate" where
  "state_path_of request state opt =
     \<lparr>spc_state = state, spc_compatibility = compatibility_for state request, spc_option = opt,
      spc_materialization_estimate_micros = None, spc_estimate = reuse_estimate state request\<rparr>"

text \<open>The loop over the states for one target; the observation and the store are its state.\<close>

fun state_paths_for ::
    "'w store_ops \<Rightarrow> canonical_request \<Rightarrow> discovered_target \<Rightarrow> state_descriptor list \<Rightarrow> state_path_candidate list
     \<Rightarrow> state_observation \<Rightarrow> 'w \<Rightarrow> (state_path_candidate list \<times> state_observation, placement_error) result \<times> 'w" where
  "state_paths_for store request d [] acc obs w = (Inr (acc, obs), w)"
| "state_paths_for store request d (state # states) acc obs w =
     (if sd_kind state \<notin> ec_supported_state_kinds (dt_capabilities d) \<or>
         \<not> is_compatible (compatibility_for state request)
      then state_paths_for store request d states acc obs w
      else
        (case sto_estimate store state (dt_target d) w of
           (Inr options, w) \<Rightarrow>
             state_paths_for store request d states (acc @ map (state_path_of request state) options) obs w
         | (Inl (StoreErrUnavailable reason), w) \<Rightarrow>
             state_paths_for store request d states acc (mark_unavailable store reason obs) w
         | (Inl e, w) \<Rightarrow> (Inl (PlStore e), w)))"

fun candidates_for ::
    "'w store_ops \<Rightarrow> canonical_request \<Rightarrow> state_descriptor list \<Rightarrow> discovered_target list \<Rightarrow> state_observation \<Rightarrow> 'w
     \<Rightarrow> (planning_candidate list \<times> state_observation, placement_error) result \<times> 'w" where
  "candidates_for store request states [] obs w = (Inr ([], obs), w)"
| "candidates_for store request states (d # ds) obs w =
     (case state_paths_for store request d states [] obs w of
        (Inl e, w) \<Rightarrow> (Inl e, w)
      | (Inr (paths, obs), w) \<Rightarrow>
          (case candidates_for store request states ds obs w of
             (Inl e, w) \<Rightarrow> (Inl e, w)
           | (Inr (cs, obs), w) \<Rightarrow>
               (Inr (\<lparr>pc_target = dt_target d, pc_capabilities = dt_capabilities d, pc_snapshot = dt_snapshot d,
                      pc_cold_estimate = cold_estimate request, pc_state_paths = paths\<rparr> # cs, obs), w)))"

definition lookup_states ::
    "(input_item_value \<Rightarrow> string) \<Rightarrow> 'w store_ops \<Rightarrow> canonical_request \<Rightarrow> state_kind set \<Rightarrow> 'w
     \<Rightarrow> (state_descriptor list \<times> state_observation, placement_error) result \<times> 'w" where
  "lookup_states debug store request kinds w =
     (if kinds = {} then (Inr ([], \<lparr>so_unavailable_stores = bt_empty\<rparr>), w)
      else
        (case sto_lookup store (state_requirement_for debug kinds request) w of
           (Inr states, w) \<Rightarrow> (Inr (states, \<lparr>so_unavailable_stores = bt_empty\<rparr>), w)
         | (Inl (StoreErrUnavailable reason), w) \<Rightarrow>
             (Inr ([], mark_unavailable store reason \<lparr>so_unavailable_stores = bt_empty\<rparr>), w)
         | (Inl e, w) \<Rightarrow> (Inl (PlStore e), w)))"

definition planning_input_for ::
    "(input_item_value \<Rightarrow> string) \<Rightarrow> 'a discovery_ops \<Rightarrow> 'a engine_registry \<Rightarrow> 'w store_ops \<Rightarrow> routing_policy
     \<Rightarrow> canonical_request \<Rightarrow> 'w \<Rightarrow> (planning_input, placement_error) result \<times> 'w" where
  "planning_input_for debug ops reg store policy request w =
     (case discover ops reg request of
        Inl e \<Rightarrow> (Inl e, w)
      | Inr discovered \<Rightarrow>
          (let kinds = (\<Union>d \<in> set discovered. ec_supported_state_kinds (dt_capabilities d)) in
           case lookup_states debug store request kinds w of
             (Inl e, w) \<Rightarrow> (Inl e, w)
           | (Inr (states, obs), w) \<Rightarrow>
               (case candidates_for store request states discovered obs w of
                  (Inl e, w) \<Rightarrow> (Inl e, w)
                | (Inr (candidates, obs), w) \<Rightarrow>
                    (Inr \<lparr>in_request = request, in_candidates = candidates, in_state_observation = obs,
                          in_policy = policy\<rparr>, w))))"

section \<open>Selecting a plan\<close>

definition active_confirmation_value :: string where
  "active_confirmation_value = ''enable-calibrated-placement''"

record placement_control =
  plc_mode :: placement_mode
  plc_calibrator :: calibrator

definition placement_control_new ::
    "placement_mode \<Rightarrow> calibrator \<Rightarrow> string option \<Rightarrow> (placement_control, placement_configuration_error) result" where
  "placement_control_new mode c confirmation =
     (if mode = Active \<and> confirmation \<noteq> Some active_confirmation_value then Inl ActiveConfirmation
      else if mode = Active \<and> \<not> is_persistent c then Inl PersistenceRequired
      else Inr \<lparr>plc_mode = mode, plc_calibrator = c\<rparr>)"

definition placement_shadow :: "calibrator \<Rightarrow> placement_control" where
  "placement_shadow c = \<lparr>plc_mode = Shadow, plc_calibrator = c\<rparr>"

record placement_selection =
  sel_plan :: placement_plan
  sel_source :: string
  sel_calibration_revision :: u64
  sel_promotion_reasons :: "string list"

definition selection_legacy :: "placement_plan \<Rightarrow> string \<Rightarrow> placement_selection" where
  "selection_legacy pl source =
     \<lparr>sel_plan = pl, sel_source = source, sel_calibration_revision = 0, sel_promotion_reasons = []\<rparr>"

text \<open>
  A blocking task of the runtime (\<open>spawn_blocking\<close>) may fail to be joined, before or after its work
  was done. The planner is a trait object: \<open>planner n\<close> is what its \<open>n\<close>-th call of one selection
  answers, so that a nondeterministic planner is covered.
\<close>

datatype task_outcome = TaskJoined | TaskLost bool

record select_env =
  se_unix_millis :: u64
  se_shadow_task :: task_outcome
  se_shadow_faults :: persist_faults
  se_promotion_task :: task_outcome
  se_promotion_faults :: persist_faults

definition run_task :: "task_outcome \<Rightarrow> ('w \<Rightarrow> 'r \<times> 'w) \<Rightarrow> 'w \<Rightarrow> 'r option \<times> 'w" where
  "run_task t f w =
     (case t of TaskJoined \<Rightarrow> apfst Some (f w) | TaskLost done \<Rightarrow> (None, if done then snd (f w) else w))"

definition promote ::
    "cal_env \<Rightarrow> select_env \<Rightarrow> calibration_application \<Rightarrow> placement_plan \<Rightarrow> placement_plan \<Rightarrow> cal_world
     \<Rightarrow> placement_selection \<times> cal_world" where
  "promote env senv application legacy calibrated w =
     (let evidence = bt_get (cap_evidence application) (et_id (pp_target calibrated)) in
      case run_task (se_promotion_task senv)
             (promotion_status_of env (se_promotion_faults senv) calibrated evidence) w of
        (None, w) \<Rightarrow> (selection_legacy legacy ''promotion_task_error'', w)
      | (Some (Inl e), w) \<Rightarrow> (selection_legacy legacy ''promotion_check_error'', w)
      | (Some (Inr status), w) \<Rightarrow>
          if ps_qualified status
          then (\<lparr>sel_plan = calibrated, sel_source = ''calibrated_active'',
                 sel_calibration_revision = ps_revision status, sel_promotion_reasons = []\<rparr>, w)
          else (\<lparr>sel_plan = legacy, sel_source = ''active_gate_fallback'',
                 sel_calibration_revision = ps_revision status, sel_promotion_reasons = ps_reasons status\<rparr>, w))"

definition select_plan ::
    "cal_env \<Rightarrow> select_env \<Rightarrow> (nat \<Rightarrow> planning_input \<Rightarrow> (placement_plan, planning_error) result) \<Rightarrow> placement_mode
     \<Rightarrow> planning_input \<Rightarrow> cal_world \<Rightarrow> (placement_selection, placement_error) result \<times> cal_world" where
  "select_plan env senv planner mode input w =
     (case planner 0 input of
        Inl e \<Rightarrow> (Inl (PlPlanning e), w)
      | Inr legacy \<Rightarrow>
          (let application = calibration_apply (ce_to_string env) (cl_policy (cw_cal w)) (cl_state (cw_cal w))
                 input (se_unix_millis senv) in
           case planner 1 (cap_input application) of
             Inl e \<Rightarrow> (Inr (selection_legacy legacy ''calibrated_planning_error''), w)
           | Inr calibrated \<Rightarrow>
               (let replay_consistent = (case planner 2 (cap_input application) of
                        Inl _ \<Rightarrow> False | Inr pl \<Rightarrow> plan_fingerprint pl = plan_fingerprint calibrated) in
                case run_task (se_shadow_task senv)
                       (record_shadow_decision env (se_shadow_faults senv) replay_consistent
                          (plan_decision_fingerprint legacy) (plan_decision_fingerprint calibrated)) w of
                  (None, w) \<Rightarrow> (Inr (selection_legacy legacy ''shadow_task_error''), w)
                | (Some (Inl e), w) \<Rightarrow> (Inr (selection_legacy legacy ''shadow_persistence_error''), w)
                | (Some (Inr _), w) \<Rightarrow>
                    if mode = Shadow
                    then (Inr \<lparr>sel_plan = legacy, sel_source = ''shadow_mode'',
                               sel_calibration_revision = cap_revision application, sel_promotion_reasons = []\<rparr>, w)
                    else apfst Inr (promote env senv application legacy calibrated w))))"

section \<open>The audit of the paths\<close>

definition reason_if :: "bool \<Rightarrow> string \<Rightarrow> string list" where
  "reason_if b reason = (if b then [reason] else [])"

definition candidate_exclusions :: "planning_input \<Rightarrow> planning_candidate \<Rightarrow> string list" where
  "candidate_exclusions input c =
     reason_if (et_model (pc_target c) \<noteq> rq_model (in_request input)) ''model_identity_mismatch'' @
     reason_if (es_target_id (pc_snapshot c) \<noteq> et_id (pc_target c)) ''snapshot_target_mismatch'' @
     reason_if (\<not> es_ready (pc_snapshot c)) ''target_not_ready'' @
     reason_if (\<not> satisfies (pc_capabilities c) (rq_requirements (in_request input))) ''capability_mismatch''"

definition state_path_exclusions ::
    "planning_input \<Rightarrow> planning_candidate \<Rightarrow> state_path_candidate \<Rightarrow> string list" where
  "state_path_exclusions input c sp =
     reason_if (bt_contains (so_unavailable_stores (in_state_observation input)) (mo_store (spc_option sp)))
       ''store_unavailable'' @
     reason_if (\<not> is_compatible (spc_compatibility sp)) ''state_incompatible'' @
     reason_if (sd_store (spc_state sp) \<noteq> mo_store (spc_option sp)) ''store_mismatch'' @
     reason_if (sd_id (spc_state sp) \<noteq> mo_source_state (spc_option sp)) ''source_state_mismatch'' @
     reason_if (sd_kind (spc_state sp) \<noteq> mo_state_kind (spc_option sp)) ''state_kind_mismatch'' @
     reason_if (sd_model (spc_state sp) \<noteq> rq_model (in_request input)) ''state_model_mismatch'' @
     reason_if (mo_target_id (spc_option sp) \<noteq> et_id (pc_target c)) ''state_target_mismatch'' @
     reason_if (mo_target_engine (spc_option sp) \<noteq> et_engine (pc_target c)) ''state_engine_generation_mismatch'' @
     reason_if (sd_kind (spc_state sp) \<notin> ec_supported_state_kinds (pc_capabilities c)) ''state_kind_unsupported'' @
     reason_if (case sd_relevant_input_semantics (spc_state sp) of
         None \<Rightarrow> False | Some identity \<Rightarrow> identity \<noteq> si_input (rq_semantic_identity (in_request input)))
       ''state_input_semantics_mismatch''"

definition audit_cost :: "u64 \<Rightarrow> execution_estimate \<Rightarrow> u64 \<Rightarrow> cost_breakdown" where
  "audit_cost queue_micros e materialization_micros =
     \<lparr>cb_queue_micros = queue_micros, cb_unmatched_prefill_micros = ee_unmatched_prefill_micros e,
      cb_state_materialization_micros = materialization_micros, cb_decode_micros = ee_decode_micros e,
      cb_topology_micros = ee_topology_micros e, cb_policy_micros = ee_policy_micros e\<rparr>"

record path_audit =
  au_target_id :: string
  au_engine_id :: string
  au_path_kind :: string
  au_state_kind :: "string option"
  au_store :: "string option"
  au_feasible :: bool
  au_exclusions :: "string list"
  au_cost :: cost_breakdown
  au_stable_key :: string
  au_rank :: "usize option"
  au_telemetry_status :: telemetry_status
  au_telemetry_confidence :: telemetry_confidence
  au_telemetry_source :: string
  au_telemetry_revision :: u64
  au_telemetry_valid_until_unix_millis :: u64

definition audit_of ::
    "planning_candidate \<Rightarrow> string \<Rightarrow> string option \<Rightarrow> string option \<Rightarrow> string list \<Rightarrow> cost_breakdown \<Rightarrow> string \<Rightarrow> path_audit" where
  "audit_of c kind state_kind store exclusions cost stable_key =
     \<lparr>au_target_id = et_id (pc_target c), au_engine_id = er_id (et_engine (pc_target c)), au_path_kind = kind,
      au_state_kind = state_kind, au_store = store, au_feasible = (exclusions = []), au_exclusions = exclusions,
      au_cost = cost, au_stable_key = stable_key, au_rank = None,
      au_telemetry_status = es_telemetry_status (pc_snapshot c),
      au_telemetry_confidence = es_telemetry_confidence (pc_snapshot c),
      au_telemetry_source = es_telemetry_source (pc_snapshot c),
      au_telemetry_revision = es_observation_revision (pc_snapshot c),
      au_telemetry_valid_until_unix_millis = es_valid_until_unix_millis (pc_snapshot c)\<rparr>"

definition audit_candidate :: "planning_input \<Rightarrow> planning_candidate \<Rightarrow> path_audit list" where
  "audit_candidate input c =
     (let exclusions = candidate_exclusions input c;
          queue_micros = (case es_estimated_queue_micros (pc_snapshot c) of None \<Rightarrow> u64_max | Some q \<Rightarrow> q)
      in audit_of c ''cold'' None None exclusions (audit_cost queue_micros (pc_cold_estimate c) 0)
           (et_id (pc_target c) @ '':0:cold'') #
         map (\<lambda>sp. audit_of c ''reuse'' (Some (sd_kind (spc_state sp))) (Some (mo_store (spc_option sp)))
                (exclusions @ state_path_exclusions input c sp)
                (audit_cost queue_micros (spc_estimate sp)
                  (case spc_materialization_estimate_micros sp of
                     None \<Rightarrow> mo_estimated_transfer_micros (spc_option sp) | Some m \<Rightarrow> m))
                (et_id (pc_target c) @ '':1:'' @ sd_id (spc_state sp) @ '':'' @ mo_id (spc_option sp)))
           (pc_state_paths c))"

definition audit_paths :: "planning_input \<Rightarrow> path_audit list" where
  "audit_paths input = concat (map (audit_candidate input) (in_candidates input))"

text \<open>The feasible audits sorted by cost and key, with the index of each in the list of all audits.\<close>

definition feasible_ranking :: "path_audit list \<Rightarrow> (nat \<times> u64 \<times> string) list" where
  "feasible_ranking audits =
     sort_key (\<lambda>(_, total, stable_key). (total, stable_key))
       (map (\<lambda>(index, audit). (index, total_micros (au_cost audit), au_stable_key audit))
         (filter (\<lambda>(_, audit). au_feasible audit) (enumerate 0 audits)))"

definition rank_audits :: "path_audit list \<Rightarrow> path_audit list" where
  "rank_audits audits =
     foldl (\<lambda>as (rank, (index, _, _)). as[index := (as ! index)\<lparr>au_rank := Some (rank + 1)\<rparr>])
       audits (enumerate 0 (feasible_ranking audits))"

definition max_placement_audit_paths :: usize where
  "max_placement_audit_paths = 256"

text \<open>The audits that are logged, and whether the log says that it was truncated.\<close>

definition trace_planning_paths :: "planning_input \<Rightarrow> path_audit list \<times> bool" where
  "trace_planning_paths input =
     (let audits = rank_audits (audit_paths input)
      in (take max_placement_audit_paths audits, max_placement_audit_paths < length audits))"

section \<open>The selected plan\<close>

lemma plan_signature:
  assumes "plan input = Inr pl"
  shows "(pp_target pl, pp_path pl, pp_fallback pl) \<in> (\<lambda>(t, p, f, k). (t, p, f)) ` set (map path_signature (feasible_paths input))"
  using assms by (rule plan_Inr_minimal) (force simp: path_signature_def plan_of_def image_iff)

lemma run_task_Some: "run_task t f w = (Some r, w') \<Longrightarrow> f w = (r, w')"
  by (auto simp: run_task_def apfst_def map_prod_def split: task_outcome.splits prod.splits)

lemma promotion_needs_evidence:
  assumes "promotion_status_of env faults pl ev w = (Inr status, w')" and "ps_qualified status"
  obtains e where "ev = Some e" and "promotion_gates_hold (ce_to_string env) (cw_cal w) pl e"
  using assms
  by (auto simp: promotion_status_of_def Let_def reasons_empty simp del: append_is_Nil_conv
      split: option.splits if_splits prod.splits sum.splits)

lemma promote_cases:
  assumes "promote env senv application legacy calibrated w = (sel, w')"
  shows "sel_plan sel = legacy \<and> sel_source sel \<noteq> ''calibrated_active'' \<or>
    sel_plan sel = calibrated \<and> sel_source sel = ''calibrated_active'' \<and>
    (\<exists>ev. bt_get (cap_evidence application) (et_id (pp_target calibrated)) = Some ev \<and>
          promotion_gates_hold (ce_to_string env) (cw_cal w) calibrated ev)"
  using assms
  by (auto simp: promote_def Let_def selection_legacy_def dest!: run_task_Some elim!: promotion_needs_evidence
      split: prod.splits option.splits sum.splits if_splits)

text \<open>How the calibrated plan was promoted: on the calibrator after this selection's shadow decision.\<close>

definition promoted ::
    "cal_env \<Rightarrow> select_env \<Rightarrow> bool \<Rightarrow> planning_input \<Rightarrow> placement_plan \<Rightarrow> placement_plan \<Rightarrow> cal_world \<Rightarrow> bool" where
  "promoted env senv replay_consistent input legacy calibrated w \<longleftrightarrow>
     (\<exists>w1 ev. record_shadow_decision env (se_shadow_faults senv) replay_consistent
         (plan_decision_fingerprint legacy) (plan_decision_fingerprint calibrated) w = (Inr (), w1) \<and>
       bt_get (cap_evidence (calibration_apply (ce_to_string env) (cl_policy (cw_cal w)) (cl_state (cw_cal w)) input
         (se_unix_millis senv))) (et_id (pp_target calibrated)) = Some ev \<and>
       promotion_gates_hold (ce_to_string env) (cw_cal w1) calibrated ev)"

lemma select_plan_cases:
  assumes sel: "select_plan env senv planner mode input w = (Inr sel, w')"
    and app: "application = calibration_apply (ce_to_string env) (cl_policy (cw_cal w)) (cl_state (cw_cal w)) input (se_unix_millis senv)"
  obtains (legacy) "planner 0 input = Inr (sel_plan sel)"
  | (calibrated) legacy where "mode = Active" "planner 0 input = Inr legacy"
      "planner 1 (cap_input application) = Inr (sel_plan sel)"
      "promoted env senv (case planner 2 (cap_input application) of
         Inl _ \<Rightarrow> False | Inr pl \<Rightarrow> plan_fingerprint pl = plan_fingerprint (sel_plan sel)) input legacy (sel_plan sel) w"
proof -
  obtain legacy where legacy: "planner 0 input = Inr legacy"
    using sel by (auto simp: select_plan_def split: sum.splits)
  show thesis
  proof (cases "planner 1 (cap_input application)")
    case (Inl e)
    with sel legacy have "sel_plan sel = legacy"
      by (simp add: select_plan_def app [symmetric] selection_legacy_def Let_def) auto
    with legacy that(1) show thesis by simp
  next
    case (Inr calibrated)
    let ?task = "run_task (se_shadow_task senv) (record_shadow_decision env (se_shadow_faults senv)
       (case planner 2 (cap_input application) of Inl _ \<Rightarrow> False | Inr pl \<Rightarrow> plan_fingerprint pl = plan_fingerprint calibrated)
       (plan_decision_fingerprint legacy) (plan_decision_fingerprint calibrated)) w"
    obtain r w1 where task: "?task = (r, w1)" by fastforce
    note run = sel [unfolded select_plan_def Let_def app [symmetric] legacy sum.case Inr task prod.case]
    have "sel_plan sel = legacy \<or>
        mode = Active \<and> r = Some (Inr ()) \<and> promote env senv application legacy calibrated w1 = (sel, w')"
      using run by (cases "promote env senv application legacy calibrated w1"; cases mode)
        (auto simp: selection_legacy_def split: option.splits sum.splits)
    then show thesis
    proof
      assume "sel_plan sel = legacy"
      with legacy that(1) show thesis by simp
    next
      assume active: "mode = Active \<and> r = Some (Inr ()) \<and> promote env senv application legacy calibrated w1 = (sel, w')"
      then have "promote env senv application legacy calibrated w1 = (sel, w')" by simp
      from promote_cases [OF this] show thesis
      proof
        assume "sel_plan sel = legacy \<and> sel_source sel \<noteq> ''calibrated_active''"
        with legacy that(1) show thesis by simp
      next
        assume prom: "sel_plan sel = calibrated \<and> sel_source sel = ''calibrated_active'' \<and>
          (\<exists>ev. bt_get (cap_evidence application) (et_id (pp_target calibrated)) = Some ev \<and>
             promotion_gates_hold (ce_to_string env) (cw_cal w1) calibrated ev)"
        moreover from active task run_task_Some have "record_shadow_decision env (se_shadow_faults senv)
           (case planner 2 (cap_input application) of Inl _ \<Rightarrow> False | Inr pl \<Rightarrow> plan_fingerprint pl = plan_fingerprint calibrated)
           (plan_decision_fingerprint legacy) (plan_decision_fingerprint calibrated) w = (Inr (), w1)" by fastforce
        ultimately show thesis using active legacy Inr app
          by (intro that(2) [of legacy]) (auto simp: promoted_def)
      qed
    qed
  qed
qed

text \<open>
  C34: whatever the calibration has learned, the selected plan is one the legacy planner could have
  chosen: its target, path and fallback are those of a feasible path of the uncalibrated input. It
  is the legacy plan unless the mode is active and all promotion gates hold; in shadow mode and on
  every failure of the calibration, of its persistence or of a task, it is the legacy plan.
\<close>

theorem select_plan_safe:
  assumes "select_plan env senv (\<lambda>_. plan) mode input w = (Inr sel, w')"
  shows "(pp_target (sel_plan sel), pp_path (sel_plan sel), pp_fallback (sel_plan sel)) \<in>
       (\<lambda>p. (fp_target p, fp_path p, fp_fallback p)) ` set (feasible_paths input) \<and>
     (plan input = Inr (sel_plan sel) \<or>
      mode = Active \<and> (\<exists>legacy. plan input = Inr legacy \<and> promoted env senv True input legacy (sel_plan sel) w))"
proof -
  have sig: "(\<lambda>(t, p, f, k). (t, p, f)) ` set (map path_signature ps) = (\<lambda>p. (fp_target p, fp_path p, fp_fallback p)) ` set ps" for ps
    by (force simp: path_signature_def)
  from assms refl show ?thesis
  proof (cases rule: select_plan_cases)
    case legacy
    with plan_signature [OF legacy] show ?thesis by (simp only: sig) simp
  next
    case (calibrated legacy)
    from plan_signature [OF calibrated(3)] have
      "(pp_target (sel_plan sel), pp_path (sel_plan sel), pp_fallback (sel_plan sel)) \<in>
        (\<lambda>p. (fp_target p, fp_path p, fp_fallback p)) ` set (feasible_paths input)"
      by (simp only: feasible_paths_calibrated sig)
    with calibrated show ?thesis by auto
  qed
qed

section \<open>The audit agrees with the planner\<close>

lemma reason_if_Nil [simp]: "reason_if b r = [] \<longleftrightarrow> \<not> b"
  by (simp add: reason_if_def)

lemma candidate_exclusions_Nil: "candidate_exclusions input c = [] \<longleftrightarrow> \<not> candidate_rejected input c"
  by (auto simp: candidate_exclusions_def candidate_rejected_def)

lemma state_path_exclusions_Nil: "state_path_exclusions input c sp = [] \<longleftrightarrow> path_usable input c sp"
  by (auto simp: state_path_exclusions_def path_usable_def state_path_rejected_def store_unavailable_for_def)

definition audit_view :: "path_audit \<Rightarrow> string \<times> cost_breakdown \<times> string" where
  "audit_view a = (au_target_id a, au_cost a, au_stable_key a)"

definition path_view :: "feasible_path \<Rightarrow> string \<times> cost_breakdown \<times> string" where
  "path_view p = (et_id (fp_target p), fp_cost p, fp_stable_key p)"

lemma audit_candidate_view:
  "map audit_view (filter au_feasible (audit_candidate input c)) = map path_view (candidate_paths input c)"
  by (simp add: audit_candidate_def candidate_paths_def audit_view_def path_view_def audit_of_def
      candidate_exclusions_Nil state_path_exclusions_Nil filter_map comp_def cold_path_def reuse_path_def
      queue_micros_of_def audit_cost_def cost_for_def Let_def)

lemma audit_paths_view:
  "map audit_view (filter au_feasible (audit_paths input)) = map path_view (feasible_paths input)"
  by (simp add: audit_paths_def feasible_paths_def filter_concat map_concat comp_def audit_candidate_view)

subsection \<open>Ranks\<close>

lemma arg_min_list_map: "xs \<noteq> [] \<Longrightarrow> arg_min_list f (map g xs) = g (arg_min_list (f \<circ> g) xs)"
proof (induction xs)
  case (Cons x xs)
  then show ?case by (cases xs) (auto simp: Let_def)
qed simp

lemma hd_sort_key: "xs \<noteq> [] \<Longrightarrow> hd (sort_key f xs) = arg_min_list f xs"
proof (induction xs)
  case (Cons x xs)
  show ?case
  proof (cases xs)
    case (Cons y ys)
    then obtain z zs where "sort_key f xs = z # zs" by (metis list.exhaust list.distinct(1) set_empty set_sort)
    with Cons.IH Cons show ?thesis by (auto simp: Let_def)
  qed simp
qed simp

lemma rank_fold_other:
  fixes audits :: "path_audit list" and rs :: "(nat \<times> nat \<times> u64 \<times> string) list"
  assumes "index \<notin> (\<lambda>(_, i, _, _). i) ` set rs"
  shows "foldl (\<lambda>as (rank, (index, _, _)). as[index := (as ! index)\<lparr>au_rank := Some (rank + 1)\<rparr>]) audits rs ! index = audits ! index"
  using assms by (induction rs arbitrary: audits) auto

abbreviation feasible_entries :: "path_audit list \<Rightarrow> (nat \<times> path_audit) list" where
  "feasible_entries audits \<equiv> filter (\<lambda>(_, audit). au_feasible audit) (enumerate 0 audits)"

definition audit_key :: "path_audit \<Rightarrow> u64 \<times> string" where
  "audit_key a = (total_micros (au_cost a), au_stable_key a)"

lemma feasible_entries_snd: "map snd (feasible_entries audits) = filter au_feasible audits"
proof -
  have "map snd (filter (\<lambda>(_, a). au_feasible a) (enumerate n audits)) = filter au_feasible audits" for n
    by (induction audits arbitrary: n) auto
  then show ?thesis .
qed

lemma distinct_map_sort_key: "distinct (map f xs) \<Longrightarrow> distinct (map f (sort_key k xs))"
  by (simp add: distinct_map)

lemma feasible_ranking_distinct: "distinct (map fst (feasible_ranking audits))"
proof -
  have "distinct (map fst (feasible_entries audits))" by (rule distinct_map_filter) simp
  then have "distinct (map fst (map (\<lambda>(i, a). (i, total_micros (au_cost a), au_stable_key a)) (feasible_entries audits)))"
    by (simp add: case_prod_unfold comp_def)
  then show ?thesis unfolding feasible_ranking_def by (rule distinct_map_sort_key)
qed

lemma feasible_ranking_hd:
  assumes "feasible_entries audits \<noteq> []"
  obtains i rest where "feasible_ranking audits = (i, audit_key (audits ! i)) # rest" and "i < length audits"
    and "audits ! i = arg_min_list audit_key (filter au_feasible audits)"
proof -
  let ?E = "feasible_entries audits" and ?h = "\<lambda>(i, a). (i, audit_key a)"
  let ?key = "(\<lambda>(_, total, k). (total, k)) :: nat \<times> u64 \<times> string \<Rightarrow> u64 \<times> string"
  have rank: "feasible_ranking audits = sort_key ?key (map ?h ?E)"
    by (simp add: feasible_ranking_def audit_key_def)
  have keys: "?key \<circ> ?h = audit_key \<circ> snd" by (auto simp: audit_key_def)
  obtain i a where best: "arg_min_list (audit_key \<circ> snd) ?E = (i, a)" by fastforce
  then have "(i, a) \<in> set ?E" using arg_min_list_in [OF assms, of "audit_key \<circ> snd"] by simp
  then have i: "i < length audits" "audits ! i = a" by (auto simp: in_set_enumerate_eq)
  have "a = arg_min_list audit_key (filter au_feasible audits)"
    using arg_min_list_map [OF assms, of audit_key snd] best by (simp add: feasible_entries_snd)
  moreover have "hd (feasible_ranking audits) = (i, audit_key a)"
    unfolding rank using assms hd_sort_key [of "map ?h ?E" ?key] arg_min_list_map [OF assms, of ?key ?h] best keys
    by simp
  moreover have "feasible_ranking audits \<noteq> []"
  proof
    assume "feasible_ranking audits = []"
    then have "set (sort_key ?key (map ?h ?E)) = {}" by (simp only: rank set_simps)
    then have "set (map ?h ?E) = {}" by (simp only: set_sort)
    then have "?E = []" by (simp only: set_empty map_is_Nil_conv)
    with assms show False by contradiction
  qed
  then obtain r rest where "feasible_ranking audits = r # rest" by (cases "feasible_ranking audits") auto
  ultimately show thesis using that [of i rest] i by simp
qed

lemma rank_audits_first:
  assumes "filter au_feasible audits \<noteq> []"
  shows "\<exists>i < length audits. rank_audits audits ! i =
    (arg_min_list audit_key (filter au_feasible audits))\<lparr>au_rank := Some 1\<rparr>"
proof -
  have "feasible_entries audits \<noteq> []" using assms feasible_entries_snd [of audits] by fastforce
  then obtain i rest where rank: "feasible_ranking audits = (i, audit_key (audits ! i)) # rest"
    and i: "i < length audits" "audits ! i = arg_min_list audit_key (filter au_feasible audits)"
    by (rule feasible_ranking_hd)
  have "i \<notin> fst ` set rest" using feasible_ranking_distinct [of audits] by (simp add: rank)
  moreover have "(\<lambda>(_, i, _, _). i) ` X = fst ` snd ` X" for X :: "(nat \<times> nat \<times> u64 \<times> string) set" by force
  moreover have "snd ` set (enumerate 1 rest) = set rest" by (metis map_snd_enumerate set_map)
  ultimately have "i \<notin> (\<lambda>(_, i, _, _). i) ` set (enumerate 1 rest)" by (simp only: not_False_eq_True)
  from rank_fold_other [OF this] have "rank_audits audits ! i = (audits ! i)\<lparr>au_rank := Some 1\<rparr>"
    using i(1) by (simp add: rank_audits_def rank audit_key_def)
  with i show ?thesis by auto
qed

text \<open>
  The audit tells the truth about the decision. Its feasible entries are the planner's feasible
  paths, in order, with the planner's costs and keys, and when a plan is chosen the entry ranked
  first carries the plan's target and predicted cost.
\<close>

lemma audit_matches_planner:
  "map (\<lambda>a. (au_target_id a, au_cost a, au_stable_key a)) (filter au_feasible (audit_paths input)) =
     map (\<lambda>p. (et_id (fp_target p), fp_cost p, fp_stable_key p)) (feasible_paths input) \<and>
   (case plan input of
      Inl _ \<Rightarrow> True
    | Inr pl \<Rightarrow> \<exists>a \<in> set (rank_audits (audit_paths input)).
        au_rank a = Some 1 \<and> au_target_id a = et_id (pp_target pl) \<and> au_cost a = pp_predicted_cost pl)"
proof -
  let ?F = "filter au_feasible (audit_paths input)"
  have "\<exists>a \<in> set (rank_audits (audit_paths input)).
      au_rank a = Some 1 \<and> au_target_id a = et_id (pp_target pl) \<and> au_cost a = pp_predicted_cost pl"
    if "plan input = Inr pl" for pl
  proof -
    have ne: "feasible_paths input \<noteq> []" and pl: "pl = plan_of (arg_min_list fp_key (feasible_paths input))"
      using that by (auto simp: plan_Inr_iff path_choice.foldl_keep_better split: if_splits)
    let ?key = "\<lambda>(t :: string, c, k). (total_micros c, k)"
    have keys: "?key \<circ> audit_view = audit_key" "?key \<circ> path_view = fp_key"
      by (auto simp: audit_view_def audit_key_def path_view_def fp_key_def)
    have neF: "?F \<noteq> []" using ne audit_paths_view [of input] by (metis map_is_Nil_conv)
    have view: "audit_view (arg_min_list audit_key ?F) = path_view (arg_min_list fp_key (feasible_paths input))"
      using arg_min_list_map [OF neF, of ?key audit_view] arg_min_list_map [OF ne, of ?key path_view]
      by (simp only: keys audit_paths_view)
    obtain i where i: "i < length (audit_paths input)"
      "rank_audits (audit_paths input) ! i = (arg_min_list audit_key ?F)\<lparr>au_rank := Some 1\<rparr>"
      using rank_audits_first [OF neF] by blast
    have "length (rank_audits as) = length as" for as
    proof -
      have "length (foldl (\<lambda>as (rank, (index, _, _)). as[index := (as ! index)\<lparr>au_rank := Some (rank + 1)\<rparr>]) xs rs) = length xs"
        for rs :: "(nat \<times> nat \<times> u64 \<times> string) list" and xs :: "path_audit list"
        by (induction rs arbitrary: xs) auto
      then show ?thesis unfolding rank_audits_def .
    qed
    with i(1) have "rank_audits (audit_paths input) ! i \<in> set (rank_audits (audit_paths input))" by simp
    with i(2) view show ?thesis by (intro bexI) (auto simp: pl plan_of_def audit_view_def path_view_def)
  qed
  moreover have "audit_view = (\<lambda>a. (au_target_id a, au_cost a, au_stable_key a))"
    "path_view = (\<lambda>p. (et_id (fp_target p), fp_cost p, fp_stable_key p))"
    by (simp_all add: audit_view_def path_view_def fun_eq_iff)
  ultimately show ?thesis using audit_paths_view [of input] by (auto split: sum.splits)
qed

section \<open>Discovery\<close>

text \<open>
  What one adapter contributes: targets of the requested model for which the adapter gave
  capabilities and a snapshot.
\<close>

definition target_found :: "'a discovery_ops \<Rightarrow> canonical_request \<Rightarrow> 'a \<Rightarrow> discovered_target \<Rightarrow> bool" where
  "target_found ops request adapter d \<longleftrightarrow>
     (\<exists>targets. dp_targets ops adapter = Inr targets \<and> dt_target d \<in> set targets) \<and>
     et_model (dt_target d) = rq_model request \<and>
     dp_capabilities ops adapter (dt_target d) = Inr (dt_capabilities d) \<and>
     dp_snapshot ops adapter (dt_target d) = Inr (dt_snapshot d)"

lemma discover_target_set:
  assumes "dp_targets ops adapter = Inr targets" "set ts \<subseteq> set targets"
  shows "set (fst (foldl (discover_target ops request adapter) acc ts)) =
     set (fst acc) \<union> {d. target_found ops request adapter d \<and> dt_target d \<in> set ts}"
  using assms(2)
proof (induction ts arbitrary: acc)
  case (Cons t ts)
  have "set (fst (discover_target ops request adapter acc t)) =
      set (fst acc) \<union> {d. target_found ops request adapter d \<and> dt_target d = t}"
    using assms(1) Cons.prems
    by (auto simp: discover_target_def target_found_def Let_def case_prod_beta split: sum.splits if_splits)
  with Cons show ?case by auto
qed simp

lemma discover_adapter_set:
  "set (fst (discover_adapter ops request acc adapter)) = set (fst acc) \<union> {d. target_found ops request adapter d}"
proof (cases "dp_targets ops adapter")
  case (Inr targets)
  with discover_target_set [OF Inr subset_refl] show ?thesis
    by (auto simp: discover_adapter_def target_found_def)
qed (auto simp: discover_adapter_def target_found_def)

lemma discover_fold_set:
  "set (fst (foldl (discover_adapter ops request) acc as)) =
     set (fst acc) \<union> {d. \<exists>a \<in> set as. target_found ops request a d}"
  by (induction as arbitrary: acc) (auto simp: discover_adapter_set)

lemma sort_key_Nil_iff [simp]: "sort_key f xs = [] \<longleftrightarrow> xs = []"
  by (metis set_empty set_sort)

text \<open>
  Discovery finds exactly the usable targets. The result, ordered by target id, has a target
  exactly if some routable adapter offers it for the requested model and answers for its
  capabilities and its snapshot; one failing adapter or target hides nothing else, and discovery
  fails only when nothing at all was found and something failed.
\<close>

lemma discover_complete:
  "case discover ops reg request of
     Inl _ \<Rightarrow> {d. \<exists>a \<in> set (routable_adapters reg). target_found ops request a d} = {}
   | Inr ds \<Rightarrow> sorted (map (\<lambda>d. et_id (dt_target d)) ds) \<and>
       set ds = {d. \<exists>a \<in> set (routable_adapters reg). target_found ops request a d}"
  using discover_fold_set [of ops request "([], [])" "routable_adapters reg"]
  by (auto simp: discover_def Let_def case_prod_beta split: sum.splits if_splits)

section \<open>A concrete selection\<close>

lemma select_plan_succeeds:
  assumes "planner 0 input = Inr legacy"
  shows "\<exists>sel w'. select_plan env senv planner mode input w = (Inr sel, w')"
  using assms
  by (auto simp: select_plan_def Let_def apfst_def map_prod_def split: sum.splits prod.splits option.splits)

definition demo_select_env :: select_env where
  "demo_select_env = \<lparr>se_unix_millis = 1, se_shadow_task = TaskJoined, se_shadow_faults = no_faults,
     se_promotion_task = TaskJoined, se_promotion_faults = no_faults\<rparr>"

theorem select_plan_safe_witness:
  "\<exists>sel :: placement_selection. (pp_target (sel_plan sel), pp_path (sel_plan sel), pp_fallback (sel_plan sel)) \<in>
     (\<lambda>p. (fp_target p, fp_path p, fp_fallback p)) ` set (feasible_paths (sample_planning_input bt_empty True))"
proof -
  have "plan (sample_planning_input bt_empty True) = Inr (plan_of (sample_chosen_path bt_empty True))"
    by (rule sample_plan) simp
  then obtain sel w' where "select_plan demo_cal_env demo_select_env (\<lambda>_. plan) Active
      (sample_planning_input bt_empty True) (demo_cal_world demo_shadowed 0) = (Inr sel, w')"
    using select_plan_succeeds [of "\<lambda>_. plan"] by blast
  from select_plan_safe [OF this] show ?thesis by blast
qed

end
