(* ===== verification/Inference.thy ===== *)
theory Inference
  imports Output_Pipeline Traffic_Props Executor Placement
begin

text \<open>
  The request pipeline of \<open>crates/runtime/src/lib.rs\<close>: \<open>infer\<close>, the event stream it returns, and
  the reports on models and readiness. \<open>infer\<close> is an asynchronous function; it is cut at its awaits
  into phases, and each definition below is the code from one await to the next. What an await ends
  with, and what the clock and the cancellation flag show at each check, are the fields of
  \<open>infer_env\<close>. The permits are local variables of the source: a phase that ends the request drops
  the permits it owns, as the end of their scope does.
\<close>

section \<open>The service\<close>

datatype inference_error =
    IfContext context_error
  | IfAdmission admission_error
  | IfModelIo model_io_error
  | IfEngine engine_error
  | IfStore store_error
  | IfPlanning planning_error
  | IfExecution plan_execution_error
  | IfCalibration calibration_error
  | IfDiscovery discovery_problem

fun inference_error_of_placement :: "placement_error \<Rightarrow> inference_error" where
  "inference_error_of_placement (PlStore e) = IfStore e"
| "inference_error_of_placement (PlPlanning e) = IfPlanning e"
| "inference_error_of_placement (PlDiscovery p) = IfDiscovery p"

text \<open>A model behind the trait \<open>ModelIo\<close>; \<open>'p\<close> is the state of its output pipeline.\<close>

record 'p model_ops =
  mdl_profile :: model_profile
  mdl_normalize :: "model_request \<Rightarrow> request_id \<Rightarrow> (normalized_model_request, model_io_error) result"
  mdl_output_pipeline :: "output_contract \<Rightarrow> ('p, model_io_error) result"
  mdl_process :: "engine_event \<Rightarrow> 'p \<Rightarrow> (model_event list, model_io_error) result \<times> 'p"

definition basic_model_ops :: "json_from_str \<Rightarrow> json_to_string \<Rightarrow> basic_model_io \<Rightarrow> output_pipeline model_ops" where
  "basic_model_ops fs ts m =
     \<lparr>mdl_profile = bm_profile m, mdl_normalize = normalize fs m,
      mdl_output_pipeline = (\<lambda>contract. Inr (output_pipeline_of m contract)),
      mdl_process = (\<lambda>event p. the (pipeline_process fs ts event p))\<rparr>"

text \<open>
  \<open>DefaultInferenceService\<close> as \<open>new\<close> builds it: the discovery and the executor work on the engine
  registry, whose adapters have type \<open>'a\<close>; the engines and the store share the world \<open>'w\<close>, in which
  others act through \<open>sv_others\<close> while an execution waits.
\<close>

record ('a, 'p, 'w) service =
  sv_catalog :: "'p model_ops model_registry"
  sv_discovery :: "'a discovery_ops"
  sv_planner :: "nat \<Rightarrow> planning_input \<Rightarrow> (placement_plan, planning_error) result"
  sv_instance :: "'a \<Rightarrow> engine_instance"
  sv_adapter_ops :: "'w adapter_ops"
  sv_others :: "'w interference"
  sv_cancel :: "'a \<Rightarrow> request_id \<Rightarrow> operation_context \<Rightarrow> 'w \<Rightarrow> (unit, engine_error) result \<times> 'w"
  sv_store :: "'w store_ops"
  sv_policy :: routing_policy
  sv_required_models :: "(string, unit) btree"
  sv_mode :: placement_mode
  sv_cal_env :: cal_env
  sv_traffic :: "traffic_controller option"
  sv_debug :: "input_item_value \<Rightarrow> string"

record ('a, 'w) service_world =
  sw_traffic :: traffic_world
  sw_registry :: "'a registry_world"
  sw_cal :: cal_world
  sw_engine :: 'w
  sw_cancelled :: "cancel_token set"

record infer_env =
  ve_view :: "nat \<Rightarrow> cancel_token set \<times> instant"
  ve_now :: instant
  ve_unix_millis :: u64
  ve_wait :: wait_outcome
  ve_await :: await_outcome
  ve_select :: select_env
  ve_exec :: exec_env
  ve_observe :: await_outcome
  ve_observe_task :: task_outcome
  ve_observe_faults :: persist_faults
  ve_cancel :: await_outcome
  ve_has_runtime :: bool

text \<open>The \<open>i\<close>-th check of the context in a phase: other threads may have cancelled it meanwhile.\<close>

definition check_active ::
    "infer_env \<Rightarrow> nat \<Rightarrow> operation_context \<Rightarrow> ('a, 'w) service_world \<Rightarrow> (unit, context_error) result" where
  "check_active env i context w =
     ensure_active context (sw_cancelled w \<union> fst (ve_view env i)) (snd (ve_view env i))"

section \<open>What a request reports\<close>

text \<open>
  The effects of a request that concern its end: the reason passed to \<open>record_termination\<close> and the
  cancellation sent to the engine. Each phase returns them beside the world they were done in.
\<close>

datatype effect = Reported string | EngineCancelSent

fun context_termination_reason :: "context_error \<Rightarrow> string" where
  "context_termination_reason CtxCancelled = ''cancelled''"
| "context_termination_reason CtxDeadlineExceeded = ''deadline''"

definition record_traffic_termination ::
    "('a, 'p, 'w) service \<Rightarrow> operation_context \<Rightarrow> string \<Rightarrow> ('a, 'w) service_world \<Rightarrow> ('a, 'w) service_world" where
  "record_traffic_termination svc context reason w =
     (case sv_traffic svc of
        None \<Rightarrow> w
      | Some tc \<Rightarrow> w\<lparr>sw_traffic := record_termination tc context reason (sw_traffic w)\<rparr>)"

definition normalize_admitted_error ::
    "('a, 'p, 'w) service \<Rightarrow> infer_env \<Rightarrow> operation_context \<Rightarrow> inference_error \<Rightarrow> ('a, 'w) service_world
     \<Rightarrow> inference_error \<times> effect list \<times> ('a, 'w) service_world" where
  "normalize_admitted_error svc env context error w =
     (case check_active env 2 context w of
        Inr _ \<Rightarrow> (error, [Reported ''request_error''], record_traffic_termination svc context ''request_error'' w)
      | Inl e \<Rightarrow> (IfContext e, [Reported (context_termination_reason e)],
                  record_traffic_termination svc context (context_termination_reason e) w))"

definition cancel_engine_request ::
    "('a, 'p, 'w) service \<Rightarrow> infer_env \<Rightarrow> 'a \<Rightarrow> request_id \<Rightarrow> ('a, 'w) service_world \<Rightarrow> ('a, 'w) service_world" where
  "cancel_engine_request svc env adapter rid w =
     (let context = with_deadline (ve_now env + 2000000000)
            (operation_context_new rid (xe_cleanup_token (ve_exec env)));
          (_, engine) = run_await (ve_cancel env) (sv_cancel svc adapter rid context) (sw_engine w)
      in w\<lparr>sw_engine := engine\<rparr>)"

section \<open>Permits\<close>

definition drop_admission ::
    "('a, 'p, 'w) service \<Rightarrow> infer_env \<Rightarrow> u64 option \<Rightarrow> ('a, 'w) service_world \<Rightarrow> ('a, 'w) service_world" where
  "drop_admission svc env permit w =
     (case (sv_traffic svc, permit) of
        (Some tc, Some ticket) \<Rightarrow> w\<lparr>sw_traffic := drop_permit tc ticket (ve_now env) (sw_traffic w)\<rparr>
      | _ \<Rightarrow> w)"

definition drop_execution :: "execution_permit \<Rightarrow> ('a, 'w) service_world \<Rightarrow> ('a, 'w) service_world" where
  "drop_execution permit w =
     (let reg = sw_registry w in
      w\<lparr>sw_registry := \<lparr>rw_entries = snd (release_execution (fst permit) (snd permit) (rw_entries reg)),
                       rw_permits = rw_permits reg - {permit}\<rparr>\<rparr>)"

section \<open>Phases\<close>

record 'p admitted =
  ad_permit :: "u64 option"
  ad_model :: "'p model_ops"
  ad_normalized :: normalized_model_request
  ad_pipeline :: 'p

record ('a, 'p) placed =
  pd_admitted :: "'p admitted"
  pd_plan :: placement_plan
  pd_adapter :: 'a
  pd_permit :: execution_permit
  pd_waiting_requests :: "u64 option"
  pd_request_id :: request_id

record ('a, 'p) stream_state =
  sg_placed :: "('a, 'p) placed"
  sg_pipeline :: 'p
  sg_items :: engine_stream
  sg_metadata :: plan_execution_metadata
  sg_started :: instant
  sg_first_output :: "instant option"
  sg_out :: "(model_event, inference_error) result list"
  sg_stop :: bool
  sg_ended :: bool
  sg_completed :: bool
  sg_terminal_error :: bool

datatype ('a, 'p) phase =
    PhNew
  | PhWaiting tenant_policy u64 "'p model_ops" normalized_model_request
  | PhAdmitted "'p admitted"
  | PhPlanned "'p admitted" planning_input
  | PhExecuting "('a, 'p) placed"
  | PhStreaming "('a, 'p) stream_state"
  | PhFailed inference_error
  | PhGone

type_synonym ('a, 'p, 'w) phase_result = "('a, 'p) phase \<times> effect list \<times> ('a, 'w) service_world"

definition fail_admitted ::
    "('a, 'p, 'w) service \<Rightarrow> infer_env \<Rightarrow> operation_context \<Rightarrow> u64 option \<Rightarrow> inference_error
     \<Rightarrow> ('a, 'w) service_world \<Rightarrow> ('a, 'p, 'w) phase_result" where
  "fail_admitted svc env context permit error w =
     (case normalize_admitted_error svc env context error w of
        (error, effects, w) \<Rightarrow> (PhFailed error, effects, drop_admission svc env permit w))"

definition fail_context ::
    "('a, 'p, 'w) service \<Rightarrow> infer_env \<Rightarrow> operation_context \<Rightarrow> u64 option \<Rightarrow> context_error
     \<Rightarrow> ('a, 'w) service_world \<Rightarrow> ('a, 'p, 'w) phase_result" where
  "fail_context svc env context permit e w =
     (PhFailed (IfContext e), [Reported (context_termination_reason e)],
      drop_admission svc env permit (record_traffic_termination svc context (context_termination_reason e) w))"

subsection \<open>Up to the admission\<close>

definition infer_token_cost :: "('a, 'p, 'w) service \<Rightarrow> canonical_request \<Rightarrow> u64" where
  "infer_token_cost svc request =
     sat_add64 (request_token_count request)
       (case sp_max_output_tokens (rq_sampling request) of
          Some n \<Rightarrow> n
        | None \<Rightarrow> (case sv_traffic svc of None \<Rightarrow> 16 | Some tc \<Rightarrow> default_output_tokens tc))"

definition infer_prepare ::
    "('a, 'p, 'w) service \<Rightarrow> infer_env \<Rightarrow> model_request \<Rightarrow> operation_context \<Rightarrow> ('a, 'w) service_world
     \<Rightarrow> ('p model_ops \<times> normalized_model_request, inference_error) result" where
  "infer_prepare svc env request context w =
     and_then (map_sum IfContext id (check_active env 0 context w)) (\<lambda>_.
     and_then (map_sum IfModelIo id (model_resolve (mq_model request) (sv_catalog svc))) (\<lambda>model.
     and_then (map_sum IfModelIo id (mdl_normalize model request (oc_request_id context))) (\<lambda>normalized.
     and_then (map_sum IfContext id (check_active env 1 context w)) (\<lambda>_. Inr (model, normalized)))))"

definition open_pipeline ::
    "('a, 'p, 'w) service \<Rightarrow> infer_env \<Rightarrow> operation_context \<Rightarrow> u64 option \<Rightarrow> 'p model_ops \<Rightarrow> normalized_model_request
     \<Rightarrow> ('a, 'w) service_world \<Rightarrow> ('a, 'p, 'w) phase_result" where
  "open_pipeline svc env context permit model normalized w =
     (case mdl_output_pipeline model (nm_output_contract normalized) of
        Inl e \<Rightarrow> (PhFailed (IfModelIo e), [Reported ''request_error''],
                  drop_admission svc env permit (record_traffic_termination svc context ''request_error'' w))
      | Inr pipeline \<Rightarrow>
          (PhAdmitted \<lparr>ad_permit = permit, ad_model = model, ad_normalized = normalized, ad_pipeline = pipeline\<rparr>, [], w))"

definition infer_begin ::
    "('a, 'p, 'w) service \<Rightarrow> infer_env \<Rightarrow> model_request \<Rightarrow> operation_context \<Rightarrow> ('a, 'w) service_world
     \<Rightarrow> ('a, 'p, 'w) phase_result" where
  "infer_begin svc env request context w =
     (case infer_prepare svc env request context w of
        Inl e \<Rightarrow> (PhFailed e, [], w)
      | Inr (model, normalized) \<Rightarrow>
          (case sv_traffic svc of
             None \<Rightarrow> open_pipeline svc env context None model normalized w
           | Some tc \<Rightarrow>
               (case admit_begin tc (infer_token_cost svc (nm_canonical normalized)) context
                       (sw_cancelled w \<union> fst (ve_view env 2)) (snd (ve_view env 2)) (sw_traffic w) of
                  (Inl e, traffic) \<Rightarrow> (PhFailed (IfAdmission e), [], w\<lparr>sw_traffic := traffic\<rparr>)
                | (Inr ticket, traffic) \<Rightarrow>
                    (PhWaiting (the (bt_get (tc_tenants tc) (the (oc_tenant_id context)))) ticket model normalized, [],
                     w\<lparr>sw_traffic := traffic\<rparr>))))"

definition infer_admitted ::
    "('a, 'p, 'w) service \<Rightarrow> infer_env \<Rightarrow> operation_context \<Rightarrow> tenant_policy \<Rightarrow> u64 \<Rightarrow> 'p model_ops
     \<Rightarrow> normalized_model_request \<Rightarrow> ('a, 'w) service_world \<Rightarrow> ('a, 'p, 'w) phase_result" where
  "infer_admitted svc env context tenant ticket model normalized w =
     (case admit_end (the (sv_traffic svc)) tenant ticket (ve_wait env) (ve_now env) (sw_traffic w) of
        (Inl e, traffic) \<Rightarrow> (PhFailed (IfAdmission e), [], w\<lparr>sw_traffic := traffic\<rparr>)
      | (Inr permit, traffic) \<Rightarrow>
          open_pipeline svc env context (Some permit) model normalized (w\<lparr>sw_traffic := traffic\<rparr>))"

subsection \<open>Placement\<close>

definition infer_planned ::
    "('a, 'p, 'w) service \<Rightarrow> infer_env \<Rightarrow> operation_context \<Rightarrow> 'p admitted \<Rightarrow> ('a, 'w) service_world
     \<Rightarrow> ('a, 'p, 'w) phase_result" where
  "infer_planned svc env context ad w =
     (case run_await (ve_await env)
             (planning_input_for (sv_debug svc) (sv_discovery svc) (rw_entries (sw_registry w)) (sv_store svc)
               (sv_policy svc) (nm_canonical (ad_normalized ad))) (sw_engine w) of
        (Inr (Inr input), engine) \<Rightarrow> (PhPlanned ad input, [], w\<lparr>sw_engine := engine\<rparr>)
      | (Inr (Inl e), engine) \<Rightarrow>
          fail_admitted svc env context (ad_permit ad) (inference_error_of_placement e) (w\<lparr>sw_engine := engine\<rparr>)
      | (Inl e, engine) \<Rightarrow> fail_context svc env context (ad_permit ad) e (w\<lparr>sw_engine := engine\<rparr>))"

definition waiting_requests_of :: "infer_env \<Rightarrow> planning_input \<Rightarrow> placement_plan \<Rightarrow> u64 option" where
  "waiting_requests_of env input pl =
     (case find (\<lambda>c. et_id (pc_target c) = et_id (pp_target pl)) (in_candidates input) of
        None \<Rightarrow> None
      | Some c \<Rightarrow>
          if telemetry_is_fresh_at (pc_snapshot c) (ve_unix_millis env) then es_waiting_requests (pc_snapshot c) else None)"

text \<open>After the selection: look up the adapter and register the execution.\<close>

definition place ::
    "('a, 'p, 'w) service \<Rightarrow> infer_env \<Rightarrow> operation_context \<Rightarrow> 'p admitted \<Rightarrow> planning_input \<Rightarrow> placement_plan
     \<Rightarrow> ('a, 'w) service_world \<Rightarrow> ('a, 'p, 'w) phase_result" where
  "place svc env context ad input pl w =
     (case adapter_for (sv_instance svc) (pp_target pl) (rw_entries (sw_registry w)) of
        Inl e \<Rightarrow> fail_admitted svc env context (ad_permit ad) (IfEngine e) w
      | Inr adapter \<Rightarrow>
          (case acquire_execution (sv_instance svc) (pp_target pl) context
                  (sw_cancelled w \<union> fst (ve_view env 3)) (snd (ve_view env 3)) (rw_entries (sw_registry w)) of
             (Inl e, _) \<Rightarrow> fail_admitted svc env context (ad_permit ad) (IfEngine e) w
           | (Inr permit, reg) \<Rightarrow>
               (PhExecuting \<lparr>pd_admitted = ad, pd_plan = pl, pd_adapter = adapter, pd_permit = permit,
                  pd_waiting_requests = waiting_requests_of env input pl, pd_request_id = rq_id (in_request input)\<rparr>, [],
                w\<lparr>sw_registry := \<lparr>rw_entries = reg, rw_permits = insert permit (rw_permits (sw_registry w))\<rparr>\<rparr>)))"

definition infer_selected ::
    "('a, 'p, 'w) service \<Rightarrow> infer_env \<Rightarrow> operation_context \<Rightarrow> 'p admitted \<Rightarrow> planning_input
     \<Rightarrow> ('a, 'w) service_world \<Rightarrow> ('a, 'p, 'w) phase_result" where
  "infer_selected svc env context ad input w =
     (case run_await (ve_await env)
             (select_plan (sv_cal_env svc) (ve_select env) (sv_planner svc) (sv_mode svc) input) (sw_cal w) of
        (Inr (Inr selection), cal) \<Rightarrow> place svc env context ad input (sel_plan selection) (w\<lparr>sw_cal := cal\<rparr>)
      | (Inr (Inl e), cal) \<Rightarrow>
          fail_admitted svc env context (ad_permit ad) (inference_error_of_placement e) (w\<lparr>sw_cal := cal\<rparr>)
      | (Inl e, cal) \<Rightarrow> fail_context svc env context (ad_permit ad) e (w\<lparr>sw_cal := cal\<rparr>))"

subsection \<open>Execution\<close>

text \<open>
  The executor looks engines up in the same registry. What has become of the engine by the time of
  a later look-up, such as a restart under a new generation, is in the world of the engines: the
  look-up of \<open>ops\<close> answers for it.
\<close>

definition registry_ops ::
    "('a \<Rightarrow> engine_instance) \<Rightarrow> 'a engine_registry \<Rightarrow> 'w adapter_ops \<Rightarrow> 'w adapter_ops" where
  "registry_ops inst reg ops =
     ops\<lparr>op_lookup := (\<lambda>target w. and_then (adapter_for inst target reg) (\<lambda>_. op_lookup ops target w))\<rparr>"

definition drop_permits ::
    "('a, 'p, 'w) service \<Rightarrow> infer_env \<Rightarrow> ('a, 'p) placed \<Rightarrow> ('a, 'w) service_world \<Rightarrow> ('a, 'w) service_world" where
  "drop_permits svc env pd w = drop_admission svc env (ad_permit (pd_admitted pd)) (drop_execution (pd_permit pd) w)"

definition execution_failed ::
    "('a, 'p, 'w) service \<Rightarrow> infer_env \<Rightarrow> operation_context \<Rightarrow> ('a, 'p) placed \<Rightarrow> plan_execution_error
     \<Rightarrow> ('a, 'w) service_world \<Rightarrow> ('a, 'p, 'w) phase_result" where
  "execution_failed svc env context pd error w =
     (case check_active env 2 context w of
        Inl e \<Rightarrow>
          (PhFailed (IfExecution error), [EngineCancelSent, Reported (context_termination_reason e)],
           drop_permits svc env pd (record_traffic_termination svc context (context_termination_reason e)
             (cancel_engine_request svc env (pd_adapter pd) (pd_request_id pd) w)))
      | Inr _ \<Rightarrow>
          (PhFailed (IfExecution error), [Reported ''engine_error''],
           drop_permits svc env pd (record_traffic_termination svc context ''engine_error'' w)))"

definition new_stream :: "infer_env \<Rightarrow> ('a, 'p) placed \<Rightarrow> plan_execution \<Rightarrow> ('a, 'p) stream_state" where
  "new_stream env pd ex =
     \<lparr>sg_placed = pd, sg_pipeline = ad_pipeline (pd_admitted pd), sg_items = px_stream ex, sg_metadata = px_metadata ex,
      sg_started = ve_now env, sg_first_output = None, sg_out = [], sg_stop = False, sg_ended = False,
      sg_completed = False, sg_terminal_error = False\<rparr>"

definition infer_executed ::
    "('a, 'p, 'w) service \<Rightarrow> infer_env \<Rightarrow> operation_context \<Rightarrow> ('a, 'p) placed \<Rightarrow> ('a, 'w) service_world
     \<Rightarrow> ('a, 'p, 'w) phase_result" where
  "infer_executed svc env context pd w =
     (case execute_plan (registry_ops (sv_instance svc) (rw_entries (sw_registry w)) (sv_adapter_ops svc)) (sv_others svc) (ve_exec env)
             (sw_cancelled w \<union> fst (ve_view env 0)) (snd (ve_view env 0)) (pd_plan pd)
             (nm_canonical (ad_normalized (pd_admitted pd))) context (sw_engine w) of
        (Inl e, engine) \<Rightarrow> execution_failed svc env context pd e (w\<lparr>sw_engine := engine\<rparr>)
      | (Inr ex, engine) \<Rightarrow> (PhStreaming (new_stream env pd ex), [], w\<lparr>sw_engine := engine\<rparr>))"

section \<open>The event stream\<close>

definition is_output_event :: "engine_event \<Rightarrow> bool" where
  "is_output_event event =
     (case event of
        TokenDelta _ _ _ \<Rightarrow> True | TextDelta _ _ _ \<Rightarrow> True | ReasoningDelta _ _ _ \<Rightarrow> True
      | ToolCallStarted _ _ _ _ \<Rightarrow> True | ToolCallArgumentsDelta _ _ _ _ \<Rightarrow> True | ToolCallCompleted _ _ _ \<Rightarrow> True
      | _ \<Rightarrow> False)"

definition terminal_reason :: "engine_event \<Rightarrow> string option" where
  "terminal_reason event =
     (case event of
        Finished _ reason _ \<Rightarrow>
          Some (case reason of FinishCancelled \<Rightarrow> ''cancelled'' | FinishError \<Rightarrow> ''engine_error'' | _ \<Rightarrow> ''completed'')
      | _ \<Rightarrow> None)"

definition elapsed_between_micros :: "instant \<Rightarrow> instant \<Rightarrow> u64" where
  "elapsed_between_micros started finished = min ((finished - started) div 1000) u64_max"

definition materialization_observation_of :: "materialization_timing \<Rightarrow> materialization_observation" where
  "materialization_observation_of timing =
     \<lparr>mob_store = mt_store timing, mob_state_kind = mt_state_kind timing, mob_target_id = mt_target_id timing,
      mob_estimated_micros = mt_store_estimated_micros timing, mob_actual_micros = mt_actual_micros timing\<rparr>"

definition observation_of ::
    "instant \<Rightarrow> ('a, 'p) stream_state \<Rightarrow> engine_finish_reason \<Rightarrow> usage \<Rightarrow> calibration_observation" where
  "observation_of now s reason usage =
     (let metadata = sg_metadata s in
      \<lparr>cob_key = key_from_target (pp_target (pd_plan (sg_placed s))),
       cob_waiting_requests = pd_waiting_requests (sg_placed s),
       cob_input_tokens = us_input_tokens usage,
       cob_output_tokens = sat_sub64 (us_output_tokens usage) 1,
       cob_time_to_first_token_micros =
         (if pm_fallback_used metadata then None
          else map_option (\<lambda>first. sat_sub64 (elapsed_between_micros (sg_started s) first)
            (case pm_materialization metadata of None \<Rightarrow> 0 | Some timing \<Rightarrow> mt_actual_micros timing)) (sg_first_output s)),
       cob_generation_micros = map_option (\<lambda>first. elapsed_between_micros first now) (sg_first_output s),
       cob_topology_micros = pm_topology_micros metadata,
       cob_materialization = map_option materialization_observation_of (pm_materialization metadata),
       cob_completed = (reason \<noteq> FinishCancelled \<and> reason \<noteq> FinishError)\<rparr>)"

text \<open>
  Recording the observation in a blocking task under the context: only an interruption matters to
  the stream, a failure is logged.
\<close>

definition observe ::
    "('a, 'p, 'w) service \<Rightarrow> infer_env \<Rightarrow> calibration_observation \<Rightarrow> ('a, 'w) service_world
     \<Rightarrow> (unit, context_error) result \<times> ('a, 'w) service_world" where
  "observe svc env obs w =
     (case run_await (ve_observe env)
             (run_task (ve_observe_task env) (record_observation (sv_cal_env svc) (ve_observe_faults env) obs)) (sw_cal w) of
        (Inl e, cal) \<Rightarrow> (Inl e, w\<lparr>sw_cal := cal\<rparr>)
      | (Inr _, cal) \<Rightarrow> (Inr (), w\<lparr>sw_cal := cal\<rparr>))"

text \<open>
  One iteration of the loop: what it yields, whether the generator returns after that, and its
  effects. An error is yielded and ends the generator (\<open>try_stream!\<close>).
\<close>

type_synonym ('a, 'p, 'w) iteration =
  "(model_event, inference_error) result list \<times> bool \<times> effect list \<times> ('a, 'p) stream_state \<times> ('a, 'w) service_world"

definition iteration_error ::
    "('a, 'p, 'w) service \<Rightarrow> operation_context \<Rightarrow> string \<Rightarrow> inference_error \<Rightarrow> ('a, 'p) stream_state
     \<Rightarrow> ('a, 'w) service_world \<Rightarrow> ('a, 'p, 'w) iteration" where
  "iteration_error svc context reason error s w =
     ([Inl error], True, [Reported reason], s, record_traffic_termination svc context reason w)"

definition process_event ::
    "('a, 'p, 'w) service \<Rightarrow> operation_context \<Rightarrow> engine_event \<Rightarrow> ('a, 'p) stream_state \<Rightarrow> ('a, 'w) service_world
     \<Rightarrow> ('a, 'p, 'w) iteration" where
  "process_event svc context event s w =
     (case mdl_process (ad_model (pd_admitted (sg_placed s))) event (sg_pipeline s) of
        (Inl e, pipeline) \<Rightarrow>
          iteration_error svc context ''request_error'' (IfModelIo e) (s\<lparr>sg_pipeline := pipeline\<rparr>) w
      | (Inr processed, pipeline) \<Rightarrow>
          (case terminal_reason event of
             None \<Rightarrow> (map Inr processed, False, [], s\<lparr>sg_pipeline := pipeline\<rparr>, w)
           | Some reason \<Rightarrow>
               (map Inr processed, True, [Reported reason], s\<lparr>sg_pipeline := pipeline\<rparr>,
                record_traffic_termination svc context reason w)))"

definition stream_iterate ::
    "('a, 'p, 'w) service \<Rightarrow> infer_env \<Rightarrow> operation_context \<Rightarrow> ('a, 'p) stream_state \<Rightarrow> ('a, 'w) service_world
     \<Rightarrow> ('a, 'p, 'w) iteration" where
  "stream_iterate svc env context s w =
     (case ve_await env of
        Interrupted e _ \<Rightarrow> iteration_error svc context (context_termination_reason e) (IfContext e) s w
      | Completes \<Rightarrow>
          (case sg_items s of
             [] \<Rightarrow> iteration_error svc context ''engine_error''
                     (IfEngine (EngineExecution ''engine stream ended without a terminal event'')) s w
           | Inl e # items \<Rightarrow> iteration_error svc context ''engine_error'' (IfEngine e) (s\<lparr>sg_items := items\<rparr>) w
           | Inr event # items \<Rightarrow>
               (let s = s\<lparr>sg_items := items,
                          sg_first_output := (if sg_first_output s = None \<and> is_output_event event
                                              then Some (ve_now env) else sg_first_output s)\<rparr> in
                case event of
                  Finished _ reason usage \<Rightarrow>
                    (case observe svc env (observation_of (ve_now env) s reason usage) w of
                       (Inl e, w) \<Rightarrow> iteration_error svc context (context_termination_reason e) (IfContext e) s w
                     | (Inr _, w) \<Rightarrow> process_event svc context event s w)
                | _ \<Rightarrow> process_event svc context event s w)))"

text \<open>Polling the generator: it yields, ends, or is pending after an iteration without output.\<close>

datatype poll = Pending | Ready "(model_event, inference_error) result option"

definition poll_inner ::
    "('a, 'p, 'w) service \<Rightarrow> infer_env \<Rightarrow> operation_context \<Rightarrow> ('a, 'p) stream_state \<Rightarrow> ('a, 'w) service_world
     \<Rightarrow> poll \<times> effect list \<times> ('a, 'p) stream_state \<times> ('a, 'w) service_world" where
  "poll_inner svc env context s w =
     (case sg_out s of
        x # xs \<Rightarrow> (Ready (Some x), [], s\<lparr>sg_out := xs\<rparr>, w)
      | [] \<Rightarrow>
          if sg_ended s then (Ready None, [], s, w)
          else if sg_stop s then (Ready None, [], s\<lparr>sg_ended := True\<rparr>, drop_permits svc env (sg_placed s) w)
          else
            (case stream_iterate svc env context s w of
               (x # xs, stop, effects, s, w) \<Rightarrow> (Ready (Some x), effects, s\<lparr>sg_out := xs, sg_stop := stop\<rparr>, w)
             | ([], True, effects, s, w) \<Rightarrow>
                 (Ready None, effects, s\<lparr>sg_stop := True, sg_ended := True\<rparr>, drop_permits svc env (sg_placed s) w)
             | ([], False, effects, s, w) \<Rightarrow> (Pending, effects, s, w)))"

fun is_finished :: "model_event \<Rightarrow> bool" where
  "is_finished (EvFinished _ _ _) = True"
| "is_finished _ = False"

definition poll_next ::
    "('a, 'p, 'w) service \<Rightarrow> infer_env \<Rightarrow> operation_context \<Rightarrow> ('a, 'p) stream_state \<Rightarrow> ('a, 'w) service_world
     \<Rightarrow> poll \<times> effect list \<times> ('a, 'p) stream_state \<times> ('a, 'w) service_world" where
  "poll_next svc env context s w =
     (case poll_inner svc env context s w of
        (result, effects, s, w) \<Rightarrow>
          (result, effects,
           s\<lparr>sg_completed := sg_completed s \<or>
                (case result of Ready None \<Rightarrow> True | Ready (Some (Inr event)) \<Rightarrow> is_finished event | _ \<Rightarrow> False),
             sg_terminal_error := sg_terminal_error s \<or>
                (case result of Ready (Some (Inl _)) \<Rightarrow> True | _ \<Rightarrow> False)\<rparr>, w))"

text \<open>Dropping the stream: \<open>CancelOnDropStream::drop\<close>, then the permits the generator still owns.\<close>

definition drop_stream ::
    "('a, 'p, 'w) service \<Rightarrow> infer_env \<Rightarrow> operation_context \<Rightarrow> ('a, 'p) stream_state \<Rightarrow> ('a, 'w) service_world
     \<Rightarrow> effect list \<times> ('a, 'w) service_world" where
  "drop_stream svc env context s w =
     (let (effects, w) =
        (if sg_completed s then ([], w)
         else
           (let w = w\<lparr>sw_cancelled := cancel (oc_cancellation context) (sw_cancelled w)\<rparr>;
                (report, w) = (if sg_terminal_error s then ([], w)
                  else ([Reported ''client_cancelled''], record_traffic_termination svc context ''client_cancelled'' w))
            in if ve_has_runtime env
               then (report @ [EngineCancelSent],
                     cancel_engine_request svc env (pd_adapter (sg_placed s)) (pd_request_id (sg_placed s)) w)
               else (report, w)))
      in (effects, if sg_ended s then w else drop_permits svc env (sg_placed s) w))"

subsection \<open>What the helpers change\<close>

lemma termination_frame [simp]:
  "sw_registry (record_traffic_termination svc ctx reason w) = sw_registry w"
  "sw_cal (record_traffic_termination svc ctx reason w) = sw_cal w"
  "sw_engine (record_traffic_termination svc ctx reason w) = sw_engine w"
  "sw_cancelled (record_traffic_termination svc ctx reason w) = sw_cancelled w"
  "sv_traffic svc = Some tc \<Longrightarrow>
     sw_traffic (record_traffic_termination svc ctx reason w) = record_termination tc ctx reason (sw_traffic w)"
  by (simp_all add: record_traffic_termination_def split: option.split)

lemma cancel_engine_request_frame [simp]:
  "sw_registry (cancel_engine_request svc env a rid w) = sw_registry w"
  "sw_traffic (cancel_engine_request svc env a rid w) = sw_traffic w"
  "sw_cal (cancel_engine_request svc env a rid w) = sw_cal w"
  "sw_cancelled (cancel_engine_request svc env a rid w) = sw_cancelled w"
  by (simp_all add: cancel_engine_request_def Let_def split: prod.split)

lemma drop_frame [simp]:
  "sw_registry (drop_admission svc env k w) = sw_registry w"
  "sw_cancelled (drop_admission svc env k w) = sw_cancelled w"
  "sw_cal (drop_admission svc env k w) = sw_cal w"
  "sw_traffic (drop_execution permit w) = sw_traffic w"
  "sw_cancelled (drop_execution permit w) = sw_cancelled w"
  "sw_cal (drop_execution permit w) = sw_cal w"
  by (simp_all add: drop_admission_def drop_execution_def Let_def split: option.split)

lemma drop_permits_frame [simp]:
  "sw_cancelled (drop_permits svc env pd w) = sw_cancelled w" "sw_cal (drop_permits svc env pd w) = sw_cal w"
  by (simp_all add: drop_permits_def)

section \<open>Reports\<close>

record target_inventory =
  ti_ready_models :: "model_execution_identity set"
  ti_observed_targets :: usize
  ti_ready_targets :: usize
  ti_failures :: "discovery_failure list"

definition inventory_target ::
    "('a, 'p, 'w) service \<Rightarrow> 'a \<Rightarrow> target_inventory \<Rightarrow> execution_target \<Rightarrow> target_inventory" where
  "inventory_target svc adapter acc target =
     (let acc = acc\<lparr>ti_observed_targets := wrap_add64 (ti_observed_targets acc) 1\<rparr> in
      if et_model target \<notin> mp_model ` set (model_profiles (sv_catalog svc))
      then acc\<lparr>ti_failures := ti_failures acc @ [NoSemanticProfile (et_id target)]\<rparr>
      else
        (case dp_snapshot (sv_discovery svc) adapter target of
           Inl e \<Rightarrow> acc\<lparr>ti_failures := ti_failures acc @ [AdapterFailed e]\<rparr>
         | Inr snapshot \<Rightarrow>
             if es_ready snapshot
             then acc\<lparr>ti_ready_targets := wrap_add64 (ti_ready_targets acc) 1,
                      ti_ready_models := insert (et_model target) (ti_ready_models acc)\<rparr>
             else acc\<lparr>ti_failures := ti_failures acc @ [TargetNotReady (et_id target)]\<rparr>))"

definition inventory_adapter :: "('a, 'p, 'w) service \<Rightarrow> target_inventory \<Rightarrow> 'a \<Rightarrow> target_inventory" where
  "inventory_adapter svc acc adapter =
     (case dp_targets (sv_discovery svc) adapter of
        Inl e \<Rightarrow> acc\<lparr>ti_failures := ti_failures acc @ [AdapterFailed e]\<rparr>
      | Inr targets \<Rightarrow> foldl (inventory_target svc adapter) acc targets)"

definition target_inventory_of :: "('a, 'p, 'w) service \<Rightarrow> ('a, 'w) service_world \<Rightarrow> target_inventory" where
  "target_inventory_of svc w =
     foldl (inventory_adapter svc)
       \<lparr>ti_ready_models = {}, ti_observed_targets = 0, ti_ready_targets = 0, ti_failures = []\<rparr>
       (routable_adapters (rw_entries (sw_registry w)))"

definition models :: "('a, 'p, 'w) service \<Rightarrow> ('a, 'w) service_world \<Rightarrow> model_profile list" where
  "models svc w =
     filter (\<lambda>profile. mp_model profile \<in> ti_ready_models (target_inventory_of svc w)) (model_profiles (sv_catalog svc))"

record readiness_report =
  rr_model_profiles :: usize
  rr_routable_models :: usize
  rr_required_models :: usize
  rr_ready_targets :: usize
  rr_observed_targets :: usize
  rr_placement_mode :: placement_mode
  rr_calibration_revision :: u64
  rr_calibration_persistent :: bool
  rr_calibration_persistence_healthy :: bool
  rr_traffic_draining :: bool

fun missing_models ::
    "('a, 'p, 'w) service \<Rightarrow> model_execution_identity set \<Rightarrow> string list \<Rightarrow> (string list, inference_error) result" where
  "missing_models svc ready [] = Inr []"
| "missing_models svc ready (alias # aliases) =
     (case model_resolve alias (sv_catalog svc) of
        Inl _ \<Rightarrow> Inl (IfDiscovery (RequiredWithoutProfile alias))
      | Inr model \<Rightarrow>
          and_then (missing_models svc ready aliases) (\<lambda>missing.
            Inr (if mp_model (mdl_profile model) \<notin> ready then alias # missing else missing)))"

definition readiness :: "('a, 'p, 'w) service \<Rightarrow> ('a, 'w) service_world \<Rightarrow> (readiness_report, inference_error) result" where
  "readiness svc w =
     (let inventory = target_inventory_of svc w; profiles = model_profiles (sv_catalog svc) in
      if profiles = [] then Inl (IfDiscovery NoProfilesRegistered)
      else if ti_ready_models inventory = {} then Inl (IfDiscovery (NoReadyTarget (ti_failures inventory)))
      else and_then (missing_models svc (ti_ready_models inventory) (bt_keys (sv_required_models svc))) (\<lambda>missing.
        if missing \<noteq> [] then Inl (IfDiscovery (RequiredNotReady missing (ti_failures inventory)))
        else
          (let calibration = calibrator_status (cw_cal (sw_cal w)) in
           Inr \<lparr>rr_model_profiles = length profiles, rr_routable_models = length (models svc w),
                rr_required_models = bt_len (sv_required_models svc),
                rr_ready_targets = ti_ready_targets inventory, rr_observed_targets = ti_observed_targets inventory,
                rr_placement_mode = sv_mode svc, rr_calibration_revision = cs_revision calibration,
                rr_calibration_persistent = cs_persistent calibration,
                rr_calibration_persistence_healthy = cs_persistence_healthy calibration,
                rr_traffic_draining = (sv_traffic svc \<noteq> None \<and> is_draining (sw_traffic w))\<rparr>)))"

subsection \<open>What the reports say\<close>

text \<open>A model is served when a routable engine has a ready target for it and the catalog knows it.\<close>

definition model_served :: "('a, 'p, 'w) service \<Rightarrow> ('a, 'w) service_world \<Rightarrow> model_execution_identity \<Rightarrow> bool" where
  "model_served svc w m \<longleftrightarrow>
     m \<in> mp_model ` set (model_profiles (sv_catalog svc)) \<and>
     (\<exists>adapter targets target snapshot.
        adapter \<in> set (routable_adapters (rw_entries (sw_registry w))) \<and>
        dp_targets (sv_discovery svc) adapter = Inr targets \<and> target \<in> set targets \<and> et_model target = m \<and>
        dp_snapshot (sv_discovery svc) adapter target = Inr snapshot \<and> es_ready snapshot)"

lemma inventory_target_ready:
  "ti_ready_models (inventory_target svc adapter acc target) =
     ti_ready_models acc \<union>
     {m. m = et_model target \<and> m \<in> mp_model ` set (model_profiles (sv_catalog svc)) \<and>
         (\<exists>snapshot. dp_snapshot (sv_discovery svc) adapter target = Inr snapshot \<and> es_ready snapshot)}"
  by (auto simp: inventory_target_def Let_def split: sum.splits)

lemma inventory_targets_ready:
  "ti_ready_models (foldl (inventory_target svc adapter) acc targets) =
     ti_ready_models acc \<union>
     {m. m \<in> mp_model ` set (model_profiles (sv_catalog svc)) \<and>
         (\<exists>target snapshot. target \<in> set targets \<and> et_model target = m \<and>
            dp_snapshot (sv_discovery svc) adapter target = Inr snapshot \<and> es_ready snapshot)}"
  by (induction targets arbitrary: acc) (auto simp: inventory_target_ready)

lemma inventory_adapters_ready:
  "ti_ready_models (foldl (inventory_adapter svc) acc al) =
     ti_ready_models acc \<union>
     {m. m \<in> mp_model ` set (model_profiles (sv_catalog svc)) \<and>
         (\<exists>adapter targets target snapshot. adapter \<in> set al \<and>
            dp_targets (sv_discovery svc) adapter = Inr targets \<and> target \<in> set targets \<and> et_model target = m \<and>
            dp_snapshot (sv_discovery svc) adapter target = Inr snapshot \<and> es_ready snapshot)}"
proof (induction al arbitrary: acc)
  case (Cons a al)
  have "ti_ready_models (inventory_adapter svc acc a) =
     ti_ready_models acc \<union>
     {m. m \<in> mp_model ` set (model_profiles (sv_catalog svc)) \<and>
         (\<exists>targets target snapshot.
            dp_targets (sv_discovery svc) a = Inr targets \<and> target \<in> set targets \<and> et_model target = m \<and>
            dp_snapshot (sv_discovery svc) a target = Inr snapshot \<and> es_ready snapshot)}"
    by (cases "dp_targets (sv_discovery svc) a") (simp_all add: inventory_adapter_def inventory_targets_ready)
  with Cons show ?case by auto
qed simp

lemma inventory_ready: "ti_ready_models (target_inventory_of svc w) = {m. model_served svc w m}"
  by (simp add: target_inventory_of_def inventory_adapters_ready model_served_def)

lemma missing_models_Inr_iff:
  "missing_models svc ready aliases = Inr [] \<longleftrightarrow>
     set aliases \<subseteq> {alias. \<exists>model. model_resolve alias (sv_catalog svc) = Inr model \<and> mp_model (mdl_profile model) \<in> ready}"
  by (induction aliases) (auto simp: and_then_Inr_iff split: sum.splits)

text \<open>
  What readiness means. The service reports ready exactly when it serves some model and every
  required alias resolves to a model it serves; and it lists exactly the profiles of the models it
  serves. Serving is defined over the routable engines: a ready target whose model the catalog knows.
\<close>

lemma readiness_iff:
  "(is_ok (readiness svc w) \<longleftrightarrow>
      (\<exists>m. model_served svc w m) \<and>
      set (bt_keys (sv_required_models svc)) \<subseteq>
        {alias. \<exists>model. model_resolve alias (sv_catalog svc) = Inr model \<and> model_served svc w (mp_model (mdl_profile model))}) \<and>
   set (models svc w) = {profile \<in> set (model_profiles (sv_catalog svc)). model_served svc w (mp_model profile)}"
proof -
  let ?missing = "missing_models svc {m. model_served svc w m} (bt_keys (sv_required_models svc))"
  have profiles: "model_profiles (sv_catalog svc) \<noteq> []" if "model_served svc w m" for m
    using that by (auto simp: model_served_def)
  have "is_ok (readiness svc w) \<longleftrightarrow> (\<exists>m. model_served svc w m) \<and> ?missing = Inr []"
  proof (cases "\<exists>m. model_served svc w m")
    case True
    then show ?thesis using profiles
      by (cases ?missing) (auto simp: readiness_def inventory_ready Let_def)
  next
    case False
    then show ?thesis by (auto simp: readiness_def inventory_ready Let_def)
  qed
  then show ?thesis by (auto simp: models_def inventory_ready missing_models_Inr_iff)
qed

end
