(* ===== verification/Api_Common.thy ===== *)
theory Api_Common
  imports Http Inference
begin

text \<open>
  What the two API front ends share: HTTP requests and responses as the crate \<open>axum\<close> hands them to
  the handlers, the reading of headers and of the request body, request identifiers, and the loop
  of a server-sent-event generator. A header value is a string of bytes; JSON bodies are values of
  \<open>Json\<close>, whose objects list their fields in the order of the \<open>json!\<close> literal (serde\_json
  prints them, which is not modelled). The Unix time is read when an event is generated, so an event
  is a function of the time at which it is yielded.
\<close>

section \<open>Requests and responses\<close>

record http_request =
  hq_method :: string
  hq_path :: string
  hq_headers :: "string \<rightharpoonup> string"
  hq_body :: "(string, string) result list"

datatype sse_data = SseJson json | SseText string

record sse_event =
  se_event :: "string option"
  se_data :: sse_data

datatype http_body = JsonBody json | TextBody string | SseBody "sse_event list"

record http_response =
  hs_status :: nat
  hs_headers :: "string \<rightharpoonup> string"
  hs_body :: http_body

definition json_response :: "nat \<Rightarrow> json \<Rightarrow> http_response" where
  "json_response status body = \<lparr>hs_status = status, hs_headers = Map.empty, hs_body = JsonBody body\<rparr>"

definition with_header :: "string \<Rightarrow> string \<Rightarrow> http_response \<Rightarrow> http_response" where
  "with_header name content response = response\<lparr>hs_headers := (hs_headers response)(name \<mapsto> content)\<rparr>"

lemma response_simps [simp]:
  "hs_status (json_response c b) = c" "hs_body (json_response c b) = JsonBody b"
  "hs_headers (json_response c b) = Map.empty"
  "hs_status (with_header n v r) = hs_status r" "hs_body (with_header n v r) = hs_body r"
  "hs_headers (with_header n v r) = (hs_headers r)(n \<mapsto> v)"
  by (simp_all add: json_response_def with_header_def)

text \<open>Texts of errors: \<open>Display\<close> of an inference error and of the reason of an invalid input.\<close>

record api_texts =
  tx_inference :: "inference_error \<Rightarrow> string"
  tx_input :: "input_reason \<Rightarrow> string"

definition no_texts :: api_texts where
  "no_texts = \<lparr>tx_inference = \<lambda>_. [], tx_input = \<lambda>_. []\<rparr>"

fun admission_error_text :: "admission_error \<Rightarrow> string" where
  "admission_error_text MissingTrustedTenant = ''request has no trusted tenant identity''"
| "admission_error_text (UnknownTenant t) = ''tenant policy was not found: '' @ t"
| "admission_error_text InvalidDeadline = ''request deadline must be greater than zero''"
| "admission_error_text (RequestTokenLimit requested limit) =
     ''request token cost '' @ nat_to_dec requested @ '' exceeds tenant limit '' @ nat_to_dec limit"
| "admission_error_text RequestExceedsCapacity = ''request token cost exceeds active admission capacity''"
| "admission_error_text QueueFull = ''admission queue is full''"
| "admission_error_text OverloadShed = ''request was shed by overload policy''"
| "admission_error_text Draining = ''traffic controller is draining''"
| "admission_error_text AdmissionCancelled = ''request was cancelled while waiting for admission''"
| "admission_error_text AdmissionDeadlineExceeded = ''request deadline expired while waiting for admission''"
| "admission_error_text AdmissionUnavailable = ''request admission is unavailable''"

text \<open>The errors that the front ends recognise as an interruption of the request's context.\<close>

fun inference_interrupt :: "inference_error \<Rightarrow> context_error option" where
  "inference_interrupt (IfContext e) = Some e"
| "inference_interrupt (IfEngine (EngineContext e)) = Some e"
| "inference_interrupt (IfExecution (PxContext e)) = Some e"
| "inference_interrupt (IfExecution (PxEngine (EngineContext e))) = Some e"
| "inference_interrupt _ = None"

record json_rejection =
  jr_status :: nat
  jr_body_text :: string

text \<open>Building blocks of the \<open>json!\<close> literals.\<close>

definition json_nat :: "nat \<Rightarrow> json" where
  "json_nat n = JNumber (nat_to_dec n)"

definition json_opt :: "('a \<Rightarrow> json) \<Rightarrow> 'a option \<Rightarrow> json" where
  "json_opt f x = (case x of None \<Rightarrow> JNull | Some v \<Rightarrow> f v)"

lemma json_opt_simps [simp]: "json_opt f None = JNull" "json_opt f (Some v) = f v"
  by (simp_all add: json_opt_def)

lemma json_nat_inject [simp]: "json_nat m = json_nat n \<longleftrightarrow> m = n"
  by (simp add: json_nat_def)

abbreviation newline :: string where
  "newline \<equiv> [char_of (10 :: nat)]"

text \<open>Reading a JSON value, as a client does.\<close>

definition json_get :: "string \<Rightarrow> json \<Rightarrow> json option" where
  "json_get key j = (case j of JObject obj \<Rightarrow> map_of obj key | _ \<Rightarrow> None)"

definition json_text :: "json option \<Rightarrow> string" where
  "json_text j = (case j of Some (JString t) \<Rightarrow> t | _ \<Rightarrow> [])"

section \<open>Headers\<close>

text \<open>\<open>HeaderValue::to_str\<close> accepts visible ASCII characters, spaces and tabs.\<close>

definition header_to_str :: "string \<Rightarrow> string option" where
  "header_to_str bytes =
     (if list_all (\<lambda>c. (32 \<le> (of_char c :: nat) \<and> (of_char c :: nat) < 127) \<or> (of_char c :: nat) = 9) bytes
      then Some bytes else None)"

definition strip_prefix :: "string \<Rightarrow> string \<Rightarrow> string option" where
  "strip_prefix p s = (if take (length p) s = p then Some (drop (length p) s) else None)"

lemma strip_prefix_iff: "strip_prefix p s = Some r \<longleftrightarrow> s = p @ r"
proof
  assume "strip_prefix p s = Some r"
  then have "take (length p) s = p" "drop (length p) s = r" by (auto simp: strip_prefix_def split: if_splits)
  then show "s = p @ r" by (metis append_take_drop_id)
qed (simp add: strip_prefix_def)

text \<open>\<open>str::parse::<u64>\<close>: an optional plus sign and at least one digit, within the range.\<close>

definition is_digit :: "char \<Rightarrow> bool" where
  "is_digit c \<longleftrightarrow> 48 \<le> (of_char c :: nat) \<and> (of_char c :: nat) \<le> 57"

definition digits_u64 :: "string \<Rightarrow> u64 option" where
  "digits_u64 s = (if s \<noteq> [] \<and> list_all is_digit s \<and> dec_to_nat s \<le> u64_max then Some (dec_to_nat s) else None)"

fun parse_u64 :: "string \<Rightarrow> u64 option" where
  "parse_u64 [] = None"
| "parse_u64 (c # cs) = (if c = CHR ''+'' then digits_u64 cs else digits_u64 (c # cs))"

lemma parse_u64_le: "parse_u64 s = Some n \<Longrightarrow> n \<le> u64_max"
  by (cases s) (auto simp: digits_u64_def split: if_splits)

lemma nat_to_dec_digits: "list_all is_digit (nat_to_dec n) \<and> nat_to_dec n \<noteq> []"
proof (induction n rule: nat_to_dec.induct)
  case (1 n)
  have digit: "is_digit (digit_char d)" if "d < 10" for d using that by (simp add: is_digit_def digit_char_def)
  then show ?case using 1 by (subst (1 2) nat_to_dec.simps) simp
qed

lemma parse_u64_dec: "n \<le> u64_max \<Longrightarrow> parse_u64 (nat_to_dec n) = Some n"
proof -
  assume n: "n \<le> u64_max"
  obtain c cs where s: "nat_to_dec n = c # cs" using nat_to_dec_digits by (cases "nat_to_dec n") auto
  then have "is_digit c" using nat_to_dec_digits [of n] by simp
  then have "c \<noteq> CHR ''+''" by (auto simp: is_digit_def)
  then show ?thesis
    using n nat_to_dec_digits [of n] dec_to_nat_to_dec [of n] unfolding s by (simp add: digits_u64_def)
qed

section \<open>The request body\<close>

datatype body_read_error = BodyTooLarge | BodyTransport string

fun read_bounded_body :: "usize \<Rightarrow> (string, string) result list \<Rightarrow> string \<Rightarrow> (string, body_read_error) result" where
  "read_bounded_body max_bytes [] bytes = Inr bytes"
| "read_bounded_body max_bytes (Inl error # chunks) bytes = Inl (BodyTransport error)"
| "read_bounded_body max_bytes (Inr chunk # chunks) bytes =
     (if length chunk > max_bytes - length bytes then Inl BodyTooLarge
      else read_bounded_body max_bytes chunks (bytes @ chunk))"

lemma read_bounded_body_within:
  "length bytes \<le> max_bytes \<Longrightarrow> read_bounded_body max_bytes chunks bytes = Inr body \<Longrightarrow>
   length body \<le> max_bytes \<and> (\<exists>cs. chunks = map Inr cs \<and> body = bytes @ concat cs)"
proof (induction max_bytes chunks bytes rule: read_bounded_body.induct)
  case (3 max_bytes chunk chunks bytes)
  then have fits: "length chunk \<le> max_bytes - length bytes" and read: "read_bounded_body max_bytes chunks (bytes @ chunk) = Inr body"
    by (simp_all split: if_splits)
  with 3 have "length body \<le> max_bytes \<and> (\<exists>cs. chunks = map Inr cs \<and> body = (bytes @ chunk) @ concat cs)"
    by (intro 3(1)) auto
  then obtain cs where "length body \<le> max_bytes" "chunks = map Inr cs" "body = (bytes @ chunk) @ concat cs"
    by blast
  then show ?case by (intro conjI exI [of _ "chunk # cs"]) auto
qed auto

lemma read_bounded_body_accepts:
  "length bytes + length (concat cs) \<le> max_bytes \<Longrightarrow>
   read_bounded_body max_bytes (map Inr cs) bytes = Inr (bytes @ concat cs)"
  by (induction cs arbitrary: bytes) auto

section \<open>Request identifiers\<close>

primrec hex_digits :: "nat \<Rightarrow> nat \<Rightarrow> string" where
  "hex_digits 0 n = []"
| "hex_digits (Suc k) n = hex_digits k (n div 16) @ [hex_char (n mod 16)]"

text \<open>The format \<open>{:016x}\<close> of a \<open>u64\<close>: sixteen digits are always enough.\<close>

definition hex_u64 :: "u64 \<Rightarrow> string" where
  "hex_u64 n = hex_digits 16 n"

lemma hex_char_inject: "a < 16 \<Longrightarrow> b < 16 \<Longrightarrow> hex_char a = hex_char b \<longleftrightarrow> a = b"
  by (auto simp: hex_char_def char_of_eq_iff take_bit_eq_mod split: if_splits)

lemma hex_digits_inject: "m < 16 ^ k \<Longrightarrow> n < 16 ^ k \<Longrightarrow> hex_digits k m = hex_digits k n \<longleftrightarrow> m = n"
proof (induction k arbitrary: m n)
  case (Suc k)
  have "m div 16 < 16 ^ k" "n div 16 < 16 ^ k" using Suc.prems by (auto simp: less_mult_imp_div_less mult.commute)
  then have "hex_digits (Suc k) m = hex_digits (Suc k) n \<longleftrightarrow> m div 16 = n div 16 \<and> m mod 16 = n mod 16"
    using Suc.IH by (simp add: hex_char_inject)
  then show ?case by (metis div_mod_decomp)
qed simp

lemma hex_digits_length [simp]: "length (hex_digits k n) = k"
  by (induction k arbitrary: n) auto

lemma hex_u64_inject: "m \<le> u64_max \<Longrightarrow> n \<le> u64_max \<Longrightarrow> hex_u64 m = hex_u64 n \<longleftrightarrow> m = n"
  unfolding hex_u64_def by (rule hex_digits_inject) (simp_all add: u64_max_def)

section \<open>Configuration and authentication\<close>

record api_config =
  ac_bearer_token :: "string option"
  ac_tenant_credentials :: "tenant_credential list"
  ac_anonymous_tenant :: "string option"
  ac_traffic :: traffic_controller
  ac_max_request_bytes :: usize

datatype api_config_error =
    EmptyBearerToken
  | ZeroRequestBodyLimit
  | AmbiguousCredentials
  | ConfigUnknownTenant string
  | ConfigDuplicateCredential

record 'd auth_state =
  as_credentials :: "'d credential_index"
  as_anonymous_tenant :: "string option"
  as_traffic :: traffic_controller
  as_next_request :: u64
  as_max_request_bytes :: usize

fun check_credentials :: "traffic_controller \<Rightarrow> tenant_credential list \<Rightarrow> (unit, api_config_error) result" where
  "check_credentials traffic [] = Inr ()"
| "check_credentials traffic (c # cs) =
     (if tcr_bearer_token c = [] then Inl EmptyBearerToken
      else if \<not> tenant_exists traffic (tcr_tenant_id c) then Inl (ConfigUnknownTenant (tcr_tenant_id c))
      else check_credentials traffic cs)"

definition api_credentials :: "api_config \<Rightarrow> tenant_credential list" where
  "api_credentials config = ac_tenant_credentials config @
     (case ac_bearer_token config of
        None \<Rightarrow> [] | Some token \<Rightarrow> [\<lparr>tcr_tenant_id = ''default'', tcr_bearer_token = token\<rparr>])"

definition make_auth_state ::
    "(string \<Rightarrow> 'd) \<Rightarrow> api_config \<Rightarrow> tenant_credential list \<Rightarrow> string option \<Rightarrow> ('d auth_state, api_config_error) result" where
  "make_auth_state digest config credentials anonymous_tenant =
     (case credential_index_new digest credentials of
        Inl EmptyCredential \<Rightarrow> Inl EmptyBearerToken
      | Inl DuplicateCredential \<Rightarrow> Inl ConfigDuplicateCredential
      | Inr index \<Rightarrow> Inr \<lparr>as_credentials = index, as_anonymous_tenant = anonymous_tenant,
          as_traffic = ac_traffic config, as_next_request = 1,
          as_max_request_bytes = ac_max_request_bytes config\<rparr>)"

record trusted_request =
  tr_response_id :: string
  tr_context :: operation_context

text \<open>What the authentication of one request meets: the clock, a fresh token, and how its two awaits end.\<close>

record auth_env =
  av_instant_max :: instant
  av_now :: instant
  av_token :: cancel_token
  av_body :: await_outcome
  av_next :: await_outcome

abbreviation request_timeout_header :: string where
  "request_timeout_header \<equiv> ''x-request-timeout-ms''"

definition bearer_candidate :: "(string \<rightharpoonup> string) \<Rightarrow> string option" where
  "bearer_candidate headers =
     Option.bind (headers ''authorization'') (\<lambda>bytes. Option.bind (header_to_str bytes) (strip_prefix ''Bearer ''))"

definition authenticated_tenant :: "(string \<Rightarrow> 'd) \<Rightarrow> 'd auth_state \<Rightarrow> string option \<Rightarrow> string option" where
  "authenticated_tenant digest auth candidate =
     (case candidate of
        Some c \<Rightarrow> index_authenticate digest (as_credentials auth) c
      | None \<Rightarrow> as_anonymous_tenant auth)"

definition is_read_method :: "http_request \<Rightarrow> bool" where
  "is_read_method request \<longleftrightarrow> hq_method request \<in> {''GET'', ''HEAD''}"

section \<open>Server-sent events\<close>

text \<open>An event as a function of the Unix time at which it is generated.\<close>

type_synonym chunk = "u64 \<Rightarrow> sse_event"

text \<open>The \<open>n\<close>-th event is generated at the time \<open>clock n\<close>.\<close>

definition stamp :: "(nat \<Rightarrow> u64) \<Rightarrow> chunk list \<Rightarrow> sse_event list" where
  "stamp clock chunks = map2 (\<lambda>i c. c (clock i)) [0..<length chunks] chunks"

lemma length_stamp [simp]: "length (stamp clock chunks) = length chunks"
  by (simp add: stamp_def)

lemma stamp_append:
  "stamp clock (a @ b) = stamp clock a @ stamp (\<lambda>i. clock (length a + i)) b"
  by (rule nth_equalityI) (auto simp: stamp_def nth_append)

lemma stamp_Nil [simp]: "stamp clock [] = []"
  by (simp add: stamp_def)

lemma stamp_Cons [simp]: "stamp clock (c # cs) = c (clock 0) # stamp (\<lambda>i. clock (Suc i)) cs"
  using stamp_append [of clock "[c]" cs] by (simp add: stamp_def)

text \<open>
  The generator loop of the front ends: it reads the model events one by one; an error yields one
  event and ends the loop; \<open>step\<close> is the body, which yields events, updates the local variables and
  says whether it breaks.
\<close>

type_synonym model_items = "(model_event, inference_error) result list"

fun sse_loop ::
    "('s \<Rightarrow> model_event \<Rightarrow> chunk list \<times> 's \<times> bool) \<Rightarrow> (inference_error \<Rightarrow> chunk) \<Rightarrow> 's \<Rightarrow> model_items \<Rightarrow> chunk list" where
  "sse_loop step fail s [] = []"
| "sse_loop step fail s (Inl error # items) = [fail error]"
| "sse_loop step fail s (Inr event # items) =
     (case step s event of (out, s', stop) \<Rightarrow> out @ (if stop then [] else sse_loop step fail s' items))"

definition sse_response :: "sse_event list \<Rightarrow> http_response" where
  "sse_response events = \<lparr>hs_status = 200, hs_headers = [''content-type'' \<mapsto> ''text/event-stream''],
     hs_body = SseBody events\<rparr>"

end
