(* ===== verification/OpenAI_Api.thy ===== *)
theory OpenAI_Api
  imports Api_Common
begin

text \<open>
  The OpenAI-compatible front end \<open>crates/openai/src/lib.rs\<close>, up to the call of the inference
  service: error values and their HTTP responses, the validation of the configuration, the
  authentication layer, the request types of the three endpoints and their translation to a model
  request. Deserialisation is serde's: a handler gets the request or a rejection. \<open>render\<close> is
  \<open>Value::to_string\<close>.
\<close>

section \<open>Errors\<close>

record api_error =
  ae_status :: nat
  ae_body :: json

definition api_error_new :: "nat \<Rightarrow> string \<Rightarrow> string \<Rightarrow> string option \<Rightarrow> string option \<Rightarrow> api_error" where
  "api_error_new status message error_type param code =
     \<lparr>ae_status = status,
      ae_body = JObject [(''message'', JString message), (''type'', JString error_type),
        (''param'', json_opt JString param), (''code'', json_opt JString code)]\<rparr>"

definition api_invalid :: "string \<Rightarrow> string \<Rightarrow> api_error" where
  "api_invalid param message =
     api_error_new 400 message ''invalid_request_error'' (Some param) (Some ''invalid_parameter'')"

definition api_invalid_json :: "string \<Rightarrow> api_error" where
  "api_invalid_json message = api_error_new 400 message ''invalid_request_error'' None (Some ''invalid_json'')"

definition api_unsupported :: "string \<Rightarrow> api_error" where
  "api_unsupported param =
     api_error_new 400 (''unsupported parameter: '' @ param) ''invalid_request_error'' (Some param)
       (Some ''unsupported_parameter'')"

definition api_into_response :: "api_error \<Rightarrow> http_response" where
  "api_into_response e =
     (let response = json_response (ae_status e) (JObject [(''error'', ae_body e)])
      in if ae_status e \<in> {429, 503} then with_header ''retry-after'' ''1'' response else response)"

definition api_error_from_admission :: "admission_error \<Rightarrow> api_error" where
  "api_error_from_admission error =
     (case error of
        AdmissionCancelled \<Rightarrow>
          api_error_new 499 (admission_error_text error) ''request_cancelled'' None (Some ''cancelled'')
      | AdmissionDeadlineExceeded \<Rightarrow>
          api_error_new 408 (admission_error_text error) ''request_timeout'' None (Some ''deadline_exceeded'')
      | RequestTokenLimit _ _ \<Rightarrow>
          api_error_new 400 (admission_error_text error) ''invalid_request_error'' (Some ''max_output_tokens'')
            (Some ''token_budget_exceeded'')
      | RequestExceedsCapacity \<Rightarrow>
          api_error_new 400 (admission_error_text error) ''invalid_request_error'' (Some ''max_output_tokens'')
            (Some ''token_budget_exceeded'')
      | InvalidDeadline \<Rightarrow>
          api_error_new 400 (admission_error_text error) ''invalid_request_error'' (Some ''max_output_tokens'')
            (Some ''token_budget_exceeded'')
      | QueueFull \<Rightarrow> api_error_new 429 (admission_error_text error) ''rate_limit_error'' None (Some ''overloaded'')
      | OverloadShed \<Rightarrow> api_error_new 429 (admission_error_text error) ''rate_limit_error'' None (Some ''overloaded'')
      | Draining \<Rightarrow>
          api_error_new 503 (admission_error_text error) ''server_error'' None (Some ''admission_unavailable'')
      | AdmissionUnavailable \<Rightarrow>
          api_error_new 503 (admission_error_text error) ''server_error'' None (Some ''admission_unavailable'')
      | MissingTrustedTenant \<Rightarrow>
          api_error_new 401 (admission_error_text error) ''authentication_error'' None (Some ''invalid_tenant'')
      | UnknownTenant _ \<Rightarrow>
          api_error_new 401 (admission_error_text error) ''authentication_error'' None (Some ''invalid_tenant''))"

definition api_error_from_inference :: "api_texts \<Rightarrow> inference_error \<Rightarrow> api_error" where
  "api_error_from_inference tx error =
     (case inference_interrupt error of
        Some CtxCancelled \<Rightarrow>
          api_error_new 499 (tx_inference tx error) ''request_cancelled'' None (Some ''cancelled'')
      | Some CtxDeadlineExceeded \<Rightarrow>
          api_error_new 408 (tx_inference tx error) ''request_timeout'' None (Some ''deadline_exceeded'')
      | None \<Rightarrow>
          (case error of
             IfModelIo (ModelNotFound model) \<Rightarrow>
               api_error_new 404 (''model was not found: '' @ model) ''invalid_request_error'' (Some ''model'')
                 (Some ''model_not_found'')
           | IfModelIo (MioInvalidInput reason) \<Rightarrow>
               api_error_new 400 (tx_input tx reason) ''invalid_request_error'' None (Some ''invalid_parameter'')
           | IfAdmission e \<Rightarrow> api_error_from_admission e
           | IfPlanning _ \<Rightarrow>
               api_error_new 503 (tx_inference tx error) ''server_error'' None (Some ''no_available_target'')
           | IfDiscovery _ \<Rightarrow>
               api_error_new 503 (tx_inference tx error) ''server_error'' None (Some ''no_available_target'')
           | IfEngine EngineDraining \<Rightarrow>
               api_error_new 503 (tx_inference tx error) ''server_error'' None (Some ''no_available_target'')
           | IfEngine EngineStopped \<Rightarrow>
               api_error_new 503 (tx_inference tx error) ''server_error'' None (Some ''no_available_target'')
           | _ \<Rightarrow> api_error_new 500 (tx_inference tx error) ''server_error'' None (Some ''internal_error'')))"

definition api_error_from_json_rejection :: "json_rejection \<Rightarrow> api_error" where
  "api_error_from_json_rejection e =
     (if jr_status e = 413
      then api_error_new 413 (jr_body_text e) ''invalid_request_error'' None (Some ''request_too_large'')
      else api_invalid_json (jr_body_text e))"

section \<open>Configuration\<close>

definition router_with_config :: "(string \<Rightarrow> 'd) \<Rightarrow> api_config \<Rightarrow> ('d auth_state, api_config_error) result" where
  "router_with_config digest config =
     (if ac_max_request_bytes config = 0 then Inl ZeroRequestBodyLimit
      else if ac_bearer_token config = Some [] then Inl EmptyBearerToken
      else if ac_bearer_token config \<noteq> None \<and> ac_tenant_credentials config \<noteq> [] then Inl AmbiguousCredentials
      else let credentials = api_credentials config in
        and_then (check_credentials (ac_traffic config) credentials) (\<lambda>_.
          let anonymous_tenant =
                (if credentials = [] \<and> ac_anonymous_tenant config = None then Some ''default''
                 else ac_anonymous_tenant config)
          in case anonymous_tenant of
               Some tenant \<Rightarrow>
                 if \<not> tenant_exists (ac_traffic config) tenant then Inl (ConfigUnknownTenant tenant)
                 else make_auth_state digest config credentials anonymous_tenant
             | None \<Rightarrow> make_auth_state digest config credentials anonymous_tenant))"

section \<open>Authentication\<close>

definition request_id_prefix :: "string \<Rightarrow> string" where
  "request_id_prefix path =
     (if path = ''/v1/responses'' then ''resp''
      else if path = ''/v1/completions'' then ''cmpl''
      else if path = ''/v1/chat/completions'' then ''chatcmpl''
      else if path = ''/v1/models'' then ''models''
      else ''req'')"

definition requested_timeout :: "(string \<rightharpoonup> string) \<Rightarrow> (duration option, api_error) result" where
  "requested_timeout headers =
     (case headers request_timeout_header of
        None \<Rightarrow> Inr None
      | Some bytes \<Rightarrow>
          (case header_to_str bytes of
             None \<Rightarrow> Inl (api_invalid request_timeout_header ''request timeout header must be ASCII milliseconds'')
           | Some content \<Rightarrow>
               (case parse_u64 content of
                  None \<Rightarrow> Inl (api_invalid request_timeout_header
                    ''request timeout header must be an integer number of milliseconds'')
                | Some millis \<Rightarrow>
                    if millis = 0
                    then Inl (api_invalid request_timeout_header ''request timeout must be greater than zero'')
                    else Inr (Some (millis * 1000000)))))"

text \<open>The bounded body under \<open>OperationContext::run\<close>; a read that is interrupted changes nothing.\<close>

definition receive_body ::
    "api_texts \<Rightarrow> auth_env \<Rightarrow> usize \<Rightarrow> http_request \<Rightarrow> (http_request, api_error) result" where
  "receive_body tx env max_bytes request =
     (if is_read_method request then Inr request
      else case av_body env of
        Interrupted e _ \<Rightarrow> Inl (api_error_from_inference tx (IfContext e))
      | Completes \<Rightarrow>
          (case read_bounded_body max_bytes (hq_body request) [] of
             Inr body \<Rightarrow> Inr (request\<lparr>hq_body := [Inr body]\<rparr>)
           | Inl BodyTooLarge \<Rightarrow>
               Inl (api_error_new 413 ''request body exceeded the configured byte limit'' ''invalid_request_error''
                 None (Some ''request_too_large''))
           | Inl (BodyTransport e) \<Rightarrow>
               Inl (api_error_new 400 e ''invalid_request_error'' None (Some ''invalid_request_body''))))"

definition unauthorized :: http_response where
  "unauthorized = with_header ''www-authenticate'' ''Bearer''
     (api_into_response (api_error_new 401 ''missing or invalid bearer token'' ''authentication_error'' None
       (Some ''invalid_api_key'')))"

text \<open>
  The layer around the API routes, up to the handler behind it: a request is rejected with a response
  or passed on with its trusted identity. The number of the next request is the only state it changes.
\<close>

definition admit_request ::
    "(string \<Rightarrow> 'd) \<Rightarrow> api_texts \<Rightarrow> auth_env \<Rightarrow> http_request \<Rightarrow> 'd auth_state
     \<Rightarrow> (trusted_request \<times> http_request, http_response) result \<times> 'd auth_state" where
  "admit_request digest tx env request auth =
     (case authenticated_tenant digest auth (bearer_candidate (hq_headers request)) of
        None \<Rightarrow> (Inl unauthorized, auth)
      | Some tenant \<Rightarrow>
          (case requested_timeout (hq_headers request) of
             Inl e \<Rightarrow> (Inl (api_into_response e), auth)
           | Inr timeout \<Rightarrow>
               (let response_id = request_id_prefix (hq_path request) @ ''_'' @ hex_u64 (as_next_request auth);
                    auth' = auth\<lparr>as_next_request := wrap_add64 (as_next_request auth) 1\<rparr>
                in case traffic_operation_context (as_traffic auth) (av_instant_max env) (av_now env) (av_token env)
                        response_id tenant timeout of
                     Inl e \<Rightarrow> (Inl (api_into_response (api_error_from_admission e)), auth')
                   | Inr context \<Rightarrow>
                       (case receive_body tx env (as_max_request_bytes auth) request of
                          Inl e \<Rightarrow> (Inl (api_into_response e), auth')
                        | Inr request \<Rightarrow> (Inr (\<lparr>tr_response_id = response_id, tr_context = context\<rparr>, request), auth')))))"

text \<open>The whole layer: \<open>next\<close> is the handler; a read request runs it under the context.\<close>

definition authenticate ::
    "(string \<Rightarrow> 'd) \<Rightarrow> api_texts \<Rightarrow> auth_env \<Rightarrow> (trusted_request \<Rightarrow> http_request \<Rightarrow> http_response) \<Rightarrow> http_request
     \<Rightarrow> 'd auth_state \<Rightarrow> http_response \<times> 'd auth_state" where
  "authenticate digest tx env next request auth =
     (case admit_request digest tx env request auth of
        (Inl response, auth) \<Rightarrow> (response, auth)
      | (Inr (trusted, request), auth) \<Rightarrow>
          (let response = next trusted request
           in if is_read_method request
              then (case av_next env of
                      Completes \<Rightarrow> (response, auth)
                    | Interrupted e _ \<Rightarrow> (api_into_response (api_error_from_inference tx (IfContext e)), auth))
              else (response, auth)))"

section \<open>Handlers that only report\<close>

definition health :: http_response where
  "health = json_response 200 (JObject [(''status'', JString ''ok'')])"

fun placement_mode_text :: "placement_mode \<Rightarrow> string" where
  "placement_mode_text Shadow = ''shadow''"
| "placement_mode_text Active = ''active''"

definition readiness_response :: "api_texts \<Rightarrow> (readiness_report, inference_error) result \<Rightarrow> http_response" where
  "readiness_response tx report =
     (case report of
        Inr r \<Rightarrow>
          if \<not> rr_traffic_draining r
          then json_response 200 (JObject
            [(''status'', JString ''ready''), (''model_profiles'', json_nat (rr_model_profiles r)),
             (''routable_models'', json_nat (rr_routable_models r)), (''required_models'', json_nat (rr_required_models r)),
             (''ready_targets'', json_nat (rr_ready_targets r)), (''observed_targets'', json_nat (rr_observed_targets r)),
             (''placement_mode'', JString (placement_mode_text (rr_placement_mode r))),
             (''calibration_revision'', json_nat (rr_calibration_revision r)),
             (''calibration_persistent'', JBool (rr_calibration_persistent r)),
             (''calibration_persistence_healthy'', JBool (rr_calibration_persistence_healthy r)),
             (''traffic_draining'', JBool False)])
          else json_response 503 (JObject
            [(''status'', JString ''not_ready''), (''error'', JString ''traffic controller is draining''),
             (''traffic_draining'', JBool (rr_traffic_draining r))])
      | Inl e \<Rightarrow> json_response 503 (JObject
          [(''status'', JString ''not_ready''), (''error'', JString (tx_inference tx e))]))"

definition metrics_response :: "(string, string) result \<Rightarrow> transport_metrics \<Rightarrow> http_response" where
  "metrics_response traffic_text transport =
     (case traffic_text of
        Inr body \<Rightarrow> \<lparr>hs_status = 200,
          hs_headers = [''content-type'' \<mapsto> ''text/plain; version=0.0.4; charset=utf-8''],
          hs_body = TextBody (body @ transport_prometheus transport)\<rparr>
      | Inl e \<Rightarrow> api_into_response
          (api_error_new 503 e ''server_error'' None (Some ''metrics_unavailable'')))"

definition models_response :: "api_texts \<Rightarrow> (model_profile list, inference_error) result \<Rightarrow> http_response" where
  "models_response tx result =
     (case result of
        Inr profiles \<Rightarrow> json_response 200 (JObject
          [(''object'', JString ''list''),
           (''data'', JArray (map (\<lambda>alias. JObject [(''id'', JString alias), (''object'', JString ''model''),
              (''created'', json_nat 0), (''owned_by'', JString ''locus'')])
              (concat (map mp_public_aliases profiles))))])
      | Inl e \<Rightarrow> api_into_response (api_error_from_inference tx e))"

end
