(* ===== verification/OpenAI_Access.thy ===== *)
theory OpenAI_Access
  imports OpenAI_Api
begin

text \<open>
  Who may use the OpenAI-compatible front end, and how errors are reported: the configurations that
  are accepted, what the authentication layer knows of a request it passes on, the identifiers it
  gives out, and the HTTP status of each kind of failure. The credential index is used through its
  interface \<open>credential_lookup\<close> only.
\<close>

section \<open>Configuration\<close>

definition effective_anonymous :: "api_config \<Rightarrow> string option" where
  "effective_anonymous config =
     (if api_credentials config = [] \<and> ac_anonymous_tenant config = None then Some ''default''
      else ac_anonymous_tenant config)"

definition config_ok :: "api_config \<Rightarrow> bool" where
  "config_ok config \<longleftrightarrow>
     0 < ac_max_request_bytes config \<and>
     (ac_bearer_token config = None \<or> ac_tenant_credentials config = []) \<and>
     (\<forall>c \<in> set (api_credentials config). tcr_bearer_token c \<noteq> [] \<and> tenant_exists (ac_traffic config) (tcr_tenant_id c)) \<and>
     distinct (map tcr_bearer_token (api_credentials config)) \<and>
     (\<forall>tenant. effective_anonymous config = Some tenant \<longrightarrow> tenant_exists (ac_traffic config) tenant)"

lemma check_credentials_iff:
  "check_credentials traffic cs = Inr () \<longleftrightarrow>
     (\<forall>c \<in> set cs. tcr_bearer_token c \<noteq> [] \<and> tenant_exists traffic (tcr_tenant_id c))"
  by (induction cs) auto

lemma make_auth_state_Inr:
  "make_auth_state digest config credentials anonymous = Inr auth \<longleftrightarrow>
     (\<exists>index. credential_index_new digest credentials = Inr index \<and>
        auth = \<lparr>as_credentials = index, as_anonymous_tenant = anonymous, as_traffic = ac_traffic config,
          as_next_request = 1, as_max_request_bytes = ac_max_request_bytes config\<rparr>)"
  by (auto simp: make_auth_state_def split: sum.splits credential_index_error.splits)

lemma router_with_config_Inr:
  "router_with_config digest config = Inr auth \<longleftrightarrow>
     config_ok config \<and> make_auth_state digest config (api_credentials config) (effective_anonymous config) = Inr auth"
proof -
  have bearer: "ac_bearer_token config = Some [] \<Longrightarrow> \<not> config_ok config"
    by (auto simp: config_ok_def api_credentials_def)
  have dist: "make_auth_state digest config (api_credentials config) (effective_anonymous config) = Inr auth \<Longrightarrow>
      distinct (map tcr_bearer_token (api_credentials config))"
    using hashed.accepted [of digest "api_credentials config"] by (auto simp: make_auth_state_Inr)
  show ?thesis
  proof (cases "ac_bearer_token config = Some [] \<or> ac_max_request_bytes config = 0 \<or>
      (ac_bearer_token config \<noteq> None \<and> ac_tenant_credentials config \<noteq> [])")
    case True
    then show ?thesis using bearer by (auto simp: router_with_config_def config_ok_def)
  next
    case False
    then have "router_with_config digest config = Inr auth \<longleftrightarrow>
        check_credentials (ac_traffic config) (api_credentials config) = Inr () \<and>
        (\<forall>tenant. effective_anonymous config = Some tenant \<longrightarrow> tenant_exists (ac_traffic config) tenant) \<and>
        make_auth_state digest config (api_credentials config) (effective_anonymous config) = Inr auth"
      by (auto simp: router_with_config_def effective_anonymous_def Let_def and_then_Inr_iff split: option.splits)
    then show ?thesis using False dist by (auto simp: config_ok_def check_credentials_iff)
  qed
qed

lemma router_accepts_iff: "(\<exists>auth. router_with_config digest config = Inr auth) \<longleftrightarrow> config_ok config"
proof -
  have "config_ok config \<Longrightarrow> \<exists>index. credential_index_new digest (api_credentials config) = Inr index"
    using hashed.accepted [of digest "api_credentials config"] by (auto simp: config_ok_def)
  then show ?thesis by (auto simp: router_with_config_Inr make_auth_state_Inr)
qed

section \<open>Authentication\<close>

lemma receive_body_Inr:
  assumes "receive_body tx env max_bytes request = Inr request'"
  shows "hq_method request' = hq_method request \<and> hq_path request' = hq_path request \<and>
    (is_read_method request \<and> request' = request \<or>
     \<not> is_read_method request \<and> (\<exists>body. hq_body request' = [Inr body] \<and> length body \<le> max_bytes \<and>
        (\<exists>cs. hq_body request = map Inr cs \<and> body = concat cs)))"
  using assms read_bounded_body_within [of "[]" max_bytes "hq_body request"]
  by (auto simp: receive_body_def split: if_splits await_outcome.splits sum.splits body_read_error.splits)

lemma operation_context_Inr:
  "traffic_operation_context tc instant_max now tok rid tenant timeout = Inr ctx \<Longrightarrow>
   \<exists>policy. bt_get (tc_tenants tc) tenant = Some policy \<and> oc_tenant_id ctx = Some tenant \<and> oc_request_id ctx = rid \<and>
     (\<exists>d. oc_deadline ctx = Some d \<and> now < d \<and> d \<le> now + tp_max_request_timeout policy)"
  by (auto simp: traffic_operation_context_def Let_def with_deadline_def with_tenant_id_def operation_context_new_def
      split: option.splits if_splits)

text \<open>
  C3: only authorised requests pass the authentication layer. In a front end whose configuration was
  accepted, a request that reaches a handler acts for a tenant of the traffic policy: the tenant of
  the configured credential whose token it presented, or the anonymous tenant when it presented no
  bearer token. Its context carries that tenant, its own request id and a deadline no later than the
  tenant's longest timeout, and a body it was sent arrived whole, within the configured limit.
\<close>

theorem admitted_request_authorised:
  assumes "router_with_config digest config = Inr auth0" and "auth = auth0\<lparr>as_next_request := n\<rparr>"
    and "admit_request digest tx env request auth = (Inr (trusted, request'), auth')"
  shows "\<exists>tenant policy. oc_tenant_id (tr_context trusted) = Some tenant \<and>
     bt_get (tc_tenants (ac_traffic config)) tenant = Some policy \<and>
     (case bearer_candidate (hq_headers request) of
        Some token \<Rightarrow> token \<noteq> [] \<and> (\<exists>c \<in> set (api_credentials config). tcr_bearer_token c = token \<and> tcr_tenant_id c = tenant)
      | None \<Rightarrow> effective_anonymous config = Some tenant) \<and>
     oc_request_id (tr_context trusted) = tr_response_id trusted \<and>
     (\<exists>d. oc_deadline (tr_context trusted) = Some d \<and> av_now env < d \<and> d \<le> av_now env + tp_max_request_timeout policy) \<and>
     (is_read_method request \<or> (\<exists>body. hq_body request' = [Inr body] \<and> length body \<le> ac_max_request_bytes config \<and>
        (\<exists>cs. hq_body request = map Inr cs \<and> body = concat cs)))"
proof -
  from assms(1) obtain index where index: "credential_index_new digest (api_credentials config) = Inr index"
      and auth0: "auth0 = \<lparr>as_credentials = index, as_anonymous_tenant = effective_anonymous config,
        as_traffic = ac_traffic config, as_next_request = 1, as_max_request_bytes = ac_max_request_bytes config\<rparr>"
    by (auto simp: router_with_config_Inr make_auth_state_Inr)
  from assms(3) obtain tenant timeout where tenant: "authenticated_tenant digest auth (bearer_candidate (hq_headers request)) = Some tenant"
      and opctx: "traffic_operation_context (ac_traffic config) (av_instant_max env) (av_now env) (av_token env)
        (tr_response_id trusted) tenant timeout = Inr (tr_context trusted)"
      and body: "receive_body tx env (ac_max_request_bytes config) request = Inr request'"
    by (auto simp: admit_request_def Let_def assms(2) auth0 split: option.splits sum.splits)
  from opctx obtain policy where policy: "bt_get (tc_tenants (ac_traffic config)) tenant = Some policy"
      and trusted: "oc_tenant_id (tr_context trusted) = Some tenant" "oc_request_id (tr_context trusted) = tr_response_id trusted"
      "\<exists>d. oc_deadline (tr_context trusted) = Some d \<and> av_now env < d \<and> d \<le> av_now env + tp_max_request_timeout policy"
    using operation_context_Inr by metis
  have "case bearer_candidate (hq_headers request) of
        Some token \<Rightarrow> token \<noteq> [] \<and> (\<exists>c \<in> set (api_credentials config). tcr_bearer_token c = token \<and> tcr_tenant_id c = tenant)
      | None \<Rightarrow> effective_anonymous config = Some tenant"
  proof (cases "bearer_candidate (hq_headers request)")
    case None
    then show ?thesis using tenant by (simp add: authenticated_tenant_def assms(2) auth0)
  next
    case (Some token)
    then have lookup: "index_authenticate digest index token = Some tenant"
      using tenant by (simp add: authenticated_tenant_def assms(2) auth0)
    then have "token \<noteq> []" using hashed.empty_token_never_authenticates [OF index] by auto
    then show ?thesis using hashed.authenticated_tenant_configured [OF index lookup] Some by simp
  qed
  then show ?thesis using policy trusted receive_body_Inr [OF body] by blast
qed

definition sample_config :: api_config where
  "sample_config = \<lparr>ac_bearer_token = Some ''secret'', ac_tenant_credentials = [], ac_anonymous_tenant = None,
     ac_traffic = sample_controller, ac_max_request_bytes = 4\<rparr>"

definition sample_post :: http_request where
  "sample_post = \<lparr>hq_method = ''POST'', hq_path = ''/v1/responses'',
     hq_headers = [''authorization'' \<mapsto> ''Bearer secret''], hq_body = [Inr ''ab'', Inr ''cd'']\<rparr>"

definition sample_auth_env :: auth_env where
  "sample_auth_env = \<lparr>av_instant_max = 2 ^ 64, av_now = 5, av_token = 0, av_body = Completes, av_next = Completes\<rparr>"

lemmas sample_auth_defs = sample_config_def sample_post_def sample_auth_env_def router_with_config_def api_credentials_def
  make_auth_state_def credential_index_new_def

definition sample_auth :: "string auth_state" where
  "sample_auth = \<lparr>as_credentials = [''secret'' \<mapsto> [\<lparr>ic_tenant_id = ''default'', ic_bearer_token = ''secret''\<rparr>]],
     as_anonymous_tenant = None, as_traffic = sample_controller, as_next_request = 1, as_max_request_bytes = 4\<rparr>"

lemma sample_tenant: "bt_get (tc_tenants sample_controller) ''default'' = Some (hd (pol_tenants traffic_policy_default))"
  by (simp add: sample_controller_def bt_of_list_def)

lemma sample_router: "router_with_config id sample_config = Inr sample_auth"
  by (simp add: sample_auth_defs sample_auth_def tenant_exists_def bt_contains_def sample_tenant Let_def)

lemma sample_header: "bearer_candidate [''authorization'' \<mapsto> ''Bearer secret''] = Some ''secret''"
  by (simp add: bearer_candidate_def header_to_str_def strip_prefix_def)

lemma sample_admit:
  "\<exists>trusted request' auth'.
     admit_request id no_texts sample_auth_env sample_post sample_auth = (Inr (trusted, request'), auth')"
proof -
  have "authenticated_tenant id sample_auth (bearer_candidate (hq_headers sample_post)) = Some ''default''"
    by (simp add: sample_post_def sample_header authenticated_tenant_def sample_auth_def index_authenticate_def token_matches_def)
  moreover have "requested_timeout (hq_headers sample_post) = Inr None"
    by (simp add: sample_post_def requested_timeout_def)
  moreover obtain ctx where "traffic_operation_context sample_controller (2 ^ 64) 5 0
      (request_id_prefix (hq_path sample_post) @ ''_'' @ hex_u64 1) ''default'' None = Inr ctx"
    by (simp add: traffic_operation_context_def sample_tenant traffic_policy_default_def duration_from_secs_def)
  moreover obtain request' where "receive_body no_texts sample_auth_env 4 sample_post = Inr request'"
    by (simp add: receive_body_def sample_post_def sample_auth_env_def is_read_method_def)
  ultimately show ?thesis
    by (simp add: admit_request_def sample_auth_def sample_auth_env_def Let_def)
qed

theorem admitted_request_authorised_witness:
  "\<exists>auth trusted request' auth'. router_with_config id sample_config = Inr auth \<and>
     admit_request id no_texts sample_auth_env sample_post auth = (Inr (trusted, request'), auth') \<and>
     (\<exists>tenant. oc_tenant_id (tr_context trusted) = Some tenant)"
proof -
  obtain trusted request' auth' where
    "admit_request id no_texts sample_auth_env sample_post sample_auth = (Inr (trusted, request'), auth')"
    using sample_admit by blast
  moreover have "sample_auth = sample_auth\<lparr>as_next_request := 1\<rparr>" by (simp add: sample_auth_def)
  ultimately show ?thesis using admitted_request_authorised [OF sample_router] sample_router by blast
qed

section \<open>Request identifiers\<close>

text \<open>
  The requests of a front end in the order in which they take their numbers: the counter is atomic,
  so every interleaving is such a sequence.
\<close>

fun admitted_ids ::
    "(string \<Rightarrow> 'd) \<Rightarrow> api_texts \<Rightarrow> (auth_env \<times> http_request) list \<Rightarrow> 'd auth_state \<Rightarrow> string list" where
  "admitted_ids digest tx [] auth = []"
| "admitted_ids digest tx ((env, request) # requests) auth =
     (case admit_request digest tx env request auth of
        (Inl _, auth) \<Rightarrow> admitted_ids digest tx requests auth
      | (Inr (trusted, _), auth) \<Rightarrow> tr_response_id trusted # admitted_ids digest tx requests auth)"

lemma admit_request_counter:
  assumes "admit_request digest tx env request auth = (result, auth')"
  shows "auth' = auth \<or> auth' = auth\<lparr>as_next_request := wrap_add64 (as_next_request auth) 1\<rparr>"
    and "result = Inr (trusted, request') \<Longrightarrow>
      tr_response_id trusted = request_id_prefix (hq_path request) @ ''_'' @ hex_u64 (as_next_request auth) \<and>
      as_next_request auth' = wrap_add64 (as_next_request auth) 1"
  using assms by (auto simp: admit_request_def Let_def split: option.splits sum.splits)

lemma admitted_ids_numbers:
  "as_next_request auth + length requests \<le> u64_max \<Longrightarrow> rid \<in> set (admitted_ids digest tx requests auth) \<Longrightarrow>
   \<exists>path k. rid = request_id_prefix path @ ''_'' @ hex_u64 k \<and> as_next_request auth \<le> k \<and> k < as_next_request auth + length requests"
proof (induction requests arbitrary: auth)
  case (Cons r requests)
  obtain env request where r: "r = (env, request)" by force
  obtain result auth' where step: "admit_request digest tx env request auth = (result, auth')" by force
  have counter: "as_next_request auth' \<in> {as_next_request auth, Suc (as_next_request auth)}"
    using admit_request_counter(1) [OF step] Cons.prems(1) by (auto simp: wrap_add64_exact)
  from counter have IH: "rid \<in> set (admitted_ids digest tx requests auth') \<Longrightarrow> ?case"
    using Cons.IH [of auth'] Cons.prems(1) by fastforce
  show ?case
  proof (cases result)
    case (Inr x)
    obtain trusted request' where x: "x = (trusted, request')" by force
    then have rid: "tr_response_id trusted = request_id_prefix (hq_path request) @ ''_'' @ hex_u64 (as_next_request auth)"
      using admit_request_counter(2) [OF step, of trusted request'] Inr by simp
    show ?thesis
    proof (cases "rid = tr_response_id trusted")
      case True
      then show ?thesis unfolding rid by (intro exI [of _ "hq_path request"] exI [of _ "as_next_request auth"]) simp
    next
      case False
      then show ?thesis using IH Cons.prems(2) Inr x by (simp add: r step)
    qed
  qed (use IH Cons.prems(2) in \<open>auto simp: r step\<close>)
qed simp

lemma response_id_number: "p @ ''_'' @ hex_u64 m = q @ ''_'' @ hex_u64 n \<Longrightarrow> hex_u64 m = hex_u64 n"
  using append_eq_append_conv [of "p @ ''_''" "q @ ''_''" "hex_u64 m" "hex_u64 n"] by (simp add: hex_u64_def)

text \<open>
  C25: the identifiers given to requests are unique. As long as a front end has not numbered
  \<open>2 ^ 64 - 1\<close> requests, no two requests that it passes on have the same identifier, whatever
  endpoints they are for and however many requests it rejects in between.
\<close>

theorem request_ids_distinct:
  assumes "as_next_request auth + length requests \<le> u64_max"
  shows "distinct (admitted_ids digest tx requests auth)"
  using assms
proof (induction requests arbitrary: auth)
  case (Cons r requests)
  obtain env request where r: "r = (env, request)" by force
  obtain result auth' where step: "admit_request digest tx env request auth = (result, auth')" by force
  have bound: "as_next_request auth' + length requests \<le> u64_max"
    using admit_request_counter(1) [OF step] Cons.prems by (auto simp: wrap_add64_exact)
  show ?case
  proof (cases result)
    case (Inr x)
    obtain trusted request' where x: "x = (trusted, request')" by force
    let ?n = "as_next_request auth"
    have this_id: "tr_response_id trusted = request_id_prefix (hq_path request) @ ''_'' @ hex_u64 ?n"
        and nxt: "as_next_request auth' = Suc ?n"
      using admit_request_counter(2) [OF step, of trusted request'] Inr x Cons.prems by (auto simp: wrap_add64_exact)
    have "tr_response_id trusted \<notin> set (admitted_ids digest tx requests auth')"
    proof
      assume "tr_response_id trusted \<in> set (admitted_ids digest tx requests auth')"
      then obtain path k where "tr_response_id trusted = request_id_prefix path @ ''_'' @ hex_u64 k"
          "Suc ?n \<le> k" "k < Suc ?n + length requests"
        using admitted_ids_numbers [OF bound] nxt by metis
      then have "hex_u64 ?n = hex_u64 k" using response_id_number this_id by metis
      then show False using hex_u64_inject [of ?n k] Cons.prems \<open>Suc ?n \<le> k\<close> \<open>k < Suc ?n + length requests\<close> by simp
    qed
    then show ?thesis using Cons.IH [OF bound] by (simp add: r step Inr x)
  qed (use Cons.IH [OF bound] in \<open>simp add: r step\<close>)
qed simp

theorem request_ids_distinct_witness:
  "\<exists>auth. router_with_config id sample_config = Inr auth \<and>
     distinct (admitted_ids id no_texts [(sample_auth_env, sample_post), (sample_auth_env, sample_post)] auth)"
  using sample_router request_ids_distinct [of sample_auth "[(sample_auth_env, sample_post), (sample_auth_env, sample_post)]"
      id no_texts] by (auto simp: sample_auth_def u64_max_def)

end
