(* ===== verification/OpenAI_Requests.thy ===== *)
theory OpenAI_Requests
  imports OpenAI_Api
begin

text \<open>
  The request types of the OpenAI-compatible endpoints and their translation to a \<open>model_request\<close>
  (\<open>into_semantic\<close>). The types have the fields of the deserialised Rust values, after serde has
  filled in the defaults. Then what an accepted request satisfies, for each endpoint.
\<close>

section \<open>The Responses endpoint\<close>

datatype response_input_part = InputText string

datatype response_input_content = ContentText string | ContentParts "response_input_part list"

record response_input_message =
  rim_role :: string
  rim_content :: response_input_content

datatype responses_input = InputIsText string | InputItems "response_input_message list"

datatype response_tool = FunctionTool string "string option" json bool

datatype tool_choice_dto = ChoiceMode string | ChoiceNamed string string

datatype response_format_dto =
    FormatDtoText
  | FormatDtoJsonObject
  | FormatDtoJsonSchema string "string option" json bool

record response_text_config =
  rtc_format :: "response_format_dto option"

record reasoning_config =
  rsc_effort :: "string option"
  rsc_summary :: "string option"

record responses_request =
  rsq_model :: string
  rsq_input :: responses_input
  rsq_instructions :: "string option"
  rsq_max_output_tokens :: "u32 option"
  rsq_temperature :: "32 word option"
  rsq_top_p :: "32 word option"
  rsq_stream :: bool
  rsq_tools :: "response_tool list"
  rsq_tool_choice :: "tool_choice_dto option"
  rsq_text :: "response_text_config option"
  rsq_reasoning :: "reasoning_config option"
  rsq_metadata :: "(string, string) btree"

definition parse_role :: "string \<Rightarrow> (conversation_role, api_error) result" where
  "parse_role role =
     (if role = ''developer'' then Inr RoleDeveloper
      else if role = ''system'' then Inr RoleSystem
      else if role = ''user'' then Inr RoleUser
      else if role = ''assistant'' then Inr RoleAssistant
      else if role = ''tool'' then Inr RoleTool
      else Inl (api_invalid ''messages.role'' ''role must be developer, system, user, assistant, or tool''))"

fun part_text :: "response_input_part \<Rightarrow> string" where
  "part_text (InputText t) = t"

fun flatten_response_content :: "response_input_content \<Rightarrow> string" where
  "flatten_response_content (ContentText t) = t"
| "flatten_response_content (ContentParts parts) = join_strings newline (map part_text parts)"

fun response_tool_of :: "(json \<Rightarrow> string) \<Rightarrow> response_tool \<Rightarrow> tool_spec" where
  "response_tool_of render (FunctionTool name description parameters strict) =
     \<lparr>tl_name = name, tl_description = description, tl_parameters_schema = render parameters, tl_strict = strict\<rparr>"

definition parse_tool_choice :: "tool_choice_dto option \<Rightarrow> (tool_choice, api_error) result" where
  "parse_tool_choice choice =
     (let invalid = Inl (api_invalid ''tool_choice'' ''tool_choice must be auto, none, required, or a named function'')
      in case choice of
        None \<Rightarrow> Inr ChoiceAuto
      | Some (ChoiceMode mode) \<Rightarrow>
          if mode = ''auto'' then Inr ChoiceAuto
          else if mode = ''none'' then Inr ChoiceNone
          else if mode = ''required'' then Inr ChoiceRequired
          else invalid
      | Some (ChoiceNamed kind name) \<Rightarrow> if kind = ''function'' then Inr (ChoiceFunction name) else invalid)"

fun parse_response_format :: "(json \<Rightarrow> string) \<Rightarrow> response_format_dto option \<Rightarrow> response_format" where
  "parse_response_format render None = FormatText"
| "parse_response_format render (Some FormatDtoText) = FormatText"
| "parse_response_format render (Some FormatDtoJsonObject) = FormatJsonObject"
| "parse_response_format render (Some (FormatDtoJsonSchema name description schema strict)) =
     FormatJsonSchema name description (render schema) strict"

definition parse_reasoning_effort :: "string option \<Rightarrow> (reasoning_effort option, api_error) result" where
  "parse_reasoning_effort effort =
     (case effort of
        None \<Rightarrow> Inr None
      | Some e \<Rightarrow>
          if e = ''low'' then Inr (Some EffortLow)
          else if e = ''medium'' then Inr (Some EffortMedium)
          else if e = ''high'' then Inr (Some EffortHigh)
          else Inl (api_invalid ''reasoning.effort'' ''reasoning effort must be low, medium, or high''))"

fun response_messages :: "response_input_message list \<Rightarrow> (conversation_message list, api_error) result" where
  "response_messages [] = Inr []"
| "response_messages (item # items) =
     and_then (parse_role (rim_role item)) (\<lambda>role.
     and_then (response_messages items) (\<lambda>messages.
       Inr (\<lparr>cm_role = role, cm_content = flatten_response_content (rim_content item), cm_tool_call_id = None\<rparr> # messages)))"

definition responses_into_semantic :: "(json \<Rightarrow> string) \<Rightarrow> responses_request \<Rightarrow> (model_request, api_error) result" where
  "responses_into_semantic render request =
     (if Option.bind (rsq_reasoning request) rsc_summary \<noteq> None then Inl (api_unsupported ''reasoning.summary'')
      else
        let instructions = (case rsq_instructions request of
              None \<Rightarrow> []
            | Some t \<Rightarrow> [\<lparr>cm_role = RoleDeveloper, cm_content = t, cm_tool_call_id = None\<rparr>])
        in and_then (case rsq_input request of
             InputIsText content \<Rightarrow> Inr [\<lparr>cm_role = RoleUser, cm_content = content, cm_tool_call_id = None\<rparr>]
           | InputItems items \<Rightarrow> response_messages items) (\<lambda>messages.
           and_then (parse_tool_choice (rsq_tool_choice request)) (\<lambda>choice.
           and_then (parse_reasoning_effort (Option.bind (rsq_reasoning request) rsc_effort)) (\<lambda>effort.
             Inr \<lparr>mq_model = rsq_model request,
                  mq_input = ConversationInput (instructions @ messages),
                  mq_sampling = \<lparr>sp_max_output_tokens = rsq_max_output_tokens request,
                    sp_temperature = rsq_temperature request, sp_top_p = rsq_top_p request,
                    sp_seed = None, sp_stop_sequences = []\<rparr>,
                  mq_tools = map (response_tool_of render) (rsq_tools request),
                  mq_tool_choice = choice,
                  mq_response_format = parse_response_format render (Option.bind (rsq_text request) rtc_format),
                  mq_reasoning_effort = effort,
                  mq_metadata = rsq_metadata request\<rparr>))))"

section \<open>The completions endpoint\<close>

datatype completion_prompt =
    CpText string
  | CpTokenIds "u32 list"
  | CpTextBatch "string list"
  | CpTokenBatch "u32 list list"

datatype stop_sequences_dto = StopOne string | StopMany "string list"

record completion_stream_options =
  cso_include_usage :: bool

record completion_request =
  cpq_model :: string
  cpq_prompt :: completion_prompt
  cpq_max_tokens :: "u32 option"
  cpq_temperature :: "32 word option"
  cpq_top_p :: "32 word option"
  cpq_seed :: "u64 option"
  cpq_stop :: "stop_sequences_dto option"
  cpq_stream :: bool
  cpq_stream_options :: "completion_stream_options option"
  cpq_n :: "u32 option"
  cpq_best_of :: "u32 option"
  cpq_echo :: "bool option"
  cpq_logprobs :: "u32 option"
  cpq_suffix :: "string option"

definition completion_input :: "completion_prompt \<Rightarrow> (prompt_input, api_error) result" where
  "completion_input prompt =
     (case prompt of
        CpText txt \<Rightarrow> Inr (PromptText txt)
      | CpTokenIds token_ids \<Rightarrow> Inr (PromptTokenIds token_ids)
      | CpTextBatch prompts \<Rightarrow> Inl (api_invalid ''prompt''
          (''batched text prompts are unsupported (received '' @ nat_to_dec (length prompts) @ '')''))
      | CpTokenBatch prompts \<Rightarrow> Inl (api_invalid ''prompt''
          (''batched token prompts are unsupported (received '' @ nat_to_dec (length prompts) @ '')'')))"

definition stop_sequences_of :: "stop_sequences_dto option \<Rightarrow> string list" where
  "stop_sequences_of stop =
     (case stop of None \<Rightarrow> [] | Some (StopOne s) \<Rightarrow> [s] | Some (StopMany ss) \<Rightarrow> ss)"

definition completion_into_semantic :: "completion_request \<Rightarrow> (model_request, api_error) result" where
  "completion_into_semantic request =
     (if cpq_n request \<noteq> None \<and> cpq_n request \<noteq> Some 1 then Inl (api_invalid ''n'' ''n must be 1'')
      else if cpq_best_of request \<noteq> None then Inl (api_unsupported ''best_of'')
      else if cpq_echo request = Some True then Inl (api_unsupported ''echo'')
      else if cpq_logprobs request \<noteq> None then Inl (api_unsupported ''logprobs'')
      else if cpq_suffix request \<noteq> None then Inl (api_unsupported ''suffix'')
      else if \<not> cpq_stream request \<and> cpq_stream_options request \<noteq> None
        then Inl (api_invalid ''stream_options'' ''stream_options requires stream=true'')
      else and_then (completion_input (cpq_prompt request)) (\<lambda>input.
        let stop_sequences = stop_sequences_of (cpq_stop request)
        in if list_ex (\<lambda>s. s = []) stop_sequences then Inl (api_invalid ''stop'' ''stop sequences must not be empty'')
           else Inr \<lparr>mq_model = cpq_model request, mq_input = PromptInput input,
             mq_sampling = \<lparr>sp_max_output_tokens = cpq_max_tokens request,
               sp_temperature = cpq_temperature request, sp_top_p = cpq_top_p request,
               sp_seed = cpq_seed request, sp_stop_sequences = stop_sequences\<rparr>,
             mq_tools = [], mq_tool_choice = ChoiceNone, mq_response_format = FormatText,
             mq_reasoning_effort = None, mq_metadata = bt_empty\<rparr>))"

section \<open>The chat endpoint\<close>

record chat_message =
  ctm_role :: string
  ctm_content :: string
  ctm_tool_call_id :: "string option"

record chat_function =
  cf_name :: string
  cf_description :: "string option"
  cf_parameters :: json
  cf_strict :: bool

record chat_tool =
  ctl_kind :: string
  ctl_function :: chat_function

record chat_json_schema =
  cjs_name :: string
  cjs_description :: "string option"
  cjs_schema :: json
  cjs_strict :: bool

datatype chat_response_format = ChatText | ChatJsonObject | ChatJsonSchema chat_json_schema

record chat_request =
  chq_model :: string
  chq_messages :: "chat_message list"
  chq_max_tokens :: "u32 option"
  chq_max_completion_tokens :: "u32 option"
  chq_temperature :: "32 word option"
  chq_top_p :: "32 word option"
  chq_stream :: bool
  chq_tools :: "chat_tool list"
  chq_tool_choice :: "tool_choice_dto option"
  chq_response_format :: "chat_response_format option"
  chq_reasoning_effort :: "string option"

fun chat_messages :: "chat_message list \<Rightarrow> (conversation_message list, api_error) result" where
  "chat_messages [] = Inr []"
| "chat_messages (message # messages) =
     and_then (parse_role (ctm_role message)) (\<lambda>role.
     and_then (chat_messages messages) (\<lambda>rest.
       Inr (\<lparr>cm_role = role, cm_content = ctm_content message, cm_tool_call_id = ctm_tool_call_id message\<rparr> # rest)))"

fun chat_tools :: "(json \<Rightarrow> string) \<Rightarrow> chat_tool list \<Rightarrow> (tool_spec list, api_error) result" where
  "chat_tools render [] = Inr []"
| "chat_tools render (tool # tools) =
     (if ctl_kind tool \<noteq> ''function'' then Inl (api_invalid ''tools'' ''only function tools are supported'')
      else and_then (chat_tools render tools) (\<lambda>rest.
        Inr (\<lparr>tl_name = cf_name (ctl_function tool), tl_description = cf_description (ctl_function tool),
              tl_parameters_schema = render (cf_parameters (ctl_function tool)),
              tl_strict = cf_strict (ctl_function tool)\<rparr> # rest)))"

fun chat_format :: "(json \<Rightarrow> string) \<Rightarrow> chat_response_format option \<Rightarrow> response_format" where
  "chat_format render None = FormatText"
| "chat_format render (Some ChatText) = FormatText"
| "chat_format render (Some ChatJsonObject) = FormatJsonObject"
| "chat_format render (Some (ChatJsonSchema s)) =
     FormatJsonSchema (cjs_name s) (cjs_description s) (render (cjs_schema s)) (cjs_strict s)"

definition chat_into_semantic :: "(json \<Rightarrow> string) \<Rightarrow> chat_request \<Rightarrow> (model_request, api_error) result" where
  "chat_into_semantic render request =
     (if chq_max_tokens request \<noteq> None \<and> chq_max_completion_tokens request \<noteq> None
      then Inl (api_invalid ''max_tokens'' ''max_tokens and max_completion_tokens cannot both be set'')
      else
        and_then (chat_messages (chq_messages request)) (\<lambda>messages.
        and_then (chat_tools render (chq_tools request)) (\<lambda>tools.
        and_then (parse_tool_choice (chq_tool_choice request)) (\<lambda>choice.
        and_then (parse_reasoning_effort (chq_reasoning_effort request)) (\<lambda>effort.
          Inr \<lparr>mq_model = chq_model request, mq_input = ConversationInput messages,
               mq_sampling = \<lparr>sp_max_output_tokens =
                   (case chq_max_completion_tokens request of None \<Rightarrow> chq_max_tokens request | Some n \<Rightarrow> Some n),
                 sp_temperature = chq_temperature request, sp_top_p = chq_top_p request,
                 sp_seed = None, sp_stop_sequences = []\<rparr>,
               mq_tools = tools, mq_tool_choice = choice,
               mq_response_format = chat_format render (chq_response_format request),
               mq_reasoning_effort = effort, mq_metadata = bt_empty\<rparr>)))))"

section \<open>What the translations keep\<close>

text \<open>Roles and efforts are read back from the texts the model layer prints for them.\<close>

lemma parse_role_iff: "parse_role s = Inr role \<longleftrightarrow> s = role_as_str role"
  by (cases role) (auto simp: parse_role_def)

lemma parse_reasoning_effort_iff: "parse_reasoning_effort e = Inr effort \<longleftrightarrow> e = map_option effort_as_str effort"
proof (cases effort)
  case (Some x)
  then show ?thesis by (cases x) (auto simp: parse_reasoning_effort_def split: option.splits)
qed (auto simp: parse_reasoning_effort_def split: option.splits if_splits)

lemma completion_prompt_contract:
  assumes "completion_into_semantic request = Inr q"
  shows "validate_prompt_contract q = Inr () \<and> [] \<notin> set (sp_stop_sequences (mq_sampling q))"
  using assms
  by (auto simp: completion_into_semantic_def validate_prompt_contract_def Let_def and_then_Inr_iff list_ex_iff
      split: if_splits)

lemma chat_messages_roles:
  "chat_messages ms = Inr cs \<longleftrightarrow>
     map (\<lambda>m. (ctm_role m, ctm_content m, ctm_tool_call_id m)) ms =
     map (\<lambda>c. (role_as_str (cm_role c), cm_content c, cm_tool_call_id c)) cs"
proof (induction ms arbitrary: cs)
  case (Cons m ms)
  show ?case
    by (cases cs) (auto simp: and_then_Inr_iff parse_role_iff Cons.IH)
qed auto

text \<open>
  A chat request without tool results says the same as a Responses request that lists its messages
  as items, its tools and its format.
\<close>

fun chat_format_dto :: "chat_response_format \<Rightarrow> response_format_dto" where
  "chat_format_dto ChatText = FormatDtoText"
| "chat_format_dto ChatJsonObject = FormatDtoJsonObject"
| "chat_format_dto (ChatJsonSchema s) = FormatDtoJsonSchema (cjs_name s) (cjs_description s) (cjs_schema s) (cjs_strict s)"

definition chat_as_responses :: "chat_request \<Rightarrow> responses_request" where
  "chat_as_responses c =
     \<lparr>rsq_model = chq_model c,
      rsq_input = InputItems (map (\<lambda>m. \<lparr>rim_role = ctm_role m, rim_content = ContentText (ctm_content m)\<rparr>) (chq_messages c)),
      rsq_instructions = None,
      rsq_max_output_tokens = (case chq_max_completion_tokens c of None \<Rightarrow> chq_max_tokens c | Some n \<Rightarrow> Some n),
      rsq_temperature = chq_temperature c, rsq_top_p = chq_top_p c, rsq_stream = chq_stream c,
      rsq_tools = map (\<lambda>t. FunctionTool (cf_name (ctl_function t)) (cf_description (ctl_function t))
        (cf_parameters (ctl_function t)) (cf_strict (ctl_function t))) (chq_tools c),
      rsq_tool_choice = chq_tool_choice c,
      rsq_text = Some \<lparr>rtc_format = map_option chat_format_dto (chq_response_format c)\<rparr>,
      rsq_reasoning = Some \<lparr>rsc_effort = chq_reasoning_effort c, rsc_summary = None\<rparr>,
      rsq_metadata = bt_empty\<rparr>"

lemma response_messages_chat:
  "\<forall>m \<in> set ms. ctm_tool_call_id m = None \<Longrightarrow>
   response_messages (map (\<lambda>m. \<lparr>rim_role = ctm_role m, rim_content = ContentText (ctm_content m)\<rparr>) ms) = chat_messages ms"
  by (induction ms) auto

lemma chat_tools_function:
  "\<forall>t \<in> set ts. ctl_kind t = ''function'' \<Longrightarrow>
   chat_tools render ts = Inr (map (response_tool_of render) (map (\<lambda>t. FunctionTool (cf_name (ctl_function t))
     (cf_description (ctl_function t)) (cf_parameters (ctl_function t)) (cf_strict (ctl_function t))) ts))"
  by (induction ts) auto

lemma chat_format_dto_eq: "parse_response_format render (map_option chat_format_dto f) = chat_format render f"
proof (cases f)
  case (Some x)
  then show ?thesis by (cases x) auto
qed simp

text \<open>
  The chat endpoint and the Responses endpoint give the same meaning to the same conversation.
  A chat request whose messages are no tool results, whose tools are functions and which gives one
  token limit at most is translated as its Responses form is: to the same model request or to the
  same error.
\<close>

lemma chat_equals_responses:
  assumes "\<forall>m \<in> set (chq_messages c). ctm_tool_call_id m = None"
    and "\<forall>t \<in> set (chq_tools c). ctl_kind t = ''function''"
    and "chq_max_tokens c = None \<or> chq_max_completion_tokens c = None"
  shows "chat_into_semantic render c = responses_into_semantic render (chat_as_responses c)"
  using assms chat_tools_function [OF assms(2)]
  by (auto simp: chat_into_semantic_def responses_into_semantic_def chat_as_responses_def Let_def
      response_messages_chat chat_format_dto_eq comp_def)

definition sample_chat :: chat_request where
  "sample_chat =
     \<lparr>chq_model = ''m'', chq_messages = [\<lparr>ctm_role = ''user'', ctm_content = ''hi'', ctm_tool_call_id = None\<rparr>],
      chq_max_tokens = Some 7, chq_max_completion_tokens = None, chq_temperature = None, chq_top_p = None,
      chq_stream = True, chq_tools = [], chq_tool_choice = Some (ChoiceMode ''none''),
      chq_response_format = Some ChatJsonObject, chq_reasoning_effort = Some ''low''\<rparr>"

end
