(* ===== verification/OpenAI_Output.thy ===== *)
theory OpenAI_Output
  imports OpenAI_Requests
begin

text \<open>
  The responses of the OpenAI-compatible endpoints: the accumulator of model events, the JSON bodies
  built from it, the server-sent events of the streaming variants, and the three handlers. A handler
  calls the inference service through \<open>infer\<close>, which gives the items of the model event stream in
  the order they are read. \<open>clock n\<close> is the Unix time read for the \<open>n\<close>-th event of a response.
\<close>

section \<open>The accumulator\<close>

record tool_output =
  to_call_id :: string
  to_name :: string
  to_arguments :: string

datatype output_item_key = KeyText | KeyReasoning | KeyTool string

record output_accumulator =
  oa_text :: string
  oa_reasoning :: string
  oa_tools :: "tool_output list"
  oa_output_order :: "output_item_key list"
  oa_usage :: usage
  oa_finish :: "model_finish_reason option"

definition usage_default :: usage where
  "usage_default = \<lparr>us_input_tokens = 0, us_output_tokens = 0\<rparr>"

definition accumulator_default :: output_accumulator where
  "accumulator_default = \<lparr>oa_text = [], oa_reasoning = [], oa_tools = [], oa_output_order = [],
     oa_usage = usage_default, oa_finish = None\<rparr>"

text \<open>\<open>iter_mut().find(..)\<close> and an update of the element found.\<close>

fun update_first :: "('a \<Rightarrow> bool) \<Rightarrow> ('a \<Rightarrow> 'a) \<Rightarrow> 'a list \<Rightarrow> 'a list" where
  "update_first P f [] = []"
| "update_first P f (x # xs) = (if P x then f x # xs else x # update_first P f xs)"

fun acc_apply :: "output_accumulator \<Rightarrow> model_event \<Rightarrow> output_accumulator" where
  "acc_apply acc (EvTextDelta _ t) =
     acc\<lparr>oa_output_order := (if oa_text acc = [] then oa_output_order acc @ [KeyText] else oa_output_order acc),
         oa_text := oa_text acc @ t\<rparr>"
| "acc_apply acc (EvReasoningDelta _ t) =
     acc\<lparr>oa_output_order := (if oa_reasoning acc = [] then oa_output_order acc @ [KeyReasoning] else oa_output_order acc),
         oa_reasoning := oa_reasoning acc @ t\<rparr>"
| "acc_apply acc (EvToolCallStarted _ call_id name) =
     acc\<lparr>oa_output_order := oa_output_order acc @ [KeyTool call_id],
         oa_tools := oa_tools acc @ [\<lparr>to_call_id = call_id, to_name = name, to_arguments = []\<rparr>]\<rparr>"
| "acc_apply acc (EvToolCallArgumentsDelta _ call_id delta) =
     acc\<lparr>oa_tools := update_first (\<lambda>tool. to_call_id tool = call_id)
         (\<lambda>tool. tool\<lparr>to_arguments := to_arguments tool @ delta\<rparr>) (oa_tools acc)\<rparr>"
| "acc_apply acc (EvToolCallCompleted _ call_id arguments) =
     acc\<lparr>oa_tools := update_first (\<lambda>tool. to_call_id tool = call_id)
         (\<lambda>tool. tool\<lparr>to_arguments := arguments\<rparr>) (oa_tools acc)\<rparr>"
| "acc_apply acc (EvUsage _ usage _) = acc\<lparr>oa_usage := usage\<rparr>"
| "acc_apply acc (EvFinished _ reason usage) = acc\<lparr>oa_finish := Some reason, oa_usage := usage\<rparr>"
| "acc_apply acc (EvAccepted _) = acc"

section \<open>JSON values\<close>

definition tool_value :: "tool_output \<Rightarrow> string \<Rightarrow> json" where
  "tool_value tool status = JObject
     [(''type'', JString ''function_call''), (''id'', JString (to_call_id tool)), (''call_id'', JString (to_call_id tool)),
      (''name'', JString (to_name tool)), (''arguments'', JString (to_arguments tool)), (''status'', JString status)]"

definition message_id :: "string \<Rightarrow> string" where
  "message_id request_id = ''msg_'' @ request_id"

definition reasoning_id :: "string \<Rightarrow> string" where
  "reasoning_id request_id = ''rs_'' @ request_id"

definition output_text_part :: "string \<Rightarrow> json" where
  "output_text_part t = JObject [(''type'', JString ''output_text''), (''text'', JString t), (''annotations'', JArray [])]"

definition message_item :: "string \<Rightarrow> string \<Rightarrow> string \<Rightarrow> json" where
  "message_item request_id status t = JObject
     [(''type'', JString ''message''), (''id'', JString (message_id request_id)), (''status'', JString status),
      (''role'', JString ''assistant''), (''content'', JArray [output_text_part t])]"

definition reasoning_item :: "string \<Rightarrow> string \<Rightarrow> string \<Rightarrow> json" where
  "reasoning_item request_id status t = JObject
     [(''type'', JString ''reasoning''), (''id'', JString (reasoning_id request_id)), (''status'', JString status),
      (''summary'', JArray [JObject [(''type'', JString ''summary_text''), (''text'', JString t)]])]"

definition usage_value :: "usage \<Rightarrow> json" where
  "usage_value usage = JObject
     [(''input_tokens'', json_nat (us_input_tokens usage)), (''output_tokens'', json_nat (us_output_tokens usage)),
      (''total_tokens'', json_nat (sat_add64 (us_input_tokens usage) (us_output_tokens usage))),
      (''input_tokens_details'', JObject [(''cached_tokens'', json_nat 0)]),
      (''output_tokens_details'', JObject [(''reasoning_tokens'', json_nat 0)])]"

definition response_shell :: "u64 \<Rightarrow> string \<Rightarrow> string \<Rightarrow> string \<Rightarrow> (string \<times> json) list" where
  "response_shell now request_id model status =
     [(''id'', JString request_id), (''object'', JString ''response''), (''created_at'', json_nat now),
      (''status'', JString status), (''model'', JString model), (''output'', JArray []), (''error'', JNull),
      (''incomplete_details'', JNull), (''usage'', JNull)]"

text \<open>\<open>response["key"] = value\<close> on an object that has the key.\<close>

definition set_field :: "string \<Rightarrow> json \<Rightarrow> (string \<times> json) list \<Rightarrow> (string \<times> json) list" where
  "set_field key content obj = map (\<lambda>(k, v). if k = key then (k, content) else (k, v)) obj"

definition output_item_value :: "output_accumulator \<Rightarrow> string \<Rightarrow> output_item_key \<Rightarrow> json option" where
  "output_item_value acc request_id item =
     (case item of
        KeyText \<Rightarrow> Some (message_item request_id ''completed'' (oa_text acc))
      | KeyReasoning \<Rightarrow> Some (reasoning_item request_id ''completed'' (oa_reasoning acc))
      | KeyTool call_id \<Rightarrow>
          map_option (\<lambda>tool. tool_value tool ''completed'') (find (\<lambda>tool. to_call_id tool = call_id) (oa_tools acc)))"

definition response_value :: "u64 \<Rightarrow> string \<Rightarrow> string \<Rightarrow> output_accumulator \<Rightarrow> json" where
  "response_value now request_id model acc =
     (let status = (if oa_finish acc = Some MfLength then ''incomplete'' else ''completed'');
          output = List.map_filter (output_item_value acc request_id) (oa_output_order acc)
      in JObject
        (set_field ''incomplete_details''
           (if status = ''incomplete'' then JObject [(''reason'', JString ''max_output_tokens'')] else JNull)
        (set_field ''usage'' (usage_value (oa_usage acc))
        (set_field ''output'' (JArray output) (response_shell now request_id model status)))))"

definition completion_usage_value :: "usage \<Rightarrow> json" where
  "completion_usage_value usage = JObject
     [(''prompt_tokens'', json_nat (us_input_tokens usage)), (''completion_tokens'', json_nat (us_output_tokens usage)),
      (''total_tokens'', json_nat (sat_add64 (us_input_tokens usage) (us_output_tokens usage)))]"

fun completion_finish_reason :: "model_finish_reason option \<Rightarrow> string" where
  "completion_finish_reason (Some MfLength) = ''length''"
| "completion_finish_reason (Some MfContentFilter) = ''content_filter''"
| "completion_finish_reason (Some MfCancelled) = ''error''"
| "completion_finish_reason (Some MfError) = ''error''"
| "completion_finish_reason _ = ''stop''"

fun chat_finish_reason :: "model_finish_reason option \<Rightarrow> string" where
  "chat_finish_reason (Some MfLength) = ''length''"
| "chat_finish_reason (Some MfToolCall) = ''tool_calls''"
| "chat_finish_reason (Some MfContentFilter) = ''content_filter''"
| "chat_finish_reason (Some MfCancelled) = ''error''"
| "chat_finish_reason (Some MfError) = ''error''"
| "chat_finish_reason _ = ''stop''"

section \<open>Collected responses\<close>

text \<open>The loop of the three \<open>collect\<close> functions: the accumulated output, or the first error.\<close>

fun collect_items :: "output_accumulator \<Rightarrow> model_items \<Rightarrow> (output_accumulator, inference_error) result" where
  "collect_items acc [] = Inr acc"
| "collect_items acc (Inl error # items) = Inl error"
| "collect_items acc (Inr event # items) = collect_items (acc_apply acc event) items"

definition collect_response :: "api_texts \<Rightarrow> u64 \<Rightarrow> string \<Rightarrow> string \<Rightarrow> model_items \<Rightarrow> http_response" where
  "collect_response tx now request_id model items =
     (case collect_items accumulator_default items of
        Inl error \<Rightarrow> api_into_response (api_error_from_inference tx error)
      | Inr output \<Rightarrow> json_response 200 (response_value now request_id model output))"

definition completion_choice :: "string \<Rightarrow> json \<Rightarrow> json" where
  "completion_choice t finish_reason = JObject
     [(''text'', JString t), (''index'', json_nat 0), (''logprobs'', JNull), (''finish_reason'', finish_reason)]"

definition completion_object :: "u64 \<Rightarrow> string \<Rightarrow> string \<Rightarrow> json list \<Rightarrow> json \<Rightarrow> json" where
  "completion_object now request_id model choices usage = JObject
     [(''id'', JString request_id), (''object'', JString ''text_completion''), (''created'', json_nat now),
      (''model'', JString model), (''choices'', JArray choices), (''usage'', usage), (''system_fingerprint'', JNull)]"

definition collect_completion :: "api_texts \<Rightarrow> u64 \<Rightarrow> string \<Rightarrow> string \<Rightarrow> model_items \<Rightarrow> http_response" where
  "collect_completion tx now request_id model items =
     (case collect_items accumulator_default items of
        Inl error \<Rightarrow> api_into_response (api_error_from_inference tx error)
      | Inr output \<Rightarrow> json_response 200 (completion_object now request_id model
          [completion_choice (oa_text output) (JString (completion_finish_reason (oa_finish output)))]
          (completion_usage_value (oa_usage output))))"

definition chat_tool_call :: "nat \<times> tool_output \<Rightarrow> json" where
  "chat_tool_call = (\<lambda>(index, tool). JObject
     [(''index'', json_nat index), (''id'', JString (to_call_id tool)), (''type'', JString ''function''),
      (''function'', JObject [(''name'', JString (to_name tool)), (''arguments'', JString (to_arguments tool))])])"

definition text_or_null :: "string \<Rightarrow> json" where
  "text_or_null t = (if t = [] then JNull else JString t)"

definition collect_chat :: "api_texts \<Rightarrow> u64 \<Rightarrow> string \<Rightarrow> string \<Rightarrow> model_items \<Rightarrow> http_response" where
  "collect_chat tx now request_id model items =
     (case collect_items accumulator_default items of
        Inl error \<Rightarrow> api_into_response (api_error_from_inference tx error)
      | Inr output \<Rightarrow> json_response 200 (JObject
          [(''id'', JString request_id), (''object'', JString ''chat.completion''), (''created'', json_nat now),
           (''model'', JString model),
           (''choices'', JArray [JObject
              [(''index'', json_nat 0),
               (''message'', JObject
                  [(''role'', JString ''assistant''), (''content'', text_or_null (oa_text output)),
                   (''reasoning_content'', text_or_null (oa_reasoning output)),
                   (''tool_calls'', JArray (map chat_tool_call (enumerate 0 (oa_tools output))))]),
               (''finish_reason'', JString (chat_finish_reason (oa_finish output)))]]),
           (''usage'', usage_value (oa_usage output))]))"

section \<open>Streamed responses\<close>

definition sse_json :: "string \<Rightarrow> json \<Rightarrow> sse_event" where
  "sse_json event_type content = \<lparr>se_event = Some event_type, se_data = SseJson content\<rparr>"

definition sse_data_json :: "json \<Rightarrow> sse_event" where
  "sse_data_json content = \<lparr>se_event = None, se_data = SseJson content\<rparr>"

definition sse_done :: sse_event where
  "sse_done = \<lparr>se_event = None, se_data = SseText ''[DONE]''\<rparr>"

subsection \<open>Responses\<close>

record responses_stream =
  rst_output :: output_accumulator
  rst_text_started :: bool
  rst_reasoning_started :: bool
  rst_next_output_index :: usize
  rst_text_output_index :: "usize option"
  rst_reasoning_output_index :: "usize option"
  rst_tool_output_indices :: "(string, usize) btree"

definition responses_stream_init :: responses_stream where
  "responses_stream_init = \<lparr>rst_output = accumulator_default, rst_text_started = False,
     rst_reasoning_started = False, rst_next_output_index = 0, rst_text_output_index = None,
     rst_reasoning_output_index = None, rst_tool_output_indices = bt_empty\<rparr>"

definition responses_fail :: "api_texts \<Rightarrow> inference_error \<Rightarrow> chunk" where
  "responses_fail tx error = (\<lambda>_. sse_json ''error'' (JObject
     [(''type'', JString ''error''), (''error'', ae_body (api_error_from_inference tx error))]))"

text \<open>The events yielded for a model event before the accumulator sees it, and the new indices.\<close>

fun responses_yield :: "string \<Rightarrow> string \<Rightarrow> responses_stream \<Rightarrow> model_event \<Rightarrow> chunk list \<times> responses_stream" where
  "responses_yield request_id model s (EvAccepted _) =
     ([\<lambda>now. sse_json ''response.created'' (JObject [(''type'', JString ''response.created''),
         (''response'', JObject (response_shell now request_id model ''in_progress''))])], s)"
| "responses_yield request_id model s (EvTextDelta _ t) =
     (let index = rst_next_output_index s;
          s' = (if rst_text_started s then s
                else s\<lparr>rst_text_started := True, rst_next_output_index := wrap_add64 index 1,
                       rst_text_output_index := Some index\<rparr>)
      in ((if rst_text_started s then []
           else [\<lambda>_. sse_json ''response.output_item.added'' (JObject
                   [(''type'', JString ''response.output_item.added''), (''output_index'', json_nat index),
                    (''item'', message_item request_id ''in_progress'' [])]),
                 \<lambda>_. sse_json ''response.content_part.added'' (JObject
                   [(''type'', JString ''response.content_part.added''), (''item_id'', JString (message_id request_id)),
                    (''output_index'', json_nat index), (''content_index'', json_nat 0), (''part'', output_text_part [])])])
          @ [\<lambda>_. sse_json ''response.output_text.delta'' (JObject
               [(''type'', JString ''response.output_text.delta''), (''item_id'', JString (message_id request_id)),
                (''output_index'', json_opt json_nat (rst_text_output_index s')), (''content_index'', json_nat 0),
                (''delta'', JString t)])], s'))"
| "responses_yield request_id model s (EvReasoningDelta _ t) =
     (let index = rst_next_output_index s;
          s' = (if rst_reasoning_started s then s
                else s\<lparr>rst_reasoning_started := True, rst_next_output_index := wrap_add64 index 1,
                       rst_reasoning_output_index := Some index\<rparr>)
      in ((if rst_reasoning_started s then []
           else [\<lambda>_. sse_json ''response.output_item.added'' (JObject
                   [(''type'', JString ''response.output_item.added''), (''output_index'', json_nat index),
                    (''item'', reasoning_item request_id ''in_progress'' [])])])
          @ [\<lambda>_. sse_json ''response.reasoning_summary_text.delta'' (JObject
               [(''type'', JString ''response.reasoning_summary_text.delta''),
                (''item_id'', JString (reasoning_id request_id)), (''delta'', JString t)])], s'))"
| "responses_yield request_id model s (EvToolCallStarted _ call_id name) =
     (let index = rst_next_output_index s
      in ([\<lambda>_. sse_json ''response.output_item.added'' (JObject
             [(''type'', JString ''response.output_item.added''), (''output_index'', json_nat index),
              (''item'', JObject [(''type'', JString ''function_call''), (''id'', JString call_id),
                (''call_id'', JString call_id), (''name'', JString name), (''arguments'', JString []),
                (''status'', JString ''in_progress'')])])],
          s\<lparr>rst_next_output_index := wrap_add64 index 1,
            rst_tool_output_indices := bt_insert call_id index (rst_tool_output_indices s)\<rparr>))"
| "responses_yield request_id model s (EvToolCallArgumentsDelta _ call_id delta) =
     ([\<lambda>_. sse_json ''response.function_call_arguments.delta'' (JObject
         [(''type'', JString ''response.function_call_arguments.delta''), (''item_id'', JString call_id),
          (''output_index'', json_opt json_nat (bt_get (rst_tool_output_indices s) call_id)), (''delta'', JString delta)])], s)"
| "responses_yield request_id model s (EvToolCallCompleted _ call_id arguments) =
     ([\<lambda>_. sse_json ''response.function_call_arguments.done'' (JObject
         [(''type'', JString ''response.function_call_arguments.done''), (''item_id'', JString call_id),
          (''output_index'', json_opt json_nat (bt_get (rst_tool_output_indices s) call_id)),
          (''arguments'', JString arguments)])], s)"
| "responses_yield request_id model s (EvFinished _ _ _) =
     ((if rst_text_started s
       then [\<lambda>_. sse_json ''response.output_text.done'' (JObject
               [(''type'', JString ''response.output_text.done''), (''item_id'', JString (message_id request_id)),
                (''output_index'', json_opt json_nat (rst_text_output_index s)), (''content_index'', json_nat 0),
                (''text'', JString (oa_text (rst_output s)))]),
             \<lambda>_. sse_json ''response.content_part.done'' (JObject
               [(''type'', JString ''response.content_part.done''), (''item_id'', JString (message_id request_id)),
                (''output_index'', json_opt json_nat (rst_text_output_index s)), (''content_index'', json_nat 0),
                (''part'', output_text_part (oa_text (rst_output s)))]),
             \<lambda>_. sse_json ''response.output_item.done'' (JObject
               [(''type'', JString ''response.output_item.done''),
                (''output_index'', json_opt json_nat (rst_text_output_index s)),
                (''item'', message_item request_id ''completed'' (oa_text (rst_output s)))])]
       else []) @
      (if rst_reasoning_started s
       then [\<lambda>_. sse_json ''response.reasoning_summary_text.done'' (JObject
               [(''type'', JString ''response.reasoning_summary_text.done''),
                (''item_id'', JString (reasoning_id request_id)), (''text'', JString (oa_reasoning (rst_output s)))]),
             \<lambda>_. sse_json ''response.output_item.done'' (JObject
               [(''type'', JString ''response.output_item.done''),
                (''output_index'', json_opt json_nat (rst_reasoning_output_index s)),
                (''item'', reasoning_item request_id ''completed'' (oa_reasoning (rst_output s)))])]
       else []), s)"
| "responses_yield request_id model s (EvUsage _ _ _) = ([], s)"

fun is_tool_completed :: "model_event \<Rightarrow> bool" where
  "is_tool_completed (EvToolCallCompleted _ _ _) = True"
| "is_tool_completed _ = False"

definition responses_step ::
    "string \<Rightarrow> string \<Rightarrow> responses_stream \<Rightarrow> model_event \<Rightarrow> chunk list \<times> responses_stream \<times> bool" where
  "responses_step request_id model s event =
     (let (out, s) = responses_yield request_id model s event;
          output = acc_apply (rst_output s) event;
          tool_done =
            (if is_tool_completed event \<and> oa_tools output \<noteq> []
             then let tool = last (oa_tools output)
                  in [\<lambda>_. sse_json ''response.output_item.done'' (JObject
                        [(''type'', JString ''response.output_item.done''),
                         (''output_index'', json_opt json_nat (bt_get (rst_tool_output_indices s) (to_call_id tool))),
                         (''item'', tool_value tool ''completed'')])]
             else []);
          completed =
            (if is_finished event
             then [\<lambda>now. sse_json ''response.completed'' (JObject
                      [(''type'', JString ''response.completed''), (''response'', response_value now request_id model output)])]
             else [])
      in (out @ tool_done @ completed, s\<lparr>rst_output := output\<rparr>, is_finished event))"

definition responses_sse :: "api_texts \<Rightarrow> (nat \<Rightarrow> u64) \<Rightarrow> string \<Rightarrow> string \<Rightarrow> model_items \<Rightarrow> sse_event list" where
  "responses_sse tx clock request_id model items =
     stamp clock (sse_loop (responses_step request_id model) (responses_fail tx) responses_stream_init items)"

subsection \<open>Completions\<close>

definition completion_chunk :: "string \<Rightarrow> string \<Rightarrow> json list \<Rightarrow> json \<Rightarrow> chunk" where
  "completion_chunk request_id model choices usage =
     (\<lambda>now. sse_data_json (completion_object now request_id model choices usage))"

definition data_fail :: "api_texts \<Rightarrow> inference_error \<Rightarrow> chunk" where
  "data_fail tx error = (\<lambda>_. sse_data_json (JObject [(''error'', ae_body (api_error_from_inference tx error))]))"

fun completion_yield :: "string \<Rightarrow> string \<Rightarrow> model_event \<Rightarrow> chunk list" where
  "completion_yield request_id model (EvTextDelta _ t) =
     [completion_chunk request_id model [completion_choice t JNull] JNull]"
| "completion_yield request_id model (EvFinished _ reason _) =
     [completion_chunk request_id model
        [completion_choice [] (JString (completion_finish_reason (Some reason)))] JNull]"
| "completion_yield request_id model _ = []"

definition completion_step ::
    "string \<Rightarrow> string \<Rightarrow> bool \<Rightarrow> output_accumulator \<Rightarrow> model_event \<Rightarrow> chunk list \<times> output_accumulator \<times> bool" where
  "completion_step request_id model include_usage output event =
     (let output = acc_apply output event
      in (completion_yield request_id model event @
          (if is_finished event
           then (if include_usage then [completion_chunk request_id model [] (completion_usage_value (oa_usage output))] else [])
                @ [\<lambda>_. sse_done]
           else []), output, is_finished event))"

definition completion_sse ::
    "api_texts \<Rightarrow> (nat \<Rightarrow> u64) \<Rightarrow> string \<Rightarrow> string \<Rightarrow> bool \<Rightarrow> model_items \<Rightarrow> sse_event list" where
  "completion_sse tx clock request_id model include_usage items =
     stamp clock (sse_loop (completion_step request_id model include_usage) (data_fail tx) accumulator_default items)"

subsection \<open>Chat\<close>

definition chat_chunk :: "string \<Rightarrow> string \<Rightarrow> json \<Rightarrow> json \<Rightarrow> chunk" where
  "chat_chunk request_id model delta finish_reason = (\<lambda>now. sse_data_json (JObject
     [(''id'', JString request_id), (''object'', JString ''chat.completion.chunk''), (''created'', json_nat now),
      (''model'', JString model),
      (''choices'', JArray [JObject [(''index'', json_nat 0), (''delta'', delta), (''finish_reason'', finish_reason)]])]))"

text \<open>\<open>iter().position(..).unwrap_or(0)\<close> of a call among the tools.\<close>

fun tool_position :: "string \<Rightarrow> tool_output list \<Rightarrow> nat option" where
  "tool_position call_id [] = None"
| "tool_position call_id (tool # tools) =
     (if to_call_id tool = call_id then Some 0 else map_option Suc (tool_position call_id tools))"

fun chat_delta :: "output_accumulator \<Rightarrow> model_event \<Rightarrow> (json \<times> json) list" where
  "chat_delta output (EvTextDelta _ t) = [(JObject [(''content'', JString t)], JNull)]"
| "chat_delta output (EvReasoningDelta _ t) = [(JObject [(''reasoning_content'', JString t)], JNull)]"
| "chat_delta output (EvToolCallStarted _ call_id name) =
     [(JObject [(''tool_calls'', JArray [JObject
         [(''index'', json_nat (length (oa_tools output))), (''id'', JString call_id), (''type'', JString ''function''),
          (''function'', JObject [(''name'', JString name), (''arguments'', JString [])])]])], JNull)]"
| "chat_delta output (EvToolCallArgumentsDelta _ call_id delta) =
     [(JObject [(''tool_calls'', JArray [JObject
         [(''index'', json_nat (case tool_position call_id (oa_tools output) of None \<Rightarrow> 0 | Some i \<Rightarrow> i)),
          (''function'', JObject [(''arguments'', JString delta)])]])], JNull)]"
| "chat_delta output (EvFinished _ reason _) = [(JObject [], JString (chat_finish_reason (Some reason)))]"
| "chat_delta output _ = []"

fun is_accepted :: "model_event \<Rightarrow> bool" where
  "is_accepted (EvAccepted _) = True"
| "is_accepted _ = False"

definition chat_step ::
    "string \<Rightarrow> string \<Rightarrow> output_accumulator \<times> bool \<Rightarrow> model_event \<Rightarrow> chunk list \<times> (output_accumulator \<times> bool) \<times> bool" where
  "chat_step request_id model = (\<lambda>(output, role_sent) event.
     let role = (\<not> role_sent \<and> is_accepted event)
     in ((if role then [chat_chunk request_id model
             (JObject [(''role'', JString ''assistant''), (''content'', JString [])]) JNull] else [])
         @ map (\<lambda>(delta, finish). chat_chunk request_id model delta finish) (chat_delta output event)
         @ (if is_finished event then [\<lambda>_. sse_done] else []),
         (acc_apply output event, role_sent \<or> role), is_finished event))"

definition chat_sse :: "api_texts \<Rightarrow> (nat \<Rightarrow> u64) \<Rightarrow> string \<Rightarrow> string \<Rightarrow> model_items \<Rightarrow> sse_event list" where
  "chat_sse tx clock request_id model items =
     stamp clock (sse_loop (chat_step request_id model) (data_fail tx) (accumulator_default, False) items)"

section \<open>Handlers\<close>

text \<open>The inference service as a handler sees it.\<close>

type_synonym infer_call = "model_request \<Rightarrow> operation_context \<Rightarrow> (model_items, inference_error) result"

text \<open>
  What the three handlers share: the check of the context, the rejection of a malformed body, the
  translation and the call of the service. \<open>active\<close> is the result of \<open>ensure_active\<close>.
\<close>

definition open_stream ::
    "api_texts \<Rightarrow> (unit, context_error) result \<Rightarrow> trusted_request \<Rightarrow> ('r, json_rejection) result
     \<Rightarrow> ('r \<Rightarrow> (model_request, api_error) result) \<Rightarrow> infer_call \<Rightarrow> ('r \<times> model_items, api_error) result" where
  "open_stream tx active trusted payload translate infer =
     (case active of
        Inl e \<Rightarrow> Inl (api_error_from_inference tx (IfContext e))
      | Inr _ \<Rightarrow>
          (case payload of
             Inl e \<Rightarrow> Inl (api_error_from_json_rejection e)
           | Inr request \<Rightarrow>
               and_then (translate request) (\<lambda>semantic.
                 case infer semantic (tr_context trusted) of
                   Inl e \<Rightarrow> Inl (api_error_from_inference tx e)
                 | Inr items \<Rightarrow> Inr (request, items))))"

definition responses ::
    "api_texts \<Rightarrow> (nat \<Rightarrow> u64) \<Rightarrow> (json \<Rightarrow> string) \<Rightarrow> infer_call \<Rightarrow> (unit, context_error) result \<Rightarrow> trusted_request
     \<Rightarrow> (responses_request, json_rejection) result \<Rightarrow> http_response" where
  "responses tx clock render infer active trusted payload =
     (case open_stream tx active trusted payload (responses_into_semantic render) infer of
        Inl e \<Rightarrow> api_into_response e
      | Inr (request, items) \<Rightarrow>
          if rsq_stream request
          then sse_response (responses_sse tx clock (tr_response_id trusted) (rsq_model request) items)
          else collect_response tx (clock 0) (tr_response_id trusted) (rsq_model request) items)"

definition completions ::
    "api_texts \<Rightarrow> (nat \<Rightarrow> u64) \<Rightarrow> infer_call \<Rightarrow> (unit, context_error) result \<Rightarrow> trusted_request
     \<Rightarrow> (completion_request, json_rejection) result \<Rightarrow> http_response" where
  "completions tx clock infer active trusted payload =
     (case open_stream tx active trusted payload completion_into_semantic infer of
        Inl e \<Rightarrow> api_into_response e
      | Inr (request, items) \<Rightarrow>
          if cpq_stream request
          then sse_response (completion_sse tx clock (tr_response_id trusted) (cpq_model request)
            (case cpq_stream_options request of None \<Rightarrow> False | Some options \<Rightarrow> cso_include_usage options) items)
          else collect_completion tx (clock 0) (tr_response_id trusted) (cpq_model request) items)"

definition chat_completions ::
    "api_texts \<Rightarrow> (nat \<Rightarrow> u64) \<Rightarrow> (json \<Rightarrow> string) \<Rightarrow> infer_call \<Rightarrow> (unit, context_error) result \<Rightarrow> trusted_request
     \<Rightarrow> (chat_request, json_rejection) result \<Rightarrow> http_response" where
  "chat_completions tx clock render infer active trusted payload =
     (case open_stream tx active trusted payload (chat_into_semantic render) infer of
        Inl e \<Rightarrow> api_into_response e
      | Inr (request, items) \<Rightarrow>
          if chq_stream request
          then sse_response (chat_sse tx clock (tr_response_id trusted) (chq_model request) items)
          else collect_chat tx (clock 0) (tr_response_id trusted) (chq_model request) items)"

end
