(* ===== verification/Event_Stream.thy ===== *)
theory Event_Stream
  imports Inference
begin

text \<open>
  The event stream that \<open>infer\<close> returns: what a client reads from it, and what is reported to the
  traffic controller and to the engine when it is read to its end or dropped. The polls of one
  stream may be interleaved with anything else: \<open>stream_run\<close> takes each poll in a world of its own.
\<close>

section \<open>Output models\<close>

text \<open>
  What the stream needs of an output pipeline: states it may be in, and that a terminal event of the
  engine, and no other event, becomes the final event, alone.
\<close>

locale output_model =
  fixes process :: "engine_event \<Rightarrow> 'p \<Rightarrow> (model_event list, model_io_error) result \<times> 'p"
    and ok :: "'p \<Rightarrow> bool"
  assumes ok_process: "ok p \<Longrightarrow> process event p = (r, p') \<Longrightarrow> ok p'"
    and finished_last: "ok p \<Longrightarrow> terminal_reason event = Some reason \<Longrightarrow> process event p = (Inr out, p') \<Longrightarrow>
      \<exists>last. out = [last] \<and> is_finished last"
    and not_finished: "ok p \<Longrightarrow> terminal_reason event = None \<Longrightarrow> process event p = (Inr out, p') \<Longrightarrow>
      list_all (\<lambda>e. \<not> is_finished e) out"

subsection \<open>The basic pipeline is one\<close>

abbreviation unfinished :: "model_event list \<Rightarrow> bool" where
  "unfinished \<equiv> list_all (\<lambda>e. \<not> is_finished e)"

lemma call_events_unfinished:
  "start_tool_call rid c n p = Some (Inr e, q) \<Longrightarrow> \<not> is_finished e"
  "append_tool_arguments rid c d p = Some (Inr e, q) \<Longrightarrow> \<not> is_finished e"
  "complete_tool_call fs rid c p = Some (Inr e, q) \<Longrightarrow> \<not> is_finished e"
  by (auto simp: start_tool_call_def append_tool_arguments_def complete_tool_call_def Let_def split: if_splits option.splits)

lemma emit_text_unfinished: "emit_text rid t p = Some (Inr evs, q) \<Longrightarrow> unfinished evs"
  by (auto simp: emit_text_def)

lemma process_parsed_call_unfinished: "process_parsed_call fs rid n a p = Some (Inr evs, q) \<Longrightarrow> unfinished evs"
  by (auto simp: process_parsed_call_def Let_def pipe_bind_Inr dest: call_events_unfinished)

lemma process_tool_segments_unfinished: "process_tool_segments fs rid segs p = Some (Inr evs, q) \<Longrightarrow> unfinished evs"
proof (induction segs arbitrary: p evs)
  case (Cons seg segs)
  then show ?case
    by (cases seg) (fastforce simp: pipe_bind_Inr dest: process_parsed_call_unfinished emit_text_unfinished)+
qed simp

lemma process_visible_text_unfinished: "process_visible_text fs ts rid t p = Some (Inr evs, q) \<Longrightarrow> unfinished evs"
  by (auto simp: process_visible_text_def simp del: process_tool_segments.simps dest!: process_tool_segments_unfinished
      split: option.splits prod.splits sum.splits)

lemma process_reasoning_segments_unfinished:
  "process_reasoning_segments fs ts rid segs p = Some (Inr evs, q) \<Longrightarrow> unfinished evs"
proof (induction segs arbitrary: p evs)
  case (Cons seg segs)
  then show ?case
    by (cases seg) (fastforce simp: pipe_bind_Inr dest: process_visible_text_unfinished)+
qed simp

lemma process_text_delta_unfinished: "process_text_delta fs ts rid t p = Some (Inr evs, q) \<Longrightarrow> unfinished evs"
  by (auto simp: process_text_delta_def simp del: process_reasoning_segments.simps
      dest!: process_reasoning_segments_unfinished split: option.splits prod.splits sum.splits)

text \<open>The parsers hold nothing back at the end: what they would flush is an error.\<close>

lemma finish_parsers_Nil:
  assumes "finish_parsers fs ts rid p = Some (Inr evs, q)"
  shows "evs = []"
proof -
  have reasoning: "reasoning_finish s = Inr xs \<Longrightarrow> xs = []" for s xs by (auto simp: reasoning_finish_def split: if_splits)
  have tools: "tool_finish s = Inr xs \<Longrightarrow> xs = []" for s xs by (auto simp: tool_finish_def split: if_splits)
  from assms show ?thesis
  proof (rule finish_parsers_cases)
    fix rs ts' a b r
    assume "(case opl_reasoning_parser p of None \<Rightarrow> Inr [] | Some parser \<Rightarrow> reasoning_finish parser) = Inr rs"
      and "(case opl_tool_parser r of None \<Rightarrow> Inr [] | Some parser \<Rightarrow> tool_finish parser) = Inr ts'"
      and run: "process_reasoning_segments fs ts rid rs p = Some (Inr a, r)" "finish_tool_segments rid ts' r = Some (Inr b, q)"
        "evs = a @ b"
    then have "rs = []" "ts' = []" by (auto dest: reasoning tools split: option.splits)
    with run show ?thesis by simp
  qed
qed

lemma process_finished_only:
  assumes "process_finished fs ts rid reason u p = Some (Inr evs, q)"
  shows "\<exists>last. evs = [last] \<and> is_finished last"
  using assms by (elim process_finished_cases) (auto simp: finish_event_def dest: finish_parsers_Nil)

lemma pipeline_process_unfinished:
  assumes "pipeline_process fs ts event p = Some (Inr evs, q)" and "terminal_reason event = None"
  shows "unfinished evs"
  using assms
  by (cases event)
    (auto simp: pipeline_process_def pipe_bind_Inr terminal_reason_def dest: process_text_delta_unfinished call_events_unfinished
      split: sum.splits if_splits)

lemma basic_process_Some:
  assumes "pipeline_proper p" and "mdl_process (basic_model_ops fs ts m) event p = (r, p')"
  shows "pipeline_process fs ts event p = Some (r, p')" and "pipeline_proper p'"
  using assms pipeline_process_returns [OF assms(1), of fs ts event]
  by (cases "pipeline_process fs ts event p"; auto simp: basic_model_ops_def)+

interpretation basic: output_model "mdl_process (basic_model_ops fs ts m)" pipeline_proper for fs ts m
proof unfold_locales
  fix event p r p'
  assume "pipeline_proper p" "mdl_process (basic_model_ops fs ts m) event p = (r, p')"
  then show "pipeline_proper p'" by (rule basic_process_Some)
next
  fix p event reason out p'
  assume proper: "pipeline_proper p" "mdl_process (basic_model_ops fs ts m) event p = (Inr out, p')"
    and terminal: "terminal_reason event = Some reason"
  from basic_process_Some(1) [OF proper] have "pipeline_process fs ts event p = Some (Inr out, p')" .
  with terminal show "\<exists>last. out = [last] \<and> is_finished last"
    by (cases event) (auto simp: terminal_reason_def pipeline_process_def intro: process_finished_only)
next
  fix p event out p'
  assume "pipeline_proper p" "mdl_process (basic_model_ops fs ts m) event p = (Inr out, p')"
    and "terminal_reason event = None"
  then show "unfinished out" by (metis basic_process_Some(1) pipeline_process_unfinished)
qed

section \<open>The polls of one stream\<close>

abbreviation stream_process ::
    "('a, 'p) stream_state \<Rightarrow> engine_event \<Rightarrow> 'p \<Rightarrow> (model_event list, model_io_error) result \<times> 'p" where
  "stream_process s \<equiv> mdl_process (ad_model (pd_admitted (sg_placed s)))"

inductive stream_run ::
    "('a, 'p, 'w) service \<Rightarrow> operation_context \<Rightarrow> ('a, 'p) stream_state \<Rightarrow> poll list \<Rightarrow> effect list
     \<Rightarrow> ('a, 'p) stream_state \<Rightarrow> bool" for svc and ctx and s where
  run_start: "stream_run svc ctx s [] [] s"
| run_poll: "stream_run svc ctx s rs es s' \<Longrightarrow> poll_next svc env ctx s' w = (r, e, s'', w') \<Longrightarrow>
    stream_run svc ctx s (rs @ [r]) (es @ e) s''"

text \<open>
  The shape of a stream between two polls. While the generator runs, the buffer holds events that
  are not terminal. Once it is about to return, the terminal event or an error has been delivered,
  which the flags record.
\<close>

definition stream_shape :: "('a, 'p) stream_state \<Rightarrow> bool" where
  "stream_shape s \<longleftrightarrow>
     (if sg_stop s then sg_out s = [] \<and> (sg_completed s \<or> sg_terminal_error s)
      else (\<exists>init. sg_out s = map Inr init \<and> unfinished init) \<and>
        \<not> sg_completed s \<and> \<not> sg_terminal_error s \<and> \<not> sg_ended s)"

text \<open>What one poll may do, in terms of the flags.\<close>

datatype poll_class = Nothing_Yet | Event_Read | Finish_Read | Error_Read | End_Read

fun poll_kind :: "poll \<Rightarrow> poll_class" where
  "poll_kind Pending = Nothing_Yet"
| "poll_kind (Ready None) = End_Read"
| "poll_kind (Ready (Some (Inl _))) = Error_Read"
| "poll_kind (Ready (Some (Inr e))) = (if is_finished e then Finish_Read else Event_Read)"

definition poll_effect :: "('a, 'p) stream_state \<Rightarrow> poll \<Rightarrow> effect list \<Rightarrow> ('a, 'p) stream_state \<Rightarrow> bool" where
  "poll_effect s r e s' \<longleftrightarrow>
     (if sg_stop s' = sg_stop s then e = [] else sg_stop s' \<and> (\<exists>reason. e = [Reported reason])) \<and>
     (case poll_kind r of
        Finish_Read \<Rightarrow> sg_stop s' \<and> sg_out s' = [] \<and> sg_completed s' \<and> \<not> sg_terminal_error s' \<and>
          \<not> sg_completed s \<and> \<not> sg_terminal_error s
      | Error_Read \<Rightarrow> sg_stop s' \<and> sg_out s' = [] \<and> sg_terminal_error s' \<and> \<not> sg_completed s' \<and>
          \<not> sg_completed s \<and> \<not> sg_terminal_error s
      | End_Read \<Rightarrow> sg_completed s' \<and> (sg_completed s \<or> sg_terminal_error s) \<and> sg_terminal_error s' = sg_terminal_error s
      | _ \<Rightarrow> \<not> sg_completed s' \<and> \<not> sg_terminal_error s' \<and> \<not> sg_completed s \<and> \<not> sg_terminal_error s)"

definition read_kinds :: "poll list \<Rightarrow> poll_class list" where
  "read_kinds rs = filter (\<lambda>k. k \<noteq> Nothing_Yet) (map poll_kind rs)"

text \<open>What has been read so far, by the flags of the wrapper.\<close>

definition read_so_far :: "('a, 'p) stream_state \<Rightarrow> poll_class list \<Rightarrow> bool" where
  "read_so_far s ks \<longleftrightarrow>
     (\<exists>a. if sg_terminal_error s then \<exists>n. ks = replicate a Event_Read @ Error_Read # replicate n End_Read
          else if sg_completed s then \<exists>n. ks = replicate a Event_Read @ Finish_Read # replicate n End_Read
          else ks = replicate a Event_Read)"

lemma read_so_far_step:
  assumes "poll_effect s r e s'" and "read_so_far s ks"
  shows "read_so_far s' (ks @ filter (\<lambda>k. k \<noteq> Nothing_Yet) [poll_kind r])"
proof (cases "poll_kind r")
  case End_Read
  with assms have "sg_completed s'" "sg_completed s \<or> sg_terminal_error s" "sg_terminal_error s' = sg_terminal_error s"
    by (auto simp: poll_effect_def)
  moreover from this assms(2) obtain a n
    where "ks = replicate a Event_Read @ (if sg_terminal_error s then Error_Read else Finish_Read) # replicate n End_Read"
    by (auto simp: read_so_far_def split: if_splits)
  ultimately show ?thesis unfolding read_so_far_def End_Read
    by (intro exI [of _ a]) (auto intro!: exI [of _ "Suc n"] simp: replicate_append_same)
next
  case Event_Read
  with assms obtain a where "ks = replicate a Event_Read" "\<not> sg_completed s'" "\<not> sg_terminal_error s'"
    by (auto simp: poll_effect_def read_so_far_def)
  then show ?thesis unfolding read_so_far_def Event_Read
    by (auto simp: replicate_append_same intro: exI [of _ "Suc a"])
next
  case Finish_Read
  with assms obtain a where "ks = replicate a Event_Read" "sg_completed s'" "\<not> sg_terminal_error s'"
    by (auto simp: poll_effect_def read_so_far_def)
  then show ?thesis unfolding read_so_far_def Finish_Read by (intro exI [of _ a]) (auto intro!: exI [of _ "0 :: nat"])
next
  case Error_Read
  with assms obtain a where "ks = replicate a Event_Read" "sg_terminal_error s'"
    by (auto simp: poll_effect_def read_so_far_def)
  then show ?thesis unfolding read_so_far_def Error_Read by (intro exI [of _ a]) (auto intro!: exI [of _ "0 :: nat"])
qed (use assms in \<open>auto simp: poll_effect_def read_so_far_def\<close>)

text \<open>What one iteration of the generator yields, and what it leaves alone.\<close>

definition iteration_shape ::
    "(model_event, inference_error) result list \<Rightarrow> bool \<Rightarrow> effect list \<Rightarrow> bool" where
  "iteration_shape outs stop e \<longleftrightarrow>
     (if stop then
        (\<exists>reason. e = [Reported reason]) \<and>
        ((\<exists>err. outs = [Inl err]) \<or> (\<exists>fin. outs = [Inr fin] \<and> is_finished fin))
      else e = [] \<and> (\<exists>init. outs = map Inr init \<and> unfinished init))"

definition stream_frame :: "('a, 'p) stream_state \<Rightarrow> ('a, 'p) stream_state \<Rightarrow> bool" where
  "stream_frame s s' \<longleftrightarrow>
     sg_placed s' = sg_placed s \<and> sg_out s' = sg_out s \<and> sg_stop s' = sg_stop s \<and> sg_ended s' = sg_ended s \<and>
     sg_completed s' = sg_completed s \<and> sg_terminal_error s' = sg_terminal_error s"

lemma iteration_error_cases:
  assumes "iteration_error svc context reason err s w = (outs, stop, e, s', w')"
  shows "iteration_shape outs stop e \<and> s' = s"
  using assms by (auto simp: iteration_error_def iteration_shape_def)

text \<open>An iteration ends in an error or in the processing of one event.\<close>

lemma observe_frame:
  assumes "observe svc env obs w = (r, w')"
  shows "sw_traffic w' = sw_traffic w \<and> sw_registry w' = sw_registry w"
  using assms by (auto simp: observe_def split: prod.splits sum.splits)

lemma stream_iterate_elim:
  assumes "stream_iterate svc env ctx s w = (outs, stop, e, s', w')"
  obtains (error) reason er s1 w1 where "iteration_error svc ctx reason er s1 w1 = (outs, stop, e, s', w')"
      "sg_pipeline s1 = sg_pipeline s" "stream_frame s s1" "sw_traffic w1 = sw_traffic w" "sw_registry w1 = sw_registry w"
  | (process) event s1 w1 where "process_event svc ctx event s1 w1 = (outs, stop, e, s', w')"
      "sg_pipeline s1 = sg_pipeline s" "stream_frame s s1" "sw_traffic w1 = sw_traffic w" "sw_registry w1 = sw_registry w"
proof (cases "ve_await env")
  case (Interrupted er b)
  with assms show thesis by (intro error) (auto simp: stream_iterate_def stream_frame_def)
next
  case await: Completes
  show thesis
  proof (cases "sg_items s")
    case Nil
    with await assms show thesis by (intro error) (auto simp: stream_iterate_def stream_frame_def)
  next
    case items: (Cons item items)
    show thesis
    proof (cases item)
      case (Inl er)
      with items await assms show thesis
        by (intro error [of _ _ "s\<lparr>sg_items := items\<rparr>"]) (auto simp: stream_iterate_def stream_frame_def)
    next
      case (Inr event)
      define s1 where "s1 = s\<lparr>sg_items := items, sg_first_output :=
        (if sg_first_output s = None \<and> is_output_event event then Some (ve_now env) else sg_first_output s)\<rparr>"
      then have s1: "sg_pipeline s1 = sg_pipeline s" "stream_frame s s1" by (simp_all add: stream_frame_def)
      have "(\<exists>w1. process_event svc ctx event s1 w1 = (outs, stop, e, s', w') \<and>
          sw_traffic w1 = sw_traffic w \<and> sw_registry w1 = sw_registry w) \<or>
        (\<exists>er w1. iteration_error svc ctx (context_termination_reason er) (IfContext er) s1 w1 = (outs, stop, e, s', w') \<and>
          sw_traffic w1 = sw_traffic w \<and> sw_registry w1 = sw_registry w)"
        using assms
        unfolding stream_iterate_def await items Inr await_outcome.case list.case sum.case Let_def s1_def [symmetric]
        by (fastforce dest: observe_frame split: engine_event.splits prod.splits sum.splits)
      with s1 error process show thesis by blast
    qed
  qed
qed

context output_model
begin

lemma process_event_cases:
  assumes "process_event svc ctx event s w = (outs, stop, e, s', w')" and ok: "ok (sg_pipeline s)"
    and "stream_process s = process"
  shows "iteration_shape outs stop e \<and> ok (sg_pipeline s') \<and> stream_frame s s'"
proof -
  obtain r p' where run: "process event (sg_pipeline s) = (r, p')" by fastforce
  note okp = ok_process [OF ok run]
  show ?thesis
  proof (cases r)
    case (Inl err)
    with assms run okp show ?thesis by (auto simp: process_event_def stream_frame_def dest!: iteration_error_cases)
  next
    case (Inr out)
    note run = run [unfolded Inr]
    show ?thesis
    proof (cases "terminal_reason event")
      case None
      with assms run okp not_finished [OF ok None run] show ?thesis
        by (auto simp: process_event_def iteration_shape_def stream_frame_def)
    next
      case (Some reason)
      from finished_last [OF ok Some run] obtain last where "out = [last]" "is_finished last" by blast
      with assms run okp Some show ?thesis
        by (auto simp: process_event_def iteration_shape_def stream_frame_def)
    qed
  qed
qed

lemma stream_iterate_cases:
  assumes "stream_iterate svc env ctx s w = (outs, stop, e, s', w')" and ok: "ok (sg_pipeline s)"
    and "stream_process s = process"
  shows "iteration_shape outs stop e \<and> ok (sg_pipeline s') \<and> stream_frame s s'"
  using assms(1)
proof (cases rule: stream_iterate_elim)
  case (error reason er s1 w1)
  with iteration_error_cases [OF error(1)] ok show ?thesis by simp
next
  case (process event s1 w1)
  with process_event_cases [OF process(1)] ok assms(3) show ?thesis by (auto simp: stream_frame_def)
qed

lemma poll_inner_step:
  assumes "poll_inner svc env ctx s w = (r, e, s1, w')" and ok: "ok (sg_pipeline s)" and "stream_process s = process"
    and shape: "stream_shape s" and "sg_out s = []" and "\<not> sg_stop s"
  shows "ok (sg_pipeline s1) \<and> sg_placed s1 = sg_placed s \<and> \<not> sg_completed s1 \<and> \<not> sg_terminal_error s1 \<and> \<not> sg_ended s1 \<and>
    ((\<exists>err. r = Ready (Some (Inl err)) \<and> sg_stop s1 \<and> sg_out s1 = [] \<and> (\<exists>reason. e = [Reported reason])) \<or>
     r = Pending \<and> e = [] \<and> \<not> sg_stop s1 \<and> sg_out s1 = [] \<or>
     (\<exists>event init. r = Ready (Some (Inr event)) \<and> \<not> is_finished event \<and> e = [] \<and> \<not> sg_stop s1 \<and>
        sg_out s1 = map Inr init \<and> unfinished init) \<or>
     (\<exists>event. r = Ready (Some (Inr event)) \<and> is_finished event \<and> (\<exists>reason. e = [Reported reason]) \<and> sg_stop s1 \<and> sg_out s1 = []))"
proof -
  have flags: "\<not> sg_ended s" "\<not> sg_completed s" "\<not> sg_terminal_error s"
    using shape assms(6) by (auto simp: stream_shape_def)
  obtain outs stop e0 s0 w0 where it: "stream_iterate svc env ctx s w = (outs, stop, e0, s0, w0)" by (metis prod_cases5)
  note cases = stream_iterate_cases [OF it ok assms(3)]
  then have frame: "ok (sg_pipeline s0)" "sg_placed s0 = sg_placed s" "\<not> sg_completed s0" "\<not> sg_terminal_error s0" "\<not> sg_ended s0"
    "sg_out s0 = []" "\<not> sg_stop s0"
    using flags assms(5,6) by (auto simp: stream_frame_def)
  have poll: "poll_inner svc env ctx s w = (case (outs, stop, e0, s0, w0) of
      (x # xs, stop, effects, s, w) \<Rightarrow> (Ready (Some x), effects, s\<lparr>sg_out := xs, sg_stop := stop\<rparr>, w)
    | ([], True, effects, s, w) \<Rightarrow>
        (Ready None, effects, s\<lparr>sg_stop := True, sg_ended := True\<rparr>, drop_permits svc env (sg_placed s) w)
    | ([], False, effects, s, w) \<Rightarrow> (Pending, effects, s, w))"
    by (simp add: poll_inner_def assms(5,6) flags it)
  show ?thesis
  proof (cases stop)
    case True
    with cases obtain reason where e0: "e0 = [Reported reason]"
      and outs: "(\<exists>err. outs = [Inl err]) \<or> (\<exists>fin. outs = [Inr fin] \<and> is_finished fin)"
      by (auto simp: iteration_shape_def)
    from outs show ?thesis
    proof (elim disjE exE conjE)
      fix err assume "outs = [Inl err]"
      with poll assms(1) True e0 frame show ?thesis by auto
    next
      fix fin assume "outs = [Inr fin]" "is_finished fin"
      with poll assms(1) True e0 frame show ?thesis by auto
    qed
  next
    case False
    with cases obtain init where "e0 = []" "outs = map Inr init" "unfinished init" by (auto simp: iteration_shape_def)
    with poll assms(1) False frame show ?thesis by (cases init) auto
  qed
qed

lemma poll_next_step:
  assumes "poll_next svc env ctx s w = (r, e, s', w')" and ok: "ok (sg_pipeline s)" and proc: "stream_process s = process"
    and shape: "stream_shape s"
  shows "stream_shape s' \<and> ok (sg_pipeline s') \<and> sg_placed s' = sg_placed s \<and> poll_effect s r e s'"
proof (cases "sg_out s")
  case Nil
  show ?thesis
  proof (cases "sg_stop s")
    case True
    with Nil shape have "sg_completed s \<or> sg_terminal_error s" by (auto simp: stream_shape_def)
    with Nil True assms(1) ok show ?thesis
      by (cases "sg_ended s") (auto simp: poll_next_def poll_inner_def stream_shape_def poll_effect_def)
  next
    case False
    then have flags: "\<not> sg_completed s" "\<not> sg_terminal_error s" using shape by (auto simp: stream_shape_def)
    obtain r1 e1 s1 w1 where inner: "poll_inner svc env ctx s w = (r1, e1, s1, w1)" by (metis prod_cases4)
    with assms(1) have eqs: "r1 = r" "e1 = e" "w1 = w'" by (auto simp: poll_next_def)
    from poll_inner_step [OF inner ok proc shape Nil False, unfolded eqs] assms(1) inner flags False show ?thesis
      by (elim conjE disjE exE) (auto simp: poll_next_def stream_shape_def poll_effect_def)
  qed
next
  case (Cons x xs)
  with shape obtain event init where "x = Inr event" "xs = map Inr init" "\<not> is_finished event" "unfinished init"
    and flags: "\<not> sg_completed s" "\<not> sg_terminal_error s" "\<not> sg_ended s" "\<not> sg_stop s"
    by (auto simp: stream_shape_def Cons_eq_map_conv split: if_splits)
  with Cons assms(1) ok show ?thesis
    by (auto simp: poll_next_def poll_inner_def stream_shape_def poll_effect_def)
qed

lemma stream_run_inv:
  assumes "stream_run svc ctx s0 rs es s" and "stream_shape s0" and "ok (sg_pipeline s0)" and "stream_process s0 = process"
    and "\<not> sg_stop s0"
  shows "stream_shape s \<and> ok (sg_pipeline s) \<and> sg_placed s = sg_placed s0 \<and> read_so_far s (read_kinds rs) \<and>
    (if sg_stop s then \<exists>reason. es = [Reported reason] else es = [])"
  using assms
proof (induction rule: stream_run.induct)
  case run_start
  then show ?case by (auto simp: read_so_far_def read_kinds_def stream_shape_def)
next
  case (run_poll rs es s' env w r e s'' w')
  note ih = run_poll.IH [OF run_poll.prems]
  with run_poll.prems(3) have proc: "stream_process s' = process" by simp
  from ih have ok': "ok (sg_pipeline s')" and shape: "stream_shape s'" by simp_all
  note step = poll_next_step [OF run_poll.hyps(2) ok' proc shape]
  then have "read_so_far s'' (read_kinds (rs @ [r]))"
    using read_so_far_step [of s' r e s''] ih by (auto simp: read_kinds_def)
  moreover have "if sg_stop s'' then \<exists>reason. es @ e = [Reported reason] else es @ e = []"
    using step ih by (auto simp: poll_effect_def split: if_splits)
  ultimately show ?case using step ih by simp
qed

end

section \<open>Properties\<close>

fun is_report :: "effect \<Rightarrow> bool" where
  "is_report (Reported _) = True"
| "is_report EngineCancelSent = False"

lemma new_stream_simps [simp]:
  "sg_placed (new_stream env pd ex) = pd" "sg_pipeline (new_stream env pd ex) = ad_pipeline (pd_admitted pd)"
  "\<not> sg_stop (new_stream env pd ex)" "stream_shape (new_stream env pd ex)"
  by (simp_all add: new_stream_def stream_shape_def)

text \<open>
  C13: the protocol of the event stream. However its polls are interleaved with the rest of the
  system and whenever the context is cancelled, a client reads events, then exactly one terminal
  item, the final event or an error, and after it only the end. When the terminal item has been
  read, exactly one reason has been reported to the traffic controller; before, at most one.
\<close>

theorem stream_protocol:
  assumes "stream_run svc ctx (new_stream env pd ex) rs es s"
    and "ad_model (pd_admitted pd) = basic_model_ops fs ts m" and "pipeline_proper (ad_pipeline (pd_admitted pd))"
  shows "\<exists>a rest. read_kinds rs = replicate a Event_Read @ rest \<and>
     (rest = [] \<and> (es = [] \<or> (\<exists>reason. es = [Reported reason])) \<or>
      (\<exists>n last. last \<in> {Finish_Read, Error_Read} \<and> rest = last # replicate n End_Read \<and> (\<exists>reason. es = [Reported reason])))"
proof -
  have inv: "stream_shape s \<and> pipeline_proper (sg_pipeline s) \<and> sg_placed s = pd \<and> read_so_far s (read_kinds rs) \<and>
    (if sg_stop s then \<exists>reason. es = [Reported reason] else es = [])"
    using basic.stream_run_inv [OF assms(1), of fs ts m] assms(2,3) by simp
  then obtain a where a: "if sg_terminal_error s then \<exists>n. read_kinds rs = replicate a Event_Read @ Error_Read # replicate n End_Read
      else if sg_completed s then \<exists>n. read_kinds rs = replicate a Event_Read @ Finish_Read # replicate n End_Read
      else read_kinds rs = replicate a Event_Read"
    unfolding read_so_far_def by blast
  show ?thesis
  proof (cases "sg_completed s \<or> sg_terminal_error s")
    case True
    with inv have "\<exists>reason. es = [Reported reason]" by (auto simp: stream_shape_def split: if_splits)
    with a True show ?thesis by (intro exI [of _ a]) (auto split: if_splits)
  next
    case False
    with a inv show ?thesis by (intro exI [of _ a]) (auto split: if_splits)
  qed
qed

text \<open>
  C14: the accounting of a request at the end of its stream. A stream that is dropped, at any point
  between two polls, has had exactly one termination reason reported for it, whatever happened: the
  end of the engine's output, an error, an interruption or the client going away. The engine is told
  to cancel and the context is cancelled unless the end of the stream has been read.
\<close>

theorem dropped_stream_accounting:
  assumes "stream_run svc ctx (new_stream env pd ex) rs es s"
    and "ad_model (pd_admitted pd) = basic_model_ops fs ts m" and "pipeline_proper (ad_pipeline (pd_admitted pd))"
    and "drop_stream svc env' ctx s w = (es', w')"
  shows "(\<exists>reason. filter is_report (es @ es') = [Reported reason]) \<and>
     (EngineCancelSent \<in> set es' \<longleftrightarrow> \<not> sg_completed s \<and> ve_has_runtime env') \<and>
     (sg_completed s \<or> is_cancelled (oc_cancellation ctx) (sw_cancelled w'))"
proof -
  have inv: "stream_shape s" "if sg_stop s then \<exists>reason. es = [Reported reason] else es = []"
    using basic.stream_run_inv [OF assms(1), of fs ts m] assms(2,3) by simp_all
  have "es' = (if sg_completed s then [] else (if sg_terminal_error s then [] else [Reported ''client_cancelled'']) @
      (if ve_has_runtime env' then [EngineCancelSent] else []))"
    using assms(4) by (auto simp: drop_stream_def Let_def split: if_splits)
  moreover have "sg_completed s \<or> is_cancelled (oc_cancellation ctx) (sw_cancelled w')"
    using assms(4) by (auto simp: drop_stream_def is_cancelled_def cancel_def Let_def split: if_splits)
  ultimately show ?thesis using inv by (auto simp: stream_shape_def split: if_splits)
qed

section \<open>A concrete stream\<close>

text \<open>
  The engine sends a text and finishes; the client reads the text and hangs up.
\<close>

definition demo_service :: "(unit, output_pipeline, unit) service" where
  "demo_service =
     \<lparr>sv_catalog = model_registry_new,
      sv_discovery = \<lparr>dp_targets = (\<lambda>_. Inr []), dp_capabilities = (\<lambda>_ _. Inr sample_capabilities),
        dp_snapshot = (\<lambda>_ _. Inl EngineStopped)\<rparr>,
      sv_planner = (\<lambda>_ _. Inl NoFeasibleCandidate), sv_instance = (\<lambda>_. sample_engine),
      sv_adapter_ops = \<lparr>op_lookup = (\<lambda>_ _. Inr ()), op_prepare = (\<lambda>_ _ _ w. (Inl EngineStopped, w)),
        op_commit = (\<lambda>_ _ _ w. (Inl EngineStopped, w)), op_abort = (\<lambda>_ _ w. (Inr (), w)),
        op_execute = (\<lambda>_ _ _ _ w. (Inl EngineStopped, w)),
        op_materialize = (\<lambda>_ _ _ w. (Inl (StoreErrUnavailable FakeOutage), w))\<rparr>,
      sv_others = (\<lambda>_ w. w), sv_cancel = (\<lambda>_ _ _ w. (Inr (), w)),
      sv_store = \<lparr>sto_identity = ''st'', sto_lookup = (\<lambda>_ w. (Inr [], w)), sto_estimate = (\<lambda>_ _ w. (Inr [], w))\<rparr>,
      sv_policy = routing_policy_default, sv_required_models = bt_empty, sv_mode = Shadow, sv_cal_env = demo_cal_env,
      sv_traffic = Some narrow_controller, sv_debug = (\<lambda>_. [])\<rparr>"

definition demo_infer_env :: infer_env where
  "demo_infer_env =
     \<lparr>ve_view = (\<lambda>_. ({}, 0)), ve_now = 0, ve_unix_millis = 0, ve_wait = WaitResolved, ve_await = Completes,
      ve_select = \<lparr>se_unix_millis = 0, se_shadow_task = TaskJoined, se_shadow_faults = no_faults,
        se_promotion_task = TaskJoined, se_promotion_faults = no_faults\<rparr>,
      ve_exec = demo_env, ve_observe = Completes, ve_observe_task = TaskLost False, ve_observe_faults = no_faults,
      ve_cancel = Completes, ve_has_runtime = True\<rparr>"

definition demo_text_contract :: output_contract where
  "demo_text_contract = \<lparr>oc_tools = [], oc_tool_choice = ChoiceAuto, oc_response_format = FormatText, oc_reasoning_effort = None\<rparr>"

definition demo_placed :: "(unit, output_pipeline) placed" where
  "demo_placed =
     \<lparr>pd_admitted = \<lparr>ad_permit = None, ad_model = basic_model_ops sample_from_str (\<lambda>_. None) sample_model_io,
        ad_normalized = \<lparr>nm_canonical = sample_request, nm_output_contract = demo_text_contract\<rparr>,
        ad_pipeline = output_pipeline_of sample_model_io demo_text_contract\<rparr>,
      pd_plan = demo_plan, pd_adapter = (), pd_permit = (''e1'', ''r1''), pd_waiting_requests = None, pd_request_id = ''r1''\<rparr>"

definition demo_execution :: plan_execution where
  "demo_execution =
     \<lparr>px_stream = [Inr (TextDelta ''r1'' 1 ''a''), Inr (Finished ''r1'' FinishStop \<lparr>us_input_tokens = 1, us_output_tokens = 1\<rparr>)],
      px_metadata = \<lparr>pm_executed_path = ExecutedCold, pm_fallback_used = False, pm_materialization = None,
        pm_topology_micros = None\<rparr>\<rparr>"

definition demo_sworld :: "(unit, unit) service_world" where
  "demo_sworld =
     \<lparr>sw_traffic = traffic_world_new, sw_registry = \<lparr>rw_entries = registry_new, rw_permits = {}\<rparr>,
      sw_cal = demo_cal_world calibration_state_default 0, sw_engine = (), sw_cancelled = {}\<rparr>"

abbreviation demo_ctx :: operation_context where
  "demo_ctx \<equiv> operation_context_new ''r1'' 0"

definition demo_read :: "(unit, output_pipeline) stream_state" where
  "demo_read = (new_stream demo_infer_env demo_placed demo_execution)
     \<lparr>sg_pipeline := (output_pipeline_of sample_model_io demo_text_contract)\<lparr>opl_text := ''a''\<rparr>,
      sg_items := tl (px_stream demo_execution), sg_first_output := Some 0\<rparr>"

lemmas demo_stream_defs =
  demo_read_def new_stream_def demo_infer_env_def demo_execution_def demo_placed_def
  sample_model_io_def demo_text_contract_def output_pipeline_of_def demo_service_def

lemma demo_poll:
  "poll_next demo_service demo_infer_env demo_ctx (new_stream demo_infer_env demo_placed demo_execution) demo_sworld =
     (Ready (Some (Inr (EvTextDelta ''r1'' ''a''))), [], demo_read, demo_sworld)"
  by (simp add: demo_stream_defs poll_next_def poll_inner_def stream_iterate_def is_output_event_def process_event_def
      basic_model_ops_def pipeline_process_def process_text_delta_def process_visible_text_def emit_text_def
      terminal_reason_def pipe_bind_def)

lemma demo_stream_run:
  "stream_run demo_service demo_ctx (new_stream demo_infer_env demo_placed demo_execution)
     [Ready (Some (Inr (EvTextDelta ''r1'' ''a'')))] [] demo_read"
  using run_poll [OF run_start demo_poll] by simp

lemma demo_drop:
  "fst (drop_stream demo_service demo_infer_env demo_ctx demo_read demo_sworld) =
     [Reported ''client_cancelled'', EngineCancelSent]"
  by (simp add: drop_stream_def demo_stream_defs Let_def)

lemma demo_proper: "pipeline_proper (ad_pipeline (pd_admitted demo_placed))"
  by (simp add: demo_stream_defs pipeline_proper_def)

lemma demo_basic: "ad_model (pd_admitted demo_placed) = basic_model_ops sample_from_str (\<lambda>_. None) sample_model_io"
  by (simp add: demo_placed_def)

theorem stream_protocol_witness:
  "\<exists>a rest. read_kinds [Ready (Some (Inr (EvTextDelta ''r1'' ''a'')))] = replicate a Event_Read @ rest"
  using stream_protocol [OF demo_stream_run demo_basic demo_proper] by blast

theorem dropped_stream_accounting_witness:
  "\<exists>reason. filter is_report ([] @ [Reported ''client_cancelled'', EngineCancelSent]) = [Reported reason]"
proof -
  obtain w' where "drop_stream demo_service demo_infer_env demo_ctx demo_read demo_sworld =
      ([Reported ''client_cancelled'', EngineCancelSent], w')"
    using demo_drop by (metis prod.collapse)
  from dropped_stream_accounting [OF demo_stream_run demo_basic demo_proper this] show ?thesis by blast
qed

end
