(* ===== verification/Sse_Protocol.thy ===== *)
theory Sse_Protocol
  imports Api_Common Event_Stream
begin

text \<open>
  The protocol of a server-sent-event response, as an interface: the body of a generator loop
  promises when it breaks and which of its events are terminal, and the response built by the loop
  then has one terminal event at its end. The front ends interpret the interface with their loops.
  The items a response is built from are those a client of the model event stream reads.
\<close>

section \<open>Generators\<close>

definition ends_once :: "('e \<Rightarrow> bool) \<Rightarrow> 'e list \<Rightarrow> bool" where
  "ends_once terminal es \<longleftrightarrow> (\<exists>body t. es = body @ [t] \<and> terminal t \<and> (\<forall>e \<in> set body. \<not> terminal e))"

definition never_ends :: "('e \<Rightarrow> bool) \<Rightarrow> 'e list \<Rightarrow> bool" where
  "never_ends terminal es \<longleftrightarrow> (\<forall>e \<in> set es. \<not> terminal e)"

lemma never_ends_simps [simp]:
  "never_ends P []" "never_ends P (e # es) \<longleftrightarrow> \<not> P e \<and> never_ends P es"
  "never_ends P (a @ b) \<longleftrightarrow> never_ends P a \<and> never_ends P b"
  by (auto simp: never_ends_def)

lemma never_ends_append_ends_once: "never_ends P a \<Longrightarrow> ends_once P (a @ b) \<longleftrightarrow> ends_once P b"
proof
  assume a: "never_ends P a" and "ends_once P (a @ b)"
  then obtain body t where bt: "a @ b = body @ [t]" "P t" "\<forall>e \<in> set body. \<not> P e" by (auto simp: ends_once_def)
  then have "b \<noteq> []" using a by (auto simp: never_ends_def)
  with bt obtain b' where "b = b' @ [t]" "body = a @ b'" by (metis append_butlast_last_id append_assoc butlast_append butlast_snoc last_appendR last_snoc)
  with bt show "ends_once P b" by (auto simp: ends_once_def)
next
  assume a: "never_ends P a" and "ends_once P b"
  then obtain body t where "b = body @ [t]" "P t" "\<forall>e \<in> set body. \<not> P e" by (auto simp: ends_once_def)
  with a show "ends_once P (a @ b)"
    unfolding ends_once_def by (intro exI [of _ "a @ body"] exI [of _ t]) (auto simp: never_ends_def)
qed

lemma ends_once_snoc [simp]: "ends_once P (es @ [e]) \<longleftrightarrow> never_ends P es \<and> P e"
  by (auto simp: ends_once_def never_ends_def)

lemma ends_once_single [simp]: "ends_once P [e] \<longleftrightarrow> P e"
  using ends_once_snoc [of P "[]" e] by simp

lemma ends_once_Cons: "ends_once P (e # es) \<longleftrightarrow> (if es = [] then P e else \<not> P e \<and> ends_once P es)"
  by (cases es rule: rev_cases) (use ends_once_snoc [of P "e # butlast es" "last es"] in auto)

lemma ends_once_not_never: "ends_once P es \<Longrightarrow> \<not> never_ends P es"
  by (auto simp: ends_once_def never_ends_def)

text \<open>The class of an event does not depend on the time at which it is generated.\<close>

definition timeless :: "(sse_event \<Rightarrow> bool) \<Rightarrow> chunk \<Rightarrow> bool" where
  "timeless terminal c \<longleftrightarrow> (\<exists>b. \<forall>now. terminal (c now) = b)"

lemma timelessD: "timeless P c \<Longrightarrow> P (c now) \<longleftrightarrow> P (c 0)"
  by (auto simp: timeless_def)

abbreviation at_zero :: "(sse_event \<Rightarrow> bool) \<Rightarrow> chunk \<Rightarrow> bool" where
  "at_zero terminal c \<equiv> terminal (c 0)"

lemma stamp_never_ends:
  "\<forall>c \<in> set cs. timeless P c \<Longrightarrow> never_ends P (stamp clock cs) \<longleftrightarrow> never_ends (at_zero P) cs"
proof (induction cs arbitrary: clock)
  case (Cons c cs)
  then show ?case using timelessD [of P c "clock 0"] by simp
qed simp

lemma stamp_ends_once:
  assumes "\<forall>c \<in> set cs. timeless P c"
  shows "ends_once P (stamp clock cs) \<longleftrightarrow> ends_once (at_zero P) cs"
proof (cases cs rule: rev_cases)
  case (snoc body c)
  then show ?thesis using assms stamp_never_ends [of body P clock] timelessD [of P c "clock (length body)"]
    by (simp add: stamp_append)
qed (simp add: ends_once_def)

fun is_end :: "(model_event, inference_error) result \<Rightarrow> bool" where
  "is_end (Inl _) = True"
| "is_end (Inr e) = is_finished e"

locale sse_encoder =
  fixes step :: "'s \<Rightarrow> model_event \<Rightarrow> chunk list \<times> 's \<times> bool"
    and fail :: "inference_error \<Rightarrow> chunk"
    and terminal :: "sse_event \<Rightarrow> bool"
  assumes fail_terminal: "terminal (fail error 0)"
    and fail_timeless: "timeless terminal (fail error)"
    and step_timeless: "step s event = (out, s', stop) \<Longrightarrow> c \<in> set out \<Longrightarrow> timeless terminal c"
    and step_stop: "step s event = (out, s', True) \<Longrightarrow> ends_once (at_zero terminal) out"
    and step_go: "step s event = (out, s', False) \<Longrightarrow> never_ends (at_zero terminal) out"
    and step_finish: "is_finished event \<Longrightarrow> step s event = (out, s', stop) \<Longrightarrow> stop"
begin

lemma loop_timeless: "\<forall>c \<in> set (sse_loop step fail s items). timeless terminal c"
proof (induction items arbitrary: s)
  case (Cons x items)
  show ?case
  proof (cases x)
    case (Inr event)
    obtain out s' stop where step: "step s event = (out, s', stop)" by (cases "step s event") auto
    then show ?thesis using Cons.IH [of s'] step_timeless [OF step] by (auto simp: Inr)
  qed (simp add: fail_timeless)
qed simp

lemma loop_ends:
  "ends_once (at_zero terminal) (sse_loop step fail s items) \<or> never_ends (at_zero terminal) (sse_loop step fail s items)"
proof (induction items arbitrary: s)
  case (Cons x items)
  show ?case
  proof (cases x)
    case (Inr event)
    obtain out s' stop where step: "step s event = (out, s', stop)" by (cases "step s event") auto
    show ?thesis
    proof (cases stop)
      case True
      then show ?thesis using step_stop step by (simp add: Inr)
    next
      case False
      then have "never_ends (at_zero terminal) out" using step step_go by simp
      then show ?thesis using Cons.IH [of s'] step False by (simp add: Inr never_ends_append_ends_once)
    qed
  qed (simp add: fail_terminal)
qed simp

lemma loop_finishes:
  "list_ex is_end items \<Longrightarrow> ends_once (at_zero terminal) (sse_loop step fail s items)"
proof (induction items arbitrary: s)
  case (Cons x items)
  show ?case
  proof (cases x)
    case (Inr event)
    obtain out s' stop where step: "step s event = (out, s', stop)" by (cases "step s event") auto
    show ?thesis
    proof (cases stop)
      case True
      then show ?thesis using step_stop step by (simp add: Inr)
    next
      case False
      then have "\<not> is_finished event" using step_finish [OF _ step] by blast
      moreover from False have "never_ends (at_zero terminal) out" using step step_go by simp
      ultimately show ?thesis using Cons.IH [of s'] Cons.prems step False
        by (simp add: Inr never_ends_append_ends_once)
    qed
  qed (simp add: fail_terminal)
qed simp

theorem response_ends_once:
  "list_ex is_end items \<Longrightarrow> ends_once terminal (stamp clock (sse_loop step fail s items))"
  by (simp add: stamp_ends_once loop_timeless loop_finishes)

theorem response_ends_at_most_once:
  "ends_once terminal (stamp clock (sse_loop step fail s items)) \<or> never_ends terminal (stamp clock (sse_loop step fail s items))"
  using loop_ends [of s items] by (simp add: stamp_ends_once stamp_never_ends loop_timeless)

end

text \<open>A generator that breaks at the final event only.\<close>

locale whole_encoder = sse_encoder step fail terminal
  for step :: "'s \<Rightarrow> model_event \<Rightarrow> chunk list \<times> 's \<times> bool"
    and fail :: "inference_error \<Rightarrow> chunk"
    and terminal :: "sse_event \<Rightarrow> bool" +
  assumes stop_iff: "step s event = (out, s', stop) \<Longrightarrow> stop \<longleftrightarrow> is_finished event"
begin

theorem unfinished_never_ends:
  assumes "\<not> list_ex is_end items"
  shows "never_ends terminal (stamp clock (sse_loop step fail s items))"
proof -
  have "never_ends (at_zero terminal) (sse_loop step fail s items)"
    using assms
  proof (induction items arbitrary: s)
    case (Cons x items)
    then obtain event where x: "x = Inr event" "\<not> is_finished event" by (cases x) auto
    obtain out s' stop where step: "step s event = (out, s', stop)" by (cases "step s event") auto
    with x have "\<not> stop" using stop_iff by blast
    then show ?case using Cons step step_go by (simp add: x)
  qed simp
  then show ?thesis by (simp add: stamp_never_ends loop_timeless)
qed

end

section \<open>The items a client reads\<close>

fun poll_item :: "poll \<Rightarrow> model_items" where
  "poll_item (Ready (Some item)) = [item]"
| "poll_item _ = []"

definition items_of :: "poll list \<Rightarrow> model_items" where
  "items_of rs = concat (map poll_item rs)"

lemma items_end_iff: "list_ex is_end (items_of rs) \<longleftrightarrow> (\<exists>k \<in> {Finish_Read, Error_Read}. k \<in> set (read_kinds rs))"
proof -
  have "list_ex is_end (poll_item r) \<longleftrightarrow> poll_kind r = Finish_Read \<or> poll_kind r = Error_Read" for r
  proof (cases r)
    case (Ready x)
    show ?thesis
    proof (cases x)
      case (Some item)
      then show ?thesis using Ready by (cases item) auto
    qed (simp add: Ready)
  qed simp
  then have "list_ex is_end (items_of rs) \<longleftrightarrow> (\<exists>r \<in> set rs. poll_kind r = Finish_Read \<or> poll_kind r = Error_Read)"
    by (simp add: items_of_def list_ex_iff)
  then show ?thesis by (auto simp: read_kinds_def image_iff; metis)
qed

text \<open>A client that has stopped reading the service's stream has read a terminal item.\<close>

lemma stopped_reading_at_end:
  assumes "stream_run svc ctx (new_stream env pd ex) rs es s"
    and "ad_model (pd_admitted pd) = basic_model_ops fs ts m" and "pipeline_proper (ad_pipeline (pd_admitted pd))"
    and "{Finish_Read, Error_Read, End_Read} \<inter> set (read_kinds rs) \<noteq> {}"
  shows "list_ex is_end (items_of rs)"
proof -
  have "read_so_far s (read_kinds rs)" using basic.stream_run_inv [OF assms(1), of fs ts m] assms(2,3) by simp
  with assms(4) have "\<exists>k \<in> {Finish_Read, Error_Read}. k \<in> set (read_kinds rs)"
    by (auto simp: read_so_far_def split: if_splits)
  then show ?thesis by (simp only: items_end_iff)
qed

text \<open>The engine of the demonstration sends a text; before the next event the deadline expires.\<close>

lemma expired_stream_run:
  "\<exists>es s. stream_run demo_service demo_ctx (new_stream demo_infer_env demo_placed demo_execution)
     [Ready (Some (Inr (EvTextDelta ''r1'' ''a''))), Ready (Some (Inl (IfContext CtxDeadlineExceeded)))] es s"
proof -
  let ?env = "demo_infer_env\<lparr>ve_await := Interrupted CtxDeadlineExceeded False\<rparr>"
  obtain e s w where "poll_next demo_service ?env demo_ctx demo_read demo_sworld =
      (Ready (Some (Inl (IfContext CtxDeadlineExceeded))), e, s, w)"
    by (simp add: demo_stream_defs poll_next_def poll_inner_def stream_iterate_def iteration_error_def)
  from run_poll [OF demo_stream_run this] show ?thesis by auto
qed

end
