(* ===== verification/OpenAI_Props.thy ===== *)
theory OpenAI_Props
  imports OpenAI_Output Sse_Protocol
begin

text \<open>
  What the OpenAI-compatible front end promises: the streaming responses interpret the protocol of
  \<open>Sse_Protocol\<close>, a client that reassembles a stream gets the collected response, errors have the
  status of their cause, and the authentication layer admits configured credentials only.
\<close>

section \<open>The three generators keep the protocol\<close>

definition responses_terminal :: "sse_event \<Rightarrow> bool" where
  "responses_terminal e \<longleftrightarrow> se_event e \<in> {Some ''response.completed'', Some ''error''}"

definition data_terminal :: "sse_event \<Rightarrow> bool" where
  "data_terminal e \<longleftrightarrow>
     (case se_data e of
        SseText t \<Rightarrow> t = ''[DONE]''
      | SseJson (JObject obj) \<Rightarrow> map_of obj ''error'' \<noteq> None
      | SseJson _ \<Rightarrow> False)"

named_theorems sse_simps \<open>the classes of the generated events\<close>

lemma responses_terminal_json [sse_simps]:
  "responses_terminal (sse_json name j) \<longleftrightarrow> name \<in> {''response.completed'', ''error''}"
  by (simp add: responses_terminal_def sse_json_def)

lemma data_terminal_chunks [sse_simps]:
  "\<not> data_terminal (completion_chunk rid model choices usage now)"
  "\<not> data_terminal (chat_chunk rid model delta reason now)"
  "data_terminal sse_done" "data_terminal (data_fail tx error now)"
  by (simp_all add: data_terminal_def completion_chunk_def chat_chunk_def completion_object_def sse_data_json_def
      sse_done_def data_fail_def)

lemma timeless_simps [sse_simps]:
  "timeless P (\<lambda>_. e)" "timeless responses_terminal (\<lambda>now. sse_json name (j now))"
  "timeless data_terminal (completion_chunk rid model choices usage)" "timeless data_terminal (chat_chunk rid model delta reason)"
  "timeless data_terminal (data_fail tx error)" "timeless responses_terminal (responses_fail tx error)"
  by (auto simp: timeless_def responses_terminal_json data_terminal_chunks responses_fail_def)

lemma responses_yield_output [simp]: "rst_output (snd (responses_yield rid model s event)) = rst_output s"
  by (cases event) (simp_all add: Let_def)

lemma responses_yield_events:
  assumes "c \<in> set (fst (responses_yield rid model s event))"
  shows "timeless responses_terminal c \<and> \<not> responses_terminal (c 0)"
  using assms by (cases event) (auto simp: sse_simps Let_def split: if_splits)

lemma responses_step_cases:
  "fst (responses_step rid model s event) =
     fst (responses_yield rid model s event) @
     (if is_tool_completed event \<and> oa_tools (acc_apply (rst_output s) event) \<noteq> []
      then [\<lambda>_. sse_json ''response.output_item.done'' (JObject
              [(''type'', JString ''response.output_item.done''),
               (''output_index'', json_opt json_nat (bt_get (rst_tool_output_indices (snd (responses_yield rid model s event)))
                  (to_call_id (last (oa_tools (acc_apply (rst_output s) event)))))),
               (''item'', tool_value (last (oa_tools (acc_apply (rst_output s) event))) ''completed'')])]
      else []) @
     (if is_finished event
      then [\<lambda>now. sse_json ''response.completed'' (JObject
              [(''type'', JString ''response.completed''),
               (''response'', response_value now rid model (acc_apply (rst_output s) event))])]
      else [])"
  "rst_output (fst (snd (responses_step rid model s event))) = acc_apply (rst_output s) event"
  "snd (snd (responses_step rid model s event)) = is_finished event"
  using responses_yield_output [of rid model s event] unfolding responses_step_def
  by (cases "responses_yield rid model s event"; simp add: Let_def)+

interpretation resp: whole_encoder "responses_step rid model" "responses_fail tx" responses_terminal
proof
  fix error show "responses_terminal (responses_fail tx error 0)" "timeless responses_terminal (responses_fail tx error)"
    by (auto simp: responses_fail_def sse_simps)
next
  fix s event out s' stop c
  assume step: "responses_step rid model s event = (out, s', stop)"
  have out: "out = fst (responses_step rid model s event)" and stop: "stop = is_finished event"
    using responses_step_cases(3) [of rid model s event] step by simp_all
  show "stop \<longleftrightarrow> is_finished event" by (fact stop)
  show "is_finished event \<Longrightarrow> stop" by (simp add: stop)
  assume "c \<in> set out"
  then show "timeless responses_terminal c"
    unfolding out responses_step_cases(1) using responses_yield_events [of c rid model s event]
    by (auto simp: sse_simps split: if_splits)
next
  fix s event out s'
  have yield: "never_ends (at_zero responses_terminal) (fst (responses_yield rid model s event))"
    using responses_yield_events by (auto simp: never_ends_def)
  {
    assume step: "responses_step rid model s event = (out, s', True)"
    then have "is_finished event" using responses_step_cases(3) [of rid model s event] by simp
    moreover from this have "\<not> is_tool_completed event" by (cases event) auto
    ultimately show "ends_once (at_zero responses_terminal) out"
      using yield responses_step_cases(1) [of rid model s event] step by (simp add: sse_simps)
  next
    assume step: "responses_step rid model s event = (out, s', False)"
    then have "\<not> is_finished event" using responses_step_cases(3) [of rid model s event] by simp
    then show "never_ends (at_zero responses_terminal) out"
      using yield responses_step_cases(1) [of rid model s event] step by (simp add: sse_simps split: if_splits)
  }
qed

lemma completion_yield_events:
  "c \<in> set (completion_yield rid model event) \<Longrightarrow> timeless data_terminal c \<and> \<not> data_terminal (c 0)"
  by (cases event) (auto simp: sse_simps)

interpretation compl: whole_encoder "completion_step rid model include_usage" "data_fail tx" data_terminal
proof
  fix error show "data_terminal (data_fail tx error 0)" "timeless data_terminal (data_fail tx error)"
    by (auto simp: sse_simps)
next
  fix s event out s' stop c
  assume step: "completion_step rid model include_usage s event = (out, s', stop)"
  then show "stop \<longleftrightarrow> is_finished event" "is_finished event \<Longrightarrow> stop" by (auto simp: completion_step_def Let_def)
  assume "c \<in> set out"
  then show "timeless data_terminal c" using step completion_yield_events [of c rid model event]
    by (auto simp: completion_step_def Let_def sse_simps split: if_splits)
next
  fix s event out s'
  have yield: "never_ends (at_zero data_terminal) (completion_yield rid model event)"
    using completion_yield_events by (auto simp: never_ends_def)
  then show "completion_step rid model include_usage s event = (out, s', True) \<Longrightarrow> ends_once (at_zero data_terminal) out"
    using ends_once_snoc [of "at_zero data_terminal" "completion_yield rid model event @ [completion_chunk rid model []
      (completion_usage_value (oa_usage (acc_apply s event)))]" "\<lambda>_. sse_done"]
    by (auto simp: completion_step_def Let_def sse_simps split: if_splits)
  from yield show "completion_step rid model include_usage s event = (out, s', False) \<Longrightarrow> never_ends (at_zero data_terminal) out"
    by (auto simp: completion_step_def Let_def split: if_splits)
qed

interpretation chat: whole_encoder "chat_step rid model" "data_fail tx" data_terminal
proof
  fix error show "data_terminal (data_fail tx error 0)" "timeless data_terminal (data_fail tx error)"
    by (auto simp: sse_simps)
next
  fix s event out s' stop c
  assume step: "chat_step rid model s event = (out, s', stop)"
  then show "stop \<longleftrightarrow> is_finished event" "is_finished event \<Longrightarrow> stop"
    by (auto simp: chat_step_def Let_def split: prod.splits)
  assume "c \<in> set out"
  then show "timeless data_terminal c" using step
    by (auto simp: chat_step_def Let_def sse_simps split: if_splits prod.splits)
next
  fix s :: "output_accumulator \<times> bool" and event out s'
  have deltas: "never_ends (at_zero data_terminal) (map (\<lambda>(delta, finish). chat_chunk rid model delta finish) ds)" for ds
    by (auto simp: never_ends_def sse_simps)
  show "chat_step rid model s event = (out, s', True) \<Longrightarrow> ends_once (at_zero data_terminal) out"
    using deltas [of "chat_delta (fst s) event"] by (cases event) (auto simp: chat_step_def Let_def sse_simps ends_once_Cons split: prod.splits)
  show "chat_step rid model s event = (out, s', False) \<Longrightarrow> never_ends (at_zero data_terminal) out"
    using deltas [of "chat_delta (fst s) event"]
    by (auto simp: chat_step_def Let_def sse_simps split: if_splits prod.splits)
qed

section \<open>What the accumulator holds\<close>

fun event_reasoning :: "model_event \<Rightarrow> string" where
  "event_reasoning (EvReasoningDelta _ t) = t"
| "event_reasoning _ = []"

abbreviation accumulated :: "output_accumulator \<Rightarrow> model_event list \<Rightarrow> output_accumulator" where
  "accumulated \<equiv> foldl acc_apply"

lemma accumulated_text [simp]: "oa_text (accumulated acc evs) = oa_text acc @ text_of evs"
proof (induction evs arbitrary: acc)
  case (Cons e evs)
  then show ?case by (cases e) simp_all
qed simp

lemma accumulated_reasoning [simp]:
  "oa_reasoning (accumulated acc evs) = oa_reasoning acc @ concat (map event_reasoning evs)"
proof (induction evs arbitrary: acc)
  case (Cons e evs)
  then show ?case by (cases e) simp_all
qed simp

lemma collect_items_ok [simp]: "collect_items acc (map Inr evs) = Inr (accumulated acc evs)"
  by (induction evs arbitrary: acc) simp_all

lemma collect_items_error [simp]: "collect_items acc (map Inr evs @ Inl error # items) = Inl error"
  by (induction evs arbitrary: acc) simp_all

section \<open>A Responses stream ends with the collected response\<close>

lemma responses_loop_last:
  "unfinished evs \<Longrightarrow>
   \<exists>body. sse_loop (responses_step rid model) fail s (map Inr evs @ [Inr (EvFinished r reason usage)]) =
     body @ [\<lambda>now. sse_json ''response.completed'' (JObject [(''type'', JString ''response.completed''),
       (''response'', response_value now rid model (accumulated (rst_output s) (evs @ [EvFinished r reason usage])))])]"
proof (induction evs arbitrary: s)
  case Nil
  then show ?case
    using responses_step_cases(1,3) [of rid model s "EvFinished r reason usage"]
    by (cases "responses_step rid model s (EvFinished r reason usage)") simp
next
  case (Cons e evs)
  obtain out s' stop where step: "responses_step rid model s e = (out, s', stop)"
    by (cases "responses_step rid model s e") auto
  with Cons.prems have "\<not> stop" "rst_output s' = acc_apply (rst_output s) e"
    using responses_step_cases(2,3) [of rid model s e] by simp_all
  then show ?case using Cons.IH [of s'] Cons.prems step by (auto simp: append_assoc [symmetric] simp del: append_assoc)
qed

text \<open>
  C5: a streamed and a collected Responses answer are the same. For every stream of model events that
  ends with its final event, the last server-sent event is \<open>response.completed\<close> and carries exactly
  the body that the collecting variant returns, when both read the same Unix time.
\<close>

theorem responses_stream_equals_collected:
  assumes "unfinished evs" and "items = map Inr evs @ [Inr (EvFinished r reason usage)]"
  shows "\<exists>body. collect_response tx now rid model items = json_response 200 body \<and>
     last (responses_sse tx (\<lambda>_. now) rid model items) =
       sse_json ''response.completed'' (JObject [(''type'', JString ''response.completed''), (''response'', body)])"
proof -
  have items: "items = map Inr (evs @ [EvFinished r reason usage])" using assms(2) by simp
  obtain body where "sse_loop (responses_step rid model) (responses_fail tx) responses_stream_init items =
      body @ [\<lambda>now. sse_json ''response.completed'' (JObject [(''type'', JString ''response.completed''),
        (''response'', response_value now rid model (accumulated accumulator_default (evs @ [EvFinished r reason usage])))])]"
    using responses_loop_last [OF assms(1), of rid model "responses_fail tx" responses_stream_init r reason usage]
    unfolding assms(2) responses_stream_init_def by auto
  then show ?thesis
    by (auto simp: responses_sse_def collect_response_def items stamp_append simp del: map_append foldl_append)
qed

theorem responses_stream_equals_collected_witness:
  "\<exists>body. collect_response no_texts 5 ''resp_1'' ''m'' [Inr (EvTextDelta ''r'' ''hi''), Inr (EvFinished ''r'' MfStop usage_default)]
     = json_response 200 body \<and>
   last (responses_sse no_texts (\<lambda>_. 5) ''resp_1'' ''m'' [Inr (EvTextDelta ''r'' ''hi''), Inr (EvFinished ''r'' MfStop usage_default)]) =
     sse_json ''response.completed'' (JObject [(''type'', JString ''response.completed''), (''response'', body)])"
  using responses_stream_equals_collected [of "[EvTextDelta ''r'' ''hi'']" "[Inr (EvTextDelta ''r'' ''hi''),
      Inr (EvFinished ''r'' MfStop usage_default)]" "''r''" MfStop usage_default no_texts 5 "''resp_1''" "''m''"]
  by simp

section \<open>A chat client reassembles the collected message\<close>

text \<open>What a client reads in a chunk: the delta of its only choice.\<close>

definition only :: "json option \<Rightarrow> json option" where
  "only j = (case j of Some (JArray [x]) \<Rightarrow> Some x | _ \<Rightarrow> None)"

definition delta_of :: "sse_event \<Rightarrow> json option" where
  "delta_of e = (case se_data e of
     SseJson j \<Rightarrow> Option.bind (only (json_get ''choices'' j)) (json_get ''delta'') | SseText _ \<Rightarrow> None)"

definition delta_text :: "string \<Rightarrow> sse_event \<Rightarrow> string" where
  "delta_text key e = json_text (Option.bind (delta_of e) (json_get key))"

definition delta_arguments :: "nat \<Rightarrow> sse_event \<Rightarrow> string" where
  "delta_arguments i e =
     (case Option.bind (delta_of e) (\<lambda>d. only (json_get ''tool_calls'' d)) of
        None \<Rightarrow> []
      | Some call \<Rightarrow>
          if json_get ''index'' call = Some (json_nat i)
          then json_text (Option.bind (json_get ''function'' call) (json_get ''arguments'')) else [])"

definition reassembled :: "(sse_event \<Rightarrow> string) \<Rightarrow> sse_event list \<Rightarrow> string" where
  "reassembled part es = concat (map part es)"

lemma reassembled_simps [simp]:
  "reassembled part [] = []" "reassembled part (e # es) = part e @ reassembled part es"
  "reassembled part (a @ b) = reassembled part a @ reassembled part b"
  by (simp_all add: reassembled_def)

lemma delta_of_chunk [simp]: "delta_of (chat_chunk rid model delta reason now) = Some delta" "delta_of sse_done = None"
  by (simp_all add: delta_of_def chat_chunk_def sse_data_json_def sse_done_def json_get_def only_def)

lemmas delta_defs = delta_text_def delta_arguments_def json_get_def json_text_def only_def

lemma chat_loop_text:
  "unfinished evs \<Longrightarrow>
   reassembled (delta_text ''content'') (stamp clock (sse_loop (chat_step rid model) fail s
     (map Inr evs @ [Inr (EvFinished r reason usage)]))) = text_of evs"
proof (induction evs arbitrary: s clock)
  case Nil
  then show ?case by (cases s) (simp add: chat_step_def delta_defs)
next
  case (Cons e evs)
  then show ?case by (cases s; cases e) (simp_all add: chat_step_def Let_def stamp_append delta_defs)
qed

lemma chat_loop_reasoning:
  "unfinished evs \<Longrightarrow>
   reassembled (delta_text ''reasoning_content'') (stamp clock (sse_loop (chat_step rid model) fail s
     (map Inr evs @ [Inr (EvFinished r reason usage)]))) = concat (map event_reasoning evs)"
proof (induction evs arbitrary: s clock)
  case Nil
  then show ?case by (cases s) (simp add: chat_step_def delta_defs)
next
  case (Cons e evs)
  then show ?case by (cases s; cases e) (simp_all add: chat_step_def Let_def stamp_append delta_defs)
qed

text \<open>The tools of the accumulator as a map from call ids to positions.\<close>

abbreviation tool_ids :: "output_accumulator \<Rightarrow> string list" where
  "tool_ids acc \<equiv> map to_call_id (oa_tools acc)"

lemma tool_position_Some:
  "tool_position c tools = Some i \<Longrightarrow> i < length tools \<and> to_call_id (tools ! i) = c"
proof (induction tools arbitrary: i)
  case (Cons t tools)
  then show ?case by (cases i) (auto split: if_splits)
qed simp

lemma tool_position_None: "tool_position c tools = None \<longleftrightarrow> c \<notin> to_call_id ` set tools"
  by (induction tools) auto

lemma update_first_position:
  "update_first (\<lambda>t. to_call_id t = c) f tools =
     (case tool_position c tools of None \<Rightarrow> tools | Some i \<Rightarrow> tools[i := f (tools ! i)])"
  by (induction tools) (auto split: option.splits)

fun started_id :: "model_event \<Rightarrow> string list" where
  "started_id (EvToolCallStarted _ call_id _) = [call_id]"
| "started_id _ = []"

abbreviation started_ids :: "model_event list \<Rightarrow> string list" where
  "started_ids evs \<equiv> concat (map started_id evs)"

definition call_arguments :: "tool_output list \<Rightarrow> string \<Rightarrow> string option" where
  "call_arguments tools c = map_option to_arguments (find (\<lambda>t. to_call_id t = c) tools)"

definition calls_tracked :: "output_accumulator \<Rightarrow> (string \<rightharpoonup> string) \<Rightarrow> bool" where
  "calls_tracked acc calls \<longleftrightarrow>
     distinct (tool_ids acc) \<and> (\<forall>c a. calls c = Some a \<longrightarrow> call_arguments (oa_tools acc) c = Some a)"

definition arguments_at :: "output_accumulator \<Rightarrow> nat \<Rightarrow> string" where
  "arguments_at acc i = (if i < length (oa_tools acc) then to_arguments (oa_tools acc ! i) else [])"

lemma call_arguments_append [simp]:
  "call_arguments (a @ b) c = (case call_arguments a c of None \<Rightarrow> call_arguments b c | Some x \<Rightarrow> Some x)"
  by (induction a) (auto simp: call_arguments_def)

lemma call_arguments_single [simp]: "call_arguments [t] c = (if to_call_id t = c then Some (to_arguments t) else None)"
  by (simp add: call_arguments_def)

lemma call_arguments_update:
  assumes "\<And>t. to_call_id (f t) = to_call_id t" and "\<And>t. to_arguments (f t) = g (to_arguments t)"
  shows "call_arguments (update_first (\<lambda>t. to_call_id t = c) f tools) d =
     (if d = c then map_option g (call_arguments tools c) else call_arguments tools d)"
  by (induction tools) (auto simp: call_arguments_def assms)

lemma call_arguments_position:
  "call_arguments tools c = map_option (\<lambda>i. to_arguments (tools ! i)) (tool_position c tools)"
  by (induction tools) (auto simp: call_arguments_def option.map_comp comp_def)

lemma call_arguments_None: "call_arguments tools c = None \<longleftrightarrow> c \<notin> to_call_id ` set tools"
  by (simp add: call_arguments_position tool_position_None)

lemma update_first_ids:
  "(\<And>t. to_call_id (f t) = to_call_id t) \<Longrightarrow> map to_call_id (update_first P f tools) = map to_call_id tools"
  by (induction tools) auto

lemmas update_simps = call_arguments_update [where g = "\<lambda>a. a @ delta" for delta]
  call_arguments_update [where g = "\<lambda>_. a" for a] update_first_ids

text \<open>One event: the call ids stay distinct and the calls in progress stay tracked.\<close>

lemma calls_tracked_step:
  assumes "calls_tracked acc calls" and "call_ok fs contract calls e"
    and "set (started_id e) \<inter> set (tool_ids acc) = {}"
  shows "calls_tracked (acc_apply acc e) (call_step calls e) \<and> tool_ids (acc_apply acc e) = tool_ids acc @ started_id e"
proof (cases e)
  case (EvToolCallStarted r c n)
  with assms have "call_arguments (oa_tools acc) c = None" by (auto simp: call_arguments_None)
  with assms EvToolCallStarted show ?thesis by (auto simp: calls_tracked_def)
next
  case (EvToolCallArgumentsDelta r c d)
  with assms show ?thesis by (auto simp: calls_tracked_def update_simps)
next
  case (EvToolCallCompleted r c a)
  with assms show ?thesis by (auto simp: calls_tracked_def update_simps)
qed (use assms in \<open>auto simp: calls_tracked_def\<close>)

text \<open>What the chunks of one event add to the arguments of the \<open>i\<close>-th call.\<close>

definition step_arguments :: "output_accumulator \<Rightarrow> model_event \<Rightarrow> nat \<Rightarrow> string" where
  "step_arguments acc e i = (case e of
     EvToolCallArgumentsDelta _ c delta \<Rightarrow> if tool_position c (oa_tools acc) = Some i then delta else []
   | _ \<Rightarrow> [])"

lemma chat_step_arguments:
  assumes "call_ok fs contract calls e" and "calls_tracked acc calls"
  shows "reassembled (delta_arguments i) (stamp clock (fst (chat_step rid model (acc, role) e))) = step_arguments acc e i"
proof (cases e)
  case (EvToolCallArgumentsDelta r c delta)
  with assms obtain k where "tool_position c (oa_tools acc) = Some k"
    by (auto simp: calls_tracked_def call_arguments_position)
  then show ?thesis by (auto simp: EvToolCallArgumentsDelta step_arguments_def chat_step_def delta_defs)
qed (simp_all add: step_arguments_def chat_step_def Let_def delta_defs)

lemma acc_step_arguments:
  assumes "call_ok fs contract calls e" and "calls_tracked acc calls"
  shows "arguments_at (acc_apply acc e) i = arguments_at acc i @ step_arguments acc e i"
proof (cases e)
  case (EvToolCallArgumentsDelta r c delta)
  with assms obtain k where k: "tool_position c (oa_tools acc) = Some k"
    by (auto simp: calls_tracked_def call_arguments_position)
  with tool_position_Some [OF k] show ?thesis
    by (auto simp: EvToolCallArgumentsDelta step_arguments_def arguments_at_def update_first_position nth_list_update)
next
  case (EvToolCallCompleted r c a)
  with assms obtain k where k: "tool_position c (oa_tools acc) = Some k" "to_arguments (oa_tools acc ! k) = a"
    by (auto simp: calls_tracked_def call_arguments_position)
  with tool_position_Some [OF k(1)] show ?thesis
    by (auto simp: EvToolCallCompleted step_arguments_def arguments_at_def update_first_position nth_list_update)
qed (simp_all add: step_arguments_def arguments_at_def nth_append)

lemma chat_loop_arguments:
  assumes "unfinished evs" and "calls_ok fs contract calls evs" and "calls_tracked acc calls"
    and "distinct (started_ids evs)" and "set (started_ids evs) \<inter> set (tool_ids acc) = {}"
  shows "arguments_at acc i @ reassembled (delta_arguments i) (stamp clock (sse_loop (chat_step rid model) fail (acc, role)
       (map Inr evs @ [Inr (EvFinished r reason usage)]))) = arguments_at (accumulated acc evs) i"
  using assms
proof (induction evs arbitrary: acc role calls clock)
  case Nil
  then show ?case by (simp add: chat_step_def delta_defs)
next
  case (Cons e evs)
  obtain out role' where step: "chat_step rid model (acc, role) e = (out, (acc_apply acc e, role'), False)"
    using Cons.prems(1) by (cases e) (auto simp: chat_step_def Let_def)
  have ok: "call_ok fs contract calls e" "calls_ok fs contract (call_step calls e) evs" using Cons.prems(2) by simp_all
  have tracked: "calls_tracked (acc_apply acc e) (call_step calls e)" "tool_ids (acc_apply acc e) = tool_ids acc @ started_id e"
    using calls_tracked_step [OF Cons.prems(3) ok(1)] Cons.prems(5) by auto
  have "arguments_at (acc_apply acc e) i @ reassembled (delta_arguments i) (stamp (\<lambda>i. clock (length out + i))
      (sse_loop (chat_step rid model) fail (acc_apply acc e, role') (map Inr evs @ [Inr (EvFinished r reason usage)]))) =
      arguments_at (accumulated (acc_apply acc e) evs) i"
    using Cons.prems tracked by (intro Cons.IH [OF _ ok(2)]) auto
  moreover have "arguments_at (acc_apply acc e) i = arguments_at acc i @ reassembled (delta_arguments i) (stamp clock out)"
    using acc_step_arguments [OF ok(1) Cons.prems(3)] chat_step_arguments [OF ok(1) Cons.prems(3), of i clock rid model role] step by simp
  ultimately show ?case using step by (simp add: stamp_append)
qed

definition collected_tool :: "http_response \<Rightarrow> nat \<Rightarrow> json option" where
  "collected_tool response i =
     (case hs_body response of
        JsonBody j \<Rightarrow>
          (case Option.bind (Option.bind (only (json_get ''choices'' j)) (json_get ''message'')) (json_get ''tool_calls'') of
             Some (JArray calls) \<Rightarrow> if i < length calls then Some (calls ! i) else None
           | _ \<Rightarrow> None)
      | _ \<Rightarrow> None)"

definition collected_text :: "http_response \<Rightarrow> string \<Rightarrow> string" where
  "collected_text response key =
     (case hs_body response of
        JsonBody j \<Rightarrow> json_text (Option.bind (Option.bind (only (json_get ''choices'' j)) (json_get ''message'')) (json_get key))
      | _ \<Rightarrow> [])"

lemma collected_texts:
  assumes "collect_items accumulator_default items = Inr output"
  shows "collected_text (collect_chat tx now rid model items) ''content'' = oa_text output"
    "collected_text (collect_chat tx now rid model items) ''reasoning_content'' = oa_reasoning output"
    "i < length (oa_tools output) \<Longrightarrow>
      collected_tool (collect_chat tx now rid model items) i = Some (chat_tool_call (i, oa_tools output ! i))"
  using assms by (auto simp: collected_text_def collected_tool_def collect_chat_def text_or_null_def json_get_def only_def json_text_def
      nth_enumerate_eq)

text \<open>
  C4: a streamed and a collected chat answer say the same, for a finished stream whose tool calls
  are well-formed and have distinct ids. A client that concatenates the deltas of a
  chat stream gets the content and the reasoning of the collected message, and for each call the
  arguments that the collected message has at the same index. Well-formed (\<open>calls_ok\<close>) means that
  the stream keeps the protocol of tool calls, as every output that the pipeline finishes does.
  That no id is used twice is a condition on the engine: the pipeline accepts an id again after its
  call is complete, and then the arguments of both calls are collected under the first.
\<close>

theorem chat_stream_reassembles:
  assumes "unfinished evs" and "calls_ok fs contract Map.empty evs" and "distinct (started_ids evs)"
    and "items = map Inr evs @ [Inr (EvFinished r reason usage)]"
    and "es = chat_sse tx clock rid model items" and "response = collect_chat tx now rid model items"
  shows "reassembled (delta_text ''content'') es = collected_text response ''content'' \<and>
     reassembled (delta_text ''reasoning_content'') es = collected_text response ''reasoning_content'' \<and>
     (\<forall>i < length (started_ids evs). \<exists>name. collected_tool response i = Some (chat_tool_call (i,
        \<lparr>to_call_id = started_ids evs ! i, to_name = name, to_arguments = reassembled (delta_arguments i) es\<rparr>)))"
proof -
  let ?acc = "accumulated accumulator_default evs"
  let ?out = "acc_apply ?acc (EvFinished r reason usage)"
  have "collect_items accumulator_default items = Inr ?out"
    using collect_items_ok [of accumulator_default "evs @ [EvFinished r reason usage]"] assms(4) by simp
  note collected = collected_texts [OF this, where tx = tx and now = now and rid = rid and model = model]
  have tracked: "calls_tracked accumulator_default Map.empty" by (simp add: calls_tracked_def accumulator_default_def)
  have ids: "tool_ids (accumulated acc evs') = tool_ids acc @ started_ids evs'" for acc evs'
  proof (induction evs' arbitrary: acc)
    case (Cons e evs')
    then show ?case by (cases e) (simp_all add: update_first_ids)
  qed simp
  have args: "reassembled (delta_arguments i) es = arguments_at ?acc i" for i
    using chat_loop_arguments [OF assms(1,2) tracked assms(3), where i = i and clock = clock and fail = "data_fail tx"
        and rid = rid and model = model and role = False and r = r and reason = reason and usage = usage]
    unfolding assms(4,5) chat_sse_def by (simp add: arguments_at_def accumulator_default_def)
  have tools: "\<exists>name. collected_tool response i = Some (chat_tool_call (i, \<lparr>to_call_id = started_ids evs ! i,
      to_name = name, to_arguments = reassembled (delta_arguments i) es\<rparr>))" if i: "i < length (started_ids evs)" for i
  proof -
    have id: "tool_ids ?acc = started_ids evs" using ids [of accumulator_default evs] by (simp add: accumulator_default_def)
    then have len: "i < length (oa_tools ?acc)" using i by (metis length_map)
    with id have "to_call_id (oa_tools ?acc ! i) = started_ids evs ! i" by (metis nth_map)
    moreover have "to_arguments (oa_tools ?acc ! i) = reassembled (delta_arguments i) es"
      using len by (simp add: args arguments_at_def)
    ultimately have "oa_tools ?out ! i = \<lparr>to_call_id = started_ids evs ! i, to_name = to_name (oa_tools ?acc ! i),
        to_arguments = reassembled (delta_arguments i) es\<rparr>" by simp
    moreover have "collected_tool response i = Some (chat_tool_call (i, oa_tools ?out ! i))"
      using collected(3) [of i] len assms(6) by simp
    ultimately show ?thesis by metis
  qed
  show ?thesis
    using collected(1,2) assms(6) tools chat_loop_text [OF assms(1)] chat_loop_reasoning [OF assms(1)]
    unfolding assms(4,5) chat_sse_def by (simp add: accumulator_default_def)
qed

definition sample_call_events :: "model_event list" where
  "sample_call_events = [EvAccepted ''r'', EvTextDelta ''r'' ''hi'', EvToolCallStarted ''r'' ''c'' ''f'',
     EvToolCallArgumentsDelta ''r'' ''c'' ''x'', EvToolCallArgumentsDelta ''r'' ''c'' ''y'']"

theorem chat_stream_reassembles_witness:
  "reassembled (delta_arguments 0) (chat_sse no_texts (\<lambda>_. 0) ''chatcmpl_1'' ''m''
     (map Inr sample_call_events @ [Inr (EvFinished ''r'' MfToolCall usage_default)])) = ''xy''"
proof -
  have ok: "unfinished sample_call_events" "calls_ok (\<lambda>_. None) \<lparr>oc_tools = [\<lparr>tl_name = ''f'', tl_description = None,
      tl_parameters_schema = ''{}'', tl_strict = False\<rparr>], oc_tool_choice = ChoiceAuto, oc_response_format = FormatText,
      oc_reasoning_effort = None\<rparr> Map.empty sample_call_events" "distinct (started_ids sample_call_events)"
    by (simp_all add: sample_call_events_def tool_requested_def tool_selected_def)
  from chat_stream_reassembles [OF ok refl refl refl, of no_texts "\<lambda>_. 0" "''chatcmpl_1''" "''m''" "''r''" MfToolCall usage_default 0]
  obtain name where "collected_tool (collect_chat no_texts 0 ''chatcmpl_1'' ''m''
      (map Inr sample_call_events @ [Inr (EvFinished ''r'' MfToolCall usage_default)])) 0 =
      Some (chat_tool_call (0, \<lparr>to_call_id = ''c'', to_name = name, to_arguments = reassembled (delta_arguments 0)
        (chat_sse no_texts (\<lambda>_. 0) ''chatcmpl_1'' ''m''
          (map Inr sample_call_events @ [Inr (EvFinished ''r'' MfToolCall usage_default)]))\<rparr>))"
    by (auto simp: sample_call_events_def)
  then show ?thesis
    by (simp add: sample_call_events_def collected_tool_def collect_chat_def json_get_def only_def chat_tool_call_def
        accumulator_default_def enumerate_eq_zip)
qed

section \<open>Where the streams and the items differ\<close>

text \<open>
  The completion of a call announces the item of the last call that was started, not of the call that
  was completed: when a second call starts before the first is complete, the completion of the first
  reports the second as done, with the arguments it has so far.
\<close>

lemma item_done_names_other_call:
  "filter (\<lambda>e. se_event e = Some ''response.output_item.done'')
     (responses_sse no_texts (\<lambda>_. 0) ''resp_1'' ''m'' (map Inr
        [EvToolCallStarted ''r'' ''a'' ''f'', EvToolCallStarted ''r'' ''b'' ''g'', EvToolCallCompleted ''r'' ''a'' ''{}''])) =
   [sse_json ''response.output_item.done'' (JObject
      [(''type'', JString ''response.output_item.done''), (''output_index'', json_nat 1),
       (''item'', tool_value \<lparr>to_call_id = ''b'', to_name = ''g'', to_arguments = []\<rparr> ''completed'')])]"
  by (simp add: responses_sse_def responses_step_def responses_stream_init_def accumulator_default_def sse_json_def Let_def
      wrap_add64_def)

text \<open>
  A text that starts with an empty delta is listed twice in the output of a response, since the
  accumulator takes an empty text for a text that has not started.
\<close>

lemma empty_delta_lists_message_twice:
  "json_get ''output'' (response_value 0 ''resp_1'' ''m'' (accumulated accumulator_default
     [EvTextDelta ''r'' [], EvTextDelta ''r'' ''hi''])) =
   Some (JArray [message_item ''resp_1'' ''completed'' ''hi'', message_item ''resp_1'' ''completed'' ''hi''])"
  by (simp add: response_value_def accumulator_default_def json_get_def set_field_def response_shell_def
      List.map_filter_simps output_item_value_def Let_def)

end
