(* ===== verification/Anthropic_Api.thy ===== *)
theory Anthropic_Api
  imports Api_Common
begin

text \<open>
  The Anthropic-compatible front end \<open>crates/anthropic/src/lib.rs\<close>: its errors, the authentication
  layer, the messages request and its translation, the accumulator of a collected message and the
  block protocol of a streamed one. As in the OpenAI front end, deserialisation is serde's, \<open>render\<close>
  is \<open>Value::to_string\<close>, and the inference service is a function of the handler.
\<close>

section \<open>Errors\<close>

record message_error =
  me_status :: nat
  me_error_type :: string
  me_message :: string
  me_request_id :: "string option"

definition message_error_new :: "nat \<Rightarrow> string \<Rightarrow> string \<Rightarrow> message_error" where
  "message_error_new status error_type message =
     \<lparr>me_status = status, me_error_type = error_type, me_message = message, me_request_id = None\<rparr>"

definition message_invalid :: "string \<Rightarrow> message_error" where
  "message_invalid message = message_error_new 400 ''invalid_request_error'' message"

definition message_unsupported :: "string \<Rightarrow> message_error" where
  "message_unsupported parameter = message_invalid (''unsupported parameter: '' @ parameter)"

definition with_request_id :: "string \<Rightarrow> message_error \<Rightarrow> message_error" where
  "with_request_id request_id e = e\<lparr>me_request_id := Some request_id\<rparr>"

text \<open>\<open>HeaderValue::from_str\<close> accepts visible ASCII, as \<open>to_str\<close> does; other identifiers are not set.\<close>

definition with_request_header :: "string \<Rightarrow> http_response \<Rightarrow> http_response" where
  "with_request_header request_id response =
     (case header_to_str request_id of
        Some content \<Rightarrow> with_header ''request-id'' content response
      | None \<Rightarrow> response)"

definition message_into_response :: "message_error \<Rightarrow> http_response" where
  "message_into_response e =
     (let request_id = (case me_request_id e of None \<Rightarrow> ''req_unknown'' | Some r \<Rightarrow> r);
          response = with_request_header request_id (json_response (me_status e) (JObject
            [(''type'', JString ''error''),
             (''error'', JObject [(''type'', JString (me_error_type e)), (''message'', JString (me_message e))]),
             (''request_id'', JString request_id)]))
      in if me_status e \<in> {429, 503, 529} then with_header ''retry-after'' ''1'' response else response)"

definition message_error_from_admission :: "admission_error \<Rightarrow> message_error" where
  "message_error_from_admission error =
     (case error of
        AdmissionCancelled \<Rightarrow> message_error_new 499 ''invalid_request_error'' (admission_error_text error)
      | AdmissionDeadlineExceeded \<Rightarrow> message_error_new 408 ''timeout_error'' (admission_error_text error)
      | RequestTokenLimit _ _ \<Rightarrow> message_invalid (admission_error_text error)
      | RequestExceedsCapacity \<Rightarrow> message_invalid (admission_error_text error)
      | InvalidDeadline \<Rightarrow> message_invalid (admission_error_text error)
      | QueueFull \<Rightarrow> message_error_new 429 ''rate_limit_error'' (admission_error_text error)
      | OverloadShed \<Rightarrow> message_error_new 529 ''overloaded_error'' (admission_error_text error)
      | Draining \<Rightarrow> message_error_new 503 ''api_error'' (admission_error_text error)
      | AdmissionUnavailable \<Rightarrow> message_error_new 503 ''api_error'' (admission_error_text error)
      | MissingTrustedTenant \<Rightarrow> message_error_new 401 ''authentication_error'' (admission_error_text error)
      | UnknownTenant _ \<Rightarrow> message_error_new 401 ''authentication_error'' (admission_error_text error))"

definition message_error_from_inference :: "api_texts \<Rightarrow> inference_error \<Rightarrow> message_error" where
  "message_error_from_inference tx error =
     (case inference_interrupt error of
        Some CtxCancelled \<Rightarrow> message_error_new 499 ''invalid_request_error'' (tx_inference tx error)
      | Some CtxDeadlineExceeded \<Rightarrow> message_error_new 408 ''timeout_error'' (tx_inference tx error)
      | None \<Rightarrow>
          (case error of
             IfModelIo (ModelNotFound model) \<Rightarrow>
               message_error_new 404 ''not_found_error'' (''model was not found: '' @ model)
           | IfModelIo (MioInvalidInput reason) \<Rightarrow> message_invalid (tx_input tx reason)
           | IfAdmission e \<Rightarrow> message_error_from_admission e
           | IfPlanning _ \<Rightarrow> message_error_new 529 ''overloaded_error'' (tx_inference tx error)
           | IfDiscovery _ \<Rightarrow> message_error_new 529 ''overloaded_error'' (tx_inference tx error)
           | IfEngine EngineDraining \<Rightarrow> message_error_new 529 ''overloaded_error'' (tx_inference tx error)
           | IfEngine EngineStopped \<Rightarrow> message_error_new 529 ''overloaded_error'' (tx_inference tx error)
           | _ \<Rightarrow> message_error_new 500 ''api_error'' (tx_inference tx error)))"

definition message_error_from_json_rejection :: "json_rejection \<Rightarrow> message_error" where
  "message_error_from_json_rejection e =
     (if jr_status e = 413 then message_error_new 413 ''request_too_large'' (jr_body_text e)
      else message_invalid (jr_body_text e))"

section \<open>Configuration and authentication\<close>

definition messages_router_with_config :: "(string \<Rightarrow> 'd) \<Rightarrow> api_config \<Rightarrow> ('d auth_state, api_config_error) result" where
  "messages_router_with_config digest config =
     (if ac_max_request_bytes config = 0 then Inl ZeroRequestBodyLimit
      else if ac_bearer_token config = Some [] then Inl EmptyBearerToken
      else if ac_bearer_token config \<noteq> None \<and> ac_tenant_credentials config \<noteq> [] then Inl AmbiguousCredentials
      else let credentials = api_credentials config in
        and_then (check_credentials (ac_traffic config) credentials) (\<lambda>_.
          let anonymous_tenant =
                (if credentials = [] \<and> ac_anonymous_tenant config = None then Some ''default''
                 else ac_anonymous_tenant config)
          in case anonymous_tenant of
               Some tenant \<Rightarrow>
                 if \<not> tenant_exists (ac_traffic config) tenant then Inl (ConfigUnknownTenant tenant)
                 else make_auth_state digest config credentials anonymous_tenant
             | None \<Rightarrow> make_auth_state digest config credentials anonymous_tenant))"

definition api_key :: "(string \<rightharpoonup> string) \<Rightarrow> string option" where
  "api_key headers =
     (case Option.bind (headers ''x-api-key'') header_to_str of
        Some key \<Rightarrow> Some key
      | None \<Rightarrow> bearer_candidate headers)"

definition message_timeout :: "(string \<rightharpoonup> string) \<Rightarrow> (duration option, message_error) result" where
  "message_timeout headers =
     (case headers request_timeout_header of
        None \<Rightarrow> Inr None
      | Some bytes \<Rightarrow>
          (case header_to_str bytes of
             None \<Rightarrow> Inl (message_invalid ''request timeout header must be ASCII milliseconds'')
           | Some content \<Rightarrow>
               (case parse_u64 content of
                  None \<Rightarrow> Inl (message_invalid ''request timeout header must be integer milliseconds'')
                | Some millis \<Rightarrow>
                    if millis = 0 then Inl (message_invalid ''request timeout must be greater than zero'')
                    else Inr (Some (millis * 1000000)))))"

definition receive_message_body ::
    "api_texts \<Rightarrow> auth_env \<Rightarrow> usize \<Rightarrow> http_request \<Rightarrow> (http_request, message_error) result" where
  "receive_message_body tx env max_bytes request =
     (if is_read_method request then Inr request
      else case av_body env of
        Interrupted e _ \<Rightarrow> Inl (message_error_from_inference tx (IfContext e))
      | Completes \<Rightarrow>
          (case read_bounded_body max_bytes (hq_body request) [] of
             Inr body \<Rightarrow> Inr (request\<lparr>hq_body := [Inr body]\<rparr>)
           | Inl BodyTooLarge \<Rightarrow>
               Inl (message_error_new 413 ''request_too_large'' ''request body exceeded the configured byte limit'')
           | Inl (BodyTransport e) \<Rightarrow> Inl (message_invalid e)))"

text \<open>Every request takes a number, also one that is rejected.\<close>

definition admit_message ::
    "(string \<Rightarrow> 'd) \<Rightarrow> api_texts \<Rightarrow> auth_env \<Rightarrow> http_request \<Rightarrow> 'd auth_state
     \<Rightarrow> (trusted_request \<times> http_request, http_response) result \<times> 'd auth_state" where
  "admit_message digest tx env request auth =
     (let response_id = ''msg_'' @ hex_u64 (as_next_request auth);
          auth' = auth\<lparr>as_next_request := wrap_add64 (as_next_request auth) 1\<rparr>;
          reject = (\<lambda>e. (Inl (message_into_response (with_request_id response_id e)), auth'))
      in if Option.bind (hq_headers request ''anthropic-version'') header_to_str \<noteq> Some ''2023-06-01''
         then reject (message_invalid ''anthropic-version must be 2023-06-01'')
         else case authenticated_tenant digest auth (api_key (hq_headers request)) of
           None \<Rightarrow> reject (message_error_new 401 ''authentication_error'' ''missing or invalid API key'')
         | Some tenant \<Rightarrow>
             (case message_timeout (hq_headers request) of
                Inl e \<Rightarrow> reject e
              | Inr timeout \<Rightarrow>
                  (case traffic_operation_context (as_traffic auth) (av_instant_max env) (av_now env) (av_token env)
                          response_id tenant timeout of
                     Inl e \<Rightarrow> reject (message_error_from_admission e)
                   | Inr context \<Rightarrow>
                       (case receive_message_body tx env (as_max_request_bytes auth) request of
                          Inl e \<Rightarrow> reject e
                        | Inr request \<Rightarrow> (Inr (\<lparr>tr_response_id = response_id, tr_context = context\<rparr>, request), auth')))))"

definition authenticate_message ::
    "(string \<Rightarrow> 'd) \<Rightarrow> api_texts \<Rightarrow> auth_env \<Rightarrow> (trusted_request \<Rightarrow> http_request \<Rightarrow> http_response) \<Rightarrow> http_request
     \<Rightarrow> 'd auth_state \<Rightarrow> http_response \<times> 'd auth_state" where
  "authenticate_message digest tx env next request auth =
     (case admit_message digest tx env request auth of
        (Inl response, auth) \<Rightarrow> (response, auth)
      | (Inr (trusted, request), auth) \<Rightarrow>
          (with_request_header (tr_response_id trusted) (next trusted request), auth))"

section \<open>The messages request\<close>

datatype input_role = InputUser | InputAssistant

datatype text_block = BlockText string

datatype text_content = TextIs string | TextBlocks "text_block list"

datatype input_content_block =
    TextInput string
  | ToolResultInput string text_content bool
  | ToolUseInput string string json
  | ImageInput json
  | DocumentInput json

datatype message_content = MessageText string | MessageBlocks "input_content_block list"

record input_message =
  inm_role :: input_role
  inm_content :: message_content

record anthropic_tool =
  at_name :: string
  at_description :: "string option"
  at_input_schema :: json

datatype anthropic_tool_choice = AnthAuto | AnthAny | AnthTool string | AnthNone

record message_metadata =
  mmd_user_id :: "string option"

record messages_request =
  mrq_model :: string
  mrq_max_tokens :: u32
  mrq_messages :: "input_message list"
  mrq_system :: "text_content option"
  mrq_stop_sequences :: "string list"
  mrq_stream :: bool
  mrq_temperature :: "32 word option"
  mrq_top_p :: "32 word option"
  mrq_top_k :: "u32 option"
  mrq_metadata :: "message_metadata option"
  mrq_tools :: "anthropic_tool list"
  mrq_tool_choice :: "anthropic_tool_choice option"
  mrq_thinking :: "json option"

fun block_text :: "text_block \<Rightarrow> string" where
  "block_text (BlockText t) = t"

fun text_flatten :: "text_content \<Rightarrow> string" where
  "text_flatten (TextIs t) = t"
| "text_flatten (TextBlocks blocks) = join_strings newline (map block_text blocks)"

fun input_role_of :: "input_role \<Rightarrow> conversation_role" where
  "input_role_of InputUser = RoleUser"
| "input_role_of InputAssistant = RoleAssistant"

fun block_message :: "input_role \<Rightarrow> input_content_block \<Rightarrow> (conversation_message, message_error) result" where
  "block_message role (TextInput t) = Inr \<lparr>cm_role = input_role_of role, cm_content = t, cm_tool_call_id = None\<rparr>"
| "block_message role (ToolResultInput tool_use_id content is_error) =
     (if role = InputUser
      then Inr \<lparr>cm_role = RoleTool, cm_content = (if is_error then ''Error: '' @ text_flatten content else text_flatten content),
                cm_tool_call_id = Some tool_use_id\<rparr>
      else Inl (message_invalid ''tool_result blocks are valid only in user messages''))"
| "block_message role (ToolUseInput _ _ _) = Inl (message_unsupported ''messages.content.tool_use'')"
| "block_message role (ImageInput _) = Inl (message_unsupported ''messages.content.image'')"
| "block_message role (DocumentInput _) = Inl (message_unsupported ''messages.content.document'')"

fun block_messages ::
    "input_role \<Rightarrow> input_content_block list \<Rightarrow> conversation_message list \<Rightarrow> (conversation_message list, message_error) result" where
  "block_messages role [] output = Inr output"
| "block_messages role (block # blocks) output =
     and_then (block_message role block) (\<lambda>message. block_messages role blocks (output @ [message]))"

definition append_message ::
    "input_message \<Rightarrow> conversation_message list \<Rightarrow> (conversation_message list, message_error) result" where
  "append_message message output =
     (case inm_content message of
        MessageText content \<Rightarrow>
          Inr (output @ [\<lparr>cm_role = input_role_of (inm_role message), cm_content = content, cm_tool_call_id = None\<rparr>])
      | MessageBlocks blocks \<Rightarrow> block_messages (inm_role message) blocks output)"

fun append_messages ::
    "input_message list \<Rightarrow> conversation_message list \<Rightarrow> (conversation_message list, message_error) result" where
  "append_messages [] output = Inr output"
| "append_messages (message # messages) output = and_then (append_message message output) (append_messages messages)"

fun anthropic_choice :: "anthropic_tool_choice option \<Rightarrow> tool_choice" where
  "anthropic_choice None = ChoiceAuto"
| "anthropic_choice (Some AnthAuto) = ChoiceAuto"
| "anthropic_choice (Some AnthAny) = ChoiceRequired"
| "anthropic_choice (Some (AnthTool name)) = ChoiceFunction name"
| "anthropic_choice (Some AnthNone) = ChoiceNone"

definition messages_into_semantic ::
    "(json \<Rightarrow> string) \<Rightarrow> messages_request \<Rightarrow> (model_request \<times> bool, message_error) result" where
  "messages_into_semantic render request =
     (if mrq_max_tokens request = 0 then Inl (message_invalid ''max_tokens must be greater than zero'')
      else if mrq_messages request = [] then Inl (message_invalid ''messages must not be empty'')
      else if mrq_top_k request \<noteq> None then Inl (message_unsupported ''top_k'')
      else if mrq_thinking request \<noteq> None then Inl (message_unsupported ''thinking'')
      else and_then (append_messages (mrq_messages request)
          (case mrq_system request of
             None \<Rightarrow> []
           | Some system \<Rightarrow> [\<lparr>cm_role = RoleSystem, cm_content = text_flatten system, cm_tool_call_id = None\<rparr>])) (\<lambda>messages.
        Inr (\<lparr>mq_model = mrq_model request, mq_input = ConversationInput messages,
              mq_sampling = \<lparr>sp_max_output_tokens = Some (mrq_max_tokens request),
                sp_temperature = mrq_temperature request, sp_top_p = mrq_top_p request, sp_seed = None,
                sp_stop_sequences = mrq_stop_sequences request\<rparr>,
              mq_tools = map (\<lambda>tool. \<lparr>tl_name = at_name tool, tl_description = at_description tool,
                tl_parameters_schema = render (at_input_schema tool), tl_strict = False\<rparr>) (mrq_tools request),
              mq_tool_choice = anthropic_choice (mrq_tool_choice request),
              mq_response_format = FormatText, mq_reasoning_effort = None,
              mq_metadata = (case Option.bind (mrq_metadata request) mmd_user_id of
                  None \<Rightarrow> bt_empty | Some user_id \<Rightarrow> bt_insert ''user_id'' user_id bt_empty)\<rparr>,
             mrq_stream request)))"

end
