(* ===== verification/Anthropic_Output.thy ===== *)
theory Anthropic_Output
  imports Anthropic_Api
begin

text \<open>
  The responses of the Anthropic-compatible front end: the accumulator of content blocks, the
  collected message, and the streamed message with its blocks that open, grow and close one after
  the other. \<open>fs\<close> is \<open>serde_json::from_str\<close>.
\<close>

section \<open>The collected message\<close>

datatype output_block = OutText string | OutTool string string string

record message_accumulator =
  ma_content :: "output_block list"
  ma_usage :: usage
  ma_finish :: "model_finish_reason option"

definition message_accumulator_default :: message_accumulator where
  "message_accumulator_default = \<lparr>ma_content = [], ma_usage = \<lparr>us_input_tokens = 0, us_output_tokens = 0\<rparr>, ma_finish = None\<rparr>"

text \<open>\<open>last_mut\<close>: the last block, updated in place.\<close>

definition update_last :: "('a \<Rightarrow> 'a) \<Rightarrow> 'a list \<Rightarrow> 'a list" where
  "update_last f xs = (if xs = [] then [] else butlast xs @ [f (last xs)])"

definition append_text :: "string \<Rightarrow> output_block list \<Rightarrow> output_block list" where
  "append_text t content =
     (if content \<noteq> [] \<and> (case last content of OutText _ \<Rightarrow> True | OutTool _ _ _ \<Rightarrow> False)
      then update_last (\<lambda>b. case b of OutText current \<Rightarrow> OutText (current @ t) | b \<Rightarrow> b) content
      else content @ [OutText t])"

definition append_arguments :: "string \<Rightarrow> string \<Rightarrow> output_block list \<Rightarrow> output_block list" where
  "append_arguments call_id delta content =
     update_last (\<lambda>b. case b of
         OutTool tid name arguments \<Rightarrow> if tid = call_id then OutTool tid name (arguments @ delta) else b
       | OutText _ \<Rightarrow> b) content"

fun message_apply :: "message_accumulator \<Rightarrow> model_event \<Rightarrow> message_accumulator" where
  "message_apply acc (EvTextDelta _ t) = acc\<lparr>ma_content := append_text t (ma_content acc)\<rparr>"
| "message_apply acc (EvToolCallStarted _ call_id name) = acc\<lparr>ma_content := ma_content acc @ [OutTool call_id name []]\<rparr>"
| "message_apply acc (EvToolCallArgumentsDelta _ call_id delta) =
     acc\<lparr>ma_content := append_arguments call_id delta (ma_content acc)\<rparr>"
| "message_apply acc (EvUsage _ usage _) = acc\<lparr>ma_usage := usage\<rparr>"
| "message_apply acc (EvFinished _ reason usage) = acc\<lparr>ma_finish := Some reason, ma_usage := usage\<rparr>"
| "message_apply acc _ = acc"

definition parse_tool_input :: "json_from_str \<Rightarrow> string \<Rightarrow> (json, message_error) result" where
  "parse_tool_input fs arguments =
     (case fs arguments of
        None \<Rightarrow> Inl (message_error_new 500 ''api_error'' ''tool input was not valid JSON'')
      | Some j \<Rightarrow>
          if \<not> json_is_object j then Inl (message_error_new 500 ''api_error'' ''tool input must be a JSON object'')
          else Inr j)"

fun block_value :: "json_from_str \<Rightarrow> output_block \<Rightarrow> (json, message_error) result" where
  "block_value fs (OutText t) = Inr (JObject [(''type'', JString ''text''), (''text'', JString t)])"
| "block_value fs (OutTool tid name arguments) =
     and_then (parse_tool_input fs arguments) (\<lambda>input.
       Inr (JObject [(''type'', JString ''tool_use''), (''id'', JString tid), (''name'', JString name), (''input'', input)]))"

fun content_value :: "json_from_str \<Rightarrow> output_block list \<Rightarrow> (json list, message_error) result" where
  "content_value fs [] = Inr []"
| "content_value fs (block # blocks) =
     and_then (block_value fs block) (\<lambda>j. and_then (content_value fs blocks) (\<lambda>js. Inr (j # js)))"

fun anthropic_stop_reason :: "model_finish_reason option \<Rightarrow> string" where
  "anthropic_stop_reason (Some MfLength) = ''max_tokens''"
| "anthropic_stop_reason (Some MfToolCall) = ''tool_use''"
| "anthropic_stop_reason (Some MfContentFilter) = ''refusal''"
| "anthropic_stop_reason _ = ''end_turn''"

definition message_usage_value :: "usage \<Rightarrow> json" where
  "message_usage_value usage = JObject
     [(''input_tokens'', json_nat (us_input_tokens usage)), (''output_tokens'', json_nat (us_output_tokens usage))]"

fun collect_blocks :: "message_accumulator \<Rightarrow> model_items \<Rightarrow> (message_accumulator, inference_error) result" where
  "collect_blocks acc [] = Inr acc"
| "collect_blocks acc (Inl error # items) = Inl error"
| "collect_blocks acc (Inr event # items) = collect_blocks (message_apply acc event) items"

definition execution_failed_error :: message_error where
  "execution_failed_error = message_error_new 500 ''api_error'' ''model execution did not complete successfully''"

definition collect_message :: "json_from_str \<Rightarrow> api_texts \<Rightarrow> string \<Rightarrow> string \<Rightarrow> model_items \<Rightarrow> http_response" where
  "collect_message fs tx request_id model items =
     (case collect_blocks message_accumulator_default items of
        Inl error \<Rightarrow> message_into_response (with_request_id request_id (message_error_from_inference tx error))
      | Inr output \<Rightarrow>
          if ma_finish output \<in> {Some MfCancelled, Some MfError}
          then message_into_response (with_request_id request_id execution_failed_error)
          else case content_value fs (ma_content output) of
            Inl error \<Rightarrow> message_into_response (with_request_id request_id error)
          | Inr content \<Rightarrow> json_response 200 (JObject
              [(''id'', JString request_id), (''type'', JString ''message''), (''role'', JString ''assistant''),
               (''content'', JArray content), (''model'', JString model),
               (''stop_reason'', JString (anthropic_stop_reason (ma_finish output))), (''stop_sequence'', JNull),
               (''usage'', message_usage_value (ma_usage output))]))"

section \<open>The streamed message\<close>

datatype active_block = ActiveText usize | ActiveTool usize string string

record message_stream =
  ss_started :: bool
  ss_next_index :: usize
  ss_active :: "active_block option"
  ss_usage :: usage

definition message_stream_default :: message_stream where
  "message_stream_default = \<lparr>ss_started = False, ss_next_index = 0, ss_active = None,
     ss_usage = \<lparr>us_input_tokens = 0, us_output_tokens = 0\<rparr>\<rparr>"

definition anthropic_event :: "string \<Rightarrow> json \<Rightarrow> chunk" where
  "anthropic_event event_type content = (\<lambda>_. \<lparr>se_event = Some event_type, se_data = SseJson content\<rparr>)"

definition stream_error :: "message_error \<Rightarrow> chunk" where
  "stream_error error = anthropic_event ''error'' (JObject
     [(''type'', JString ''error''),
      (''error'', JObject [(''type'', JString (me_error_type error)), (''message'', JString (me_message error))])])"

definition block_stop :: "usize \<Rightarrow> chunk" where
  "block_stop index = anthropic_event ''content_block_stop'' (JObject
     [(''type'', JString ''content_block_stop''), (''index'', json_nat index)])"

definition block_start :: "usize \<Rightarrow> json \<Rightarrow> chunk" where
  "block_start index block = anthropic_event ''content_block_start'' (JObject
     [(''type'', JString ''content_block_start''), (''index'', json_nat index), (''content_block'', block)])"

definition block_delta :: "usize \<Rightarrow> json \<Rightarrow> chunk" where
  "block_delta index delta = anthropic_event ''content_block_delta'' (JObject
     [(''type'', JString ''content_block_delta''), (''index'', json_nat index), (''delta'', delta)])"

text \<open>The active block is taken also when its arguments turn out to be invalid.\<close>

definition close_active :: "json_from_str \<Rightarrow> message_stream \<Rightarrow> (chunk list, message_error) result \<times> message_stream" where
  "close_active fs s =
     (case ss_active s of
        None \<Rightarrow> (Inr [], s)
      | Some (ActiveText index) \<Rightarrow> (Inr [block_stop index], s\<lparr>ss_active := None\<rparr>)
      | Some (ActiveTool index _ arguments) \<Rightarrow>
          (and_then (parse_tool_input fs arguments) (\<lambda>_. Inr [block_stop index]), s\<lparr>ss_active := None\<rparr>))"

text \<open>The outcome of a step: the events, the local variables and whether the loop breaks.\<close>

type_synonym message_step = "chunk list \<times> message_stream \<times> bool"

definition step_error :: "message_error \<Rightarrow> message_stream \<Rightarrow> message_step" where
  "step_error error s = ([stream_error error], s, True)"

definition after_close ::
    "json_from_str \<Rightarrow> message_stream \<Rightarrow> (message_stream \<Rightarrow> message_step) \<Rightarrow> message_step" where
  "after_close fs s go =
     (case close_active fs s of
        (Inl error, s) \<Rightarrow> step_error error s
      | (Inr events, s) \<Rightarrow> (case go s of (out, s, stop) \<Rightarrow> (events @ out, s, stop)))"

definition message_start :: "string \<Rightarrow> string \<Rightarrow> chunk" where
  "message_start request_id model = anthropic_event ''message_start'' (JObject
     [(''type'', JString ''message_start''),
      (''message'', JObject
         [(''id'', JString request_id), (''type'', JString ''message''), (''role'', JString ''assistant''),
          (''content'', JArray []), (''model'', JString model), (''stop_reason'', JNull), (''stop_sequence'', JNull),
          (''usage'', message_usage_value \<lparr>us_input_tokens = 0, us_output_tokens = 0\<rparr>)])])"

definition text_delta :: "usize \<Rightarrow> string \<Rightarrow> chunk" where
  "text_delta index t = block_delta index (JObject [(''type'', JString ''text_delta''), (''text'', JString t)])"

definition input_delta :: "usize \<Rightarrow> string \<Rightarrow> chunk" where
  "input_delta index delta = block_delta index
     (JObject [(''type'', JString ''input_json_delta''), (''partial_json'', JString delta)])"

definition api_500 :: "string \<Rightarrow> message_error" where
  "api_500 message = message_error_new 500 ''api_error'' message"

fun message_event_step :: "json_from_str \<Rightarrow> message_stream \<Rightarrow> model_event \<Rightarrow> message_step" where
  "message_event_step fs s (EvAccepted _) = ([], s, False)"
| "message_event_step fs s (EvReasoningDelta _ _) = ([], s, False)"
| "message_event_step fs s (EvTextDelta _ t) =
     (case ss_active s of
        Some (ActiveText index) \<Rightarrow> ([text_delta index t], s, False)
      | _ \<Rightarrow> after_close fs s (\<lambda>s.
          let index = ss_next_index s
          in ([block_start index (JObject [(''type'', JString ''text''), (''text'', JString [])]), text_delta index t],
              s\<lparr>ss_next_index := wrap_add64 index 1, ss_active := Some (ActiveText index)\<rparr>, False)))"
| "message_event_step fs s (EvToolCallStarted _ call_id name) =
     after_close fs s (\<lambda>s.
       let index = ss_next_index s
       in ([block_start index (JObject [(''type'', JString ''tool_use''), (''id'', JString call_id), (''name'', JString name),
              (''input'', JObject [])])],
           s\<lparr>ss_next_index := wrap_add64 index 1, ss_active := Some (ActiveTool index call_id [])\<rparr>, False))"
| "message_event_step fs s (EvToolCallArgumentsDelta _ call_id delta) =
     (case ss_active s of
        Some (ActiveTool index tid arguments) \<Rightarrow>
          if tid \<noteq> call_id then step_error (api_500 ''tool delta did not match the active tool block'') s
          else ([input_delta index delta], s\<lparr>ss_active := Some (ActiveTool index tid (arguments @ delta))\<rparr>, False)
      | _ \<Rightarrow> step_error (api_500 ''tool delta arrived without an active tool block'') s)"
| "message_event_step fs s (EvToolCallCompleted _ call_id _) =
     (if (case ss_active s of Some (ActiveTool _ tid _) \<Rightarrow> tid = call_id | _ \<Rightarrow> False)
      then after_close fs s (\<lambda>s. ([], s, False))
      else step_error (api_500 ''tool completion did not match the active tool block'') s)"
| "message_event_step fs s (EvUsage _ usage _) = ([], s\<lparr>ss_usage := usage\<rparr>, False)"
| "message_event_step fs s (EvFinished _ reason usage) =
     after_close fs (s\<lparr>ss_usage := usage\<rparr>) (\<lambda>s.
       if reason \<in> {MfCancelled, MfError} then step_error execution_failed_error s
       else ([anthropic_event ''message_delta'' (JObject
                [(''type'', JString ''message_delta''),
                 (''delta'', JObject [(''stop_reason'', JString (anthropic_stop_reason (Some reason))), (''stop_sequence'', JNull)]),
                 (''usage'', JObject [(''output_tokens'', json_nat (us_output_tokens (ss_usage s)))])]),
              anthropic_event ''message_stop'' (JObject [(''type'', JString ''message_stop'')])], s, True))"

definition message_step :: "json_from_str \<Rightarrow> string \<Rightarrow> string \<Rightarrow> message_stream \<Rightarrow> model_event \<Rightarrow> message_step" where
  "message_step fs request_id model s event =
     (case message_event_step fs (s\<lparr>ss_started := True\<rparr>) event of
        (out, s', stop) \<Rightarrow> ((if ss_started s then [] else [message_start request_id model]) @ out, s', stop))"

definition messages_sse ::
    "json_from_str \<Rightarrow> api_texts \<Rightarrow> (nat \<Rightarrow> u64) \<Rightarrow> string \<Rightarrow> string \<Rightarrow> model_items \<Rightarrow> sse_event list" where
  "messages_sse fs tx clock request_id model items =
     stamp clock (sse_loop (message_step fs request_id model) (\<lambda>error. stream_error (message_error_from_inference tx error))
       message_stream_default items)"

section \<open>The handler\<close>

definition messages ::
    "json_from_str \<Rightarrow> api_texts \<Rightarrow> (nat \<Rightarrow> u64) \<Rightarrow> (json \<Rightarrow> string)
     \<Rightarrow> (model_request \<Rightarrow> operation_context \<Rightarrow> (model_items, inference_error) result) \<Rightarrow> (unit, context_error) result
     \<Rightarrow> trusted_request \<Rightarrow> (messages_request, json_rejection) result \<Rightarrow> http_response" where
  "messages fs tx clock render infer active trusted payload =
     (let reject = (\<lambda>e. message_into_response (with_request_id (tr_response_id trusted) e))
      in case active of
        Inl e \<Rightarrow> reject (message_error_from_inference tx (IfContext e))
      | Inr _ \<Rightarrow>
          (case payload of
             Inl e \<Rightarrow> reject (message_error_from_json_rejection e)
           | Inr request \<Rightarrow>
               (case messages_into_semantic render request of
                  Inl e \<Rightarrow> reject e
                | Inr (semantic, stream_requested) \<Rightarrow>
                    (case infer semantic (tr_context trusted) of
                       Inl e \<Rightarrow> reject (message_error_from_inference tx e)
                     | Inr items \<Rightarrow>
                         if stream_requested
                         then sse_response (messages_sse fs tx clock (tr_response_id trusted) (mrq_model request) items)
                         else collect_message fs tx (tr_response_id trusted) (mrq_model request) items))))"

end
