(* ===== verification/Anthropic_Props.thy ===== *)
theory Anthropic_Props
  imports Anthropic_Output Sse_Protocol
begin

text \<open>
  What the Anthropic-compatible front end promises: a streamed message keeps the block protocol and
  ends once, a client that reassembles the blocks of a stream gets the collected message, and the
  errors and configurations agree with those of the OpenAI front end.
\<close>

section \<open>The generator keeps the protocol of events\<close>

definition message_terminal :: "sse_event \<Rightarrow> bool" where
  "message_terminal e \<longleftrightarrow> se_event e \<in> {Some ''message_stop'', Some ''error''}"

lemmas chunk_defs = anthropic_event_def stream_error_def block_stop_def block_start_def block_delta_def message_start_def
  text_delta_def input_delta_def

named_theorems message_simps \<open>the classes of the generated events\<close>

lemma message_terminal_chunks [message_simps]:
  "message_terminal (anthropic_event name j now) \<longleftrightarrow> name \<in> {''message_stop'', ''error''}"
  "message_terminal (stream_error error now)" "\<not> message_terminal (block_stop i now)"
  "\<not> message_terminal (block_start i block now)" "\<not> message_terminal (block_delta i delta now)"
  "\<not> message_terminal (text_delta i t now)" "\<not> message_terminal (input_delta i d now)"
  "\<not> message_terminal (message_start rid model now)"
  by (simp_all add: message_terminal_def chunk_defs)

lemma message_timeless [message_simps]: "timeless P (anthropic_event name j)" "timeless P (stream_error error)"
  "timeless P (block_stop i)" "timeless P (block_start i block)" "timeless P (block_delta i delta)"
  "timeless P (text_delta i t)" "timeless P (input_delta i d)" "timeless P (message_start rid model)"
  by (auto simp: chunk_defs timeless_def)

text \<open>A step that keeps the interface: timeless events, the terminal one at the end and only on a break.\<close>

definition step_ok :: "message_step \<Rightarrow> bool" where
  "step_ok r = (case r of (out, _, stop) \<Rightarrow> (\<forall>c \<in> set out. timeless message_terminal c) \<and>
     (if stop then ends_once (at_zero message_terminal) out else never_ends (at_zero message_terminal) out))"

lemma step_error_ok [simp]: "step_ok (step_error error s)"
  by (simp add: step_ok_def step_error_def message_simps)

lemma close_active_events:
  "close_active fs s = (Inr events, s') \<Longrightarrow>
   (\<forall>c \<in> set events. timeless message_terminal c) \<and> never_ends (at_zero message_terminal) events"
  by (auto simp: close_active_def and_then_Inr_iff message_simps split: option.splits active_block.splits)

lemma after_close_ok:
  assumes "\<And>s. step_ok (go s)" shows "step_ok (after_close fs s go)"
proof (cases "close_active fs s")
  case (Pair r s')
  show ?thesis
  proof (cases r)
    case (Inr events)
    with Pair close_active_events [of fs s events s'] assms [of s'] show ?thesis
      by (auto simp: after_close_def step_ok_def never_ends_append_ends_once split: prod.splits)
  qed (simp add: after_close_def Pair)
qed

lemma message_event_step_ok: "step_ok (message_event_step fs s event)"
proof (cases event)
  case (EvFinished r reason usage)
  show ?thesis unfolding EvFinished message_event_step.simps
    by (rule after_close_ok) (auto simp: step_ok_def message_simps ends_once_Cons step_error_def)
next
  case (EvTextDelta r t)
  have "step_ok (after_close fs s (\<lambda>s. let index = ss_next_index s
      in ([block_start index (JObject [(''type'', JString ''text''), (''text'', JString [])]), text_delta index t],
          s\<lparr>ss_next_index := wrap_add64 index 1, ss_active := Some (ActiveText index)\<rparr>, False)))"
    by (rule after_close_ok) (simp add: step_ok_def message_simps Let_def)
  then show ?thesis
    by (auto simp: EvTextDelta step_ok_def message_simps split: option.splits active_block.splits)
next
  case (EvToolCallStarted r c n)
  show ?thesis unfolding EvToolCallStarted message_event_step.simps
    by (rule after_close_ok) (simp add: step_ok_def message_simps Let_def)
next
  case (EvToolCallCompleted r c a)
  have "step_ok (after_close fs s (\<lambda>s. ([], s, False)))" by (rule after_close_ok) (simp add: step_ok_def)
  then show ?thesis by (simp add: EvToolCallCompleted)
qed (auto simp: step_ok_def step_error_def message_simps split: option.splits active_block.splits)

lemma after_close_stop:
  "(\<And>s. snd (snd (go s))) \<Longrightarrow> snd (snd (after_close fs s go))"
  by (auto simp: after_close_def step_error_def split: prod.splits sum.splits) (metis snd_conv)

lemma finished_stops: "is_finished event \<Longrightarrow> snd (snd (message_event_step fs s event))"
  by (cases event) (auto intro!: after_close_stop simp: step_error_def)

lemma message_step_ok: "step_ok (message_step fs rid model s event)"
  using message_event_step_ok [of fs "s\<lparr>ss_started := True\<rparr>" event]
  by (auto simp: message_step_def step_ok_def message_simps ends_once_Cons ends_once_def split: prod.splits)

interpretation msg: sse_encoder "message_step fs rid model" "\<lambda>error. stream_error (message_error_from_inference tx error)" message_terminal
proof
  fix s event out s' stop c
  assume step: "message_step fs rid model s event = (out, s', stop)"
  then show "is_finished event \<Longrightarrow> stop"
    using finished_stops [of event fs "s\<lparr>ss_started := True\<rparr>"] by (auto simp: message_step_def split: prod.splits)
  show "c \<in> set out \<Longrightarrow> timeless message_terminal c"
    using message_step_ok [of fs rid model s event] step by (simp add: step_ok_def)
next
  fix s event out s'
  show "message_step fs rid model s event = (out, s', True) \<Longrightarrow> ends_once (at_zero message_terminal) out"
    "message_step fs rid model s event = (out, s', False) \<Longrightarrow> never_ends (at_zero message_terminal) out"
    using message_step_ok [of fs rid model s event] by (simp_all add: step_ok_def)
qed (simp_all add: message_simps)

section \<open>A reader of streamed messages\<close>

text \<open>
  The block protocol as an automaton: a message starts once; blocks are numbered from zero, opened,
  extended and closed one after the other; the stop comes when no block is open; nothing follows the
  stop or an error. The reader also reassembles the blocks.
\<close>

record reader =
  rd_started :: bool
  rd_closed :: bool
  rd_next :: nat
  rd_open :: "nat option"
  rd_blocks :: "output_block list"

definition reader_init :: reader where
  "reader_init = \<lparr>rd_started = False, rd_closed = False, rd_next = 0, rd_open = None, rd_blocks = []\<rparr>"

definition started_block :: "json \<Rightarrow> output_block option" where
  "started_block j =
     (if json_get ''type'' j = Some (JString ''text'') then Some (OutText (json_text (json_get ''text'' j)))
      else if json_get ''type'' j = Some (JString ''tool_use'')
      then Some (OutTool (json_text (json_get ''id'' j)) (json_text (json_get ''name'' j)) [])
      else None)"

fun grown_block :: "output_block \<Rightarrow> json \<Rightarrow> output_block option" where
  "grown_block (OutText t) j =
     (if json_get ''type'' j = Some (JString ''text_delta'') then Some (OutText (t @ json_text (json_get ''text'' j))) else None)"
| "grown_block (OutTool tid name arguments) j =
     (if json_get ''type'' j = Some (JString ''input_json_delta'')
      then Some (OutTool tid name (arguments @ json_text (json_get ''partial_json'' j))) else None)"

definition reader_event :: "reader \<Rightarrow> string \<Rightarrow> json \<Rightarrow> reader option" where
  "reader_event r name j =
     (if rd_closed r then None
      else if name = ''error'' then Some (r\<lparr>rd_closed := True\<rparr>)
      else if name = ''message_start'' then (if rd_started r then None else Some (r\<lparr>rd_started := True\<rparr>))
      else if \<not> rd_started r then None
      else if name = ''content_block_start'' then
        (if rd_open r = None \<and> json_get ''index'' j = Some (json_nat (rd_next r))
         then map_option (\<lambda>b. r\<lparr>rd_next := Suc (rd_next r), rd_open := Some (rd_next r), rd_blocks := rd_blocks r @ [b]\<rparr>)
           (Option.bind (json_get ''content_block'' j) started_block)
         else None)
      else if name = ''content_block_delta'' then
        (if rd_open r \<noteq> None \<and> json_get ''index'' j = map_option json_nat (rd_open r)
         then map_option (\<lambda>b. r\<lparr>rd_blocks := butlast (rd_blocks r) @ [b]\<rparr>)
           (Option.bind (json_get ''delta'' j) (grown_block (last (rd_blocks r))))
         else None)
      else if name = ''content_block_stop'' then
        (if rd_open r \<noteq> None \<and> json_get ''index'' j = map_option json_nat (rd_open r) then Some (r\<lparr>rd_open := None\<rparr>) else None)
      else if name = ''message_delta'' then (if rd_open r = None then Some r else None)
      else if name = ''message_stop'' then (if rd_open r = None then Some (r\<lparr>rd_closed := True\<rparr>) else None)
      else None)"

definition reader_step :: "reader \<Rightarrow> sse_event \<Rightarrow> reader option" where
  "reader_step r e = (case (se_event e, se_data e) of (Some name, SseJson j) \<Rightarrow> reader_event r name j | _ \<Rightarrow> None)"

fun read_all :: "reader \<Rightarrow> sse_event list \<Rightarrow> reader option" where
  "read_all r [] = Some r"
| "read_all r (e # es) = Option.bind (reader_step r e) (\<lambda>r. read_all r es)"

lemma read_all_append [simp]: "read_all r (a @ b) = Option.bind (read_all r a) (\<lambda>r. read_all r b)"
  by (induction a arbitrary: r) (auto simp: bind_assoc)

lemma reader_chunk [simp]: "reader_step r (anthropic_event name j now) = reader_event r name j"
  by (simp add: reader_step_def anthropic_event_def)

text \<open>The reader's moves on the generated events.\<close>

lemma reader_moves [message_simps]:
  "\<not> rd_closed r \<Longrightarrow> reader_step r (stream_error error now) = Some (r\<lparr>rd_closed := True\<rparr>)"
  "\<not> rd_closed r \<Longrightarrow> \<not> rd_started r \<Longrightarrow> reader_step r (message_start rid model now) = Some (r\<lparr>rd_started := True\<rparr>)"
  "\<not> rd_closed r \<Longrightarrow> rd_started r \<Longrightarrow> rd_open r = Some i \<Longrightarrow> reader_step r (block_stop i now) = Some (r\<lparr>rd_open := None\<rparr>)"
  "\<not> rd_closed r \<Longrightarrow> rd_started r \<Longrightarrow> rd_open r = None \<Longrightarrow> started_block j = Some b \<Longrightarrow>
     reader_step r (block_start (rd_next r) j now) =
       Some (r\<lparr>rd_next := Suc (rd_next r), rd_open := Some (rd_next r), rd_blocks := rd_blocks r @ [b]\<rparr>)"
  "\<not> rd_closed r \<Longrightarrow> rd_started r \<Longrightarrow> rd_open r = Some i \<Longrightarrow> last (rd_blocks r) = OutText t \<Longrightarrow>
     reader_step r (text_delta i u now) = Some (r\<lparr>rd_blocks := butlast (rd_blocks r) @ [OutText (t @ u)]\<rparr>)"
  "\<not> rd_closed r \<Longrightarrow> rd_started r \<Longrightarrow> rd_open r = Some i \<Longrightarrow> last (rd_blocks r) = OutTool tid name arguments \<Longrightarrow>
     reader_step r (input_delta i u now) = Some (r\<lparr>rd_blocks := butlast (rd_blocks r) @ [OutTool tid name (arguments @ u)]\<rparr>)"
  by (simp_all add: stream_error_def message_start_def block_stop_def block_start_def text_delta_def input_delta_def
      block_delta_def reader_event_def json_get_def json_text_def)

lemma started_blocks [simp]:
  "started_block (JObject [(''type'', JString ''text''), (''text'', JString [])]) = Some (OutText [])"
  "started_block (JObject [(''type'', JString ''tool_use''), (''id'', JString c), (''name'', JString n), (''input'', JObject [])]) =
     Some (OutTool c n [])"
  by (simp_all add: started_block_def json_get_def json_text_def)

section \<open>The reader follows the generator\<close>

definition block_ok :: "json_from_str \<Rightarrow> output_block \<Rightarrow> bool" where
  "block_ok fs b \<longleftrightarrow> (case b of OutText _ \<Rightarrow> True | OutTool _ _ arguments \<Rightarrow> is_ok (parse_tool_input fs arguments))"

lemma content_value_ok: "list_all (block_ok fs) content \<Longrightarrow> \<exists>js. content_value fs content = Inr js"
proof (induction content)
  case (Cons b content)
  then show ?case by (cases b) (auto simp: block_ok_def is_ok_def and_then_Inr_iff split: sum.splits)
qed simp

definition last_text :: "output_block list \<Rightarrow> bool" where
  "last_text content \<longleftrightarrow> content \<noteq> [] \<and> (\<exists>t. last content = OutText t)"

text \<open>The active block is the last block of the accumulator; the blocks before it are closed and valid.\<close>

definition active_matches :: "json_from_str \<Rightarrow> active_block option \<Rightarrow> output_block list \<Rightarrow> bool" where
  "active_matches fs active content \<longleftrightarrow>
     (case active of
        None \<Rightarrow> \<not> last_text content \<and> list_all (block_ok fs) content
      | Some (ActiveText _) \<Rightarrow> last_text content \<and> list_all (block_ok fs) content
      | Some (ActiveTool _ tid arguments) \<Rightarrow>
          content \<noteq> [] \<and> (\<exists>name. last content = OutTool tid name arguments) \<and> list_all (block_ok fs) (butlast content))"

fun block_index :: "active_block \<Rightarrow> usize" where
  "block_index (ActiveText i) = i"
| "block_index (ActiveTool i _ _) = i"

definition follows :: "json_from_str \<Rightarrow> message_stream \<Rightarrow> message_accumulator \<Rightarrow> reader \<Rightarrow> bool" where
  "follows fs s acc r \<longleftrightarrow>
     rd_started r = ss_started s \<and> \<not> rd_closed r \<and> rd_next r = ss_next_index s \<and>
     rd_open r = map_option block_index (ss_active s) \<and> rd_blocks r = ma_content acc \<and>
     active_matches fs (ss_active s) (ma_content acc)"

text \<open>After closing, every block is valid; what was open is known from before.\<close>

lemma close_followed:
  assumes "follows fs s acc r" and "ss_started s" and "close_active fs s = (Inr events, s')"
  shows "read_all r (stamp clock events) = Some (r\<lparr>rd_open := None\<rparr>) \<and> s' = s\<lparr>ss_active := None\<rparr> \<and>
    list_all (block_ok fs) (ma_content acc)"
proof (cases "ss_active s")
  case None
  with assms have "rd_open r = None" "rd_started r" by (simp_all add: follows_def)
  with assms None show ?thesis by (auto simp: close_active_def follows_def active_matches_def)
next
  case (Some b)
  then have r: "\<not> rd_closed r" "rd_started r" "rd_open r = Some (block_index b)"
    using assms(1,2) by (simp_all add: follows_def)
  show ?thesis
  proof (cases b)
    case (ActiveText i)
    with assms Some r show ?thesis
      by (auto simp: close_active_def follows_def active_matches_def message_simps)
  next
    case (ActiveTool i tid arguments)
    obtain name where last: "ma_content acc \<noteq> []" "last (ma_content acc) = OutTool tid name arguments"
        "list_all (block_ok fs) (butlast (ma_content acc))"
      using assms(1) Some ActiveTool by (auto simp: follows_def active_matches_def)
    from assms(3) Some ActiveTool have "is_ok (parse_tool_input fs arguments)" "events = [block_stop i]" "s' = s\<lparr>ss_active := None\<rparr>"
      by (auto simp: close_active_def and_then_Inr_iff)
    moreover from this(1) last have "list_all (block_ok fs) (butlast (ma_content acc) @ [last (ma_content acc)])"
      by (simp add: block_ok_def)
    ultimately show ?thesis using r ActiveTool last(1) by (simp add: message_simps)
  qed
qed

text \<open>What a step promises the reader: it can read on, and it has read the collected blocks.\<close>

definition outcome_ok :: "json_from_str \<Rightarrow> message_accumulator \<Rightarrow> nat \<Rightarrow> message_step \<Rightarrow> reader \<Rightarrow> bool" where
  "outcome_ok fs acc n result r' \<longleftrightarrow> (case result of (out, s', stop) \<Rightarrow>
     if stop
     then out \<noteq> [] \<and> rd_closed r' \<and> (se_event (last out 0) = Some ''message_stop'' \<longrightarrow>
       rd_blocks r' = ma_content acc \<and> list_all (block_ok fs) (ma_content acc) \<and> ma_finish acc \<notin> {Some MfCancelled, Some MfError})
     else follows fs s' acc r' \<and> ss_started s' \<and> ss_next_index s' \<le> Suc n)"

definition step_followed :: "json_from_str \<Rightarrow> reader \<Rightarrow> message_accumulator \<Rightarrow> nat \<Rightarrow> message_step \<Rightarrow> bool" where
  "step_followed fs r acc n result \<longleftrightarrow>
     (\<forall>clock. \<exists>r'. read_all r (stamp clock (fst result)) = Some r' \<and> outcome_ok fs acc n result r')"

lemma outcome_ok_prefix: "outcome_ok fs acc n (out, s', stop) r' \<Longrightarrow> outcome_ok fs acc n (events @ out, s', stop) r'"
  by (auto simp: outcome_ok_def split: if_splits)

lemma step_followed_prefix:
  assumes "step_followed fs r' acc n (out, s', stop)" and "\<And>clock. read_all r (stamp clock events) = Some r'"
  shows "step_followed fs r acc n (events @ out, s', stop)"
  using assms unfolding step_followed_def by (simp add: stamp_append) (meson outcome_ok_prefix)

lemma step_error_followed: "\<not> rd_closed r \<Longrightarrow> step_followed fs r acc n (step_error error s)"
proof -
  have "se_event (stream_error error 0) = Some ''error''" by (simp add: stream_error_def anthropic_event_def)
  then show "\<not> rd_closed r \<Longrightarrow> step_followed fs r acc n (step_error error s)"
    by (simp add: step_followed_def outcome_ok_def step_error_def message_simps)
qed

lemma after_close_followed:
  assumes "follows fs s acc r" and "ss_started s"
    and "list_all (block_ok fs) (ma_content acc) \<Longrightarrow> step_followed fs (r\<lparr>rd_open := None\<rparr>) acc' n (go (s\<lparr>ss_active := None\<rparr>))"
  shows "step_followed fs r acc' n (after_close fs s go)"
proof (cases "close_active fs s")
  case (Pair res s')
  show ?thesis
  proof (cases res)
    case (Inl error)
    then show ?thesis using assms(1) Pair by (simp add: after_close_def step_error_followed follows_def)
  next
    case (Inr events)
    obtain out s2 stop where go: "go (s\<lparr>ss_active := None\<rparr>) = (out, s2, stop)" by (metis prod_cases3)
    have close: "read_all r (stamp clock events) = Some (r\<lparr>rd_open := None\<rparr>)" "s' = s\<lparr>ss_active := None\<rparr>"
        "list_all (block_ok fs) (ma_content acc)" for clock
      using close_followed [OF assms(1,2)] Pair Inr by blast+
    with assms(3) go have "step_followed fs (r\<lparr>rd_open := None\<rparr>) acc' n (out, s2, stop)" by auto
    then show ?thesis using go close step_followed_prefix by (auto simp: after_close_def Pair Inr)
  qed
qed

lemma append_text_new: "\<not> last_text content \<Longrightarrow> append_text t content = content @ [OutText t]"
  by (auto simp: append_text_def last_text_def split: output_block.splits)

lemma append_text_last:
  "content \<noteq> [] \<Longrightarrow> last content = OutText u \<Longrightarrow> append_text t content = butlast content @ [OutText (u @ t)]"
  by (simp add: append_text_def update_last_def)

lemma append_arguments_last:
  "content \<noteq> [] \<Longrightarrow> last content = OutTool tid name arguments \<Longrightarrow>
   append_arguments tid d content = butlast content @ [OutTool tid name (arguments @ d)]"
  by (simp add: append_arguments_def update_last_def)

lemma text_block_followed:
  assumes "follows fs s acc r" and "ss_started s" and "ss_next_index s < u64_max" and "\<not> last_text (ma_content acc)"
    and "list_all (block_ok fs) (ma_content acc)" and "index = ss_next_index s"
  shows "step_followed fs (r\<lparr>rd_open := None\<rparr>) (message_apply acc (EvTextDelta rid t)) index
     ([block_start index (JObject [(''type'', JString ''text''), (''text'', JString [])]), text_delta index t],
      s\<lparr>ss_next_index := wrap_add64 index 1, ss_active := Some (ActiveText index)\<rparr>, False)"
proof -
  let ?r = "r\<lparr>rd_open := None\<rparr>"
  let ?r1 = "?r\<lparr>rd_next := Suc index, rd_open := Some index, rd_blocks := rd_blocks r @ [OutText []]\<rparr>"
  have r: "\<not> rd_closed r" "rd_started r" "rd_next r = index" "rd_blocks r = ma_content acc"
    using assms by (simp_all add: follows_def)
  have "reader_step ?r (block_start index j now) = Some ?r1" if "started_block j = Some (OutText [])" for j now
    using reader_moves(4) [of ?r j "OutText []" now] r that by simp
  moreover have "reader_step ?r1 (text_delta index t now) = Some (?r1\<lparr>rd_blocks := rd_blocks r @ [OutText t]\<rparr>)" for now
    using reader_moves(5) [of ?r1 index "[]" t now] r by simp
  ultimately show ?thesis using assms r
    by (simp add: step_followed_def outcome_ok_def follows_def wrap_add64_exact append_text_new active_matches_def)
      (simp add: last_text_def block_ok_def)
qed

lemma tool_block_followed:
  assumes "follows fs s acc r" and "ss_started s" and "ss_next_index s < u64_max"
    and "list_all (block_ok fs) (ma_content acc)" and "index = ss_next_index s"
  shows "step_followed fs (r\<lparr>rd_open := None\<rparr>) (message_apply acc (EvToolCallStarted rid c n)) index
     ([block_start index (JObject [(''type'', JString ''tool_use''), (''id'', JString c), (''name'', JString n),
         (''input'', JObject [])])],
      s\<lparr>ss_next_index := wrap_add64 index 1, ss_active := Some (ActiveTool index c [])\<rparr>, False)"
proof -
  let ?r = "r\<lparr>rd_open := None\<rparr>"
  have r: "\<not> rd_closed r" "rd_started r" "rd_next r = index" "rd_blocks r = ma_content acc"
    using assms by (simp_all add: follows_def)
  have "reader_step ?r (block_start index j now) =
      Some (?r\<lparr>rd_next := Suc index, rd_open := Some index, rd_blocks := rd_blocks r @ [OutTool c n []]\<rparr>)"
    if "started_block j = Some (OutTool c n [])" for j now
    using reader_moves(4) [of ?r j "OutTool c n []" now] r that by simp
  with assms r show ?thesis
    by (simp add: step_followed_def outcome_ok_def follows_def wrap_add64_exact active_matches_def)
qed

lemma finish_followed:
  assumes "follows fs s acc r" and "ss_started s" and "list_all (block_ok fs) (ma_content acc)"
  shows "step_followed fs (r\<lparr>rd_open := None\<rparr>) (message_apply acc (EvFinished rid reason usage)) n
     (if reason \<in> {MfCancelled, MfError} then step_error execution_failed_error s'
      else ([anthropic_event ''message_delta'' j, anthropic_event ''message_stop'' k], s', True))"
proof -
  have "\<not> rd_closed r" "rd_started r" "rd_blocks r = ma_content acc" using assms by (simp_all add: follows_def)
  with assms(3) show ?thesis
    by (cases "reason \<in> {MfCancelled, MfError}")
      (simp add: step_error_followed, simp add: step_followed_def outcome_ok_def reader_event_def)
qed

text \<open>The simulation, event by event.\<close>

lemma event_step_followed:
  assumes "follows fs s acc r" and "ss_started s" and "ss_next_index s < u64_max"
  shows "step_followed fs r (message_apply acc event) (ss_next_index s) (message_event_step fs s event)"
proof -
  have r: "\<not> rd_closed r" "rd_started r" "rd_blocks r = ma_content acc" "rd_open r = map_option block_index (ss_active s)"
      "active_matches fs (ss_active s) (ma_content acc)"
    using assms by (simp_all add: follows_def)
  show ?thesis
  proof (cases event)
    case (EvTextDelta rid t)
    show ?thesis
    proof (cases "\<exists>i. ss_active s = Some (ActiveText i)")
      case True
      then obtain i u where i: "ss_active s = Some (ActiveText i)" "ma_content acc \<noteq> []" "last (ma_content acc) = OutText u"
          "list_all (block_ok fs) (ma_content acc)" using r(5) by (auto simp: active_matches_def last_text_def)
      moreover have "list_all (block_ok fs) (butlast (ma_content acc))"
        using i(4) by (auto simp: list_all_iff dest: in_set_butlastD)
      ultimately show ?thesis using assms r reader_moves(5) [of r i u t]
        by (simp add: EvTextDelta step_followed_def outcome_ok_def follows_def active_matches_def append_text_last
            last_text_def block_ok_def)
    next
      case False
      then have step: "message_event_step fs s (EvTextDelta rid t) = after_close fs s (\<lambda>s. let index = ss_next_index s
          in ([block_start index (JObject [(''type'', JString ''text''), (''text'', JString [])]), text_delta index t],
              s\<lparr>ss_next_index := wrap_add64 index 1, ss_active := Some (ActiveText index)\<rparr>, False))"
        by (auto split: option.splits active_block.splits)
      have "\<not> last_text (ma_content acc)"
        using False r(5) by (auto simp: active_matches_def last_text_def split: option.splits active_block.splits)
      then show ?thesis unfolding EvTextDelta step
        using text_block_followed [OF assms, where t = t and rid = rid] by (intro after_close_followed [OF assms(1,2)]) (simp add: Let_def)
    qed
  next
    case (EvToolCallStarted rid c n)
    show ?thesis unfolding EvToolCallStarted message_event_step.simps
      using tool_block_followed [OF assms, where c = c and n = n and rid = rid]
      by (intro after_close_followed [OF assms(1,2)]) (simp add: Let_def)
  next
    case (EvToolCallArgumentsDelta rid c d)
    show ?thesis
    proof (cases "\<exists>i arguments. ss_active s = Some (ActiveTool i c arguments)")
      case True
      then obtain i arguments name where i: "ss_active s = Some (ActiveTool i c arguments)" "ma_content acc \<noteq> []"
          "last (ma_content acc) = OutTool c name arguments" "list_all (block_ok fs) (butlast (ma_content acc))"
        using r(5) by (auto simp: active_matches_def)
      then show ?thesis using assms r reader_moves(6) [of r i c name arguments d]
        by (simp add: EvToolCallArgumentsDelta step_followed_def outcome_ok_def follows_def active_matches_def append_arguments_last)
    next
      case False
      then show ?thesis
        by (auto simp: EvToolCallArgumentsDelta step_error_followed [OF r(1)] split: option.splits active_block.splits)
    qed
  next
    case (EvToolCallCompleted rid c a)
    have "step_followed fs r acc (ss_next_index s) (after_close fs s (\<lambda>s. ([], s, False)))"
      if "ss_active s = Some (ActiveTool i c arguments)" for i arguments
      by (rule after_close_followed [OF assms(1,2)])
        (use assms r that in \<open>auto simp: step_followed_def outcome_ok_def follows_def active_matches_def last_text_def\<close>)
    then show ?thesis
      by (auto simp: EvToolCallCompleted step_error_followed [OF r(1)] split: option.splits active_block.splits)
  next
    case (EvFinished rid reason usage)
    have follows: "follows fs (s\<lparr>ss_usage := usage\<rparr>) acc r" "ss_started (s\<lparr>ss_usage := usage\<rparr>)"
      using assms by (simp_all add: follows_def)
    show ?thesis unfolding EvFinished message_event_step.simps
      by (rule after_close_followed [OF follows]) (rule finish_followed [OF follows])
  qed (use assms r in \<open>simp_all add: step_followed_def outcome_ok_def follows_def active_matches_def\<close>)
qed

lemma message_step_followed:
  assumes "follows fs s acc r" and "ss_next_index s < u64_max"
  shows "step_followed fs r (message_apply acc event) (ss_next_index s) (message_step fs rid model s event)"
proof -
  let ?r = "r\<lparr>rd_started := True\<rparr>"
  obtain out s' stop where step: "message_event_step fs (s\<lparr>ss_started := True\<rparr>) event = (out, s', stop)" by (metis prod_cases3)
  have "follows fs (s\<lparr>ss_started := True\<rparr>) acc ?r" using assms(1) by (simp add: follows_def)
  from event_step_followed [OF this, of event] assms(2) step
  have followed: "step_followed fs ?r (message_apply acc event) (ss_next_index s) (out, s', stop)" by simp
  show ?thesis
  proof (cases "ss_started s")
    case True
    with assms(1) have "?r = r" by (simp add: follows_def)
    with followed True show ?thesis by (simp add: message_step_def step)
  next
    case False
    then have "read_all r (stamp clock [message_start rid model]) = Some ?r" for clock
      using assms(1) by (simp add: follows_def message_simps)
    from step_followed_prefix [OF followed this] False show ?thesis by (simp add: message_step_def step)
  qed
qed

text \<open>Only the final event leads to the stop of a message.\<close>

definition stops_cleanly :: "chunk list \<Rightarrow> bool" where
  "stops_cleanly cs \<longleftrightarrow> cs \<noteq> [] \<and> se_event (last cs 0) = Some ''message_stop''"

lemma stream_error_event [simp]: "se_event (stream_error error now) = Some ''error''"
  by (simp add: stream_error_def anthropic_event_def)

lemma after_close_no_stop:
  "\<not> snd (snd (go (snd (close_active fs s)))) \<Longrightarrow> snd (snd (after_close fs s go)) \<Longrightarrow>
   \<not> stops_cleanly (fst (after_close fs s go))"
  by (auto simp: after_close_def step_error_def stops_cleanly_def split: prod.splits sum.splits)

lemma clean_stop_finished:
  assumes "message_step fs rid model s event = (out, s', stop)" and "stops_cleanly out"
  shows "stop \<and> is_finished event"
proof
  show stop: stop
  proof (rule ccontr)
    assume "\<not> stop"
    then have "never_ends (at_zero message_terminal) out"
      using message_step_ok [of fs rid model s event] assms(1) by (simp add: step_ok_def)
    then show False using assms(2) by (auto simp: stops_cleanly_def never_ends_def message_terminal_def)
  qed
  obtain out2 where step: "message_event_step fs (s\<lparr>ss_started := True\<rparr>) event = (out2, s', True)" and "out2 \<noteq> []"
      "last out = last out2"
    using assms(1) stop message_event_step_ok [of fs "s\<lparr>ss_started := True\<rparr>" event]
    by (auto simp: message_step_def step_ok_def ends_once_def split: prod.splits)
  then have clean: "stops_cleanly out2" using assms(2) by (simp add: stops_cleanly_def)
  show "is_finished event"
  proof (rule ccontr)
    assume unfinished: "\<not> is_finished event"
    have "snd (snd (message_event_step fs t event)) \<Longrightarrow> \<not> stops_cleanly (fst (message_event_step fs t event))" for t
      using unfinished
      by (cases event) (auto simp: step_error_def stops_cleanly_def Let_def after_close_def
          split: option.splits active_block.splits prod.splits sum.splits if_splits)
    from this [of "s\<lparr>ss_started := True\<rparr>"] step clean show False by simp
  qed
qed

text \<open>The whole loop: the reader accepts it; a stream closed by a stop has the collected blocks.\<close>

definition collected_by :: "json_from_str \<Rightarrow> message_accumulator \<Rightarrow> reader \<Rightarrow> bool" where
  "collected_by fs acc r \<longleftrightarrow> rd_blocks r = ma_content acc \<and> list_all (block_ok fs) (ma_content acc) \<and>
     ma_finish acc \<notin> {Some MfCancelled, Some MfError}"

lemma messages_loop_followed:
  assumes "follows fs s acc r" and "ss_next_index s + length items \<le> u64_max"
  shows "\<exists>r'. read_all r (stamp clock (sse_loop (message_step fs rid model) (\<lambda>e. stream_error (g e)) s items)) = Some r' \<and>
     (stops_cleanly (sse_loop (message_step fs rid model) (\<lambda>e. stream_error (g e)) s items) \<longrightarrow>
       (\<exists>evs e rest. items = map Inr (evs @ [e]) @ rest \<and> is_finished e \<and>
          collected_by fs (foldl message_apply acc (evs @ [e])) r'))"
  using assms
proof (induction items arbitrary: s acc r clock)
  case Nil
  then show ?case by (simp add: stops_cleanly_def)
next
  case (Cons item items)
  show ?case
  proof (cases item)
    case (Inl error)
    with Cons.prems(1) show ?thesis by (simp add: follows_def message_simps stops_cleanly_def)
  next
    case (Inr event)
    obtain out s' stop where step: "message_step fs rid model s event = (out, s', stop)" by (metis prod_cases3)
    from message_step_followed [OF Cons.prems(1), of event rid model] step Cons.prems(2)
    obtain r' where r': "read_all r (stamp clock out) = Some r'"
        "outcome_ok fs (message_apply acc event) (ss_next_index s) (out, s', stop) r'"
      by (auto simp: step_followed_def)
    show ?thesis
    proof (cases stop)
      case True
      moreover have "stops_cleanly out \<longrightarrow> is_finished event \<and> collected_by fs (message_apply acc event) r'"
        using clean_stop_finished [OF step] r'(2) True by (auto simp: outcome_ok_def stops_cleanly_def collected_by_def)
      ultimately show ?thesis using r'(1) step Inr
        by (auto intro!: exI [of _ "[] :: model_event list"])
    next
      case False
      with r'(2) have s': "follows fs s' (message_apply acc event) r'" "ss_next_index s' + length items \<le> u64_max"
        using Cons.prems(2) by (auto simp: outcome_ok_def)
      let ?rest = "sse_loop (message_step fs rid model) (\<lambda>e. stream_error (g e)) s' items"
      from Cons.IH [OF s', of "\<lambda>i. clock (length out + i)"] obtain r2 where r2:
          "read_all r' (stamp (\<lambda>i. clock (length out + i)) ?rest) = Some r2"
          "stops_cleanly ?rest \<Longrightarrow> \<exists>evs e rest. items = map Inr (evs @ [e]) @ rest \<and> is_finished e \<and>
             collected_by fs (foldl message_apply (message_apply acc event) (evs @ [e])) r2" by blast
      have "stops_cleanly ?rest" if "stops_cleanly (out @ ?rest)"
        using that clean_stop_finished [OF step] False by (cases "?rest = []") (auto simp: stops_cleanly_def)
      moreover have "\<exists>evs e rest. item # items = map Inr (evs @ [e]) @ rest \<and> is_finished e \<and>
          collected_by fs (foldl message_apply acc (evs @ [e])) r2"
        if "\<exists>evs e rest. items = map Inr (evs @ [e]) @ rest \<and> is_finished e \<and>
          collected_by fs (foldl message_apply (message_apply acc event) (evs @ [e])) r2"
      proof -
        from that obtain evs e rest where "items = map Inr (evs @ [e]) @ rest" "is_finished e"
            "collected_by fs (foldl message_apply (message_apply acc event) (evs @ [e])) r2" by blast
        then show ?thesis using Inr by (intro exI [of _ "event # evs"] exI [of _ e] exI [of _ rest]) simp
      qed
      ultimately show ?thesis using r'(1) r2 step Inr False by (simp add: stamp_append)
    qed
  qed
qed

lemma follows_init: "follows fs message_stream_default message_accumulator_default reader_init"
  by (simp add: follows_def message_stream_default_def message_accumulator_default_def reader_init_def active_matches_def
      last_text_def)

lemma collect_blocks_ok [simp]: "collect_blocks acc (map Inr evs) = Inr (foldl message_apply acc evs)"
  by (induction evs arbitrary: acc) simp_all

text \<open>
  C7: a streamed message keeps the block protocol. Whatever items the model event stream gives,
  interleaved or malformed tool calls, errors or an early end included, a reader of the protocol
  accepts the events of the response: the message starts once, blocks are numbered in sequence,
  only one block is open at a time, deltas belong to it, and nothing follows the stop or an error.
\<close>

theorem messages_stream_keeps_protocol:
  assumes "length items \<le> u64_max"
  shows "\<exists>r. read_all reader_init (messages_sse fs tx clock rid model items) = Some r"
  using messages_loop_followed [OF follows_init, where items = items and fs = fs and clock = clock and rid = rid and model = model
      and g = "message_error_from_inference tx"] assms
  by (auto simp: messages_sse_def message_stream_default_def)

theorem messages_stream_keeps_protocol_witness:
  "\<exists>r. read_all reader_init (messages_sse (\<lambda>_. None) no_texts (\<lambda>_. 0) ''msg_1'' ''m''
     [Inr (EvTextDelta ''r'' ''a''), Inr (EvToolCallArgumentsDelta ''r'' ''c'' ''x''), Inl (IfContext CtxCancelled)]) = Some r"
  by (rule messages_stream_keeps_protocol) (simp add: u64_max_def)

lemma last_stamp: "cs \<noteq> [] \<Longrightarrow> last (stamp clock cs) = last cs (clock (length cs - 1))"
  by (cases cs rule: rev_cases) (simp_all add: stamp_append)

text \<open>
  C6: a streamed and a collected message are the same. When the stream of model events ends with its
  final event and the streamed message ends with its stop, a client that reassembles the blocks has
  exactly the content blocks of the collected message, which is a success.
\<close>

theorem messages_stream_equals_collected:
  assumes "unfinished evs" and "items = map Inr evs @ [Inr (EvFinished r reason usage)]" and "length items \<le> u64_max"
    and "es = messages_sse fs tx (\<lambda>_. 0) rid model items" and "se_event (last es) = Some ''message_stop''"
  shows "\<exists>reader content. read_all reader_init es = Some reader \<and> content_value fs (rd_blocks reader) = Inr content \<and>
     hs_status (collect_message fs tx rid model items) = 200 \<and>
     (\<exists>j. hs_body (collect_message fs tx rid model items) = JsonBody j \<and> json_get ''content'' j = Some (JArray content))"
proof -
  let ?loop = "sse_loop (message_step fs rid model) (\<lambda>e. stream_error (message_error_from_inference tx e)) message_stream_default items"
  obtain reader where reader: "read_all reader_init es = Some reader"
      and clean: "stops_cleanly ?loop \<Longrightarrow> \<exists>evs e rest. items = map Inr (evs @ [e]) @ rest \<and> is_finished e \<and>
        collected_by fs (foldl message_apply message_accumulator_default (evs @ [e])) reader"
    using messages_loop_followed [OF follows_init, where items = items and fs = fs and clock = "\<lambda>_. 0" and rid = rid and model = model
      and g = "message_error_from_inference tx"] assms(3,4)
    by (auto simp: messages_sse_def message_stream_default_def)
  have "?loop \<noteq> []"
    using msg.loop_finishes [of items fs rid model tx message_stream_default] assms(2)
    by (auto simp: ends_once_def)
  then have "stops_cleanly ?loop" using assms(4,5) by (simp add: stops_cleanly_def messages_sse_def last_stamp)
  from clean [OF this] obtain evs' e rest where e: "items = map Inr (evs' @ [e]) @ rest" "is_finished e"
      "collected_by fs (foldl message_apply message_accumulator_default (evs' @ [e])) reader" by blast
  have "rest = []"
  proof (rule ccontr)
    assume "rest \<noteq> []"
    then obtain rest' x where "rest = rest' @ [x]" by (metis rev_exhaust)
    then have "map Inr evs = (map Inr (evs' @ [e]) @ rest' :: model_items)" using e(1) assms(2) by simp
    then have "(Inr e :: (model_event, inference_error) result) \<in> set (map Inr evs)" by (simp only:) simp
    then show False using assms(1) e(2) by (auto simp: list_all_iff)
  qed
  with e(1) have "collect_blocks message_accumulator_default items =
      Inr (foldl message_apply message_accumulator_default (evs' @ [e]))"
    using collect_blocks_ok [of message_accumulator_default "evs' @ [e]"] by simp
  with e(3) content_value_ok [of fs "ma_content (foldl message_apply message_accumulator_default (evs' @ [e]))"] reader
  show ?thesis by (auto simp: collected_by_def collect_message_def json_get_def)
qed

text \<open>A text, a tool call that takes no arguments, and the end.\<close>

definition sample_blocks :: "model_event list" where
  "sample_blocks = [EvAccepted ''r'', EvTextDelta ''r'' ''hi'', EvToolCallStarted ''r'' ''c'' ''f'',
     EvToolCallArgumentsDelta ''r'' ''c'' ''{}'', EvToolCallCompleted ''r'' ''c'' ''{}'']"

theorem messages_stream_equals_collected_witness:
  "hs_status (collect_message (\<lambda>_. Some (JObject [])) no_texts ''msg_1'' ''m''
     (map Inr sample_blocks @ [Inr (EvFinished ''r'' MfToolCall \<lparr>us_input_tokens = 1, us_output_tokens = 2\<rparr>)])) = 200"
proof -
  let ?fs = "\<lambda>_. Some (JObject [])"
  let ?items = "map Inr sample_blocks @ [Inr (EvFinished ''r'' MfToolCall \<lparr>us_input_tokens = 1, us_output_tokens = 2\<rparr>)]"
  have "se_event (last (messages_sse ?fs no_texts (\<lambda>_. 0) ''msg_1'' ''m'' ?items)) = Some ''message_stop''"
    by (simp add: messages_sse_def sample_blocks_def message_step_def message_stream_default_def after_close_def close_active_def
        parse_tool_input_def wrap_add64_def Let_def anthropic_event_def)
  moreover have "unfinished sample_blocks" "length ?items \<le> u64_max" by (simp_all add: sample_blocks_def u64_max_def)
  ultimately show ?thesis using messages_stream_equals_collected [OF _ refl _ refl] by blast
qed

end
