(* ===== verification/Service_System.thy ===== *)
theory Service_System
  imports Event_Stream
begin

text \<open>
  Many requests at once. A task is one call of \<open>infer\<close> with the stream it returns; the system is the
  shared world and its tasks. A step advances one task by one phase or poll, drops one task's future
  or stream, or is an administrative or outside step. The permits of the traffic controller and of
  the engine registry are followed through all of them.
\<close>

section \<open>Tasks\<close>

record ('a, 'p) task =
  tk_request :: model_request
  tk_context :: operation_context
  tk_phase :: "('a, 'p) phase"

definition advance ::
    "('a, 'p, 'w) service \<Rightarrow> infer_env \<Rightarrow> ('a, 'p) task \<Rightarrow> ('a, 'w) service_world \<Rightarrow> ('a, 'p) phase \<times> ('a, 'w) service_world" where
  "advance svc env tk w =
     (let ctx = tk_context tk in
      case tk_phase tk of
        PhNew \<Rightarrow> (case infer_begin svc env (tk_request tk) ctx w of (ph, _, w') \<Rightarrow> (ph, w'))
      | PhWaiting tenant ticket model normalized \<Rightarrow>
          (case infer_admitted svc env ctx tenant ticket model normalized w of (ph, _, w') \<Rightarrow> (ph, w'))
      | PhAdmitted ad \<Rightarrow> (case infer_planned svc env ctx ad w of (ph, _, w') \<Rightarrow> (ph, w'))
      | PhPlanned ad input \<Rightarrow> (case infer_selected svc env ctx ad input w of (ph, _, w') \<Rightarrow> (ph, w'))
      | PhExecuting pd \<Rightarrow> (case infer_executed svc env ctx pd w of (ph, _, w') \<Rightarrow> (ph, w'))
      | PhStreaming s \<Rightarrow> (case poll_next svc env ctx s w of (_, _, s', w') \<Rightarrow> (PhStreaming s', w'))
      | ph \<Rightarrow> (ph, w))"

text \<open>Dropping the future of \<open>infer\<close> at an await, or the stream it returned.\<close>

definition abandon ::
    "('a, 'p, 'w) service \<Rightarrow> infer_env \<Rightarrow> ('a, 'p) task \<Rightarrow> ('a, 'w) service_world \<Rightarrow> ('a, 'w) service_world" where
  "abandon svc env tk w =
     (case tk_phase tk of
        PhWaiting _ ticket _ _ \<Rightarrow>
          w\<lparr>sw_traffic := drop_receiver (the (sv_traffic svc)) ticket (ve_now env) (sw_traffic w)\<rparr>
      | PhAdmitted ad \<Rightarrow> drop_admission svc env (ad_permit ad) w
      | PhPlanned ad _ \<Rightarrow> drop_admission svc env (ad_permit ad) w
      | PhExecuting pd \<Rightarrow> drop_permits svc env pd w
      | PhStreaming s \<Rightarrow> snd (drop_stream svc env (tk_context tk) s w)
      | _ \<Rightarrow> w)"

text \<open>The permits a phase owns.\<close>

fun tickets :: "('a, 'p) phase \<Rightarrow> u64 set" where
  "tickets (PhAdmitted ad) = set_option (ad_permit ad)"
| "tickets (PhPlanned ad _) = set_option (ad_permit ad)"
| "tickets (PhExecuting pd) = set_option (ad_permit (pd_admitted pd))"
| "tickets (PhStreaming s) = (if sg_ended s then {} else set_option (ad_permit (pd_admitted (sg_placed s))))"
| "tickets _ = {}"

fun executions :: "('a, 'p) phase \<Rightarrow> execution_permit set" where
  "executions (PhExecuting pd) = {pd_permit pd}"
| "executions (PhStreaming s) = (if sg_ended s then {} else {pd_permit (sg_placed s)})"
| "executions _ = {}"

section \<open>The system\<close>

record ('a, 'p, 'w) system =
  sy_world :: "('a, 'w) service_world"
  sy_tasks :: "nat \<Rightarrow> ('a, 'p) task option"

definition set_phase :: "nat \<Rightarrow> ('a, 'p) task \<Rightarrow> ('a, 'p) phase \<Rightarrow> ('a, 'w) service_world \<Rightarrow> ('a, 'p, 'w) system \<Rightarrow> ('a, 'p, 'w) system" where
  "set_phase n tk ph w s = s\<lparr>sy_world := w, sy_tasks := (sy_tasks s)(n \<mapsto> tk\<lparr>tk_phase := ph\<rparr>)\<rparr>"

text \<open>
  Outside steps: the traffic controller and the registry are administered (drains, resumption,
  registration), tokens are cancelled, and the engines, the store and the calibrator change.
\<close>

inductive system_step :: "('a, 'p, 'w) service \<Rightarrow> ('a, 'p, 'w) system \<Rightarrow> ('a, 'p, 'w) system \<Rightarrow> bool" for svc where
  sys_arrive: "sy_tasks s n = None \<Longrightarrow>
    system_step svc s (s\<lparr>sy_tasks := (sy_tasks s)(n \<mapsto> \<lparr>tk_request = rq, tk_context = ctx, tk_phase = PhNew\<rparr>)\<rparr>)"
| sys_advance: "sy_tasks s n = Some tk \<Longrightarrow> advance svc env tk (sy_world s) = (ph, w) \<Longrightarrow>
    system_step svc s (set_phase n tk ph w s)"
| sys_abandon: "sy_tasks s n = Some tk \<Longrightarrow>
    system_step svc s (set_phase n tk PhGone (abandon svc env tk (sy_world s)) s)"
| sys_traffic: "sv_traffic svc = Some tc \<Longrightarrow>
    traffic \<in> {begin_drain tc (sw_traffic (sy_world s)), resume (sw_traffic (sy_world s)),
      fst (snd (drain_expire (sw_traffic (sy_world s)) (sw_cancelled (sy_world s))))} \<Longrightarrow>
    system_step svc s (s\<lparr>sy_world := (sy_world s)\<lparr>sw_traffic := traffic\<rparr>\<rparr>)"
| sys_registry: "registry_step (sv_instance svc) (sw_registry (sy_world s)) reg \<Longrightarrow>
    rw_permits reg = rw_permits (sw_registry (sy_world s)) \<Longrightarrow>
    system_step svc s (s\<lparr>sy_world := (sy_world s)\<lparr>sw_registry := reg\<rparr>\<rparr>)"
| sys_outside: "sw_cancelled (sy_world s) \<subseteq> cancelled \<Longrightarrow>
    system_step svc s (s\<lparr>sy_world := (sy_world s)\<lparr>sw_engine := engine, sw_cal := cal, sw_cancelled := cancelled\<rparr>\<rparr>)"

definition system_new :: "cal_world \<Rightarrow> 'w \<Rightarrow> ('a, 'p, 'w) system" where
  "system_new cal engine =
     \<lparr>sy_world = \<lparr>sw_traffic = traffic_world_new, sw_registry = \<lparr>rw_entries = registry_new, rw_permits = {}\<rparr>,
        sw_cal = cal, sw_engine = engine, sw_cancelled = {}\<rparr>, sy_tasks = (\<lambda>_. None)\<rparr>"

text \<open>The systems reached before the 64-bit ticket numbers of the controller are used up.\<close>

definition tickets_left :: "('a, 'p, 'w) system \<Rightarrow> bool" where
  "tickets_left s \<longleftrightarrow> st_next_ticket (tw_state (sw_traffic (sy_world s))) < u64_max"

inductive system_reachable :: "('a, 'p, 'w) service \<Rightarrow> ('a, 'p, 'w) system \<Rightarrow> bool" for svc where
  system_init: "system_reachable svc (system_new cal engine)"
| system_next: "system_reachable svc s \<Longrightarrow> tickets_left s \<Longrightarrow> system_step svc s s' \<Longrightarrow> system_reachable svc s'"

section \<open>How permits move\<close>

text \<open>
  The traffic controller goes from one world to another by its own steps, giving back the tickets
  \<open>A\<close> and handing out \<open>B\<close>, none of which anyone else holds. Likewise for the registry.
\<close>

definition traffic_moves ::
    "traffic_controller \<Rightarrow> u64 set \<Rightarrow> ('a, 'w) service_world \<Rightarrow> u64 set \<Rightarrow> ('a, 'w) service_world \<Rightarrow> bool" where
  "traffic_moves tc A w B w' \<longleftrightarrow>
     (traffic_step tc)\<^sup>*\<^sup>* (sw_traffic w) (sw_traffic w') \<and>
     tw_held (sw_traffic w') = tw_held (sw_traffic w) - A \<union> B \<and> B \<inter> (tw_held (sw_traffic w) - A) = {}"

definition registry_moves ::
    "('a \<Rightarrow> engine_instance) \<Rightarrow> execution_permit set \<Rightarrow> ('a, 'w) service_world \<Rightarrow> execution_permit set
     \<Rightarrow> ('a, 'w) service_world \<Rightarrow> bool" where
  "registry_moves inst A w B w' \<longleftrightarrow>
     (registry_step inst)\<^sup>*\<^sup>* (sw_registry w) (sw_registry w') \<and>
     rw_permits (sw_registry w') = rw_permits (sw_registry w) - A \<union> B \<and> B \<inter> (rw_permits (sw_registry w) - A) = {}"

lemma traffic_moves_same:
  "sw_traffic w' = sw_traffic w \<Longrightarrow> A \<subseteq> tw_held (sw_traffic w) \<Longrightarrow> traffic_moves tc A w A w'"
  by (auto simp: traffic_moves_def)

lemma traffic_moves_trans: "traffic_moves tc A w B w1 \<Longrightarrow> traffic_moves tc B w1 C w2 \<Longrightarrow> traffic_moves tc A w C w2"
  unfolding traffic_moves_def by (auto intro: rtranclp_trans)

lemma traffic_moves_step:
  assumes "traffic_step tc (sw_traffic w) (sw_traffic w')" and "tw_held (sw_traffic w') = tw_held (sw_traffic w)"
    and "A \<subseteq> tw_held (sw_traffic w)"
  shows "traffic_moves tc A w A w'"
  using assms by (auto simp: traffic_moves_def)

lemma registry_moves_same:
  "sw_registry w' = sw_registry w \<Longrightarrow> A \<subseteq> rw_permits (sw_registry w) \<Longrightarrow> registry_moves inst A w A w'"
  by (auto simp: registry_moves_def)

lemma registry_moves_trans: "registry_moves inst A w B w1 \<Longrightarrow> registry_moves inst B w1 C w2 \<Longrightarrow> registry_moves inst A w C w2"
  unfolding registry_moves_def by (auto intro: rtranclp_trans)

subsection \<open>The tickets held under the steps of the controller\<close>

lemma deliver_held [simp]: "tw_held (deliver k w) = tw_held w"
  by (auto simp: deliver_def split: prod.split bool.split)

lemma schedule_step_held: "schedule_step tc now w = Some w' \<Longrightarrow> tw_held w' = tw_held w"
  by (erule schedule_step_cases) simp

lemma schedule_locked_held: "tw_held (schedule_locked tc now w) = tw_held w"
proof (induction tc now w rule: schedule_locked.induct)
  case (1 tc now w)
  then show ?case
    by (cases "schedule_step tc now w") (simp_all add: schedule_locked_step schedule_step_held)
qed

lemma admit_begin_held: "admit_begin tc n ctx cancelled now w = (r, w') \<Longrightarrow> tw_held w' = tw_held w"
  by (auto simp: admit_begin_def admit_locked_def reject_def Let_def schedule_locked_held
      split: sum.splits option.splits if_splits)

lemma release_held: "tw_held (snd (release tc k now w)) = tw_held w"
  by (auto simp: release_def Let_def schedule_locked_held split: prod.split option.split)

lemma cancel_waiter_held: "tw_held (cancel_waiter tc k p reason now w) = tw_held w"
  by (auto simp: cancel_waiter_def reject_def Let_def schedule_locked_held split: option.split)

lemma drop_receiver_held: "tw_held (drop_receiver tc k now w) = tw_held w"
  by (auto simp: drop_receiver_def Let_def release_held split: option.split channel.split sum.split)

lemma record_termination_held [simp]: "tw_held (record_termination tc ctx reason w) = tw_held w"
  by (simp add: record_termination_def split: option.split)

lemma drop_permit_held: "k \<in> tw_held w \<Longrightarrow> tw_held (drop_permit tc k now w) = tw_held w - {k}"
  by (simp add: drop_permit_def release_held)

lemma drain_held: "tw_held (begin_drain tc w) = tw_held w"
proof -
  have "tw_held (fold (drain_one p t) rs w) = tw_held w" for p t rs w
    by (induction rs arbitrary: w) (simp_all add: drain_one_def Let_def)
  then have "tw_held (drain_queue tc e w) = tw_held w" for e w
    by (simp add: drain_queue_def split: option.split)
  then show ?thesis by (simp add: begin_drain_def fold_keeps [of tw_held])
qed

lemma admit_end_moves:
  assumes "admit_end tc p k outcome now w = (res, w')" and "bt_get (tc_tenants tc) t = Some p" and "inv_permits w"
  shows "(traffic_step tc)\<^sup>*\<^sup>* w w' \<and>
     (case res of Inl _ \<Rightarrow> tw_held w' = tw_held w | Inr j \<Rightarrow> tw_held w' = insert j (tw_held w) \<and> j \<notin> tw_held w)"
proof -
  have drop: "traffic_step tc v (drop_receiver tc k now v)" for v by (rule step_drop_receiver)
  have cancel: "(traffic_step tc)\<^sup>*\<^sup>* w (drop_receiver tc k now (cancel_waiter tc k p reason now w))" for reason
    using step_cancel [OF assms(2)] drop by (meson r_into_rtranclp rtranclp.rtrancl_into_rtrancl)
  show ?thesis
  proof (cases outcome)
    case WaitResolved
    show ?thesis
    proof (cases "receive_permit k w")
      case (Pair m v)
      show ?thesis
      proof (cases m)
        case None
        with Pair have "v = w" by (auto simp: receive_permit_def split: option.splits channel.splits)
        with assms(1) WaitResolved Pair None drop show ?thesis
          by (auto simp: admit_end_def drop_receiver_held)
      next
        case (Some msg)
        with Pair have full: "bt_get (tw_channels w) k = Some (ChanFull msg)"
          and held: "tw_held v = (case msg of Inl _ \<Rightarrow> tw_held w | Inr j \<Rightarrow> insert j (tw_held w))"
          by (auto simp: receive_permit_def split: option.splits channel.splits)
        have "j \<notin> tw_held w" if "msg = Inr j" for j
        proof -
          from inv_permitsD(3) [OF assms(3), of k j] full that have "j = k" by simp
          with inv_permitsD(2) [OF assms(3), of k] full show ?thesis by auto
        qed
        moreover have "traffic_step tc w v" by (rule step_receive) (use Pair Some in simp)
        ultimately show ?thesis
          using assms(1) WaitResolved Pair Some held by (auto simp: admit_end_def split: sum.splits)
      qed
    qed
  qed (use assms(1) cancel in \<open>auto simp: admit_end_def drop_receiver_held cancel_waiter_held\<close>)
qed

subsection \<open>The phases\<close>

definition waiting_ok :: "traffic_controller \<Rightarrow> ('a, 'p) phase \<Rightarrow> bool" where
  "waiting_ok tc ph = (case ph of PhWaiting tenant _ _ _ \<Rightarrow> \<exists>t. bt_get (tc_tenants tc) t = Some tenant | _ \<Rightarrow> True)"

definition owns :: "traffic_controller \<Rightarrow> ('a, 'p) phase \<Rightarrow> ('a, 'w) service_world \<Rightarrow> bool" where
  "owns tc ph w \<longleftrightarrow>
     tickets ph \<subseteq> tw_held (sw_traffic w) \<and> executions ph \<subseteq> rw_permits (sw_registry w) \<and> waiting_ok tc ph"

definition phase_moves ::
    "('a, 'p, 'w) service \<Rightarrow> traffic_controller \<Rightarrow> ('a, 'p) phase \<Rightarrow> ('a, 'w) service_world \<Rightarrow> ('a, 'p) phase
     \<Rightarrow> ('a, 'w) service_world \<Rightarrow> bool" where
  "phase_moves svc tc ph w ph' w' \<longleftrightarrow>
     traffic_moves tc (tickets ph) w (tickets ph') w' \<and>
     registry_moves (sv_instance svc) (executions ph) w (executions ph') w' \<and> waiting_ok tc ph'"

lemma waiting_ok_simps [simp]:
  "waiting_ok tc PhNew" "waiting_ok tc (PhAdmitted ad)" "waiting_ok tc (PhPlanned ad i)" "waiting_ok tc (PhExecuting pd)"
  "waiting_ok tc (PhStreaming st)" "waiting_ok tc (PhFailed e)" "waiting_ok tc PhGone"
  "waiting_ok tc (PhWaiting tenant k m n) \<longleftrightarrow> (\<exists>t. bt_get (tc_tenants tc) t = Some tenant)"
  by (simp_all add: waiting_ok_def)

lemma record_moves:
  assumes "sv_traffic svc = Some tc" and "A \<subseteq> tw_held (sw_traffic w)"
  shows "traffic_moves tc A w A (record_traffic_termination svc ctx reason w)"
  by (rule traffic_moves_step) (simp_all add: assms step_termination)

lemma drop_admission_moves:
  assumes "sv_traffic svc = Some tc" and "set_option k \<subseteq> tw_held (sw_traffic w)"
  shows "traffic_moves tc (set_option k) w {} (drop_admission svc env k w)"
  using assms
  by (cases k) (auto simp: drop_admission_def traffic_moves_def drop_permit_held intro!: step_drop_permit)

lemma drop_execution_moves:
  assumes "permit \<in> rw_permits (sw_registry w)"
  shows "registry_moves inst {permit} w {} (drop_execution permit w)"
proof -
  obtain e rid where permit: "permit = (e, rid)" by fastforce
  then have "registry_step inst (sw_registry w) (sw_registry (drop_execution permit w))"
    using assms unfolding drop_execution_def Let_def
    by (auto intro!: reg_release [where n = "fst (release_execution e rid (rw_entries (sw_registry w)))"])
  then show ?thesis by (auto simp: registry_moves_def drop_execution_def Let_def)
qed

lemma drop_permits_moves:
  assumes "sv_traffic svc = Some tc" and "set_option (ad_permit (pd_admitted pd)) \<subseteq> tw_held (sw_traffic w)"
    and "pd_permit pd \<in> rw_permits (sw_registry w)"
  shows "traffic_moves tc (set_option (ad_permit (pd_admitted pd))) w {} (drop_permits svc env pd w)"
    and "registry_moves inst {pd_permit pd} w {} (drop_permits svc env pd w)"
proof -
  show "traffic_moves tc (set_option (ad_permit (pd_admitted pd))) w {} (drop_permits svc env pd w)"
    unfolding drop_permits_def
    by (rule traffic_moves_trans [OF traffic_moves_same drop_admission_moves]) (use assms in simp_all)
  show "registry_moves inst {pd_permit pd} w {} (drop_permits svc env pd w)"
    unfolding drop_permits_def
    by (rule registry_moves_trans [OF drop_execution_moves registry_moves_same]) (use assms in simp_all)
qed

lemma fail_moves:
  assumes "sv_traffic svc = Some tc" and "set_option k \<subseteq> tw_held (sw_traffic w)"
    and "fail_admitted svc env ctx k error w = (ph', e, w') \<or> fail_context svc env ctx k ce w = (ph', e, w')"
  shows "traffic_moves tc (set_option k) w {} w' \<and> sw_registry w' = sw_registry w \<and> (\<exists>err. ph' = PhFailed err)"
proof -
  have "\<exists>reason err. w' = drop_admission svc env k (record_traffic_termination svc ctx reason w) \<and> ph' = PhFailed err"
    using assms(3)
    by (auto simp: fail_admitted_def fail_context_def normalize_admitted_error_def split: sum.splits)
  then show ?thesis
    using traffic_moves_trans [OF record_moves [OF assms(1,2)] drop_admission_moves] assms(1,2) by auto
qed

lemma open_pipeline_moves:
  assumes "sv_traffic svc = Some tc" and "set_option k \<subseteq> tw_held (sw_traffic w)"
    and "open_pipeline svc env ctx k model normalized w = (ph', e, w')"
  shows "traffic_moves tc (set_option k) w (tickets ph') w' \<and> sw_registry w' = sw_registry w \<and> executions ph' = {} \<and>
    waiting_ok tc ph'"
proof (cases "mdl_output_pipeline model (nm_output_contract normalized)")
  case (Inl err)
  with assms(3) have "w' = drop_admission svc env k (record_traffic_termination svc ctx ''request_error'' w)"
    "ph' = PhFailed (IfModelIo err)" by (auto simp: open_pipeline_def)
  then show ?thesis
    using traffic_moves_trans [OF record_moves [OF assms(1,2)] drop_admission_moves] assms(1,2) by simp
next
  case (Inr p)
  with assms show ?thesis by (auto simp: open_pipeline_def intro: traffic_moves_same)
qed

lemma infer_begin_moves:
  assumes tc: "sv_traffic svc = Some tc" and "infer_begin svc env rq ctx w = (ph', e, w')"
  shows "phase_moves svc tc PhNew w ph' w'"
proof (cases "infer_prepare svc env rq ctx w")
  case (Inl err)
  with assms show ?thesis by (auto simp: infer_begin_def phase_moves_def intro: traffic_moves_same registry_moves_same)
next
  case (Inr mn)
  obtain m n where mn: "mn = (m, n)" by fastforce
  obtain r tw where adm: "admit_begin tc (infer_token_cost svc (nm_canonical n)) ctx
      (sw_cancelled w \<union> fst (ve_view env 2)) (snd (ve_view env 2)) (sw_traffic w) = (r, tw)" by fastforce
  have w': "w' = w\<lparr>sw_traffic := tw\<rparr>" and ph': "ph' = (case r of Inl er \<Rightarrow> PhFailed (IfAdmission er)
      | Inr k \<Rightarrow> PhWaiting (the (bt_get (tc_tenants tc) (the (oc_tenant_id ctx)))) k m n)"
    using assms(2) Inr mn tc adm by (auto simp: infer_begin_def split: sum.splits)
  have "traffic_moves tc {} w {} w'"
    by (rule traffic_moves_step) (simp_all add: w' step_admit [OF adm] admit_begin_held [OF adm])
  moreover have "\<exists>t p. oc_tenant_id ctx = Some t \<and> bt_get (tc_tenants tc) t = Some p" if "r = Inr k" for k
    using adm that by (auto simp: admit_begin_def split: sum.splits option.splits)
  ultimately show ?thesis
    unfolding phase_moves_def ph' by (cases r) (auto simp: w' intro: registry_moves_same)
qed

lemma infer_admitted_moves:
  assumes tc: "sv_traffic svc = Some tc" and p: "bt_get (tc_tenants tc) t = Some tenant" and "inv_permits (sw_traffic w)"
    and run: "infer_admitted svc env ctx tenant k model n w = (ph', e, w')"
  shows "phase_moves svc tc (PhWaiting tenant k model n) w ph' w'"
proof -
  obtain r tw where fin: "admit_end tc tenant k (ve_wait env) (ve_now env) (sw_traffic w) = (r, tw)" by fastforce
  note moves = admit_end_moves [OF fin p assms(3)]
  let ?w = "w\<lparr>sw_traffic := tw\<rparr>"
  show ?thesis
  proof (cases r)
    case (Inl er)
    with run fin tc have "w' = ?w" "ph' = PhFailed (IfAdmission er)" by (auto simp: infer_admitted_def)
    with moves Inl show ?thesis
      by (auto simp: phase_moves_def traffic_moves_def intro: registry_moves_same)
  next
    case (Inr j)
    with moves have "traffic_moves tc {} w (set_option (Some j)) ?w" by (auto simp: traffic_moves_def)
    moreover have "open_pipeline svc env ctx (Some j) model n ?w = (ph', e, w')"
      using run fin tc Inr by (simp add: infer_admitted_def)
    then have "traffic_moves tc (set_option (Some j)) ?w (tickets ph') w' \<and> sw_registry w' = sw_registry ?w \<and>
        executions ph' = {} \<and> waiting_ok tc ph'"
      by (rule open_pipeline_moves [OF tc, rotated]) (use moves Inr in simp)
    ultimately show ?thesis
      by (auto simp: phase_moves_def intro: traffic_moves_trans registry_moves_same)
  qed
qed

lemma failed_phase_moves:
  assumes "traffic_moves tc (set_option (ad_permit ad)) w1 {} w'" "sw_registry w' = sw_registry w1"
    and "sw_traffic w1 = sw_traffic w" "sw_registry w1 = sw_registry w" "ph' = PhFailed err"
  shows "traffic_moves tc (set_option (ad_permit ad)) w (tickets ph') w' \<and>
    registry_moves inst {} w (executions ph') w' \<and> waiting_ok tc ph'"
  using assms by (auto simp: traffic_moves_def intro: registry_moves_same)

lemma infer_planned_moves:
  assumes tc: "sv_traffic svc = Some tc" and own: "owns tc (PhAdmitted ad) w"
    and run: "infer_planned svc env ctx ad w = (ph', e, w')"
  shows "phase_moves svc tc (PhAdmitted ad) w ph' w'"
proof -
  obtain r engine where await: "run_await (ve_await env)
      (planning_input_for (sv_debug svc) (sv_discovery svc) (rw_entries (sw_registry w)) (sv_store svc)
        (sv_policy svc) (nm_canonical (ad_normalized ad))) (sw_engine w) = (r, engine)" by fastforce
  let ?w = "w\<lparr>sw_engine := engine\<rparr>"
  have held: "set_option (ad_permit ad) \<subseteq> tw_held (sw_traffic ?w)" using own by (simp add: owns_def)
  have "(\<exists>input. ph' = PhPlanned ad input \<and> w' = ?w) \<or>
    (\<exists>err ce. fail_admitted svc env ctx (ad_permit ad) err ?w = (ph', e, w') \<or>
      fail_context svc env ctx (ad_permit ad) ce ?w = (ph', e, w'))"
    using run await by (auto simp: infer_planned_def split: sum.splits)
  then show ?thesis
  proof (elim disjE exE conjE)
    fix input assume "ph' = PhPlanned ad input" "w' = ?w"
    with held show ?thesis by (auto simp: phase_moves_def intro: traffic_moves_same registry_moves_same)
  qed (use fail_moves [OF tc held] failed_phase_moves [of tc ad ?w w' w] in \<open>fastforce simp: phase_moves_def\<close>)+
qed

lemma place_moves:
  assumes tc: "sv_traffic svc = Some tc" and held: "set_option (ad_permit ad) \<subseteq> tw_held (sw_traffic w)"
    and inv: "registry_inv (sw_registry w)" and run: "place svc env ctx ad input pl w = (ph', e, w')"
  shows "traffic_moves tc (set_option (ad_permit ad)) w (tickets ph') w' \<and>
    registry_moves (sv_instance svc) {} w (executions ph') w' \<and> waiting_ok tc ph'"
proof -
  have failed: ?thesis if "fail_admitted svc env ctx (ad_permit ad) err w = (ph', e, w')" for err
    using fail_moves [OF tc held disjI1 [OF that]] failed_phase_moves [of tc ad w w' w] by blast
  show ?thesis
  proof (cases "adapter_for (sv_instance svc) (pp_target pl) (rw_entries (sw_registry w))")
    case (Inl er)
    with run failed show ?thesis by (simp add: place_def)
  next
    case adapter: (Inr adapter)
    obtain r reg where acq: "acquire_execution (sv_instance svc) (pp_target pl) ctx
        (sw_cancelled w \<union> fst (ve_view env 3)) (snd (ve_view env 3)) (rw_entries (sw_registry w)) = (r, reg)" by fastforce
    show ?thesis
    proof (cases r)
      case (Inl er)
      with run adapter acq failed show ?thesis by (simp add: place_def)
    next
      case (Inr permit)
      note acq = acq [unfolded Inr]
      then have fresh: "permit \<notin> rw_permits (sw_registry w)"
        using inv by (auto simp: acquire_execution_Ok registry_inv_def)
      have "traffic_moves tc (set_option (ad_permit ad)) w (tickets ph') w'"
        using run adapter acq by (auto simp: place_def intro!: traffic_moves_same held)
      moreover have "registry_moves (sv_instance svc) {} w (executions ph') w' \<and> waiting_ok tc ph'"
        using run adapter acq fresh reg_acquire [OF acq]
        by (auto simp: place_def registry_moves_def)
      ultimately show ?thesis by blast
    qed
  qed
qed

lemma infer_selected_moves:
  assumes tc: "sv_traffic svc = Some tc" and own: "owns tc (PhPlanned ad input) w" and inv: "registry_inv (sw_registry w)"
    and run: "infer_selected svc env ctx ad input w = (ph', e, w')"
  shows "phase_moves svc tc (PhPlanned ad input) w ph' w'"
proof -
  obtain r cal where await: "run_await (ve_await env)
      (select_plan (sv_cal_env svc) (ve_select env) (sv_planner svc) (sv_mode svc) input) (sw_cal w) = (r, cal)" by fastforce
  let ?w = "w\<lparr>sw_cal := cal\<rparr>"
  have held: "set_option (ad_permit ad) \<subseteq> tw_held (sw_traffic ?w)" and inv': "registry_inv (sw_registry ?w)"
    using own inv by (simp_all add: owns_def)
  have "(\<exists>pl. place svc env ctx ad input pl ?w = (ph', e, w')) \<or>
    (\<exists>err ce. fail_admitted svc env ctx (ad_permit ad) err ?w = (ph', e, w') \<or>
      fail_context svc env ctx (ad_permit ad) ce ?w = (ph', e, w'))"
    using run await by (auto simp: infer_selected_def split: sum.splits)
  then show ?thesis
  proof (elim disjE exE)
    fix pl assume "place svc env ctx ad input pl ?w = (ph', e, w')"
    from place_moves [OF tc held inv' this] show ?thesis
      by (simp add: phase_moves_def traffic_moves_def registry_moves_def)
  qed (use fail_moves [OF tc held] failed_phase_moves [of tc ad ?w w' w] in \<open>fastforce simp: phase_moves_def\<close>)+
qed

lemma infer_executed_moves:
  assumes tc: "sv_traffic svc = Some tc" and own: "owns tc (PhExecuting pd) w"
    and run: "infer_executed svc env ctx pd w = (ph', e, w')"
  shows "phase_moves svc tc (PhExecuting pd) w ph' w'"
proof -
  obtain r engine where ex: "execute_plan (registry_ops (sv_instance svc) (rw_entries (sw_registry w)) (sv_adapter_ops svc))
      (sv_others svc) (ve_exec env) (sw_cancelled w \<union> fst (ve_view env 0)) (snd (ve_view env 0)) (pd_plan pd)
      (nm_canonical (ad_normalized (pd_admitted pd))) ctx (sw_engine w) = (r, engine)" by fastforce
  let ?w = "w\<lparr>sw_engine := engine\<rparr>"
  have own': "set_option (ad_permit (pd_admitted pd)) \<subseteq> tw_held (sw_traffic w)" "pd_permit pd \<in> rw_permits (sw_registry w)"
    using own by (simp_all add: owns_def)
  show ?thesis
  proof (cases r)
    case (Inr x)
    with run ex have "ph' = PhStreaming (new_stream env pd x)" "w' = ?w" by (auto simp: infer_executed_def)
    with own' show ?thesis
      by (simp add: phase_moves_def new_stream_def traffic_moves_same registry_moves_same)
  next
    case (Inl er)
    define w1 where "w1 = (case check_active env 2 ctx ?w of Inl _ \<Rightarrow>
      cancel_engine_request svc env (pd_adapter pd) (pd_request_id pd) ?w | Inr _ \<Rightarrow> ?w)"
    have w1: "sw_traffic w1 = sw_traffic w" "sw_registry w1 = sw_registry w"
      by (simp_all add: w1_def split: sum.split)
    obtain reason where w': "w' = drop_permits svc env pd (record_traffic_termination svc ctx reason w1)" "\<exists>err. ph' = PhFailed err"
      using run ex Inl by (auto simp: infer_executed_def execution_failed_def w1_def split: sum.splits)
    let ?w2 = "record_traffic_termination svc ctx reason w1"
    have own2: "set_option (ad_permit (pd_admitted pd)) \<subseteq> tw_held (sw_traffic ?w2)" "pd_permit pd \<in> rw_permits (sw_registry ?w2)"
      using own' w1 tc by simp_all
    have "traffic_moves tc (set_option (ad_permit (pd_admitted pd))) w1 (set_option (ad_permit (pd_admitted pd))) ?w2"
      by (rule record_moves [OF tc]) (use own' w1 in simp)
    then have "traffic_moves tc (set_option (ad_permit (pd_admitted pd))) w1 {} w'"
      unfolding w' by (rule traffic_moves_trans) (rule drop_permits_moves(1) [OF tc own2])
    moreover have "registry_moves (sv_instance svc) {pd_permit pd} w1 {} w'"
      unfolding w'(1) using drop_permits_moves(2) [OF tc own2] by (simp add: registry_moves_def)
    ultimately show ?thesis using w'(2) w1 by (auto simp: phase_moves_def traffic_moves_def registry_moves_def)
  qed
qed

lemma process_event_frame:
  assumes "process_event svc ctx event s w = (outs, stop, e, s', w')"
  shows "(\<exists>reason. w' = record_traffic_termination svc ctx reason w) \<or> w' = w" and "sg_placed s' = sg_placed s"
    and "sg_ended s' = sg_ended s"
  using assms by (auto simp: process_event_def iteration_error_def split: prod.splits sum.splits option.splits)

lemma stream_iterate_frame:
  assumes "stream_iterate svc env ctx s w = (outs, stop, e, s', w')"
  shows "\<exists>w1. sw_traffic w1 = sw_traffic w \<and> sw_registry w1 = sw_registry w \<and>
     ((\<exists>reason. w' = record_traffic_termination svc ctx reason w1) \<or> w' = w1) \<and>
     sg_placed s' = sg_placed s \<and> sg_ended s' = sg_ended s"
  using assms
proof (cases rule: stream_iterate_elim)
  case (error reason er s1 w1)
  then show ?thesis by (auto simp: iteration_error_def stream_frame_def)
next
  case (process event s1 w1)
  with process_event_frame [OF process(1)] show ?thesis by (auto simp: stream_frame_def)
qed

lemma poll_next_moves:
  assumes tc: "sv_traffic svc = Some tc" and own: "owns tc (PhStreaming s) w"
    and run: "poll_next svc env ctx s w = (r, e, s', w')"
  shows "phase_moves svc tc (PhStreaming s) w (PhStreaming s') w'"
proof -
  let ?k = "set_option (ad_permit (pd_admitted (sg_placed s)))" and ?p = "pd_permit (sg_placed s)"
  obtain r1 s1 where inner: "poll_inner svc env ctx s w = (r1, e, s1, w')"
    and same: "sg_placed s' = sg_placed s1" "sg_ended s' = sg_ended s1"
    using run by (auto simp: poll_next_def split: prod.splits)
  have ended: ?thesis if "w' = w" "sg_placed s1 = sg_placed s" "sg_ended s1 = sg_ended s"
    using that own same by (auto simp: phase_moves_def owns_def intro!: traffic_moves_same registry_moves_same)
  have dropped: ?thesis
    if "\<not> sg_ended s" "traffic_moves tc ?k w ?k w1" "sw_registry w1 = sw_registry w"
      "w' = drop_permits svc env (sg_placed s) w1" "sg_placed s1 = sg_placed s" "sg_ended s1" for w1
  proof -
    have own1: "?k \<subseteq> tw_held (sw_traffic w1)" "?p \<in> rw_permits (sw_registry w1)"
      using own that(1-3) by (auto simp: owns_def traffic_moves_def)
    have "traffic_moves tc ?k w {} w'"
      unfolding that(4) by (rule traffic_moves_trans [OF that(2) drop_permits_moves(1) [OF tc own1]])
    moreover have "registry_moves (sv_instance svc) {?p} w {} w'"
      unfolding that(4)
      by (rule registry_moves_trans [OF registry_moves_same drop_permits_moves(2) [OF tc own1]])
        (use own1 that(3) in simp_all)
    ultimately show ?thesis using that same by (simp add: phase_moves_def)
  qed
  show ?thesis
  proof (cases "sg_out s = [] \<and> \<not> sg_ended s \<and> \<not> sg_stop s")
    case False
    have "traffic_moves tc ?k w ?k w" if "\<not> sg_ended s" using own that by (auto simp: owns_def intro: traffic_moves_same)
    with False inner ended dropped [of w] show ?thesis
      by (auto simp: poll_inner_def split: list.splits if_splits)
  next
    case True
    then have own': "?k \<subseteq> tw_held (sw_traffic w)" "?p \<in> rw_permits (sw_registry w)" using own by (auto simp: owns_def)
    obtain outs stop e0 s0 w0 where it: "stream_iterate svc env ctx s w = (outs, stop, e0, s0, w0)" by (metis prod_cases5)
    from stream_iterate_frame [OF it] obtain w1 where w1: "sw_traffic w1 = sw_traffic w" "sw_registry w1 = sw_registry w"
      "(\<exists>reason. w0 = record_traffic_termination svc ctx reason w1) \<or> w0 = w1" "sg_placed s0 = sg_placed s" "sg_ended s0 = sg_ended s"
      by blast
    have moves: "traffic_moves tc ?k w ?k w0"
      using w1 own' record_moves [OF tc, of ?k w1] by (auto simp: traffic_moves_def)
    have reg: "sw_registry w0 = sw_registry w" using w1 by auto
    have "(\<exists>s2. s1 = s2 \<and> w' = w0 \<and> sg_placed s1 = sg_placed s \<and> \<not> sg_ended s1) \<or>
      (w' = drop_permits svc env (sg_placed s) w0 \<and> sg_placed s1 = sg_placed s \<and> sg_ended s1)"
      using inner True it w1(4,5) by (auto simp: poll_inner_def split: list.splits bool.splits)
    then show ?thesis
    proof (elim disjE conjE exE)
      assume "w' = w0" "sg_placed s1 = sg_placed s" "\<not> sg_ended s1"
      with moves reg own' True same show ?thesis by (auto simp: phase_moves_def intro: registry_moves_same)
    qed (use dropped [OF _ moves reg] True in blast)
  qed
qed

lemma advance_moves:
  assumes tc: "sv_traffic svc = Some tc" and own: "owns tc (tk_phase tk) w"
    and "inv_permits (sw_traffic w)" and "registry_inv (sw_registry w)"
    and run: "advance svc env tk w = (ph', w')"
  shows "phase_moves svc tc (tk_phase tk) w ph' w'"
proof (cases "tk_phase tk")
  case PhNew
  with run infer_begin_moves [OF tc] show ?thesis by (auto simp: advance_def split: prod.splits)
next
  case (PhWaiting tenant k m n)
  with own obtain t where "bt_get (tc_tenants tc) t = Some tenant" by (auto simp: owns_def)
  with PhWaiting run infer_admitted_moves [OF tc _ assms(3)] show ?thesis by (auto simp: advance_def split: prod.splits)
next
  case (PhAdmitted ad)
  with run own infer_planned_moves [OF tc] show ?thesis by (auto simp: advance_def split: prod.splits)
next
  case (PhPlanned ad input)
  with run own infer_selected_moves [OF tc _ assms(4)] show ?thesis by (auto simp: advance_def split: prod.splits)
next
  case (PhExecuting pd)
  with run own infer_executed_moves [OF tc] show ?thesis by (auto simp: advance_def split: prod.splits)
next
  case (PhStreaming s)
  with run own poll_next_moves [OF tc] show ?thesis by (auto simp: advance_def split: prod.splits)
qed (use run own in \<open>auto simp: advance_def phase_moves_def owns_def intro: traffic_moves_same registry_moves_same\<close>)

lemma drop_stream_moves:
  assumes tc: "sv_traffic svc = Some tc" and own: "owns tc (PhStreaming s) w"
    and run: "drop_stream svc env ctx s w = (e, w')"
  shows "phase_moves svc tc (PhStreaming s) w PhGone w'"
proof -
  let ?A = "tickets (PhStreaming s)" and ?P = "executions (PhStreaming s)"
  have held: "?A \<subseteq> tw_held (sw_traffic w)" "?P \<subseteq> rw_permits (sw_registry w)" using own by (simp_all add: owns_def)
  have "\<exists>w1. traffic_moves tc ?A w ?A w1 \<and> sw_registry w1 = sw_registry w \<and>
      w' = (if sg_ended s then w1 else drop_permits svc env (sg_placed s) w1)"
  proof -
    let ?c = "w\<lparr>sw_cancelled := cancel (oc_cancellation ctx) (sw_cancelled w)\<rparr>"
    let ?r = "record_traffic_termination svc ctx ''client_cancelled'' ?c"
    let ?cancel = "cancel_engine_request svc env (pd_adapter (sg_placed s)) (pd_request_id (sg_placed s))"
    have r: "traffic_moves tc ?A w ?A ?r" using record_moves [OF tc, of ?A ?c] held by (simp add: traffic_moves_def)
    have "traffic_moves tc ?A w ?A x \<and> sw_registry x = sw_registry w" if "x \<in> {w, ?c, ?r, ?cancel ?c, ?cancel ?r}" for x
      using that r held traffic_moves_same [of _ w ?A tc] by (auto simp: traffic_moves_def simp del: tickets.simps)
    moreover have "\<exists>x \<in> {w, ?c, ?r, ?cancel ?c, ?cancel ?r}.
        w' = (if sg_ended s then x else drop_permits svc env (sg_placed s) x)"
      using run by (auto simp: drop_stream_def Let_def split: if_splits)
    ultimately show ?thesis by blast
  qed
  then obtain w1 where w1: "traffic_moves tc ?A w ?A w1" "sw_registry w1 = sw_registry w"
    "w' = (if sg_ended s then w1 else drop_permits svc env (sg_placed s) w1)" by blast
  show ?thesis
  proof (cases "sg_ended s")
    case True
    with w1 show ?thesis by (auto simp: phase_moves_def intro: registry_moves_same)
  next
    case False
    with w1 held have own1: "set_option (ad_permit (pd_admitted (sg_placed s))) \<subseteq> tw_held (sw_traffic w1)"
      "pd_permit (sg_placed s) \<in> rw_permits (sw_registry w1)" by (auto simp: traffic_moves_def)
    have "traffic_moves tc ?A w {} w'"
      using w1(1,3) False traffic_moves_trans [OF _ drop_permits_moves(1) [OF tc own1]] by simp
    moreover have "registry_moves (sv_instance svc) ?P w {} w'"
      using w1(2,3) False drop_permits_moves(2) [OF tc own1] by (simp add: registry_moves_def)
    ultimately show ?thesis by (simp add: phase_moves_def)
  qed
qed

lemma abandon_moves:
  assumes tc: "sv_traffic svc = Some tc" and own: "owns tc (tk_phase tk) w"
  shows "phase_moves svc tc (tk_phase tk) w PhGone (abandon svc env tk w)"
proof (cases "tk_phase tk")
  case (PhWaiting tenant k m n)
  have "traffic_moves tc {} w {} (abandon svc env tk w)"
    by (rule traffic_moves_step) (simp_all add: abandon_def PhWaiting tc step_drop_receiver drop_receiver_held)
  then show ?thesis by (simp add: phase_moves_def PhWaiting abandon_def registry_moves_same)
next
  case (PhAdmitted ad)
  with own drop_admission_moves [OF tc] show ?thesis
    by (auto simp: phase_moves_def owns_def abandon_def intro: registry_moves_same)
next
  case (PhPlanned ad input)
  with own drop_admission_moves [OF tc] show ?thesis
    by (auto simp: phase_moves_def owns_def abandon_def intro: registry_moves_same)
next
  case (PhExecuting pd)
  with own drop_permits_moves [OF tc] show ?thesis by (auto simp: phase_moves_def owns_def abandon_def)
next
  case (PhStreaming s)
  with own drop_stream_moves [OF tc, of s w env "tk_context tk"] show ?thesis
    by (cases "drop_stream svc env (tk_context tk) s w") (simp add: abandon_def)
qed (auto simp: abandon_def phase_moves_def intro: traffic_moves_same registry_moves_same)

section \<open>The invariant of the system\<close>

definition owned :: "(('a, 'p) phase \<Rightarrow> 'k set) \<Rightarrow> ('a, 'p, 'w) system \<Rightarrow> nat \<Rightarrow> 'k set" where
  "owned f s n = (case sy_tasks s n of None \<Rightarrow> {} | Some tk \<Rightarrow> f (tk_phase tk))"

definition partitions :: "(nat \<Rightarrow> 'k set) \<Rightarrow> 'k set \<Rightarrow> bool" where
  "partitions f H \<longleftrightarrow> H = (\<Union>n. f n) \<and> (\<forall>m n. m \<noteq> n \<longrightarrow> f m \<inter> f n = {})"

lemma partitions_update:
  assumes "partitions f H" and "B \<inter> (H - f m) = {}"
  shows "partitions (f(m := B)) (H - f m \<union> B)"
  using assms unfolding partitions_def by (auto split: if_splits)

lemma partitions_unique: "partitions f H \<Longrightarrow> k \<in> H \<longleftrightarrow> (\<exists>!n. k \<in> f n)"
  unfolding partitions_def by blast

definition system_inv :: "('a, 'p, 'w) service \<Rightarrow> traffic_controller \<Rightarrow> ('a, 'p, 'w) system \<Rightarrow> bool" where
  "system_inv svc tc s \<longleftrightarrow>
     traffic_reachable tc (sw_traffic (sy_world s)) \<and> registry_reachable (sv_instance svc) (sw_registry (sy_world s)) \<and>
     partitions (owned tickets s) (tw_held (sw_traffic (sy_world s))) \<and>
     partitions (owned executions s) (rw_permits (sw_registry (sy_world s))) \<and>
     (\<forall>n tk. sy_tasks s n = Some tk \<longrightarrow> waiting_ok tc (tk_phase tk))"

lemma traffic_steps_reachable: "(traffic_step tc)\<^sup>*\<^sup>* w w' \<Longrightarrow> traffic_reachable tc w \<Longrightarrow> traffic_reachable tc w'"
  by (induction rule: rtranclp_induct) (auto intro: traffic_reachable.reach_step)

lemma registry_steps_reachable: "(registry_step inst)\<^sup>*\<^sup>* w w' \<Longrightarrow> registry_reachable inst w \<Longrightarrow> registry_reachable inst w'"
  by (induction rule: rtranclp_induct) (auto intro: registry_next)

lemma owned_set_phase: "owned f (set_phase n tk ph w s) = (owned f s)(n := f ph)"
  by (auto simp: owned_def set_phase_def fun_eq_iff)

lemma set_phase_inv:
  assumes inv: "system_inv svc tc s" and tk: "sy_tasks s n = Some tk"
    and moves: "phase_moves svc tc (tk_phase tk) (sy_world s) ph w"
  shows "system_inv svc tc (set_phase n tk ph w s)"
proof -
  have owned: "owned f s n = f (tk_phase tk)" for f :: "_ \<Rightarrow> 'k set" by (simp add: owned_def tk)
  have "partitions (owned tickets (set_phase n tk ph w s)) (tw_held (sw_traffic w))"
    using inv moves partitions_update [of "owned tickets s" "tw_held (sw_traffic (sy_world s))" "tickets ph" n]
    by (simp add: system_inv_def phase_moves_def traffic_moves_def owned_set_phase owned)
  moreover have "partitions (owned executions (set_phase n tk ph w s)) (rw_permits (sw_registry w))"
    using inv moves partitions_update [of "owned executions s" "rw_permits (sw_registry (sy_world s))" "executions ph" n]
    by (simp add: system_inv_def phase_moves_def registry_moves_def owned_set_phase owned)
  moreover have "traffic_reachable tc (sw_traffic w)" "registry_reachable (sv_instance svc) (sw_registry w)"
    using inv moves traffic_steps_reachable registry_steps_reachable
    by (auto simp: system_inv_def phase_moves_def traffic_moves_def registry_moves_def)
  ultimately show ?thesis
    using inv moves by (auto simp: system_inv_def set_phase_def phase_moves_def)
qed

lemma owned_world [simp]: "owned f (s\<lparr>sy_world := w\<rparr>) = owned f s"
  by (simp add: owned_def fun_eq_iff)

lemma system_step_inv:
  assumes "system_step svc s s'" and "system_inv svc tc s" and tc: "sv_traffic svc = Some tc"
    and "controller_ok tc" and "limits_fit tc" and left: "tickets_left s"
  shows "system_inv svc tc s'"
proof -
  have reach: "traffic_reachable tc (sw_traffic (sy_world s))" "registry_reachable (sv_instance svc) (sw_registry (sy_world s))"
    using assms(2) by (simp_all add: system_inv_def)
  then have permits: "inv_permits (sw_traffic (sy_world s))" and reg: "registry_inv (sw_registry (sy_world s))"
    using reachable_inv [OF reach(1) assms(5,4)] left registry_reachable_inv
    by (auto simp: traffic_inv_def tickets_left_def)
  have owns: "owns tc (tk_phase tk) (sy_world s)" if "sy_tasks s n = Some tk" for n tk
  proof -
    have "owned tickets s n \<subseteq> tw_held (sw_traffic (sy_world s))" "owned executions s n \<subseteq> rw_permits (sw_registry (sy_world s))"
      using assms(2) by (auto simp: system_inv_def partitions_def)
    with that assms(2) show ?thesis by (auto simp: owns_def owned_def system_inv_def)
  qed
  from assms(1) show ?thesis
  proof cases
    case (sys_arrive n rq ctx)
    then have "owned tickets s' = owned tickets s" "owned executions s' = owned executions s"
      by (auto simp: owned_def fun_eq_iff)
    with sys_arrive assms(2) show ?thesis by (auto simp: system_inv_def)
  next
    case (sys_advance n tk env ph w)
    with set_phase_inv [OF assms(2) _ advance_moves [OF tc owns permits reg]] show ?thesis by blast
  next
    case (sys_abandon n tk env)
    with set_phase_inv [OF assms(2) _ abandon_moves [OF tc owns]] show ?thesis by blast
  next
    case (sys_traffic tc' traffic)
    let ?t = "sw_traffic (sy_world s)" and ?c = "sw_cancelled (sy_world s)"
    have "traffic_step tc ?t traffic"
      using sys_traffic tc step_begin_drain [of tc ?t] step_resume [of tc ?t]
        step_expire [of ?t ?c "fst (drain_expire ?t ?c)" traffic "snd (snd (drain_expire ?t ?c))" tc] by auto
    then have "traffic_reachable tc traffic" by (rule traffic_reachable.reach_step [OF reach(1)])
    moreover have "tw_held traffic = tw_held ?t"
      using sys_traffic by (auto simp: drain_held resume_def drain_expire_def Let_def)
    ultimately show ?thesis
      using assms(2) sys_traffic(1) by (simp add: system_inv_def)
  next
    case (sys_registry r)
    with reach(2) have "registry_reachable (sv_instance svc) r" by (auto intro: registry_next)
    with sys_registry assms(2) show ?thesis by (simp add: system_inv_def)
  next
    case (sys_outside cancelled engine cal)
    with assms(2) show ?thesis by (simp add: system_inv_def)
  qed
qed

lemma system_new_inv: "system_inv svc tc (system_new cal engine)"
  by (simp add: system_inv_def system_new_def partitions_def owned_def traffic_reachable.reach_new registry_init)
    (simp add: traffic_world_new_def)

lemma system_reachable_inv:
  assumes "system_reachable svc s" and "sv_traffic svc = Some tc" and "controller_ok tc" and "limits_fit tc"
  shows "system_inv svc tc s"
  using assms
  by (induction rule: system_reachable.induct) (auto simp: system_new_inv intro: system_step_inv)

section \<open>Properties\<close>

text \<open>
  C1: no capacity is lost. In every state of a service with any number of concurrent requests,
  which may fail, be interrupted or be dropped at any point, every admitted request of the traffic
  controller is on its way to its caller or belongs to exactly one task, every execution in the
  engine registry belongs to exactly one task, and the limits of the policy hold. So once every
  task has ended, all capacity is free and every engine is idle. This is for a policy whose global
  token limit is below the largest \<open>u64\<close> (\<open>limits_fit\<close>) and as long as the ticket counter has not
  run through all its values: validation also accepts a limit of the largest \<open>u64\<close>, with which the
  token counters wrap and the token limits do not hold (\<open>unlimited_tokens_wrap\<close> of \<open>Traffic_Props\<close>).
\<close>

theorem service_permits:
  assumes "traffic_controller_new p = Inr tc" and "limits_fit tc" and "sv_traffic svc = Some tc"
    and "system_reachable svc s" and "tickets_left s"
  shows "inv_capacity tc (tw_state (sw_traffic (sy_world s))) \<and>
     (bt_contains (st_active (tw_state (sw_traffic (sy_world s)))) k \<longleftrightarrow>
        bt_get (tw_channels (sw_traffic (sy_world s))) k = Some (ChanFull (Inr k)) \<or> (\<exists>!n. k \<in> owned tickets s n)) \<and>
     ((\<exists>entry. bt_get (rw_entries (sw_registry (sy_world s))) e = Some entry \<and> bt_contains (re_active entry) rid) \<longleftrightarrow>
        (\<exists>!n. (e, rid) \<in> owned executions s n))"
proof -
  have ok: "controller_ok tc" using controller_new_facts [OF assms(1)] by simp
  have inv: "system_inv svc tc s" by (rule system_reachable_inv [OF assms(4,3) ok assms(2)])
  then have "traffic_inv tc (sw_traffic (sy_world s))" and reg: "registry_inv (sw_registry (sy_world s))"
    using reachable_inv [of tc "sw_traffic (sy_world s)"] ok assms(2,5) registry_reachable_inv
    by (auto simp: system_inv_def tickets_left_def)
  then have cap: "inv_capacity tc (tw_state (sw_traffic (sy_world s)))" and permits: "inv_permits (sw_traffic (sy_world s))"
    by (simp_all add: traffic_inv_def)
  have held: "k \<in> tw_held (sw_traffic (sy_world s)) \<longleftrightarrow> (\<exists>!n. k \<in> owned tickets s n)"
    using inv by (intro partitions_unique) (simp add: system_inv_def)
  have ex: "(e, rid) \<in> rw_permits (sw_registry (sy_world s)) \<longleftrightarrow> (\<exists>!n. (e, rid) \<in> owned executions s n)"
    using inv by (intro partitions_unique) (simp add: system_inv_def)
  from cap inv_permitsD(1) [OF permits, of k] held ex reg show ?thesis
    by (auto simp: bt_contains_def registry_inv_def)
qed

section \<open>A concrete system\<close>

text \<open>One request arrives for a model that is not registered and fails.\<close>

definition demo_task :: "(unit, output_pipeline) task" where
  "demo_task = \<lparr>tk_request = sample_model_request, tk_context = demo_ctx, tk_phase = PhNew\<rparr>"

definition demo_arrived :: "(unit, output_pipeline, unit) system" where
  "demo_arrived = (system_new (demo_cal_world calibration_state_default 0) ())\<lparr>sy_tasks := [0 \<mapsto> demo_task]\<rparr>"

definition demo_failed :: "(unit, output_pipeline, unit) system" where
  "demo_failed = set_phase 0 demo_task (PhFailed (IfModelIo (ModelNotFound ''m''))) (sy_world demo_arrived) demo_arrived"

lemma demo_tickets: "tickets_left demo_arrived" "tickets_left demo_failed"
  "tickets_left (system_new (demo_cal_world calibration_state_default 0) () :: (unit, output_pipeline, unit) system)"
  by (simp_all add: tickets_left_def demo_failed_def set_phase_def demo_arrived_def system_new_def traffic_world_new_def
      traffic_state_default_def u64_max_def)

lemma demo_arrives: "system_reachable demo_service demo_arrived"
proof (rule system_next [OF system_init demo_tickets(3)])
  show "system_step demo_service (system_new (demo_cal_world calibration_state_default 0) ()) demo_arrived"
    using sys_arrive [of "system_new (demo_cal_world calibration_state_default 0) ()" 0 demo_service sample_model_request demo_ctx]
    by (simp add: demo_arrived_def demo_task_def system_new_def)
qed

lemma demo_fails: "system_reachable demo_service demo_failed"
proof (rule system_next [OF demo_arrives demo_tickets(1)])
  have "advance demo_service demo_infer_env demo_task (sy_world demo_arrived) =
      (PhFailed (IfModelIo (ModelNotFound ''m'')), sy_world demo_arrived)"
    by (simp add: advance_def demo_task_def infer_begin_def infer_prepare_def check_active_def demo_infer_env_def
        ensure_active_def is_cancelled_def operation_context_new_def demo_arrived_def system_new_def sample_model_request_def
        model_resolve_def demo_service_def model_registry_new_def)
  then show "system_step demo_service demo_arrived demo_failed"
    unfolding demo_failed_def by (intro sys_advance) (simp_all add: demo_arrived_def)
qed

theorem service_permits_witness:
  "inv_capacity narrow_controller (tw_state (sw_traffic (sy_world demo_failed))) \<and>
   \<not> (\<exists>entry. bt_get (rw_entries (sw_registry (sy_world demo_failed))) ''e1'' = Some entry \<and> bt_contains (re_active entry) ''r1'')"
proof -
  have "sv_traffic demo_service = Some narrow_controller" by (simp add: demo_service_def)
  note permits = service_permits [OF narrow_new narrow_fits this demo_fails demo_tickets(2), of 1 "''e1''" "''r1''"]
  have "owned executions demo_failed n = {}" for n by (simp add: owned_def demo_failed_def set_phase_def demo_arrived_def system_new_def)
  with permits show ?thesis by (auto simp: Ex1_def)
qed

end
