(* ===== verification/Front_Ends.thy ===== *)
theory Front_Ends
  imports OpenAI_Access OpenAI_Props Anthropic_Props Service_System
begin

text \<open>
  Properties that span the two API front ends and the inference service: every streaming response
  ends once, the front ends accept the same configurations, tell clients to retry for the same
  errors, report an interrupted request as such, and give out different request identifiers.
\<close>

section \<open>Streams end with one terminal event\<close>

text \<open>
  C2: every streaming response over the inference service ends once. Once the generator of one of the
  four streaming endpoints has stopped reading, because it has read the final event, an error or the
  end of the model event stream, the response consists of events that are not terminal and exactly
  one terminal event at its end: the completed response, the marker of the end, the stop of the
  message, or an error.
\<close>

theorem streaming_responses_end_once:
  assumes "stream_run svc ctx (new_stream env pd ex) rs es s"
    and "ad_model (pd_admitted pd) = basic_model_ops fs ts m" and "pipeline_proper (ad_pipeline (pd_admitted pd))"
    and "{Finish_Read, Error_Read, End_Read} \<inter> set (read_kinds rs) \<noteq> {}"
  shows "ends_once responses_terminal (responses_sse tx clock rid model (items_of rs)) \<and>
     ends_once data_terminal (completion_sse tx clock rid model include_usage (items_of rs)) \<and>
     ends_once data_terminal (chat_sse tx clock rid model (items_of rs)) \<and>
     ends_once message_terminal (messages_sse fs' tx clock rid model (items_of rs))"
proof -
  have "list_ex is_end (items_of rs)" by (rule stopped_reading_at_end [OF assms])
  then show ?thesis
    by (simp add: responses_sse_def completion_sse_def chat_sse_def resp.response_ends_once compl.response_ends_once
        chat.response_ends_once messages_sse_def msg.response_ends_once)
qed

theorem streaming_responses_end_once_witness:
  "ends_once data_terminal (chat_sse no_texts (\<lambda>_. 0) ''chatcmpl_1'' ''m''
     (items_of [Ready (Some (Inr (EvTextDelta ''r1'' ''a''))), Ready (Some (Inl (IfContext CtxDeadlineExceeded)))]))"
proof -
  obtain es s where run: "stream_run demo_service demo_ctx (new_stream demo_infer_env demo_placed demo_execution)
      [Ready (Some (Inr (EvTextDelta ''r1'' ''a''))), Ready (Some (Inl (IfContext CtxDeadlineExceeded)))] es s"
    using expired_stream_run by blast
  show ?thesis using streaming_responses_end_once [OF run demo_basic demo_proper] by (simp add: read_kinds_def)
qed

section \<open>Configurations and errors agree\<close>

lemma routers_agree: "messages_router_with_config digest config = router_with_config digest config"
  by (simp add: messages_router_with_config_def router_with_config_def)

text \<open>The failures after which a client should try again.\<close>

fun retryable :: "inference_error \<Rightarrow> bool" where
  "retryable (IfAdmission e) \<longleftrightarrow> e \<in> {QueueFull, OverloadShed, Draining, AdmissionUnavailable}"
| "retryable (IfPlanning _) \<longleftrightarrow> True"
| "retryable (IfDiscovery _) \<longleftrightarrow> True"
| "retryable (IfEngine e) \<longleftrightarrow> e \<in> {EngineDraining, EngineStopped}"
| "retryable _ \<longleftrightarrow> False"

lemma api_retry_after: "hs_headers (api_into_response e) ''retry-after'' \<noteq> None \<longleftrightarrow> ae_status e \<in> {429, 503}"
  by (simp add: api_into_response_def Let_def)

lemma with_request_header_retry [simp]:
  "hs_headers (with_request_header rid r) ''retry-after'' = hs_headers r ''retry-after''"
  by (simp add: with_request_header_def split: option.splits)

lemma message_retry_after: "hs_headers (message_into_response e) ''retry-after'' \<noteq> None \<longleftrightarrow> me_status e \<in> {429, 503, 529}"
  by (simp add: message_into_response_def Let_def)

lemmas error_defs = api_error_from_inference_def api_error_from_admission_def api_error_new_def
  message_error_from_inference_def message_error_from_admission_def message_error_new_def message_invalid_def

definition status_agrees :: "api_texts \<Rightarrow> inference_error \<Rightarrow> bool" where
  "status_agrees tx e \<longleftrightarrow>
     (let a = ae_status (api_error_from_inference tx e); m = me_status (message_error_from_inference tx e)
      in (a = m \<or> (a \<in> {429, 503} \<and> m = 529)) \<and> (a \<in> {429, 503} \<longleftrightarrow> retryable e) \<and> 400 \<le> a \<and> a < 529)"

lemma admission_status_agrees: "status_agrees tx (IfAdmission e)"
  by (cases e) (simp_all add: status_agrees_def error_defs)

lemma engine_status_agrees: "status_agrees tx (IfEngine e)"
proof (cases e)
  case (EngineContext c)
  then show ?thesis by (cases c) (simp_all add: status_agrees_def error_defs)
qed (simp_all add: status_agrees_def error_defs)

lemma execution_status_agrees: "status_agrees tx (IfExecution e)"
proof (cases e)
  case (PxContext c)
  then show ?thesis by (cases c) (simp_all add: status_agrees_def error_defs)
next
  case (PxEngine g)
  then show ?thesis
  proof (cases g)
    case (EngineContext c)
    with PxEngine show ?thesis by (cases c) (simp_all add: status_agrees_def error_defs)
  qed (simp_all add: status_agrees_def error_defs)
qed (simp_all add: status_agrees_def error_defs)

lemma status_agrees: "status_agrees tx e"
proof (cases e)
  case (IfContext c)
  then show ?thesis by (cases c) (simp_all add: status_agrees_def error_defs)
next
  case (IfModelIo m)
  then show ?thesis by (cases m) (simp_all add: status_agrees_def error_defs)
qed (simp_all add: admission_status_agrees engine_status_agrees execution_status_agrees,
    simp_all add: status_agrees_def error_defs)

text \<open>
  C26: the two front ends report the same failures in the same way. For every error of the inference
  service both answer with an error status, the same one except that the Messages endpoint reports
  some overloads as 529, and both tell the client to retry for exactly the same errors: a full or
  shed or draining admission, and no available target.
\<close>

theorem front_ends_report_alike:
  "400 \<le> ae_status (api_error_from_inference tx e) \<and>
   (me_status (message_error_from_inference tx e) = ae_status (api_error_from_inference tx e) \<or>
    me_status (message_error_from_inference tx e) = 529 \<and> retryable e) \<and>
   (hs_headers (api_into_response (api_error_from_inference tx e)) ''retry-after'' \<noteq> None \<longleftrightarrow> retryable e) \<and>
   (hs_headers (message_into_response (message_error_from_inference tx e)) ''retry-after'' \<noteq> None \<longleftrightarrow> retryable e)"
  using status_agrees [of tx e] unfolding status_agrees_def Let_def api_retry_after message_retry_after by auto

text \<open>
  An interrupted request is reported as such. When the context of an admitted request is done at
  the time its failure is reported, both front ends answer with the status of the interruption, 499
  for a cancelled request and 408 for an expired deadline, whatever error the engine, the store or
  the planner gave.
\<close>

lemma interrupted_request_status:
  assumes "check_active env 2 ctx w = Inl e" and "normalize_admitted_error svc env ctx error w = (error', effects, w')"
  shows "ae_status (api_error_from_inference tx error') = (case e of CtxCancelled \<Rightarrow> 499 | CtxDeadlineExceeded \<Rightarrow> 408) \<and>
     me_status (message_error_from_inference tx error') = (case e of CtxCancelled \<Rightarrow> 499 | CtxDeadlineExceeded \<Rightarrow> 408)"
  using assms by (cases e) (auto simp: normalize_admitted_error_def error_defs)

section \<open>Identifiers of the two front ends differ\<close>

lemma admit_message_id:
  "admit_message digest tx env request auth = (Inr (trusted, request'), auth') \<Longrightarrow>
   tr_response_id trusted = ''msg_'' @ hex_u64 (as_next_request auth) \<and>
   as_next_request auth' = wrap_add64 (as_next_request auth) 1"
  by (auto simp: admit_message_def Let_def split: if_splits option.splits sum.splits)

lemma request_id_prefix_not_msg: "request_id_prefix path @ ''_'' @ x \<noteq> ''msg_'' @ y"
  by (simp add: request_id_prefix_def)

text \<open>
  The identifiers of the two front ends never collide, although each counts its requests from
  one: no request that the OpenAI front end passes on shares its identifier, which names it in the
  engines and the traffic controller, with a request of the Messages endpoint.
\<close>

lemma front_end_ids_disjoint:
  assumes "admit_request digest tx env request auth = (Inr (trusted, request'), auth')"
    and "admit_message digest tx env2 request2 auth2 = (Inr (trusted2, request2'), auth2')"
  shows "tr_response_id trusted \<noteq> tr_response_id trusted2"
  using admit_request_counter(2) [OF assms(1)] admit_message_id [OF assms(2)] request_id_prefix_not_msg by metis

end
