(* ===== verification/Float64.thy ===== *)
theory Float64
  imports Decimal Complex_Main "HOL-Library.Log_Nat"
begin

text \<open>
  The \<open>f64\<close> values that the telemetry code uses. A finite value is the rational number it stands
  for; the sign of zero is not kept, since no code observes it. Every operation rounds the exact
  result to the nearest representable number, ties to even, as IEEE 754 prescribes.
\<close>

datatype f64 = F_NaN | F_Inf bool | F_Fin rat

section \<open>Rounding\<close>

definition two_pow :: "int \<Rightarrow> rat" where
  "two_pow e = (if 0 \<le> e then 2 ^ nat e else 1 / 2 ^ nat (- e))"

definition round_half_even :: "rat \<Rightarrow> int" where
  "round_half_even x =
     (let f = \<lfloor>x\<rfloor>; d = x - of_int f
      in if d < 1 / 2 \<or> d = 1 / 2 \<and> even f then f else f + 1)"

text \<open>The binary exponent of a positive number: \<open>two_pow e \<le> x < two_pow (e + 1)\<close>.\<close>

definition binary_exponent :: "rat \<Rightarrow> int" where
  "binary_exponent x =
     (let (n, d) = quotient_of x; e = bitlen n - bitlen d
      in if two_pow e \<le> x then e else e - 1)"

definition round64 :: "rat \<Rightarrow> f64" where
  "round64 x =
     (if x = 0 then F_Fin 0
      else
        let e = max (binary_exponent \<bar>x\<bar> - 52) (- 1074);
            v = of_int (round_half_even (x / two_pow e)) * two_pow e
        in if two_pow 1024 \<le> \<bar>v\<bar> then F_Inf (v < 0) else F_Fin v)"

section \<open>Operations\<close>

fun is_finite :: "f64 \<Rightarrow> bool" where
  "is_finite (F_Fin _) = True"
| "is_finite _ = False"

fun f_less :: "f64 \<Rightarrow> f64 \<Rightarrow> bool" where
  "f_less (F_Fin x) (F_Fin y) = (x < y)"
| "f_less (F_Fin x) (F_Inf neg) = (\<not> neg)"
| "f_less (F_Inf neg) (F_Fin y) = neg"
| "f_less (F_Inf a) (F_Inf b) = (a \<and> \<not> b)"
| "f_less _ _ = False"

fun f_add :: "f64 \<Rightarrow> f64 \<Rightarrow> f64" where
  "f_add (F_Fin x) (F_Fin y) = round64 (x + y)"
| "f_add (F_Fin x) (F_Inf b) = F_Inf b"
| "f_add (F_Inf a) (F_Fin y) = F_Inf a"
| "f_add (F_Inf a) (F_Inf b) = (if a = b then F_Inf a else F_NaN)"
| "f_add _ _ = F_NaN"

fun f_neg :: "f64 \<Rightarrow> f64" where
  "f_neg (F_Fin x) = F_Fin (- x)"
| "f_neg (F_Inf a) = F_Inf (\<not> a)"
| "f_neg F_NaN = F_NaN"

definition f_sub :: "f64 \<Rightarrow> f64 \<Rightarrow> f64" where
  "f_sub x y = f_add x (f_neg y)"

fun f_scale :: "rat \<Rightarrow> f64 \<Rightarrow> f64" where
  "f_scale c (F_Fin x) = round64 (c * x)"
| "f_scale c (F_Inf neg) = (if c = 0 then F_NaN else F_Inf (neg \<noteq> (c < 0)))"
| "f_scale c F_NaN = F_NaN"

fun f_div :: "f64 \<Rightarrow> f64 \<Rightarrow> f64" where
  "f_div (F_Fin x) (F_Fin y) = (if y = 0 then (if x = 0 then F_NaN else F_Inf (x < 0)) else round64 (x / y))"
| "f_div (F_Fin x) (F_Inf _) = F_Fin 0"
| "f_div (F_Inf a) (F_Fin y) = F_Inf (a \<noteq> (y < 0))"
| "f_div _ _ = F_NaN"

text \<open>\<open>f64::max\<close> returns the other argument when one is not a number.\<close>

fun f_max :: "f64 \<Rightarrow> f64 \<Rightarrow> f64" where
  "f_max F_NaN y = y"
| "f_max x F_NaN = x"
| "f_max x y = (if f_less x y then y else x)"

definition f_of_u64 :: "u64 \<Rightarrow> f64" where
  "f_of_u64 n = round64 (of_nat n)"

text \<open>\<open>round() as u64\<close> of a finite number that is not negative: ties away from zero, then saturation.\<close>

definition round_to_nat :: "rat \<Rightarrow> nat" where
  "round_to_nat x = nat \<lfloor>x + 1 / 2\<rfloor>"

section \<open>Properties of rounding\<close>

lemma two_pow_pos [simp]: "0 < two_pow e"
  by (simp add: two_pow_def)

lemma two_pow_nonzero [simp]: "two_pow e \<noteq> 0"
  using two_pow_pos [of e] by linarith

lemma two_pow_powi: "two_pow e = 2 powi e"
  by (simp add: two_pow_def power_int_def power_one_over)

lemma two_pow_add: "two_pow (a + b) = two_pow a * two_pow b"
  by (simp add: two_pow_powi power_int_add)

lemma two_pow_strict_mono: "a < b \<Longrightarrow> two_pow a < two_pow b"
  by (simp add: two_pow_powi power_int_strict_increasing)

lemma two_pow_le_imp: "two_pow a \<le> x \<Longrightarrow> x < two_pow b \<Longrightarrow> a < b"
  using two_pow_strict_mono [of b a] by (cases a b rule: linorder_cases) auto

lemma round_half_even_int [simp]: "round_half_even (of_int k) = k"
  by (simp add: round_half_even_def)

lemma round_half_even_le: "x \<le> of_int k \<Longrightarrow> round_half_even x \<le> k"
proof -
  assume le: "x \<le> of_int k"
  then have fl: "\<lfloor>x\<rfloor> \<le> k" using floor_mono by fastforce
  show ?thesis
  proof (cases "\<lfloor>x\<rfloor> = k")
    case True
    then have "x = of_int \<lfloor>x\<rfloor>" using le of_int_floor_le [of x] by auto
    then show ?thesis using True by (metis order_refl round_half_even_int)
  next
    case False
    with fl show ?thesis by (auto simp: round_half_even_def Let_def)
  qed
qed

lemma round_half_even_nonneg: "0 \<le> x \<Longrightarrow> 0 \<le> round_half_even x"
  unfolding round_half_even_def Let_def by auto

lemma bitlen_less: "0 < n \<Longrightarrow> of_int n < two_pow (bitlen n)"
proof -
  assume "0 < n"
  then have "(of_int n :: rat) < of_int (2 ^ nat (bitlen n))" using bitlen_bounds [of n] by (simp only: of_int_less_iff)
  then show ?thesis using bitlen_nonneg [of n] by (simp add: two_pow_def)
qed

lemma bitlen_le: "0 < n \<Longrightarrow> two_pow (bitlen n - 1) \<le> of_int n"
proof -
  assume n: "0 < n"
  then have "(of_int (2 ^ nat (bitlen n - 1)) :: rat) \<le> of_int n" using bitlen_bounds [of n] by (simp only: of_int_le_iff)
  moreover have "1 \<le> bitlen n" using bitlen_nonneg [of n] bitlen_eq_zero_iff [of n] n by linarith
  ultimately show ?thesis by (simp add: two_pow_def)
qed

text \<open>The exponent is that of a power of two below the number.\<close>

lemma binary_exponent_le:
  assumes "0 < x"
  shows "two_pow (binary_exponent x) \<le> x"
proof -
  obtain n d where q: "quotient_of x = (n, d)" by fastforce
  then have d: "0 < d" and x: "x = of_int n / of_int d"
    by (auto simp: quotient_of_div quotient_of_denom_pos)
  with assms have n: "0 < n" by (simp add: zero_less_divide_iff)
  have "two_pow (bitlen n - bitlen d - 1) * of_int d \<le> two_pow (bitlen n - bitlen d - 1) * two_pow (bitlen d)"
    using bitlen_less [OF d] by simp
  also have "\<dots> = two_pow (bitlen n - 1)" by (simp flip: two_pow_add)
  also have "\<dots> \<le> of_int n" by (rule bitlen_le [OF n])
  finally have "two_pow (bitlen n - bitlen d - 1) \<le> x" using d by (simp add: x field_simps)
  then show ?thesis by (simp add: binary_exponent_def q Let_def)
qed

text \<open>
  A number that does not exceed an integer below \<open>2 ^ 53\<close> is not rounded above it: the integer is
  itself representable.
\<close>

lemma round64_le:
  assumes "0 \<le> x" and "x \<le> of_nat k" and "k < 2 ^ 53"
  obtains v where "round64 x = F_Fin v" and "0 \<le> v" and "v \<le> of_nat k"
proof (cases "x = 0")
  case True
  then show ?thesis using that [of 0] by (simp add: round64_def)
next
  case False
  with assms(1) have pos: "0 < x" by simp
  define e where "e = max (binary_exponent x - 52) (- 1074)"
  have "(of_nat k :: rat) < of_nat (2 ^ 53)" using assms(3) by (simp only: of_nat_less_iff)
  then have "x < two_pow 53" using assms(2) by (simp add: two_pow_def)
  then have "binary_exponent x < 53" using binary_exponent_le [OF pos] two_pow_le_imp by blast
  then have e: "e \<le> 0" using pos by (simp add: e_def)
  then have scale: "of_nat k / two_pow e = of_int (int k * 2 ^ nat (- e))" by (simp add: two_pow_def)
  let ?r = "round_half_even (x / two_pow e)"
  have "x / two_pow e \<le> of_nat k / two_pow e" using assms(2) by (simp add: divide_right_mono less_imp_le)
  also have "\<dots> = of_int (int k * 2 ^ nat (- e))" by (rule scale)
  finally have "?r \<le> int k * 2 ^ nat (- e)" by (rule round_half_even_le)
  then have "of_int ?r \<le> (of_int (int k * 2 ^ nat (- e)) :: rat)" by (simp only: of_int_le_iff)
  also have "\<dots> = of_nat k / two_pow e" by (rule scale [symmetric])
  finally have le: "of_int ?r * two_pow e \<le> of_nat k" by (simp add: pos_le_divide_eq)
  have "0 \<le> ?r" using assms(1) by (intro round_half_even_nonneg) (simp add: less_imp_le)
  then have nonneg: "0 \<le> of_int ?r * two_pow e" by (simp add: less_imp_le)
  have "(of_nat k :: rat) < two_pow 53" using \<open>(of_nat k :: rat) < of_nat (2 ^ 53)\<close> by (simp add: two_pow_def)
  then have "of_int ?r * two_pow e < two_pow 1024"
    using le two_pow_strict_mono [of 53 1024] by linarith
  with nonneg have "round64 x = F_Fin (of_int ?r * two_pow e)"
    using False pos by (simp add: round64_def abs_of_pos e_def [symmetric] Let_def not_le)
  with nonneg le show ?thesis using that by blast
qed

text \<open>Rounding never produces a number of the other sign and never a value that is not a number.\<close>

lemma round64_nonneg: "0 \<le> x \<Longrightarrow> round64 x = F_Fin v \<Longrightarrow> 0 \<le> v"
  by (auto simp: round64_def Let_def less_imp_le round_half_even_nonneg split: if_splits
      intro!: mult_nonneg_nonneg)

lemma round64_exact_nat:
  assumes "n < 2 ^ 53"
  shows "round64 (of_nat n) = F_Fin (of_nat n)"
proof (cases "n = 0")
  case True
  then show ?thesis by (simp add: round64_def)
next
  case False
  define e where "e = max (binary_exponent (of_nat n) - 52) (- 1074)"
  have "(of_nat n :: rat) < of_nat (2 ^ 53)" using assms by (simp only: of_nat_less_iff)
  then have less: "(of_nat n :: rat) < two_pow 53" by (simp add: two_pow_def)
  have "binary_exponent (of_nat n) < 53"
    using binary_exponent_le [of "of_nat n"] less False two_pow_le_imp by simp
  then have e: "e \<le> 0" by (simp add: e_def)
  then have "of_nat n / two_pow e = of_int (int n * 2 ^ nat (- e))" by (simp add: two_pow_def)
  then have "of_int (round_half_even (of_nat n / two_pow e)) * two_pow e = (of_nat n :: rat)"
    by (metis nonzero_eq_divide_eq round_half_even_int two_pow_nonzero)
  moreover have "(of_nat n :: rat) < two_pow 1024"
    using less two_pow_strict_mono [of 53 1024] by linarith
  ultimately show ?thesis
    using False by (simp add: round64_def e_def [symmetric] Let_def)
qed

section \<open>Reading a number\<close>

text \<open>
  \<open>str::parse::<f64>\<close>: an optional sign, then \<open>inf\<close>, \<open>infinity\<close> or \<open>nan\<close> in any case, or digits
  with an optional point and an optional exponent; the value is rounded once.
\<close>

definition is_dec_digit :: "char \<Rightarrow> bool" where
  "is_dec_digit c \<longleftrightarrow> 48 \<le> (of_char c :: nat) \<and> (of_char c :: nat) \<le> 57"

definition to_lower :: "char \<Rightarrow> char" where
  "to_lower c = (if 65 \<le> (of_char c :: nat) \<and> (of_char c :: nat) \<le> 90 then char_of ((of_char c :: nat) + 32) else c)"

fun split_sign :: "string \<Rightarrow> bool \<times> string" where
  "split_sign (c # cs) = (if c = CHR ''-'' then (True, cs) else if c = CHR ''+'' then (False, cs) else (False, c # cs))"
| "split_sign [] = (False, [])"

definition ten_pow :: "int \<Rightarrow> rat" where
  "ten_pow e = (if 0 \<le> e then 10 ^ nat e else 1 / 10 ^ nat (- e))"

fun parse_exponent :: "string \<Rightarrow> int option" where
  "parse_exponent [] = Some 0"
| "parse_exponent (c # cs) =
     (if to_lower c = CHR ''e''
      then case split_sign cs of (neg, ds) \<Rightarrow>
        if ds \<noteq> [] \<and> list_all is_dec_digit ds then Some (if neg then - int (dec_to_nat ds) else int (dec_to_nat ds)) else None
      else None)"

definition parse_decimal :: "string \<Rightarrow> rat option" where
  "parse_decimal s =
     (let whole = takeWhile is_dec_digit s; rest = dropWhile is_dec_digit s;
          (frac, rest) = (case rest of c # cs \<Rightarrow> if c = CHR ''.'' then (takeWhile is_dec_digit cs, dropWhile is_dec_digit cs) else ([], rest)
             | [] \<Rightarrow> ([], []))
      in if whole = [] \<and> frac = [] then None
         else map_option (\<lambda>e. of_nat (dec_to_nat (whole @ frac)) * ten_pow (e - int (length frac))) (parse_exponent rest))"

definition parse_f64 :: "string \<Rightarrow> f64 option" where
  "parse_f64 s =
     (case split_sign s of (neg, body) \<Rightarrow>
        if map to_lower body \<in> {''inf'', ''infinity''} then Some (F_Inf neg)
        else if map to_lower body = ''nan'' then Some F_NaN
        else map_option (\<lambda>x. round64 (if neg then - x else x)) (parse_decimal body))"

section \<open>Reading back a printed integer\<close>

lemma digit_char_is_digit: "d < 10 \<Longrightarrow> is_dec_digit (digit_char d)"
  by (simp add: is_dec_digit_def digit_char_def)

lemma printed_digits: "list_all is_dec_digit (nat_to_dec n) \<and> nat_to_dec n \<noteq> []"
proof (induction n rule: nat_to_dec.induct)
  case (1 n)
  then show ?case by (subst (1 2) nat_to_dec.simps) (simp add: digit_char_is_digit)
qed

lemma digit_not_sign: "is_dec_digit c \<Longrightarrow> c \<noteq> CHR ''-'' \<and> c \<noteq> CHR ''+''"
  by (auto simp: is_dec_digit_def)

lemma split_sign_digits: "list_all is_dec_digit s \<Longrightarrow> split_sign s = (False, s)"
  by (cases s) (auto dest: digit_not_sign)

lemma to_lower_digit: "is_dec_digit c \<Longrightarrow> to_lower c = c"
  by (simp add: is_dec_digit_def to_lower_def)

lemma lower_digits: "list_all is_dec_digit s \<Longrightarrow> map to_lower s = s"
  by (induction s) (simp_all add: to_lower_digit)

lemma parse_decimal_digits:
  assumes "list_all is_dec_digit s" and "s \<noteq> []"
  shows "parse_decimal s = Some (of_nat (dec_to_nat s))"
proof -
  have split: "takeWhile is_dec_digit s = s" "dropWhile is_dec_digit s = []"
    using assms(1) by (simp_all add: list_all_iff)
  show ?thesis using assms(2) unfolding parse_decimal_def split by (simp add: ten_pow_def)
qed

lemma parse_f64_digits:
  assumes "list_all is_dec_digit s" and "s \<noteq> []"
  shows "parse_f64 s = Some (round64 (of_nat (dec_to_nat s)))"
proof -
  have "s \<noteq> ''inf'' \<and> s \<noteq> ''infinity'' \<and> s \<noteq> ''nan''" using assms(1) by (auto simp: is_dec_digit_def)
  then show ?thesis
    using assms by (simp add: parse_f64_def split_sign_digits lower_digits parse_decimal_digits)
qed

lemma parse_f64_nat_to_dec: "parse_f64 (nat_to_dec n) = Some (f_of_u64 n)"
  using printed_digits [of n] by (simp add: parse_f64_digits dec_to_nat_to_dec f_of_u64_def)

end
