(* ===== verification/Prometheus.thy ===== *)
theory Prometheus
  imports Float64 Model_IO
begin

text \<open>
  The Prometheus text format: the parser of \<open>crates/engine-openai/src/metrics.rs\<close>, by which an
  adapter reads the metrics of its engine, and the writer of \<open>crates/runtime/src/traffic.rs\<close>
  (\<open>escape_label\<close>, \<open>metric_line\<close>). The cursor of \<open>parse_labels\<close> is the rest of the input. Strings
  are byte lists; the scan of \<open>split_metric_and_value\<close> goes by bytes, which differs from going by
  characters only inside a multi-byte character, where no byte is special. An error is the branch
  that produces its message.
\<close>

section \<open>Characters\<close>

definition dquote :: char where
  "dquote = CHR 0x22"

definition backslash :: char where
  "backslash = CHR 0x5C"

definition line_feed :: char where
  "line_feed = CHR 0x0A"

definition is_ascii :: "char \<Rightarrow> bool" where
  "is_ascii c \<longleftrightarrow> (of_char c :: nat) < 128"

definition is_ascii_whitespace :: "char \<Rightarrow> bool" where
  "is_ascii_whitespace c \<longleftrightarrow> (of_char c :: nat) \<in> {9, 10, 12, 13, 32}"

definition is_ascii_alphabetic :: "char \<Rightarrow> bool" where
  "is_ascii_alphabetic c \<longleftrightarrow>
     (let n = of_char c :: nat in 65 \<le> n \<and> n \<le> 90 \<or> 97 \<le> n \<and> n \<le> 122)"

definition is_ascii_alphanumeric :: "char \<Rightarrow> bool" where
  "is_ascii_alphanumeric c \<longleftrightarrow> is_ascii_alphabetic c \<or> is_dec_digit c"

text \<open>
  \<open>str::trim\<close> and \<open>trim_start\<close> work on characters: a byte that does not continue one starts one.
\<close>

function utf8_chars :: "string \<Rightarrow> string list" where
  "utf8_chars [] = []"
| "utf8_chars (c # cs) = (c # takeWhile is_continuation cs) # utf8_chars (dropWhile is_continuation cs)"
  by pat_completeness auto
termination
  by (relation "measure length") (simp_all add: le_imp_less_Suc length_dropWhile_le)

definition is_whitespace :: "string \<Rightarrow> bool" where
  "is_whitespace ch \<longleftrightarrow> whitespace_bytes (map of_char ch) = length ch"

definition trim_start :: "string \<Rightarrow> string" where
  "trim_start s = concat (dropWhile is_whitespace (utf8_chars s))"

definition trim :: "string \<Rightarrow> string" where
  "trim s = concat (rev (dropWhile is_whitespace (rev (dropWhile is_whitespace (utf8_chars s)))))"

text \<open>\<open>str::lines\<close>: a newline ends a line, together with a carriage return before it.\<close>

definition strip_cr :: "string \<Rightarrow> string" where
  "strip_cr l = (if l \<noteq> [] \<and> last l = CHR 0x0D then butlast l else l)"

function str_lines :: "string \<Rightarrow> string list" where
  "str_lines s =
     (if s = [] then []
      else case dropWhile (\<lambda>c. c \<noteq> line_feed) s of
        [] \<Rightarrow> [s]
      | _ # rest \<Rightarrow> strip_cr (takeWhile (\<lambda>c. c \<noteq> line_feed) s) # str_lines rest)"
  by auto
termination
proof (relation "measure length", goal_cases)
  case (2 s c rest)
  then show ?case using length_dropWhile_le [of "\<lambda>c. c \<noteq> line_feed" s] by simp
qed simp

declare str_lines.simps [simp del]

section \<open>The parser\<close>

record prometheus_sample =
  ps_name :: string
  ps_labels :: "(string, string) btree"
  ps_value :: f64

datatype metric_error =
    EmptyMetricName
  | InvalidMetricName string
  | UnterminatedLabelSet
  | InvalidLabelName
  | LabelOmittedEquals string
  | LabelNotQuoted string
  | UnterminatedLabelEscape
  | LabelNotAscii
  | UnterminatedLabel string
  | DuplicateLabel string
  | LabelsNotSeparated

datatype prometheus_error =
    TooManySamples usize
  | InvalidSample nat
  | MissingValue nat
  | InvalidValue nat
  | InvalidMetric metric_error nat

fun split_metric ::
    "bool \<Rightarrow> bool \<Rightarrow> u32 \<Rightarrow> string \<Rightarrow> (string \<times> string) option" where
  "split_metric quoted escaped braces [] = None"
| "split_metric quoted escaped braces (c # cs) =
     (if escaped then map_option (apfst ((#) c)) (split_metric quoted False braces cs)
      else if quoted \<and> c = backslash then map_option (apfst ((#) c)) (split_metric quoted True braces cs)
      else if c = dquote then map_option (apfst ((#) c)) (split_metric (\<not> quoted) False braces cs)
      else if quoted then map_option (apfst ((#) c)) (split_metric quoted False braces cs)
      else if c = CHR ''{'' then map_option (apfst ((#) c)) (split_metric quoted False (min (braces + 1) (2 ^ 32 - 1)) cs)
      else if c = CHR ''}'' then map_option (apfst ((#) c)) (split_metric quoted False (braces - 1) cs)
      else if is_ascii_whitespace c \<and> braces = 0 then Some ([], trim_start (c # cs))
      else map_option (apfst ((#) c)) (split_metric quoted False braces cs))"

definition split_metric_and_value :: "string \<Rightarrow> (string \<times> string) option" where
  "split_metric_and_value line = split_metric False False 0 line"

definition is_name_start :: "char \<Rightarrow> bool" where
  "is_name_start c \<longleftrightarrow> is_ascii_alphabetic c \<or> c = CHR ''_'' \<or> c = CHR '':''"

definition is_name_char :: "char \<Rightarrow> bool" where
  "is_name_char c \<longleftrightarrow> is_ascii_alphanumeric c \<or> c = CHR ''_'' \<or> c = CHR '':''"

fun validate_metric_name :: "string \<Rightarrow> (unit, metric_error) result" where
  "validate_metric_name [] = Inl EmptyMetricName"
| "validate_metric_name (c # cs) =
     (if \<not> is_name_start c \<or> list_ex (\<lambda>d. \<not> is_name_char d) cs then Inl (InvalidMetricName (c # cs)) else Inr ())"

text \<open>\<open>char::from\<close> of a byte, in UTF-8.\<close>

definition char_from :: "char \<Rightarrow> string" where
  "char_from c =
     (let n = of_char c :: nat
      in if n < 128 then [c] else [char_of (192 + n div 64), char_of (128 + n mod 64)])"

definition unescape :: "char \<Rightarrow> string" where
  "unescape c = (if c = CHR ''n'' then [line_feed] else char_from c)"

text \<open>The inner loop: the value up to its closing quote, and what follows.\<close>

fun parse_label_value :: "string \<Rightarrow> string \<Rightarrow> (string \<times> string, metric_error) result" where
  "parse_label_value key [] = Inl (UnterminatedLabel key)"
| "parse_label_value key (c # cs) =
     (if c = dquote then Inr ([], cs)
      else if c = backslash then
        (case cs of
           [] \<Rightarrow> Inl UnterminatedLabelEscape
         | d # ds \<Rightarrow> and_then (parse_label_value key ds) (\<lambda>(v, rest). Inr (unescape d @ v, rest)))
      else if is_ascii c then and_then (parse_label_value key cs) (\<lambda>(v, rest). Inr (c # v, rest))
      else Inl LabelNotAscii)"

definition is_label_char :: "char \<Rightarrow> bool" where
  "is_label_char c \<longleftrightarrow> is_ascii_alphanumeric c \<or> c = CHR ''_''"

text \<open>One pair \<open>key="value"\<close> and what follows it.\<close>

definition parse_label :: "string \<Rightarrow> (string \<times> string \<times> string, metric_error) result" where
  "parse_label s =
     (let key = takeWhile is_label_char s
      in if key = [] then Inl InvalidLabelName
         else case dropWhile is_ascii_whitespace (dropWhile is_label_char s) of
           [] \<Rightarrow> Inl (LabelOmittedEquals key)
         | c # s2 \<Rightarrow>
             if c \<noteq> CHR ''='' then Inl (LabelOmittedEquals key)
             else case dropWhile is_ascii_whitespace s2 of
               [] \<Rightarrow> Inl (LabelNotQuoted key)
             | d # s3 \<Rightarrow>
                 if d \<noteq> dquote then Inl (LabelNotQuoted key)
                 else and_then (parse_label_value key s3) (\<lambda>(v, rest). Inr (key, v, rest)))"

lemma parse_label_value_shorter:
  "parse_label_value key s = Inr (v, rest) \<Longrightarrow> length rest < length s"
  by (induction key s arbitrary: v rest rule: parse_label_value.induct)
    (fastforce simp: and_then_Inr_iff split: if_splits list.splits)+

lemma parse_label_shorter: "parse_label s = Inr (key, v, rest) \<Longrightarrow> length rest < length s"
proof -
  assume a: "parse_label s = Inr (key, v, rest)"
  then obtain c s2 d s3 where
      "dropWhile is_ascii_whitespace (dropWhile is_label_char s) = c # s2"
      "dropWhile is_ascii_whitespace s2 = d # s3" and v: "parse_label_value key s3 = Inr (v, rest)"
    by (auto simp: parse_label_def Let_def and_then_Inr_iff split: if_splits list.splits)
  then have "length s3 \<le> length s"
    by (metis Suc_leD dual_order.trans length_Cons length_dropWhile_le)
  with parse_label_value_shorter [OF v] show ?thesis by simp
qed

function parse_labels_loop ::
    "string \<Rightarrow> (string, string) btree \<Rightarrow> ((string, string) btree, metric_error) result" where
  "parse_labels_loop input labels =
     (let s = dropWhile (\<lambda>c. is_ascii_whitespace c \<or> c = CHR '','') input
      in if s = [] then Inr labels
         else case parse_label s of
           Inl e \<Rightarrow> Inl e
         | Inr (key, v, rest) \<Rightarrow>
             if bt_contains labels key then Inl (DuplicateLabel key)
             else
               let rest' = dropWhile is_ascii_whitespace rest
               in if rest' \<noteq> [] \<and> hd rest' \<noteq> CHR '','' then Inl LabelsNotSeparated
                  else parse_labels_loop rest' (bt_insert key v labels))"
  by auto
termination
proof (relation "measure (length \<circ> fst)", goal_cases)
  case (2 input labels s r key p v rest rest')
  then have "parse_label s = Inr (key, v, rest)" by auto
  then have "length rest < length s" by (rule parse_label_shorter)
  moreover have "length s \<le> length input" using 2(1) by (simp add: length_dropWhile_le)
  moreover have "length rest' \<le> length rest" using 2 by (simp add: length_dropWhile_le)
  ultimately show ?case by simp
qed simp

declare parse_labels_loop.simps [simp del]

definition parse_labels :: "string \<Rightarrow> ((string, string) btree, metric_error) result" where
  "parse_labels input = parse_labels_loop input bt_empty"

definition parse_metric :: "string \<Rightarrow> (string \<times> (string, string) btree, metric_error) result" where
  "parse_metric metric =
     (case str_find metric ''{'' of
        None \<Rightarrow> and_then (validate_metric_name metric) (\<lambda>_. Inr (metric, bt_empty))
      | Some brace \<Rightarrow>
          if last metric \<noteq> CHR ''}'' then Inl UnterminatedLabelSet
          else and_then (validate_metric_name (take brace metric)) (\<lambda>_.
               and_then (parse_labels (butlast (drop (brace + 1) metric))) (\<lambda>labels.
               Inr (take brace metric, labels))))"

text \<open>\<open>split_ascii_whitespace().next()\<close>.\<close>

definition first_word :: "string \<Rightarrow> string option" where
  "first_word s =
     (let w = takeWhile (\<lambda>c. \<not> is_ascii_whitespace c) (dropWhile is_ascii_whitespace s)
      in if w = [] then None else Some w)"

definition parse_sample :: "nat \<Rightarrow> string \<Rightarrow> (prometheus_sample, prometheus_error) result" where
  "parse_sample line_number line =
     (case split_metric_and_value line of
        None \<Rightarrow> Inl (InvalidSample line_number)
      | Some (metric, remainder) \<Rightarrow>
          (case first_word remainder of
             None \<Rightarrow> Inl (MissingValue line_number)
           | Some value_text \<Rightarrow>
               (case parse_f64 value_text of
                  None \<Rightarrow> Inl (InvalidValue line_number)
                | Some v \<Rightarrow>
                    (case parse_metric metric of
                       Inl e \<Rightarrow> Inl (InvalidMetric e line_number)
                     | Inr (name, labels) \<Rightarrow> Inr \<lparr>ps_name = name, ps_labels = labels, ps_value = v\<rparr>))))"

fun parse_lines ::
    "usize \<Rightarrow> nat \<Rightarrow> string list \<Rightarrow> prometheus_sample list \<Rightarrow> (prometheus_sample list, prometheus_error) result" where
  "parse_lines max_samples index [] samples = Inr samples"
| "parse_lines max_samples index (raw_line # rest) samples =
     (let line = trim raw_line
      in if line = [] \<or> hd line = CHR ''#'' then parse_lines max_samples (index + 1) rest samples
         else if max_samples \<le> length samples then Inl (TooManySamples max_samples)
         else and_then (parse_sample (index + 1) line)
                (\<lambda>sample. parse_lines max_samples (index + 1) rest (samples @ [sample])))"

definition parse_prometheus :: "string \<Rightarrow> usize \<Rightarrow> (prometheus_sample list, prometheus_error) result" where
  "parse_prometheus input max_samples = parse_lines max_samples 0 (str_lines input) []"

section \<open>The writer\<close>

text \<open>\<open>str::replace\<close> of one character.\<close>

definition replace_char :: "char \<Rightarrow> string \<Rightarrow> string \<Rightarrow> string" where
  "replace_char c r s = concat (map (\<lambda>d. if d = c then r else [d]) s)"

definition escape_label :: "string \<Rightarrow> string" where
  "escape_label v =
     replace_char dquote [backslash, dquote]
       (replace_char line_feed [backslash, CHR ''n''] (replace_char backslash [backslash, backslash] v))"

fun label_list :: "(string \<times> string) list \<Rightarrow> string" where
  "label_list [] = []"
| "label_list [(key, v)] = key @ [CHR ''='', dquote] @ escape_label v @ [dquote]"
| "label_list ((key, v) # labels) =
     key @ [CHR ''='', dquote] @ escape_label v @ [dquote] @ '','' @ label_list labels"

definition metric_float_line :: "string \<Rightarrow> (string \<times> string) list \<Rightarrow> string \<Rightarrow> string" where
  "metric_float_line name labels v = name @ ''{'' @ label_list labels @ ''} '' @ v @ [line_feed]"

definition metric_line :: "string \<Rightarrow> (string \<times> string) list \<Rightarrow> nat \<Rightarrow> string" where
  "metric_line name labels v = metric_float_line name labels (nat_to_dec v)"

section \<open>A written line reads back\<close>

lemmas char_class_defs =
  dquote_def backslash_def line_feed_def is_ascii_def is_ascii_whitespace_def is_ascii_alphabetic_def
  is_ascii_alphanumeric_def is_dec_digit_def is_label_char_def is_name_char_def is_name_start_def

definition escape_char :: "char \<Rightarrow> string" where
  "escape_char c =
     (if c = backslash then [backslash, backslash] else if c = line_feed then [backslash, CHR ''n'']
      else if c = dquote then [backslash, dquote] else [c])"

lemma escape_label_concat: "escape_label v = concat (map escape_char v)"
proof (induction v)
  case Nil
  then show ?case by (simp add: escape_label_def replace_char_def)
next
  case (Cons c v)
  have "escape_label (c # v) = escape_char c @ escape_label v"
    by (simp add: escape_label_def replace_char_def escape_char_def dquote_def backslash_def line_feed_def)
  with Cons show ?case by simp
qed

lemma parse_escaped:
  "list_all is_ascii v \<Longrightarrow> parse_label_value key (escape_label v @ dquote # rest) = Inr (v, rest)"
proof (induction v)
  case Nil
  then show ?case by (simp add: escape_label_concat)
next
  case (Cons c v)
  then have "parse_label_value key (concat (map escape_char v) @ dquote # rest) = Inr (v, rest)"
    by (simp add: escape_label_concat)
  with Cons.prems show ?case
    by (auto simp: escape_label_concat escape_char_def unescape_def char_from_def Let_def
        dquote_def backslash_def line_feed_def is_ascii_def)
qed

definition label_ok :: "string \<times> string \<Rightarrow> bool" where
  "label_ok l \<longleftrightarrow> fst l \<noteq> [] \<and> list_all is_label_char (fst l) \<and> list_all is_ascii (snd l)"

abbreviation label_text :: "string \<times> string \<Rightarrow> string" where
  "label_text l \<equiv> fst l @ [CHR ''='', dquote] @ escape_label (snd l) @ [dquote]"

lemma label_list_Cons:
  "label_list (l # ls) = label_text l @ (if ls = [] then [] else '','' @ label_list ls)"
  by (cases l; cases ls) simp_all

lemma parse_label_text:
  assumes "label_ok l"
  shows "parse_label (label_text l @ rest) = Inr (fst l, snd l, rest)"
proof -
  have eq: "\<not> is_label_char (CHR ''='')" "\<not> is_ascii_whitespace (CHR ''='')" "\<not> is_ascii_whitespace dquote"
    by (simp_all add: char_class_defs)
  have key: "takeWhile is_label_char (label_text l @ rest) = fst l"
    "dropWhile is_label_char (label_text l @ rest) = CHR ''='' # dquote # escape_label (snd l) @ dquote # rest"
    using assms eq(1) by (simp_all add: label_ok_def list_all_iff takeWhile_append2 dropWhile_append2)
  show ?thesis
    unfolding parse_label_def key using assms eq by (simp add: label_ok_def parse_escaped)
qed

lemma label_char_no_separator: "is_label_char c \<Longrightarrow> \<not> (is_ascii_whitespace c \<or> c = CHR '','')"
  by (auto simp: char_class_defs Let_def)

lemma parse_labels_loop_list:
  assumes "list_all label_ok ls" and "distinct (map fst ls)" and "\<forall>l \<in> set ls. \<not> bt_contains m (fst l)"
    and "sep = [] \<or> sep = '',''"
  shows "parse_labels_loop (sep @ label_list ls) m = Inr (fold (\<lambda>(k, v). bt_insert k v) ls m)"
  using assms
proof (induction ls arbitrary: m sep)
  case Nil
  then show ?case by (subst parse_labels_loop.simps) auto
next
  case (Cons l ls)
  let ?tail = "if ls = [] then [] else '','' @ label_list ls"
  have ok: "label_ok l" using Cons.prems(1) by simp
  then obtain c cs where key: "fst l = c # cs" "is_label_char c" by (cases "fst l") (auto simp: label_ok_def)
  have drop: "dropWhile (\<lambda>c. is_ascii_whitespace c \<or> c = CHR '','') (sep @ label_text l @ ?tail) = label_text l @ ?tail"
    using Cons.prems(4) label_char_no_separator [OF key(2)] by (auto simp: key(1))
  have tail: "dropWhile is_ascii_whitespace ?tail = ?tail" "?tail = [] \<or> hd ?tail = CHR '',''"
    by (simp_all add: char_class_defs)
  have "parse_labels_loop (sep @ label_list (l # ls)) m = parse_labels_loop ?tail (bt_insert (fst l) (snd l) m)"
    using Cons.prems(3) tail
    by (subst parse_labels_loop.simps, unfold label_list_Cons drop Let_def parse_label_text [OF ok])
      (simp add: key(1))
  also have "\<dots> = Inr (fold (\<lambda>(k, v). bt_insert k v) ls (bt_insert (fst l) (snd l) m))"
  proof -
    have "parse_labels_loop ((if ls = [] then [] else '','') @ label_list ls) (bt_insert (fst l) (snd l) m) =
        Inr (fold (\<lambda>(k, v). bt_insert k v) ls (bt_insert (fst l) (snd l) m))"
      using Cons.prems by (intro Cons.IH) (auto simp: bt_contains_def image_iff)
    then show ?thesis by (cases "ls = []") simp_all
  qed
  finally show ?case by (simp add: case_prod_unfold)
qed

lemma parse_labels_list:
  assumes "list_all label_ok ls" and "distinct (map fst ls)"
  shows "parse_labels (label_list ls) = Inr (bt_of_list ls)"
  using parse_labels_loop_list [OF assms, of bt_empty "[]"]
  by (simp add: parse_labels_def bt_of_list_def bt_contains_def)

text \<open>The scan for the end of the metric passes over plain characters and over quoted values.\<close>

definition is_plain :: "char \<Rightarrow> bool" where
  "is_plain c \<longleftrightarrow> c \<noteq> dquote \<and> c \<noteq> CHR ''{'' \<and> c \<noteq> CHR ''}'' \<and> \<not> is_ascii_whitespace c"

definition after :: "string \<Rightarrow> (string \<times> string) option \<Rightarrow> (string \<times> string) option" where
  "after s r = map_option (apfst ((@) s)) r"

lemma after_simps [simp]: "after [] r = r" "after s (after t r) = after (s @ t) r"
  by (cases r; auto simp: after_def)+

lemma after_Some [simp]: "after s (Some p) = Some (s @ fst p, snd p)"
  by (cases p) (simp add: after_def)

lemma after_Cons: "map_option (apfst ((#) c)) r = after [c] r"
  by (cases r) (auto simp: after_def)

lemma split_plain:
  "list_all is_plain s \<Longrightarrow> split_metric False False b (s @ rest) = after s (split_metric False False b rest)"
proof (induction s)
  case Nil
  then show ?case by simp
next
  case (Cons c s)
  then show ?case by (simp add: is_plain_def after_Cons)
qed

lemma split_quoted:
  "split_metric True False b (escape_label v @ dquote # rest) =
     after (escape_label v @ [dquote]) (split_metric False False b rest)"
proof (induction v)
  case Nil
  then show ?case by (simp add: escape_label_concat after_Cons dquote_def backslash_def)
next
  case (Cons c v)
  then show ?case
    by (auto simp: escape_label_concat escape_char_def after_Cons dquote_def backslash_def line_feed_def)
qed

lemma label_char_plain: "is_label_char c \<Longrightarrow> is_plain c"
  by (auto simp: is_plain_def char_class_defs Let_def)

lemma name_char_plain: "is_name_char c \<Longrightarrow> is_plain c"
  by (auto simp: is_plain_def char_class_defs Let_def)

lemma split_label_text:
  assumes "label_ok l"
  shows "split_metric False False b (label_text l @ rest) = after (label_text l) (split_metric False False b rest)"
proof -
  have plain: "list_all is_plain (fst l @ [CHR ''=''])"
    using assms by (auto simp: label_ok_def list_all_iff label_char_plain) (simp add: is_plain_def char_class_defs)
  have "split_metric False False b ((fst l @ [CHR ''='']) @ dquote # escape_label (snd l) @ dquote # rest) =
      after (fst l @ [CHR ''='']) (split_metric False False b (dquote # escape_label (snd l) @ dquote # rest))"
    by (rule split_plain [OF plain])
  also have "split_metric False False b (dquote # escape_label (snd l) @ dquote # rest) =
      after (dquote # escape_label (snd l) @ [dquote]) (split_metric False False b rest)"
    by (simp add: split_quoted after_Cons)
  finally show ?thesis by simp
qed

lemma split_label_list:
  "list_all label_ok ls \<Longrightarrow>
   split_metric False False b (label_list ls @ rest) = after (label_list ls) (split_metric False False b rest)"
proof (induction ls)
  case Nil
  then show ?case by simp
next
  case (Cons l ls)
  have comma: "split_metric False False b (CHR '','' # s) = after '','' (split_metric False False b s)" for s
    by (simp add: after_Cons char_class_defs)
  show ?case
  proof (cases "ls = []")
    case True
    then show ?thesis using Cons.prems split_label_text [of l b rest] by (cases l) simp
  next
    case False
    have "split_metric False False b (label_list (l # ls) @ rest) =
        after (label_text l) (split_metric False False b (CHR '','' # label_list ls @ rest))"
      using Cons.prems False split_label_text [of l b "CHR '','' # label_list ls @ rest"]
      by (simp add: label_list_Cons)
    also have "\<dots> = after (label_list (l # ls)) (split_metric False False b rest)"
      using Cons False by (simp add: comma label_list_Cons del: split_metric.simps)
    finally show ?thesis .
  qed
qed

text \<open>White space at neither end: trimming changes nothing.\<close>

lemma utf8_chars_ascii: "list_all is_ascii s \<Longrightarrow> utf8_chars s = map (\<lambda>c. [c]) s"
proof (induction s)
  case (Cons c s)
  have "takeWhile is_continuation s = [] \<and> dropWhile is_continuation s = s"
    using Cons.prems by (cases s) (auto simp: is_ascii_def is_continuation_def)
  with Cons show ?case by simp
qed simp

lemma is_whitespace_single: "is_whitespace [c] \<longleftrightarrow> (of_char c :: nat) \<in> {9..13} \<union> {32}"
  by (auto simp: is_whitespace_def)

lemma trim_start_ascii:
  "list_all is_ascii s \<Longrightarrow> trim_start s = dropWhile (\<lambda>c. is_whitespace [c]) s"
  by (simp add: trim_start_def utf8_chars_ascii dropWhile_map o_def)

lemma trim_ascii:
  assumes "list_all is_ascii s" and "s \<noteq> []" and "\<not> is_whitespace [hd s]" and "\<not> is_whitespace [last s]"
  shows "trim s = s"
proof -
  have "dropWhile (\<lambda>c. is_whitespace [c]) s = s" using assms(2,3) by (cases s) simp_all
  moreover have "dropWhile (\<lambda>c. is_whitespace [c]) (rev s) = rev s"
    using assms(2,4) by (cases s rule: rev_cases) simp_all
  ultimately show ?thesis
    using assms(1) by (simp add: trim_def utf8_chars_ascii dropWhile_map o_def rev_map)
qed

definition name_ok :: "string \<Rightarrow> bool" where
  "name_ok name \<longleftrightarrow> validate_metric_name name = Inr ()"

definition value_text_ok :: "string \<Rightarrow> bool" where
  "value_text_ok v \<longleftrightarrow> v \<noteq> [] \<and> list_all (\<lambda>c. is_ascii c \<and> \<not> is_whitespace [c]) v"

lemma name_ok_plain: "name_ok name \<Longrightarrow> name \<noteq> [] \<and> list_all is_name_char name"
  by (cases name)
    (auto simp: name_ok_def list_all_iff list_ex_iff is_name_start_def is_name_char_def
      is_ascii_alphanumeric_def split: if_splits)

lemma name_ok_list: "name_ok name \<Longrightarrow> list_all is_plain name"
  using name_ok_plain [of name] by (simp add: list_all_iff name_char_plain)

lemma whitespace_ascii: "is_ascii_whitespace c \<Longrightarrow> is_whitespace [c]"
  by (auto simp: is_ascii_whitespace_def is_whitespace_single)

lemma value_text_trim: "value_text_ok v \<Longrightarrow> trim_start (CHR '' '' # v) = v"
  by (cases v) (auto simp: value_text_ok_def trim_start_ascii list_all_iff is_whitespace_single is_ascii_def)

lemma value_text_word:
  assumes "value_text_ok v"
  shows "first_word v = Some v"
proof -
  have "\<forall>c \<in> set v. \<not> is_ascii_whitespace c" using assms whitespace_ascii by (auto simp: value_text_ok_def list_all_iff)
  then have word: "dropWhile is_ascii_whitespace v = v" "takeWhile (\<lambda>c. \<not> is_ascii_whitespace c) v = v"
    by (cases v; simp)+
  show ?thesis using assms unfolding first_word_def word by (simp add: value_text_ok_def)
qed

lemma str_find_brace: "list_all is_plain name \<Longrightarrow> str_find (name @ CHR ''{'' # rest) ''{'' = Some (length name)"
  by (induction name) (auto simp: is_plain_def)

lemma str_find_no_brace: "list_all is_plain name \<Longrightarrow> str_find name ''{'' = None"
  by (induction name) (auto simp: is_plain_def)

lemma parse_metric_labelled:
  assumes "name_ok name" and "list_all label_ok ls" and "distinct (map fst ls)"
  shows "parse_metric (name @ CHR ''{'' # label_list ls @ ''}'') = Inr (name, bt_of_list ls)"
  using assms by (simp add: parse_metric_def str_find_brace [OF name_ok_list] name_ok_def parse_labels_list)

lemma parse_sample_labelled:
  assumes "name_ok name" and "list_all label_ok ls" and "distinct (map fst ls)"
    and "value_text_ok v" and "parse_f64 v = Some x"
  shows "parse_sample n (name @ ''{'' @ label_list ls @ ''} '' @ v) =
     Inr \<lparr>ps_name = name, ps_labels = bt_of_list ls, ps_value = x\<rparr>"
proof -
  have close: "split_metric False False 1 (''} '' @ v) = Some (''}'', v)"
    using value_text_trim [OF assms(4)] by (simp add: char_class_defs)
  have "split_metric False False 0 (name @ CHR ''{'' # label_list ls @ ''} '' @ v) =
      after name (after ''{'' (split_metric False False 1 (label_list ls @ ''} '' @ v)))"
    using assms(1) by (simp add: split_plain name_ok_list after_Cons char_class_defs)
  also have "\<dots> = Some (name @ CHR ''{'' # label_list ls @ ''}'', v)"
    unfolding split_label_list [OF assms(2)] close by simp
  finally have "split_metric_and_value (name @ ''{'' @ label_list ls @ ''} '' @ v) =
      Some (name @ CHR ''{'' # label_list ls @ ''}'', v)"
    by (simp add: split_metric_and_value_def)
  then show ?thesis
    unfolding parse_sample_def
    by (simp add: value_text_word [OF assms(4)] assms(5) parse_metric_labelled [OF assms(1-3)])
qed

lemma parse_sample_plain:
  assumes "name_ok name" and "value_text_ok v" and "parse_f64 v = Some x"
  shows "parse_sample n (name @ CHR '' '' # v) = Inr \<lparr>ps_name = name, ps_labels = bt_empty, ps_value = x\<rparr>"
proof -
  have "split_metric False False 0 (name @ CHR '' '' # v) = after name (Some ([], v))"
    using assms(1) value_text_trim [OF assms(2)]
    by (simp add: split_plain name_ok_list char_class_defs)
  then show ?thesis
    using assms name_ok_list [OF assms(1)]
    by (simp add: parse_sample_def split_metric_and_value_def value_text_word parse_metric_def
        str_find_no_brace name_ok_def)
qed

section \<open>A written page reads back\<close>

text \<open>
  What the parser makes of one line, wherever it stands: nothing for a comment, a sample
  otherwise.
\<close>

definition line_reads :: "string \<Rightarrow> prometheus_sample option \<Rightarrow> bool" where
  "line_reads l r \<longleftrightarrow>
     line_feed \<notin> set l \<and> strip_cr l = l \<and>
     (case r of
        None \<Rightarrow> trim l = [] \<or> hd (trim l) = CHR ''#''
      | Some sample \<Rightarrow> trim l \<noteq> [] \<and> hd (trim l) \<noteq> CHR ''#'' \<and> (\<forall>n. parse_sample n (trim l) = Inr sample))"

lemma str_lines_cons:
  assumes "line_feed \<notin> set l" and "strip_cr l = l"
  shows "str_lines (l @ line_feed # rest) = l # str_lines rest"
proof -
  have "takeWhile (\<lambda>c. c \<noteq> line_feed) (l @ line_feed # rest) = l"
    "dropWhile (\<lambda>c. c \<noteq> line_feed) (l @ line_feed # rest) = line_feed # rest"
    using assms(1) by (induction l) auto
  then show ?thesis using assms(2) by (subst str_lines.simps) simp
qed

lemma str_lines_page:
  "list_all2 line_reads ls rs \<Longrightarrow> str_lines (concat (map (\<lambda>l. l @ [line_feed]) ls)) = ls"
proof (induction rule: list_all2_induct)
  case Nil
  then show ?case by (simp add: str_lines.simps)
next
  case (Cons l ls r rs)
  then show ?case using str_lines_cons [of l] by (simp add: line_reads_def)
qed

lemma parse_lines_page:
  assumes "list_all2 line_reads ls rs" and "length acc + length (List.map_filter id rs) \<le> max_samples"
  shows "parse_lines max_samples n ls acc = Inr (acc @ List.map_filter id rs)"
  using assms
proof (induction arbitrary: n acc rule: list_all2_induct)
  case Nil
  then show ?case by (simp add: map_filter_def)
next
  case (Cons l ls r rs)
  then show ?case
    by (cases r) (simp_all add: line_reads_def map_filter_def disj_imp)
qed

lemma parse_page:
  assumes "list_all2 line_reads ls rs" and "length (List.map_filter id rs) \<le> max_samples"
  shows "parse_prometheus (concat (map (\<lambda>l. l @ [line_feed]) ls)) max_samples = Inr (List.map_filter id rs)"
  using parse_lines_page [OF assms(1), of "[]"] assms(2)
  by (simp add: parse_prometheus_def str_lines_page [OF assms(1)])

subsection \<open>The lines the writers produce\<close>

text \<open>A byte that may stand inside a written line.\<close>

abbreviation inline :: "char \<Rightarrow> bool" where
  "inline c \<equiv> is_ascii c \<and> c \<noteq> line_feed"

lemma name_char_inline: "is_name_char c \<Longrightarrow> inline c"
  by (auto simp: char_class_defs Let_def)

lemma label_char_inline: "is_label_char c \<Longrightarrow> inline c"
  by (auto simp: char_class_defs Let_def)

lemma escape_inline: "list_all is_ascii v \<Longrightarrow> list_all inline (escape_label v)"
  by (auto simp: escape_label_concat escape_char_def list_all_iff dquote_def backslash_def line_feed_def is_ascii_def
      split: if_splits)

lemma label_list_inline: "list_all label_ok ls \<Longrightarrow> list_all inline (label_list ls)"
proof (induction ls)
  case (Cons l ls)
  have "list_all inline (fst l)" using Cons.prems by (auto simp: label_ok_def list_all_iff label_char_inline)
  moreover have "list_all inline (escape_label (snd l))" using Cons.prems by (intro escape_inline) (simp add: label_ok_def)
  ultimately show ?case
    using Cons by (simp add: label_list_Cons) (simp add: dquote_def line_feed_def is_ascii_def)
qed simp

lemma value_text_inline: "value_text_ok v \<Longrightarrow> list_all inline v"
  by (auto simp: value_text_ok_def list_all_iff is_whitespace_single line_feed_def)

text \<open>A line that starts with a name and ends with a value is read as it is written.\<close>

lemma line_reads_sample:
  assumes "name_ok name" and "list_all inline m" and "value_text_ok v"
    and "\<And>n. parse_sample n (name @ m @ v) = Inr sample"
  shows "line_reads (name @ m @ v) (Some sample)"
proof -
  obtain c cs where c: "name = c # cs" "is_name_char c"
    using name_ok_plain [OF assms(1)] by (cases name) auto
  have name: "list_all inline name"
    using name_ok_plain [OF assms(1)] by (auto simp: list_all_iff name_char_inline)
  have v: "v \<noteq> []" "\<not> is_whitespace [last v]" using assms(3) by (auto simp: value_text_ok_def list_all_iff)
  have hd: "\<not> is_whitespace [c]" "c \<noteq> CHR ''#''"
    using c(2) by (auto simp: is_whitespace_single char_class_defs Let_def)
  have ascii: "list_all inline (name @ m @ v)" using name assms(2) value_text_inline [OF assms(3)] by simp
  have trim: "trim (name @ m @ v) = name @ m @ v"
    using ascii v hd c(1) by (intro trim_ascii) (auto simp: list_all_iff)
  have "strip_cr (name @ m @ v) = name @ m @ v"
    using v by (auto simp: strip_cr_def is_whitespace_single)
  moreover have "line_feed \<notin> set (name @ m @ v)" using ascii by (auto simp: list_all_iff)
  moreover have "hd (name @ m @ v) \<noteq> CHR ''#''" using hd(2) c(1) by simp
  ultimately show ?thesis unfolding line_reads_def trim using assms(4) v(1) by simp
qed

lemma labelled_line_reads:
  assumes "name_ok name" and "list_all label_ok ls" and "distinct (map fst ls)"
    and "value_text_ok v" and "parse_f64 v = Some x"
  shows "line_reads (name @ (''{'' @ label_list ls @ ''} '') @ v)
     (Some \<lparr>ps_name = name, ps_labels = bt_of_list ls, ps_value = x\<rparr>)"
proof (rule line_reads_sample [OF assms(1) _ assms(4)])
  show "list_all inline (''{'' @ label_list ls @ ''} '')"
    using label_list_inline [OF assms(2)] by (simp add: line_feed_def is_ascii_def)
qed (use parse_sample_labelled [OF assms] in simp)

lemma plain_line_reads:
  assumes "name_ok name" and "value_text_ok v" and "parse_f64 v = Some x"
  shows "line_reads (name @ '' '' @ v) (Some \<lparr>ps_name = name, ps_labels = bt_empty, ps_value = x\<rparr>)"
  by (rule line_reads_sample [OF assms(1) _ assms(2)])
    (use parse_sample_plain [OF assms] in \<open>simp_all add: line_feed_def is_ascii_def\<close>)

lemma comment_line_reads:
  assumes "list_all inline l" and "l \<noteq> []" and "hd l = CHR ''#''" and "\<not> is_whitespace [last l]"
  shows "line_reads l None"
proof -
  have "\<not> is_whitespace [CHR ''#'']" by (simp add: is_whitespace_single)
  then have "trim l = l" using assms by (intro trim_ascii) (auto simp: list_all_iff)
  moreover have "strip_cr l = l" using assms(4) by (auto simp: strip_cr_def is_whitespace_single)
  ultimately show ?thesis using assms by (auto simp: line_reads_def list_all_iff)
qed

lemma nat_to_dec_value_text: "value_text_ok (nat_to_dec n)"
  using printed_digits [of n]
  by (auto simp: value_text_ok_def list_all_iff is_dec_digit_def is_ascii_def is_whitespace_single)

end
