(* ===== verification/Remote_Telemetry.thy ===== *)
theory Remote_Telemetry
  imports Prometheus Registry
begin

text \<open>
  The telemetry of the remote engine adapter, \<open>crates/engine-openai/src/lib.rs\<close>: what is read from
  a scrape of the engine's metrics, the cache behind the mutex and the snapshot made of it. The
  HTTP client, \<open>serde\<close>, the printing of a status code and of an error of these crates, and
  \<open>Debug\<close> of a string are the fields of \<open>remote_env\<close>. A reading of the system clock is the
  milliseconds since the epoch or the error text of \<open>duration_since\<close>. An operation
  that awaits in between is cut at its critical sections, so that the state may change meanwhile.
\<close>

section \<open>Configuration\<close>

record remote_telemetry_config =
  rtc_metrics_path :: string
  rtc_request_timeout_millis :: u64
  rtc_min_scrape_interval_millis :: u64
  rtc_valid_for_millis :: u64
  rtc_max_response_bytes :: usize
  rtc_max_samples :: usize
  rtc_require_fresh_metrics :: bool

definition remote_telemetry_config_default :: remote_telemetry_config where
  "remote_telemetry_config_default =
     \<lparr>rtc_metrics_path = ''/metrics'', rtc_request_timeout_millis = 2000,
      rtc_min_scrape_interval_millis = 500, rtc_valid_for_millis = 5000,
      rtc_max_response_bytes = 2 * 1024 * 1024, rtc_max_samples = 20000, rtc_require_fresh_metrics = False\<rparr>"

record remote_execution_target =
  rx_served_model :: string
  rx_target :: execution_target

record remote_engine_config =
  rcf_base_url :: string
  rcf_api_key :: "string option"
  rcf_instance :: engine_instance
  rcf_targets :: "remote_execution_target list"
  rcf_telemetry :: remote_telemetry_config

datatype runtime_flavor = Sglang | Vllm

fun flavor_as_str :: "runtime_flavor \<Rightarrow> string" where
  "flavor_as_str Sglang = ''sglang''"
| "flavor_as_str Vllm = ''vllm''"

text \<open>\<open>RemoteCompletionAdapter::new\<close>: the loop over the candidates, then the checks before it.\<close>

fun check_targets ::
    "engine_instance_ref \<Rightarrow> remote_execution_target list \<Rightarrow> string set \<Rightarrow> string set \<Rightarrow> (unit, engine_error) result" where
  "check_targets reference [] target_ids served = Inr ()"
| "check_targets reference (candidate # candidates) target_ids served =
     (if et_engine (rx_target candidate) \<noteq> reference
      then Inl (EngineExecution ''remote target generation does not match engine instance'')
      else if is_blank (rx_served_model candidate)
      then Inl (EngineExecution ''remote served model must not be empty'')
      else if et_id (rx_target candidate) \<in> target_ids
      then Inl (EngineExecution (''duplicate remote target id: '' @ et_id (rx_target candidate)))
      else if rx_served_model candidate \<in> served
      then Inl (EngineExecution (''duplicate remote served model: '' @ rx_served_model candidate))
      else check_targets reference candidates (insert (et_id (rx_target candidate)) target_ids)
             (insert (rx_served_model candidate) served))"

definition check_config :: "remote_engine_config \<Rightarrow> (unit, engine_error) result" where
  "check_config cfg =
     (let telemetry = rcf_telemetry cfg in
      if is_blank (rcf_base_url cfg) then Inl (EngineExecution ''remote engine base URL must not be empty'')
      else if rcf_targets cfg = [] then Inl (EngineExecution ''remote engine must have at least one model candidate'')
      else if is_blank (rtc_metrics_path telemetry) \<or> rtc_request_timeout_millis telemetry = 0 \<or>
              rtc_min_scrape_interval_millis telemetry = 0 \<or> rtc_valid_for_millis telemetry = 0 \<or>
              rtc_max_response_bytes telemetry = 0 \<or> rtc_max_samples telemetry = 0
      then Inl (EngineExecution ''remote telemetry limits and metrics path must be non-empty and non-zero'')
      else check_targets (ei_reference (rcf_instance cfg)) (rcf_targets cfg) {} {})"

section \<open>Reading a scrape\<close>

record target_telemetry =
  tt_running_requests :: "u64 option"
  tt_waiting_requests :: "u64 option"
  tt_estimated_queue_micros :: "u64 option"
  tt_kv_cache_usage_permyriad :: "nat option"
  tt_prefill_tokens_per_second :: "u64 option"
  tt_decode_tokens_per_second :: "u64 option"

definition target_telemetry_default :: target_telemetry where
  "target_telemetry_default =
     \<lparr>tt_running_requests = None, tt_waiting_requests = None, tt_estimated_queue_micros = None,
      tt_kv_cache_usage_permyriad = None, tt_prefill_tokens_per_second = None, tt_decode_tokens_per_second = None\<rparr>"

record counter_baseline =
  cb_observed_at_unix_millis :: u64
  cb_prompt_tokens :: "f64 option"
  cb_generation_tokens :: "f64 option"

record metric_counters =
  mct_prompt_tokens :: "f64 option"
  mct_generation_tokens :: "f64 option"

definition confidence :: "target_telemetry \<Rightarrow> telemetry_confidence" where
  "confidence t =
     (let scheduler = tt_running_requests t \<noteq> None \<and> tt_waiting_requests t \<noteq> None;
          rates = tt_prefill_tokens_per_second t \<noteq> None \<or> tt_decode_tokens_per_second t \<noteq> None
      in if scheduler \<and> rates then High
         else if scheduler then Medium
         else if rates \<or> tt_kv_cache_usage_permyriad t \<noteq> None then Low
         else UnknownConfidence)"

fun sample_matches_keys :: "string list \<Rightarrow> bool \<Rightarrow> prometheus_sample \<Rightarrow> string \<Rightarrow> bool" where
  "sample_matches_keys [] observed s served_model = (\<not> observed)"
| "sample_matches_keys (key # keys) observed s served_model =
     (case bt_get (ps_labels s) key of
        None \<Rightarrow> sample_matches_keys keys observed s served_model
      | Some v \<Rightarrow> if v = served_model then True else sample_matches_keys keys True s served_model)"

definition sample_matches_model :: "prometheus_sample \<Rightarrow> string \<Rightarrow> bool" where
  "sample_matches_model s served_model =
     sample_matches_keys [''model_name'', ''model'', ''served_model_name''] False s served_model"

text \<open>A value that is finite and not negative.\<close>

definition usable :: "f64 \<Rightarrow> bool" where
  "usable v \<longleftrightarrow> is_finite v \<and> \<not> f_less v (F_Fin 0)"

definition matching_values :: "prometheus_sample list \<Rightarrow> string \<Rightarrow> string \<Rightarrow> f64 list" where
  "matching_values samples name served_model =
     filter usable (map ps_value (filter (\<lambda>s. ps_name s = name \<and> sample_matches_model s served_model) samples))"

fun metric_sum :: "prometheus_sample list \<Rightarrow> string list \<Rightarrow> string \<Rightarrow> f64 option" where
  "metric_sum samples [] served_model = None"
| "metric_sum samples (name # names) served_model =
     (let matching = matching_values samples name served_model
      in if matching \<noteq> [] then Some (fold (\<lambda>v acc. f_add acc v) matching (F_Fin 0))
         else metric_sum samples names served_model)"

text \<open>\<open>reduce(f64::max)\<close>.\<close>

fun reduce_max :: "f64 list \<Rightarrow> f64 option" where
  "reduce_max [] = None"
| "reduce_max (v # vs) = Some (fold (\<lambda>v acc. f_max acc v) vs v)"

fun metric_max :: "prometheus_sample list \<Rightarrow> string list \<Rightarrow> string \<Rightarrow> f64 option" where
  "metric_max samples [] served_model = None"
| "metric_max samples (name # names) served_model =
     (case reduce_max (matching_values samples name served_model) of
        Some m \<Rightarrow> Some m
      | None \<Rightarrow> metric_max samples names served_model)"

text \<open>
  \<open>u64::MAX as f64\<close> is \<open>2 ^ 64\<close>; \<open>round() as u64\<close> saturates.
\<close>

fun nonnegative_u64 :: "f64 \<Rightarrow> u64 option" where
  "nonnegative_u64 (F_Fin v) = (if v < 0 \<or> 2 ^ 64 < v then None else Some (min (round_to_nat v) u64_max))"
| "nonnegative_u64 _ = None"

definition seconds_to_micros :: "f64 \<Rightarrow> u64 option" where
  "seconds_to_micros v = nonnegative_u64 (f_scale 1000000 v)"

fun round_u16 :: "f64 \<Rightarrow> nat" where
  "round_u16 (F_Fin v) = min (round_to_nat v) (2 ^ 16 - 1)"
| "round_u16 (F_Inf neg) = (if neg then 0 else 2 ^ 16 - 1)"
| "round_u16 F_NaN = 0"

fun ratio_to_permyriad :: "f64 \<Rightarrow> nat option" where
  "ratio_to_permyriad (F_Fin v) = (if 0 \<le> v \<and> v \<le> 1 then Some (round_u16 (f_scale 10000 (F_Fin v))) else None)"
| "ratio_to_permyriad _ = None"

definition counter_rate :: "f64 option \<Rightarrow> f64 option \<Rightarrow> u64 option \<Rightarrow> u64 option" where
  "counter_rate current previous elapsed_millis =
     (case (current, previous, elapsed_millis) of
        (Some current, Some previous, Some elapsed_millis) \<Rightarrow>
          if \<not> is_finite current \<or> \<not> is_finite previous \<or> f_less current previous \<or> elapsed_millis = 0 then None
          else nonnegative_u64 (f_div (f_scale 1000 (f_sub current previous)) (f_of_u64 elapsed_millis))
      | _ \<Rightarrow> None)"

fun running_names :: "runtime_flavor \<Rightarrow> string list" where
  "running_names Sglang = [''sglang:num_running_reqs'', ''sglang_num_running_reqs'']"
| "running_names Vllm = [''vllm:num_requests_running'', ''vllm_num_requests_running'']"

fun waiting_names :: "runtime_flavor \<Rightarrow> string list" where
  "waiting_names Sglang = [''sglang:num_queue_reqs'', ''sglang_num_queue_reqs'']"
| "waiting_names Vllm = [''vllm:num_requests_waiting'', ''vllm_num_requests_waiting'']"

fun kv_names :: "runtime_flavor \<Rightarrow> string list" where
  "kv_names Sglang =
     [''sglang:token_usage'', ''sglang_token_usage'', ''sglang:full_token_usage'', ''sglang_full_token_usage'']"
| "kv_names Vllm =
     [''vllm:kv_cache_usage_perc'', ''vllm_kv_cache_usage_perc'', ''vllm:gpu_cache_usage_perc'',
      ''vllm_gpu_cache_usage_perc'']"

fun direct_decode_names :: "runtime_flavor \<Rightarrow> string list" where
  "direct_decode_names Sglang = [''sglang:gen_throughput'', ''sglang_gen_throughput'']"
| "direct_decode_names Vllm = []"

definition queue_seconds_names :: "string list" where
  "queue_seconds_names =
     [''locus:estimated_queue_seconds'', ''sglang:estimated_queue_time_seconds'', ''vllm:estimated_queue_time_seconds'']"

definition target_telemetry_of ::
    "runtime_flavor \<Rightarrow> prometheus_sample list \<Rightarrow> string \<Rightarrow> counter_baseline option \<Rightarrow> metric_counters \<Rightarrow> u64
     \<Rightarrow> target_telemetry" where
  "target_telemetry_of flavor samples served_model previous counters observed_at =
     (let direct_queue_seconds = metric_max samples queue_seconds_names served_model;
          elapsed_millis = map_option (\<lambda>b. sat_sub64 observed_at (cb_observed_at_unix_millis b)) previous;
          prefill_rate = counter_rate (mct_prompt_tokens counters) (Option.bind previous cb_prompt_tokens) elapsed_millis;
          decode_rate = (case Option.bind (metric_sum samples (direct_decode_names flavor) served_model) nonnegative_u64 of
             Some rate \<Rightarrow> Some rate
           | None \<Rightarrow> counter_rate (mct_generation_tokens counters) (Option.bind previous cb_generation_tokens) elapsed_millis)
      in \<lparr>tt_running_requests = Option.bind (metric_sum samples (running_names flavor) served_model) nonnegative_u64,
          tt_waiting_requests = Option.bind (metric_sum samples (waiting_names flavor) served_model) nonnegative_u64,
          tt_estimated_queue_micros = Option.bind direct_queue_seconds seconds_to_micros,
          tt_kv_cache_usage_permyriad = Option.bind (metric_max samples (kv_names flavor) served_model) ratio_to_permyriad,
          tt_prefill_tokens_per_second = prefill_rate,
          tt_decode_tokens_per_second = decode_rate\<rparr>)"

fun prompt_names :: "runtime_flavor \<Rightarrow> string list" where
  "prompt_names Sglang =
     [''sglang:prompt_tokens_total'', ''sglang_prompt_tokens_total'', ''sglang:input_tokens_total'',
      ''sglang_input_tokens_total'']"
| "prompt_names Vllm =
     [''vllm:prompt_tokens_total'', ''vllm_prompt_tokens_total'', ''vllm:prompt_tokens'', ''vllm_prompt_tokens'']"

fun generation_names :: "runtime_flavor \<Rightarrow> string list" where
  "generation_names Sglang =
     [''sglang:generation_tokens_total'', ''sglang_generation_tokens_total'', ''sglang:output_tokens_total'',
      ''sglang_output_tokens_total'']"
| "generation_names Vllm =
     [''vllm:generation_tokens_total'', ''vllm_generation_tokens_total'', ''vllm:generation_tokens'',
      ''vllm_generation_tokens'']"

definition metric_counters_of :: "runtime_flavor \<Rightarrow> prometheus_sample list \<Rightarrow> string \<Rightarrow> metric_counters" where
  "metric_counters_of flavor samples served_model =
     \<lparr>mct_prompt_tokens = metric_sum samples (prompt_names flavor) served_model,
      mct_generation_tokens = metric_sum samples (generation_names flavor) served_model\<rparr>"

section \<open>The engine's endpoints\<close>

datatype http_method = GET | POST

record remote_request =
  rr_method :: http_method
  rr_url :: string
  rr_bearer :: "string option"
  rr_headers :: "(string \<times> string) list"
  rr_json :: "json option"
  rr_timeout_millis :: "u64 option"

text \<open>
  A response: its status, its body or the error of reading it, the body decoded as text if it
  can be read, and the body as a stream of server-sent events.
\<close>

record remote_response =
  rs_status :: nat
  rs_body :: "(string, string) result"
  rs_text :: "string option"
  rs_events :: "(string, string) result list"

record completion_choice =
  co_index :: usize
  co_text :: string
  co_finish_reason :: "string option"

record completion_usage =
  cu_prompt_tokens :: u64
  cu_completion_tokens :: u64

record completion_chunk =
  ck_choices :: "completion_choice list"
  ck_usage :: "completion_usage option"
  ck_error :: "string option"

record remote_env =
  rn_client :: "remote_request \<Rightarrow> (remote_response, string) result"
  rn_chunk :: "string \<Rightarrow> (completion_chunk, string) result"
  rn_model_ids :: "string \<Rightarrow> (string list, string) result"
  rn_from_str :: json_from_str
  rn_json_error :: "string \<Rightarrow> string"
  rn_f32 :: "32 word \<Rightarrow> json"
  rn_status_text :: "nat \<Rightarrow> string"
  rn_utf8_error :: "string \<Rightarrow> string"
  rn_debug :: "string \<Rightarrow> string"

definition is_success :: "nat \<Rightarrow> bool" where
  "is_success status \<longleftrightarrow> 200 \<le> status \<and> status < 300"

text \<open>\<open>trim_end_matches('/')\<close> and \<open>trim_start_matches('/')\<close>.\<close>

definition trim_end_slashes :: "string \<Rightarrow> string" where
  "trim_end_slashes s = rev (dropWhile ((=) (CHR ''/'')) (rev s))"

definition trim_start_slashes :: "string \<Rightarrow> string" where
  "trim_start_slashes s = dropWhile ((=) (CHR ''/'')) s"

definition endpoint :: "remote_engine_config \<Rightarrow> string \<Rightarrow> string" where
  "endpoint cfg path = trim_end_slashes (rcf_base_url cfg) @ path"

definition metrics_endpoint :: "remote_engine_config \<Rightarrow> string" where
  "metrics_endpoint cfg =
     (let path = rtc_metrics_path (rcf_telemetry cfg)
      in if prefix ''http://'' path \<or> prefix ''https://'' path then path
         else endpoint cfg (''/'' @ trim_start_slashes path))"

definition authorized :: "remote_engine_config \<Rightarrow> remote_request \<Rightarrow> remote_request" where
  "authorized cfg r = (case rcf_api_key cfg of None \<Rightarrow> r | Some api_key \<Rightarrow> r\<lparr>rr_bearer := Some api_key\<rparr>)"

definition get_request :: "string \<Rightarrow> remote_request" where
  "get_request url =
     \<lparr>rr_method = GET, rr_url = url, rr_bearer = None, rr_headers = [], rr_json = None, rr_timeout_millis = None\<rparr>"

section \<open>The cache\<close>

record cached_telemetry =
  ca_observed_at_unix_millis :: u64
  ca_revision :: u64
  ca_targets :: "(string, target_telemetry) btree"

record telemetry_state =
  tls_revision :: u64
  tls_cache :: "cached_telemetry option"
  tls_counters :: "(string, counter_baseline) btree"

definition telemetry_state_default :: telemetry_state where
  "telemetry_state_default = \<lparr>tls_revision = 0, tls_cache = None, tls_counters = bt_empty\<rparr>"

record remote_adapter =
  ra_config :: remote_engine_config
  ra_flavor :: runtime_flavor
  ra_telemetry :: telemetry_state

definition remote_new :: "remote_engine_config \<Rightarrow> runtime_flavor \<Rightarrow> (remote_adapter, engine_error) result" where
  "remote_new cfg flavor =
     and_then (check_config cfg)
       (\<lambda>_. Inr \<lparr>ra_config = cfg, ra_flavor = flavor, ra_telemetry = telemetry_state_default\<rparr>)"

text \<open>\<open>Ok(None)\<close> is \<open>None\<close>: the lock is never poisoned, since nothing panics while it is held.\<close>

definition cached_telemetry_of ::
    "remote_telemetry_config \<Rightarrow> string \<Rightarrow> u64 \<Rightarrow> telemetry_state
     \<Rightarrow> (target_telemetry \<times> u64 \<times> u64 \<times> telemetry_status) option" where
  "cached_telemetry_of tcfg served_model now st =
     (case tls_cache st of
        None \<Rightarrow> None
      | Some cache \<Rightarrow>
          (case bt_get (ca_targets cache) served_model of
             None \<Rightarrow> None
           | Some telemetry \<Rightarrow>
               (let valid_until = sat_add64 (ca_observed_at_unix_millis cache) (rtc_valid_for_millis tcfg);
                    status = (if ca_observed_at_unix_millis cache \<le> now \<and> now \<le> valid_until then Fresh else Stale)
                in Some (telemetry, ca_observed_at_unix_millis cache, ca_revision cache, status))))"

text \<open>The errors below are all \<open>EngineError::Execution\<close>; the message stands for the error.\<close>

definition execution_error_text :: "string \<Rightarrow> string" where
  "execution_error_text message = ''engine execution failed: '' @ message"

definition unix_millis :: "(nat, string) result \<Rightarrow> (u64, string) result" where
  "unix_millis since_epoch =
     (case since_epoch of
        Inl error \<Rightarrow> Inl (''system clock precedes Unix epoch: '' @ error)
      | Inr millis \<Rightarrow> if u64_max < millis then Inl ''system clock exceeds telemetry range'' else Inr millis)"

fun metric_error_text :: "(string \<Rightarrow> string) \<Rightarrow> metric_error \<Rightarrow> string" where
  "metric_error_text dbg EmptyMetricName = ''empty Prometheus metric name''"
| "metric_error_text dbg (InvalidMetricName name) = ''invalid Prometheus metric name '' @ dbg name"
| "metric_error_text dbg UnterminatedLabelSet = ''unterminated Prometheus label set''"
| "metric_error_text dbg InvalidLabelName = ''invalid Prometheus label name''"
| "metric_error_text dbg (LabelOmittedEquals key) = ''Prometheus label '' @ dbg key @ '' omitted '' @ [CHR 0x27, CHR ''='', CHR 0x27]"
| "metric_error_text dbg (LabelNotQuoted key) = ''Prometheus label '' @ dbg key @ '' is not quoted''"
| "metric_error_text dbg UnterminatedLabelEscape = ''unterminated Prometheus label escape''"
| "metric_error_text dbg LabelNotAscii = ''Prometheus labels must be UTF-8 ASCII escapes''"
| "metric_error_text dbg (UnterminatedLabel key) = ''unterminated Prometheus label '' @ dbg key"
| "metric_error_text dbg (DuplicateLabel key) = ''duplicate Prometheus label '' @ dbg key"
| "metric_error_text dbg LabelsNotSeparated = ''Prometheus labels must be comma separated''"

fun prometheus_error_text :: "(string \<Rightarrow> string) \<Rightarrow> prometheus_error \<Rightarrow> string" where
  "prometheus_error_text dbg (TooManySamples n) =
     ''Prometheus response exceeds the '' @ nat_to_dec n @ ''-sample limit''"
| "prometheus_error_text dbg (InvalidSample n) = ''invalid Prometheus sample on line '' @ nat_to_dec n"
| "prometheus_error_text dbg (MissingValue n) = ''missing Prometheus value on line '' @ nat_to_dec n"
| "prometheus_error_text dbg (InvalidValue n) = ''invalid Prometheus value on line '' @ nat_to_dec n"
| "prometheus_error_text dbg (InvalidMetric e n) = metric_error_text dbg e @ '' on line '' @ nat_to_dec n"

text \<open>The part of \<open>observe_telemetry\<close> before the request: a recent observation is used again.\<close>

definition observe_cached ::
    "remote_telemetry_config \<Rightarrow> string \<Rightarrow> u64 \<Rightarrow> telemetry_state \<Rightarrow> (target_telemetry \<times> u64 \<times> u64) option" where
  "observe_cached tcfg served_model now st =
     (case cached_telemetry_of tcfg served_model now st of
        None \<Rightarrow> None
      | Some (telemetry, observed_at, revision, _) \<Rightarrow>
          if sat_sub64 now observed_at < rtc_min_scrape_interval_millis tcfg then Some (telemetry, observed_at, revision)
          else None)"

definition scrape :: "remote_env \<Rightarrow> remote_engine_config \<Rightarrow> (prometheus_sample list, string) result" where
  "scrape env cfg =
     (let tcfg = rcf_telemetry cfg in
      case rn_client env (authorized cfg
             ((get_request (metrics_endpoint cfg))\<lparr>rr_timeout_millis := Some (rtc_request_timeout_millis tcfg)\<rparr>)) of
        Inl error \<Rightarrow> Inl (''telemetry request failed: '' @ error)
      | Inr response \<Rightarrow>
          if \<not> is_success (rs_status response)
          then Inl (''telemetry endpoint returned '' @ rn_status_text env (rs_status response))
          else
            (case rs_body response of
               Inl error \<Rightarrow> Inl (''telemetry response read failed: '' @ error)
             | Inr bytes \<Rightarrow>
                 if rtc_max_response_bytes tcfg < length bytes
                 then Inl (''telemetry response exceeds the '' @ nat_to_dec (rtc_max_response_bytes tcfg) @ ''-byte limit'')
                 else if \<not> utf8_valid (map of_char bytes)
                 then Inl (''telemetry response is not UTF-8: '' @ rn_utf8_error env bytes)
                 else
                   (case parse_prometheus bytes (rtc_max_samples tcfg) of
                      Inl error \<Rightarrow> Inl (''invalid telemetry: '' @ prometheus_error_text (rn_debug env) error)
                    | Inr samples \<Rightarrow> Inr samples)))"

text \<open>The loop over the candidates in the critical section: the telemetry of each and its new baseline.\<close>

fun observe_targets ::
    "runtime_flavor \<Rightarrow> prometheus_sample list \<Rightarrow> u64 \<Rightarrow> remote_execution_target list
     \<Rightarrow> (string, counter_baseline) btree \<Rightarrow> (string, target_telemetry) btree
     \<Rightarrow> (string, counter_baseline) btree \<times> (string, target_telemetry) btree" where
  "observe_targets flavor samples observed_at [] counters targets = (counters, targets)"
| "observe_targets flavor samples observed_at (candidate # candidates) counters targets =
     (let served_model = rx_served_model candidate;
          current = metric_counters_of flavor samples served_model;
          telemetry = target_telemetry_of flavor samples served_model (bt_get counters served_model) current observed_at
      in observe_targets flavor samples observed_at candidates
           (bt_insert served_model
              \<lparr>cb_observed_at_unix_millis = observed_at, cb_prompt_tokens = mct_prompt_tokens current,
               cb_generation_tokens = mct_generation_tokens current\<rparr> counters)
           (bt_insert served_model telemetry targets))"

definition observe_commit ::
    "remote_engine_config \<Rightarrow> runtime_flavor \<Rightarrow> prometheus_sample list \<Rightarrow> string \<Rightarrow> u64 \<Rightarrow> telemetry_state
     \<Rightarrow> (target_telemetry \<times> u64 \<times> u64, string) result \<times> telemetry_state" where
  "observe_commit cfg flavor samples served_model observed_at st =
     (let revision = sat_add64 (tls_revision st) 1;
          (counters, targets) = observe_targets flavor samples observed_at (rcf_targets cfg) (tls_counters st) bt_empty;
          st' = st\<lparr>tls_revision := revision, tls_counters := counters\<rparr>
      in case bt_get targets served_model of
           None \<Rightarrow> (Inl (''telemetry has no configured candidate for '' @ served_model), st')
         | Some result \<Rightarrow>
             (Inr (result, observed_at, revision),
              st'\<lparr>tls_cache := Some \<lparr>ca_observed_at_unix_millis = observed_at, ca_revision = revision,
                                     ca_targets = targets\<rparr>\<rparr>))"

text \<open>
  \<open>observe_telemetry\<close>: \<open>st\<close> is the state at the first critical section, \<open>st'\<close> at the one
  after the scrape, and \<open>clock\<close>, \<open>clock'\<close> the readings before them.
\<close>

definition observe_telemetry ::
    "remote_env \<Rightarrow> remote_engine_config \<Rightarrow> runtime_flavor \<Rightarrow> string \<Rightarrow> (nat, string) result \<Rightarrow> (nat, string) result
     \<Rightarrow> telemetry_state \<Rightarrow> telemetry_state \<Rightarrow> (target_telemetry \<times> u64 \<times> u64, string) result \<times> telemetry_state" where
  "observe_telemetry env cfg flavor served_model clock clock' st st' =
     (case unix_millis clock of
        Inl error \<Rightarrow> (Inl error, st)
      | Inr now \<Rightarrow>
          (case observe_cached (rcf_telemetry cfg) served_model now st of
             Some observation \<Rightarrow> (Inr observation, st)
           | None \<Rightarrow>
               (case scrape env cfg of
                  Inl error \<Rightarrow> (Inl error, st')
                | Inr samples \<Rightarrow>
                    (case unix_millis clock' of
                       Inl error \<Rightarrow> (Inl error, st')
                     | Inr observed_at \<Rightarrow> observe_commit cfg flavor samples served_model observed_at st'))))"

section \<open>The snapshot\<close>

definition target_config :: "remote_engine_config \<Rightarrow> execution_target \<Rightarrow> (remote_execution_target, engine_error) result" where
  "target_config cfg target =
     (case find (\<lambda>candidate. rx_target candidate = target) (rcf_targets cfg) of
        None \<Rightarrow> Inl (EngineTargetNotFound (et_id target))
      | Some candidate \<Rightarrow> Inr candidate)"

record clock_readings =
  ck_snapshot :: "(nat, string) result"
  ck_observe :: "(nat, string) result"
  ck_scraped :: "(nat, string) result"

definition snapshot_of ::
    "remote_engine_config \<Rightarrow> runtime_flavor \<Rightarrow> execution_target \<Rightarrow> bool
     \<Rightarrow> target_telemetry \<times> u64 \<times> u64 \<times> telemetry_status \<times> string option \<Rightarrow> engine_snapshot" where
  "snapshot_of cfg flavor target health_ready = (\<lambda>(telemetry, observed_at, revision, status, reason).
     (let fresh = (status = Fresh)
      in \<lparr>es_target_id = et_id target,
          es_ready = health_ready \<and> (\<not> rtc_require_fresh_metrics (rcf_telemetry cfg) \<or> fresh),
          es_telemetry_status = status,
          es_telemetry_confidence = (if fresh then confidence telemetry else UnknownConfidence),
          es_telemetry_source = ''prometheus:'' @ flavor_as_str flavor,
          es_observed_at_unix_millis = observed_at,
          es_valid_until_unix_millis = sat_add64 observed_at (rtc_valid_for_millis (rcf_telemetry cfg)),
          es_running_requests = tt_running_requests telemetry,
          es_waiting_requests = tt_waiting_requests telemetry,
          es_estimated_queue_micros = tt_estimated_queue_micros telemetry,
          es_kv_cache_usage_permyriad = tt_kv_cache_usage_permyriad telemetry,
          es_prefill_tokens_per_second = tt_prefill_tokens_per_second telemetry,
          es_decode_tokens_per_second = tt_decode_tokens_per_second telemetry,
          es_observation_revision = revision,
          es_degraded_reason = reason\<rparr>))"

definition snapshot_telemetry ::
    "remote_engine_config \<Rightarrow> string \<Rightarrow> u64 \<Rightarrow> (target_telemetry \<times> u64 \<times> u64, string) result \<times> telemetry_state
     \<Rightarrow> target_telemetry \<times> u64 \<times> u64 \<times> telemetry_status \<times> string option" where
  "snapshot_telemetry cfg served_model now = (\<lambda>(observed, st).
     (case observed of
        Inr (telemetry, observed_at, revision) \<Rightarrow> (telemetry, observed_at, revision, Fresh, None)
      | Inl error \<Rightarrow>
          (case cached_telemetry_of (rcf_telemetry cfg) served_model now st of
             Some (telemetry, observed_at, revision, status) \<Rightarrow>
               (telemetry, observed_at, revision, status, Some (execution_error_text error))
           | None \<Rightarrow> (target_telemetry_default, now, 0, Unavailable, Some (execution_error_text error)))))"

definition remote_guard ::
    "operation_context \<Rightarrow> cancel_token set \<Rightarrow> instant \<Rightarrow> (unit, engine_error) result" where
  "remote_guard c cancelled now =
     (case ensure_active c cancelled now of Inl e \<Rightarrow> Inl (EngineContext e) | Inr u \<Rightarrow> Inr u)"

definition remote_snapshot ::
    "remote_env \<Rightarrow> remote_engine_config \<Rightarrow> runtime_flavor \<Rightarrow> execution_target \<Rightarrow> operation_context \<Rightarrow> cancel_token set
     \<Rightarrow> instant \<Rightarrow> clock_readings \<Rightarrow> telemetry_state \<Rightarrow> telemetry_state
     \<Rightarrow> (engine_snapshot, engine_error) result \<times> telemetry_state" where
  "remote_snapshot env cfg flavor target context cancelled instant clocks st st' =
     (case and_then (remote_guard context cancelled instant) (\<lambda>_. target_config cfg target) of
        Inl e \<Rightarrow> (Inl e, st)
      | Inr candidate \<Rightarrow>
          (case rn_client env (authorized cfg (get_request
                 (case ei_health_endpoint (rcf_instance cfg) of Some url \<Rightarrow> url | None \<Rightarrow> endpoint cfg ''/health''))) of
             Inl error \<Rightarrow> (Inl (EngineExecution (''health request failed: '' @ error)), st)
           | Inr response \<Rightarrow>
               (case unix_millis (ck_snapshot clocks) of
                  Inl error \<Rightarrow> (Inl (EngineExecution error), st)
                | Inr now \<Rightarrow>
                    (let observed = observe_telemetry env cfg flavor (rx_served_model candidate)
                           (ck_observe clocks) (ck_scraped clocks) st st'
                     in (Inr (snapshot_of cfg flavor target (is_success (rs_status response))
                           (snapshot_telemetry cfg (rx_served_model candidate) now observed)),
                         snd observed)))))"

section \<open>Bounds\<close>

lemma nonnegative_u64_le: "nonnegative_u64 v = Some n \<Longrightarrow> n \<le> u64_max"
  by (cases v) (auto split: if_splits)

lemma ratio_to_permyriad_le:
  assumes "ratio_to_permyriad v = Some n"
  shows "n \<le> 10000"
proof -
  obtain x where v: "v = F_Fin x" "0 \<le> x" "x \<le> 1" and n: "n = round_u16 (f_scale 10000 (F_Fin x))"
    using assms by (cases v) (auto split: if_splits)
  have "0 \<le> 10000 * x" "10000 * x \<le> of_nat 10000" using v by simp_all
  then obtain w where w: "round64 (10000 * x) = F_Fin w" "0 \<le> w" "w \<le> of_nat 10000"
    by (rule round64_le [of _ 10000]) simp_all
  then have "\<lfloor>w + 1 / 2\<rfloor> \<le> 10000" by linarith
  then have "round_to_nat w \<le> 10000" unfolding round_to_nat_def by linarith
  then show ?thesis using w(1) by (simp add: n min.coboundedI1)
qed

definition telemetry_bounded :: "target_telemetry \<Rightarrow> bool" where
  "telemetry_bounded t \<longleftrightarrow>
     (\<forall>n. tt_kv_cache_usage_permyriad t = Some n \<longrightarrow> n \<le> 10000) \<and>
     (\<forall>n. Some n \<in> {tt_running_requests t, tt_waiting_requests t, tt_estimated_queue_micros t,
        tt_prefill_tokens_per_second t, tt_decode_tokens_per_second t} \<longrightarrow> n \<le> u64_max)"

lemma counter_rate_le: "counter_rate c p e = Some n \<Longrightarrow> n \<le> u64_max"
  by (auto simp: counter_rate_def dest: nonnegative_u64_le split: option.splits if_splits)

lemma bind_nonnegative_le: "Some n = Option.bind x nonnegative_u64 \<Longrightarrow> n \<le> u64_max"
  by (cases x) (auto dest: nonnegative_u64_le [OF sym])

lemma target_telemetry_bounded: "telemetry_bounded (target_telemetry_of flavor samples m previous counters seen)"
  unfolding telemetry_bounded_def target_telemetry_of_def Let_def
  by (auto simp: seconds_to_micros_def bind_eq_Some_conv dest!: sym [of "Some _"]
      dest: ratio_to_permyriad_le nonnegative_u64_le counter_rate_le split: option.splits)

section \<open>The cache is a summary of the scrapes\<close>

text \<open>
  The scrapes an adapter has taken, the latest last, determine its state: the revision counts them,
  the cache is the reading of the last one, and a rate compares the last two.
\<close>

type_synonym scrape_log = "(prometheus_sample list \<times> u64) list"

definition baseline_of :: "runtime_flavor \<Rightarrow> prometheus_sample list \<times> u64 \<Rightarrow> string \<Rightarrow> counter_baseline" where
  "baseline_of flavor scr m =
     \<lparr>cb_observed_at_unix_millis = snd scr,
      cb_prompt_tokens = mct_prompt_tokens (metric_counters_of flavor (fst scr) m),
      cb_generation_tokens = mct_generation_tokens (metric_counters_of flavor (fst scr) m)\<rparr>"

definition previous_baseline :: "runtime_flavor \<Rightarrow> scrape_log \<Rightarrow> string \<Rightarrow> counter_baseline option" where
  "previous_baseline flavor hist m = (if hist = [] then None else Some (baseline_of flavor (last hist) m))"

definition reading :: "runtime_flavor \<Rightarrow> scrape_log \<Rightarrow> string \<Rightarrow> target_telemetry" where
  "reading flavor hist m =
     target_telemetry_of flavor (fst (last hist)) m (previous_baseline flavor (butlast hist) m)
       (metric_counters_of flavor (fst (last hist)) m) (snd (last hist))"

abbreviation served_models :: "remote_engine_config \<Rightarrow> string list" where
  "served_models cfg \<equiv> map rx_served_model (rcf_targets cfg)"

definition tabulate :: "(string \<Rightarrow> 'v) \<Rightarrow> string list \<Rightarrow> (string, 'v) btree" where
  "tabulate f keys = bt_of_list (map (\<lambda>k. (k, f k)) keys)"

definition summary :: "remote_engine_config \<Rightarrow> runtime_flavor \<Rightarrow> scrape_log \<Rightarrow> telemetry_state" where
  "summary cfg flavor hist =
     (if hist = [] then telemetry_state_default
      else \<lparr>tls_revision = min (length hist) u64_max,
            tls_cache = Some \<lparr>ca_observed_at_unix_millis = snd (last hist), ca_revision = min (length hist) u64_max,
                              ca_targets = tabulate (reading flavor hist) (served_models cfg)\<rparr>,
            tls_counters = tabulate (baseline_of flavor (last hist)) (served_models cfg)\<rparr>)"

lemma guard_Inr_iff: "(if b then Inl e else r) = Inr x \<longleftrightarrow> \<not> b \<and> r = Inr x"
  by simp

lemma check_targets_iff:
  "check_targets reference cs ids served = Inr () \<longleftrightarrow>
     list_all (\<lambda>c. et_engine (rx_target c) = reference \<and> \<not> is_blank (rx_served_model c)) cs \<and>
     distinct (map (\<lambda>c. et_id (rx_target c)) cs) \<and> set (map (\<lambda>c. et_id (rx_target c)) cs) \<inter> ids = {} \<and>
     distinct (map rx_served_model cs) \<and> set (map rx_served_model cs) \<inter> served = {}"
proof (induction cs arbitrary: ids served)
  case (Cons c cs)
  have split: "insert x A \<inter> B = {} \<longleftrightarrow> x \<notin> B \<and> A \<inter> B = {}" "A \<inter> insert x B = {} \<longleftrightarrow> x \<notin> A \<and> A \<inter> B = {}" for x :: string and A B
    by auto
  show ?case
    unfolding check_targets.simps guard_Inr_iff Cons.IH list.pred_inject list.map distinct.simps list.set split by argo
qed simp

lemma remote_new_iff:
  "remote_new cfg flavor = Inr a \<longleftrightarrow>
     a = \<lparr>ra_config = cfg, ra_flavor = flavor, ra_telemetry = telemetry_state_default\<rparr> \<and>
     \<not> is_blank (rcf_base_url cfg) \<and> rcf_targets cfg \<noteq> [] \<and> \<not> is_blank (rtc_metrics_path (rcf_telemetry cfg)) \<and>
     0 < rtc_request_timeout_millis (rcf_telemetry cfg) \<and> 0 < rtc_min_scrape_interval_millis (rcf_telemetry cfg) \<and>
     0 < rtc_valid_for_millis (rcf_telemetry cfg) \<and> 0 < rtc_max_response_bytes (rcf_telemetry cfg) \<and>
     0 < rtc_max_samples (rcf_telemetry cfg) \<and>
     (\<forall>c \<in> set (rcf_targets cfg). et_engine (rx_target c) = ei_reference (rcf_instance cfg) \<and>
        \<not> is_blank (rx_served_model c)) \<and>
     distinct (map (\<lambda>c. et_id (rx_target c)) (rcf_targets cfg)) \<and> distinct (served_models cfg)"
proof -
  have "check_config cfg = Inr () \<longleftrightarrow>
      \<not> is_blank (rcf_base_url cfg) \<and> rcf_targets cfg \<noteq> [] \<and> \<not> is_blank (rtc_metrics_path (rcf_telemetry cfg)) \<and>
      0 < rtc_request_timeout_millis (rcf_telemetry cfg) \<and> 0 < rtc_min_scrape_interval_millis (rcf_telemetry cfg) \<and>
      0 < rtc_valid_for_millis (rcf_telemetry cfg) \<and> 0 < rtc_max_response_bytes (rcf_telemetry cfg) \<and>
      0 < rtc_max_samples (rcf_telemetry cfg) \<and>
      check_targets (ei_reference (rcf_instance cfg)) (rcf_targets cfg) {} {} = Inr ()"
    unfolding check_config_def Let_def guard_Inr_iff by simp
  then show ?thesis by (auto simp: remote_new_def and_then_Inr_iff check_targets_iff list_all_iff)
qed

text \<open>The states an adapter goes through: any number of snapshots commit their scrapes, in any order.\<close>

inductive telemetry_run :: "remote_engine_config \<Rightarrow> runtime_flavor \<Rightarrow> scrape_log \<Rightarrow> telemetry_state \<Rightarrow> bool"
  for cfg flavor where
  start: "telemetry_run cfg flavor [] telemetry_state_default"
| commit: "telemetry_run cfg flavor hist st \<Longrightarrow> served_model \<in> set (served_models cfg) \<Longrightarrow>
    telemetry_run cfg flavor (hist @ [(samples, observed_at)])
      (snd (observe_commit cfg flavor samples served_model observed_at st))"

lemma bt_get_of_list_snoc:
  "bt_get (bt_of_list (ps @ [(k, v)])) k' = (if k' = k then Some v else bt_get (bt_of_list ps) k')"
  by (simp add: bt_of_list_def)

lemma bt_get_tabulate: "bt_get (tabulate f keys) k = (if k \<in> set keys then Some (f k) else None)"
proof (induction keys rule: rev_induct)
  case Nil
  then show ?case by (simp add: tabulate_def bt_of_list_def)
next
  case (snoc x keys)
  then show ?case by (simp add: tabulate_def bt_get_of_list_snoc)
qed

lemma observe_targets_get:
  assumes "distinct (map rx_served_model cs)"
  shows "bt_get (fst (observe_targets flavor samples seen cs counters targets)) m =
       (if m \<in> set (map rx_served_model cs) then Some (baseline_of flavor (samples, seen) m) else bt_get counters m) \<and>
     bt_get (snd (observe_targets flavor samples seen cs counters targets)) m =
       (if m \<in> set (map rx_served_model cs)
        then Some (target_telemetry_of flavor samples m (bt_get counters m) (metric_counters_of flavor samples m) seen)
        else bt_get targets m)"
  using assms
proof (induction cs arbitrary: counters targets)
  case (Cons c cs)
  then show ?case by (auto simp: Let_def baseline_of_def)
qed simp

lemma summary_get:
  "bt_get (tls_counters (summary cfg flavor hist)) m =
     (if m \<in> set (served_models cfg) then previous_baseline flavor hist m else None)"
  by (simp add: summary_def telemetry_state_default_def previous_baseline_def bt_get_tabulate)

lemma summary_commit:
  assumes "distinct (served_models cfg)" and "m \<in> set (served_models cfg)"
  shows "observe_commit cfg flavor samples m seen (summary cfg flavor hist) =
     (Inr (reading flavor (hist @ [(samples, seen)]) m, seen, min (Suc (length hist)) u64_max),
      summary cfg flavor (hist @ [(samples, seen)]))"
proof -
  let ?st = "summary cfg flavor hist" and ?hist = "hist @ [(samples, seen)]"
  let ?out = "observe_targets flavor samples seen (rcf_targets cfg) (tls_counters ?st) bt_empty"
  have counters: "fst ?out = tabulate (baseline_of flavor (samples, seen)) (served_models cfg)"
    by (rule bt_ext) (simp add: observe_targets_get [OF assms(1)] bt_get_tabulate summary_get)
  have targets: "snd ?out = tabulate (reading flavor ?hist) (served_models cfg)"
    by (rule bt_ext) (simp add: observe_targets_get [OF assms(1)] bt_get_tabulate summary_get reading_def)
  have revision: "sat_add64 (tls_revision ?st) 1 = min (Suc (length hist)) u64_max"
    by (auto simp: summary_def telemetry_state_default_def arith64 u64_max_def)
  obtain a b where out: "?out = (a, b)" by fastforce
  have "observe_commit cfg flavor samples m seen ?st =
      (Inr (reading flavor ?hist m, seen, min (Suc (length hist)) u64_max),
       \<lparr>tls_revision = min (Suc (length hist)) u64_max,
        tls_cache = Some \<lparr>ca_observed_at_unix_millis = seen, ca_revision = min (Suc (length hist)) u64_max,
          ca_targets = tabulate (reading flavor ?hist) (served_models cfg)\<rparr>,
        tls_counters = tabulate (baseline_of flavor (samples, seen)) (served_models cfg)\<rparr>)"
    using counters targets assms(2)
    unfolding observe_commit_def revision out by (auto simp: Let_def bt_get_tabulate intro!: telemetry_state.equality)
  then show ?thesis by (simp add: summary_def)
qed

lemma telemetry_run_summary:
  assumes "telemetry_run cfg flavor hist st" and "distinct (served_models cfg)"
  shows "st = summary cfg flavor hist"
  using assms
proof (induction rule: telemetry_run.induct)
  case start
  then show ?case by (simp add: summary_def)
next
  case (commit hist st served_model samples observed_at)
  then show ?case by (simp add: summary_commit)
qed

lemma cached_summary:
  assumes "m \<in> set (served_models cfg)"
  shows "cached_telemetry_of tcfg m now (summary cfg flavor hist) =
     (if hist = [] then None
      else Some (reading flavor hist m, snd (last hist), min (length hist) u64_max,
        if snd (last hist) \<le> now \<and> now \<le> sat_add64 (snd (last hist)) (rtc_valid_for_millis tcfg) then Fresh else Stale))"
  using assms
  by (simp add: cached_telemetry_of_def summary_def telemetry_state_default_def bt_get_tabulate Let_def)

text \<open>An observation is the last scrape of the run, and a failed one leaves the state it found.\<close>

lemma observe_run:
  assumes "distinct (served_models cfg)" and "m \<in> set (served_models cfg)"
    and "telemetry_run cfg flavor hist st" and "telemetry_run cfg flavor hist' st'"
    and "observe_telemetry env cfg flavor m clock clock' st st' = (r, st2)"
  obtains hist2 where "telemetry_run cfg flavor hist2 st2"
    and "hist2 \<in> {hist, hist'} \<or> (\<exists>page seen. hist2 = hist' @ [(page, seen)] \<and> scrape env cfg = Inr page)"
    and "\<And>x. r = Inr x \<Longrightarrow> hist2 \<noteq> [] \<and> x = (reading flavor hist2 m, snd (last hist2), min (length hist2) u64_max)"
proof -
  have st: "st = summary cfg flavor hist" "st' = summary cfg flavor hist'"
    using assms(1,3,4) telemetry_run_summary by blast+
  consider (failed) "st2 = st \<or> st2 = st'" "\<exists>e. r = Inl e"
    | (cached) now x where "st2 = st" "observe_cached (rcf_telemetry cfg) m now st = Some x" "r = Inr x"
    | (scraped) page seen where "scrape env cfg = Inr page" "observe_commit cfg flavor page m seen st' = (r, st2)"
    using assms(5)
    by (auto simp: observe_telemetry_def split: sum.splits option.splits prod.splits)
  then show ?thesis
  proof cases
    case failed
    then show ?thesis using that [of hist] that [of hist'] assms(3,4) by auto
  next
    case (cached now x)
    have "hist \<noteq> [] \<and> x = (reading flavor hist m, snd (last hist), min (length hist) u64_max)"
      using cached(2) by (auto simp: observe_cached_def st cached_summary [OF assms(2)] split: if_splits)
    then show ?thesis using that [of hist] assms(3) cached(1,3) by simp
  next
    case (scraped page seen)
    have "r = Inr (reading flavor (hist' @ [(page, seen)]) m, seen, min (Suc (length hist')) u64_max)"
      using scraped(2) by (simp add: st summary_commit [OF assms(1,2)])
    moreover have "telemetry_run cfg flavor (hist' @ [(page, seen)]) st2"
      using telemetry_run.commit [OF assms(4,2), of page seen] scraped(2) by simp
    ultimately show ?thesis using that [of "hist' @ [(page, seen)]"] scraped(1) by simp
  qed
qed

text \<open>The measurements in a snapshot.\<close>

definition reported :: "engine_snapshot \<Rightarrow> target_telemetry" where
  "reported s =
     \<lparr>tt_running_requests = es_running_requests s, tt_waiting_requests = es_waiting_requests s,
      tt_estimated_queue_micros = es_estimated_queue_micros s,
      tt_kv_cache_usage_permyriad = es_kv_cache_usage_permyriad s,
      tt_prefill_tokens_per_second = es_prefill_tokens_per_second s,
      tt_decode_tokens_per_second = es_decode_tokens_per_second s\<rparr>"

lemma reported_snapshot [simp]:
  "reported (snapshot_of cfg flavor target ready (t, seen, revision, status, reason)) = t"
  by (simp add: reported_def snapshot_of_def Let_def)

lemma snapshot_of_simps [simp]:
  "es_telemetry_status (snapshot_of cfg flavor target ready (t, seen, revision, status, reason)) = status"
  "es_observed_at_unix_millis (snapshot_of cfg flavor target ready (t, seen, revision, status, reason)) = seen"
  "es_observation_revision (snapshot_of cfg flavor target ready (t, seen, revision, status, reason)) = revision"
  "es_degraded_reason (snapshot_of cfg flavor target ready (t, seen, revision, status, reason)) = reason"
  "es_waiting_requests (snapshot_of cfg flavor target ready (t, seen, revision, status, reason)) = tt_waiting_requests t"
  "es_running_requests (snapshot_of cfg flavor target ready (t, seen, revision, status, reason)) = tt_running_requests t"
  "es_ready (snapshot_of cfg flavor target ready (t, seen, revision, status, reason)) \<longleftrightarrow>
     ready \<and> (rtc_require_fresh_metrics (rcf_telemetry cfg) \<longrightarrow> status = Fresh)"
  "es_telemetry_confidence (snapshot_of cfg flavor target ready (t, seen, revision, status, reason)) =
     (if status = Fresh then confidence t else UnknownConfidence)"
  by (auto simp: snapshot_of_def Let_def)

text \<open>A number of requests is never invented: the last scrape has a usable sample for the model.\<close>

definition sampled :: "prometheus_sample list \<Rightarrow> string list \<Rightarrow> string \<Rightarrow> bool" where
  "sampled samples names m \<longleftrightarrow>
     (\<exists>s \<in> set samples. ps_name s \<in> set names \<and> sample_matches_model s m \<and> usable (ps_value s))"

lemma matching_values_sampled: "v \<in> set (matching_values samples name m) \<Longrightarrow> sampled samples [name] m"
  by (auto simp: matching_values_def sampled_def)

lemma sampled_mono: "sampled samples names m \<Longrightarrow> set names \<subseteq> set names' \<Longrightarrow> sampled samples names' m"
  by (auto simp: sampled_def)

lemma metric_sum_sampled: "metric_sum samples names m = Some v \<Longrightarrow> sampled samples names m"
proof (induction names)
  case (Cons name names)
  show ?case
  proof (cases "matching_values samples name m")
    case Nil
    with Cons show ?thesis by (auto intro: sampled_mono)
  next
    case (Cons w ws)
    then have "sampled samples [name] m" using matching_values_sampled [of w] by simp
    then show ?thesis by (rule sampled_mono) simp
  qed
qed simp

lemma reading_sampled:
  "tt_waiting_requests (reading flavor hist m) = Some n \<Longrightarrow> sampled (fst (last hist)) (waiting_names flavor) m"
  "tt_running_requests (reading flavor hist m) = Some n \<Longrightarrow> sampled (fst (last hist)) (running_names flavor) m"
  by (auto simp: reading_def target_telemetry_of_def Let_def bind_eq_Some_conv intro: metric_sum_sampled)

text \<open>What a snapshot says, given the scrapes up to it.\<close>

definition snapshot_reports ::
    "remote_engine_config \<Rightarrow> runtime_flavor \<Rightarrow> string \<Rightarrow> scrape_log \<Rightarrow> engine_snapshot \<Rightarrow> bool" where
  "snapshot_reports cfg flavor m hist snap \<longleftrightarrow>
     (if es_telemetry_status snap = Unavailable
      then hist = [] \<and> reported snap = target_telemetry_default
      else hist \<noteq> [] \<and> reported snap = reading flavor hist m \<and>
           es_observed_at_unix_millis snap = snd (last hist) \<and> es_observation_revision snap = min (length hist) u64_max \<and>
           (es_waiting_requests snap \<noteq> None \<longrightarrow> sampled (fst (last hist)) (waiting_names flavor) m) \<and>
           (es_running_requests snap \<noteq> None \<longrightarrow> sampled (fst (last hist)) (running_names flavor) m)) \<and>
     telemetry_bounded (reported snap) \<and>
     (es_ready snap \<and> rtc_require_fresh_metrics (rcf_telemetry cfg) \<longrightarrow> es_telemetry_status snap = Fresh) \<and>
     (es_telemetry_status snap \<noteq> Fresh \<longrightarrow>
        es_degraded_reason snap \<noteq> None \<and> es_telemetry_confidence snap = UnknownConfidence)"

lemma reading_bounded: "telemetry_bounded (reading flavor hist m)"
  by (simp add: reading_def target_telemetry_bounded)

lemma default_bounded: "telemetry_bounded target_telemetry_default"
  by (simp add: telemetry_bounded_def target_telemetry_default_def)

lemma snapshot_telemetry_reports:
  assumes "m \<in> set (served_models cfg)"
    and "\<And>x. r = Inr x \<Longrightarrow> hist \<noteq> [] \<and> x = (reading flavor hist m, snd (last hist), min (length hist) u64_max)"
  shows "snapshot_reports cfg flavor m hist
     (snapshot_of cfg flavor target ready (snapshot_telemetry cfg m now (r, summary cfg flavor hist)))"
proof (cases r)
  case (Inl error)
  then show ?thesis
    by (cases "hist = []")
      (auto simp: snapshot_telemetry_def cached_summary [OF assms(1)] snapshot_reports_def reading_bounded default_bounded
          dest: reading_sampled)
next
  case (Inr x)
  then show ?thesis
    using assms(2) by (auto simp: snapshot_telemetry_def snapshot_reports_def reading_bounded dest: reading_sampled)
qed

lemma target_config_served: "target_config cfg target = Inr c \<Longrightarrow> rx_served_model c \<in> set (served_models cfg) \<and> rx_target c = target"
  by (auto simp: target_config_def find_Some_iff split: option.splits)

section \<open>Properties\<close>

text \<open>
  C29: the telemetry state implements a log of scrapes. However the snapshots of an adapter interleave,
  the state is the summary of the scrapes committed so far, and committing one more returns
  the reading of the extended log: the gauges of the last scrape, and rates from the counters of the
  last two.
\<close>

theorem remote_telemetry_refines:
  assumes "remote_new cfg flavor = Inr a" and "telemetry_run cfg flavor hist st" and "m \<in> set (served_models cfg)"
  shows "st = summary cfg flavor hist \<and>
     observe_commit cfg flavor samples m observed_at st =
       (Inr (reading flavor (hist @ [(samples, observed_at)]) m, observed_at, min (Suc (length hist)) u64_max),
        summary cfg flavor (hist @ [(samples, observed_at)]))"
  using assms telemetry_run_summary [OF assms(2)] summary_commit by (simp add: remote_new_iff)

text \<open>
  What the status \<open>Fresh\<close> means. The observation is valid, in the sense of \<open>telemetry_is_fresh_at\<close>,
  at one of the clock readings of the snapshot; or it is a recent one, taken from the cache without
  a look at its validity, and then the clock has gone back behind it or the configured interval
  between scrapes is longer than an observation stays valid.
\<close>

definition fresh_reported :: "remote_engine_config \<Rightarrow> clock_readings \<Rightarrow> engine_snapshot \<Rightarrow> bool" where
  "fresh_reported cfg clocks snap \<longleftrightarrow>
     (\<exists>clock t. clock \<in> {ck_snapshot clocks, ck_observe clocks, ck_scraped clocks} \<and> unix_millis clock = Inr t \<and>
        telemetry_is_fresh_at snap t) \<or>
     (\<exists>t. unix_millis (ck_observe clocks) = Inr t \<and>
        sat_sub64 t (es_observed_at_unix_millis snap) < rtc_min_scrape_interval_millis (rcf_telemetry cfg) \<and>
        (t < es_observed_at_unix_millis snap \<or>
         rtc_valid_for_millis (rcf_telemetry cfg) < rtc_min_scrape_interval_millis (rcf_telemetry cfg)))"

lemma unix_millis_le: "unix_millis clock = Inr t \<Longrightarrow> t \<le> u64_max"
  by (auto simp: unix_millis_def split: sum.splits if_splits)

lemma observe_cached_recent:
  "observe_cached tcfg m now st = Some (t, seen, revision) \<Longrightarrow> sat_sub64 now seen < rtc_min_scrape_interval_millis tcfg"
  by (auto simp: observe_cached_def split: option.splits prod.splits if_splits)

lemma recent_is_valid:
  assumes "sat_sub64 now seen < n" and "seen \<le> now" and "now \<le> u64_max" and "n \<le> valid"
  shows "now \<le> sat_add64 seen valid"
  using assms by (simp add: arith64)

lemma observed_fresh:
  assumes "observe_telemetry env cfg flavor m clock clock' st st' = (Inr (telemetry, seen, revision), st2)"
  shows "(\<exists>t. unix_millis clock = Inr t \<and> sat_sub64 t seen < rtc_min_scrape_interval_millis (rcf_telemetry cfg)) \<or>
     unix_millis clock' = Inr seen"
  using assms
  by (auto simp: observe_telemetry_def observe_commit_def Let_def split: sum.splits option.splits prod.splits
      dest: observe_cached_recent)

lemma snapshot_fresh:
  assumes "unix_millis (ck_snapshot clocks) = Inr t"
    and "observe_telemetry env cfg flavor m (ck_observe clocks) (ck_scraped clocks) st st' = (r, st2)"
    and "snap = snapshot_of cfg flavor target ready (snapshot_telemetry cfg m t (r, st2))"
    and "es_telemetry_status snap = Fresh"
  shows "fresh_reported cfg clocks snap"
proof (cases r)
  case (Inl e)
  with assms(3,4) have "telemetry_is_fresh_at snap t"
    by (auto simp: snapshot_of_def snapshot_telemetry_def cached_telemetry_of_def telemetry_is_fresh_at_def Let_def
        split: option.splits if_splits)
  with assms(1) show ?thesis unfolding fresh_reported_def by blast
next
  case (Inr x)
  obtain telemetry seen revision where x: "x = (telemetry, seen, revision)" by (cases x)
  have snap: "es_observed_at_unix_millis snap = seen" "telemetry_is_fresh_at snap now \<longleftrightarrow>
      seen \<le> now \<and> now \<le> sat_add64 seen (rtc_valid_for_millis (rcf_telemetry cfg))" for now
    by (simp_all add: assms(3) Inr x snapshot_of_def snapshot_telemetry_def telemetry_is_fresh_at_def Let_def)
  from observed_fresh [OF assms(2) [unfolded Inr x]] show ?thesis
  proof (elim disjE exE conjE)
    fix now assume now: "unix_millis (ck_observe clocks) = Inr now"
      and recent: "sat_sub64 now seen < rtc_min_scrape_interval_millis (rcf_telemetry cfg)"
    show ?thesis
    proof (cases "seen \<le> now \<and> rtc_min_scrape_interval_millis (rcf_telemetry cfg) \<le> rtc_valid_for_millis (rcf_telemetry cfg)")
      case True
      then have "telemetry_is_fresh_at snap now"
        using recent_is_valid [OF recent _ unix_millis_le [OF now]] by (simp add: snap)
      with now show ?thesis unfolding fresh_reported_def by blast
    next
      case False
      with now recent show ?thesis unfolding fresh_reported_def snap by (auto simp: not_le)
    qed
  next
    assume scraped: "unix_millis (ck_scraped clocks) = Inr seen"
    then have "telemetry_is_fresh_at snap seen" using unix_millis_le [OF scraped] by (simp add: snap sat_add64_def)
    with scraped show ?thesis unfolding fresh_reported_def by blast
  qed
qed

text \<open>
  C30: a snapshot reports what was scraped. Its measurements are the reading, for its model, of the scrapes
  up to its last critical section, or there was no scrape and it says \<open>Unavailable\<close> and reports
  nothing; the cache usage is at most 10000 and every number fits in 64 bits. A number of running or
  waiting requests comes from a usable sample of the last scrape, so a missing gauge is never an
  empty queue. An engine that must have fresh metrics is ready only with the status \<open>Fresh\<close>, and
  other telemetry carries a reason and no confidence. \<open>Fresh\<close> means valid at a clock reading of this
  snapshot as long as the interval between scrapes is no longer than the time an observation stays
  valid and the clock does not go back (\<open>fresh_reported\<close>); with a longer interval, which the
  configuration accepts, expired metrics count as fresh (the lemma \<open>expired_metrics_ready\<close> below).
\<close>

theorem remote_snapshot_sound:
  assumes "remote_snapshot env cfg flavor target context cancelled now clocks st st' = (Inr snap, st2)"
    and "telemetry_run cfg flavor hist st" and "telemetry_run cfg flavor hist' st'" and "remote_new cfg flavor = Inr a"
  shows "\<exists>hist2 c. telemetry_run cfg flavor hist2 st2 \<and> c \<in> set (rcf_targets cfg) \<and> rx_target c = target \<and>
     (hist2 \<in> {hist, hist'} \<or> (\<exists>page seen. hist2 = hist' @ [(page, seen)] \<and> scrape env cfg = Inr page)) \<and>
     snapshot_reports cfg flavor (rx_served_model c) hist2 snap \<and>
     (es_telemetry_status snap = Fresh \<longrightarrow> fresh_reported cfg clocks snap)"
proof -
  have distinct: "distinct (served_models cfg)" using assms(4) by (simp add: remote_new_iff)
  obtain c ready t where c: "target_config cfg target = Inr c"
    and snap: "snap = snapshot_of cfg flavor target ready
        (snapshot_telemetry cfg (rx_served_model c) t
          (observe_telemetry env cfg flavor (rx_served_model c) (ck_observe clocks) (ck_scraped clocks) st st'))"
    and st2: "st2 = snd (observe_telemetry env cfg flavor (rx_served_model c) (ck_observe clocks) (ck_scraped clocks) st st')"
    and t: "unix_millis (ck_snapshot clocks) = Inr t"
    using assms(1)
    by (simp add: remote_snapshot_def and_then_Inr_iff Let_def split: sum.splits) blast
  obtain r where r: "observe_telemetry env cfg flavor (rx_served_model c) (ck_observe clocks) (ck_scraped clocks) st st' = (r, st2)"
    using st2 by (metis prod.collapse)
  have m: "rx_served_model c \<in> set (served_models cfg)" using target_config_served [OF c] by simp
  obtain hist2 where h: "telemetry_run cfg flavor hist2 st2"
      "hist2 \<in> {hist, hist'} \<or> (\<exists>page seen. hist2 = hist' @ [(page, seen)] \<and> scrape env cfg = Inr page)"
      "\<And>x. r = Inr x \<Longrightarrow> hist2 \<noteq> [] \<and> x = (reading flavor hist2 (rx_served_model c), snd (last hist2), min (length hist2) u64_max)"
    using observe_run [OF distinct m assms(2,3) r] by blast
  have "st2 = summary cfg flavor hist2" by (rule telemetry_run_summary [OF h(1) distinct])
  then have "snapshot_reports cfg flavor (rx_served_model c) hist2 snap"
    using snapshot_telemetry_reports [OF m h(3)] by (simp add: snap r)
  moreover have "c \<in> set (rcf_targets cfg)" "rx_target c = target"
    using c by (auto simp: target_config_def find_Some_iff split: option.splits)
  moreover have "fresh_reported cfg clocks snap" if "es_telemetry_status snap = Fresh"
    using snapshot_fresh [OF t r _ that, of target ready] by (simp add: snap r)
  ultimately show ?thesis using h(1,2) by blast
qed

subsection \<open>Concrete instances\<close>

definition demo_remote_config :: remote_engine_config where
  "demo_remote_config =
     \<lparr>rcf_base_url = ''http://engine'', rcf_api_key = None,
      rcf_instance = \<lparr>ei_reference = \<lparr>er_id = ''e'', er_generation = 1\<rparr>,
        ei_runtime = \<lparr>ri_kind = ''vllm'', ri_runtime_version = ''1'', ri_adapter_version = ''1''\<rparr>,
        ei_topology = ''t'', ei_hardware = ''h'', ei_health_endpoint = None\<rparr>,
      rcf_targets = [\<lparr>rx_served_model = ''m'', rx_target = sample_target ''t1'' ''e''\<rparr>],
      rcf_telemetry = remote_telemetry_config_default\<rparr>"

definition demo_page :: string where
  "demo_page = (''vllm:num_requests_waiting'' @ '' '' @ nat_to_dec 3) @ [line_feed]"

definition demo_remote_env :: remote_env where
  "demo_remote_env =
     \<lparr>rn_client = (\<lambda>_. Inr \<lparr>rs_status = 200, rs_body = Inr demo_page, rs_text = Some demo_page, rs_events = []\<rparr>),
      rn_chunk = (\<lambda>_. Inl []), rn_model_ids = (\<lambda>_. Inr [''m'']), rn_from_str = (\<lambda>_. None),
      rn_json_error = (\<lambda>_. []), rn_f32 = (\<lambda>_. JNull), rn_status_text = nat_to_dec,
      rn_utf8_error = (\<lambda>_. []), rn_debug = id\<rparr>"

definition demo_context :: operation_context where
  "demo_context = \<lparr>oc_request_id = ''r1'', oc_tenant_id = None, oc_deadline = None, oc_cancellation = 0\<rparr>"

definition demo_sample :: prometheus_sample where
  "demo_sample = \<lparr>ps_name = ''vllm:num_requests_waiting'', ps_labels = bt_empty, ps_value = f_of_u64 3\<rparr>"

lemma demo_parse: "parse_prometheus demo_page 20000 = Inr [demo_sample]"
proof -
  have "name_ok ''vllm:num_requests_waiting''" by (simp add: name_ok_def char_class_defs)
  then have "line_reads (''vllm:num_requests_waiting'' @ '' '' @ nat_to_dec 3) (Some demo_sample)"
    unfolding demo_sample_def by (intro plain_line_reads nat_to_dec_value_text parse_f64_nat_to_dec)
  then show ?thesis
    using parse_page [of "[''vllm:num_requests_waiting'' @ '' '' @ nat_to_dec 3]" "[Some demo_sample]" 20000]
    by (simp add: demo_page_def map_filter_def)
qed

lemma demo_scrape: "scrape demo_remote_env demo_remote_config = Inr [demo_sample]"
proof -
  have "nat_to_dec 3 = ''3''" by (simp add: nat_to_dec.simps digit_char_def char_of_def bit_iff_odd)
  then have "utf8_valid (map of_char demo_page)" "length demo_page < 100"
    by (simp_all add: demo_page_def line_feed_def)
  then show ?thesis
    using demo_parse
    by (simp add: scrape_def demo_remote_env_def demo_remote_config_def remote_telemetry_config_default_def
        is_success_def Let_def)
qed

definition demo_clocks :: clock_readings where
  "demo_clocks = \<lparr>ck_snapshot = Inr 1000, ck_observe = Inr 1000, ck_scraped = Inr 1001\<rparr>"

lemma demo_served: "distinct (served_models demo_remote_config)" "''m'' \<in> set (served_models demo_remote_config)"
  by (simp_all add: demo_remote_config_def)

lemma demo_new:
  "remote_new demo_remote_config Vllm =
     Inr \<lparr>ra_config = demo_remote_config, ra_flavor = Vllm, ra_telemetry = telemetry_state_default\<rparr>"
proof -
  have "\<not> is_blank ''http://engine''" "\<not> is_blank ''m''" "\<not> is_blank ''/metrics''"
    by (simp_all add: is_blank.simps numeral_3_eq_3)
  then show ?thesis
    by (simp add: remote_new_iff demo_remote_config_def remote_telemetry_config_default_def sample_target_def)
qed

lemma demo_remote_parts:
  "target_config demo_remote_config (sample_target ''t1'' ''e'') =
     Inr \<lparr>rx_served_model = ''m'', rx_target = sample_target ''t1'' ''e''\<rparr>"
  "rn_client demo_remote_env r = Inr \<lparr>rs_status = 200, rs_body = Inr demo_page, rs_text = Some demo_page, rs_events = []\<rparr>"
  "remote_guard demo_context {} now = Inr ()"
  by (simp_all add: target_config_def demo_remote_config_def demo_remote_env_def remote_guard_def ensure_active_def
      is_cancelled_def demo_context_def)

theorem remote_telemetry_refines_witness:
  "observe_commit demo_remote_config Vllm [demo_sample] ''m'' 1001 telemetry_state_default =
     (Inr (reading Vllm [([demo_sample], 1001)] ''m'', 1001, 1), summary demo_remote_config Vllm [([demo_sample], 1001)])"
  using remote_telemetry_refines [OF demo_new telemetry_run.start demo_served(2), of "[demo_sample]" 1001]
  by (simp add: u64_max_def)

theorem remote_snapshot_sound_witness:
  "\<exists>snap st2 hist2 m. remote_snapshot demo_remote_env demo_remote_config Vllm (sample_target ''t1'' ''e'') demo_context {} 0
       demo_clocks telemetry_state_default telemetry_state_default = (Inr snap, st2) \<and>
     es_telemetry_status snap = Fresh \<and> snapshot_reports demo_remote_config Vllm m hist2 snap \<and>
     fresh_reported demo_remote_config demo_clocks snap"
proof -
  let ?run = "remote_snapshot demo_remote_env demo_remote_config Vllm (sample_target ''t1'' ''e'') demo_context {} 0
    demo_clocks telemetry_state_default telemetry_state_default"
  have "observe_cached (rcf_telemetry demo_remote_config) ''m'' 1000 telemetry_state_default = None"
    by (simp add: observe_cached_def cached_telemetry_of_def telemetry_state_default_def)
  moreover have "\<exists>x st2. observe_commit demo_remote_config Vllm [demo_sample] ''m'' 1001 telemetry_state_default = (Inr x, st2)"
    using summary_commit [OF demo_served, of Vllm "[demo_sample]" 1001 "[]"] by (simp add: summary_def)
  ultimately have "\<exists>x st2. observe_telemetry demo_remote_env demo_remote_config Vllm ''m'' (Inr 1000) (Inr 1001)
      telemetry_state_default telemetry_state_default = (Inr x, st2)"
    by (simp add: observe_telemetry_def unix_millis_def u64_max_def demo_scrape)
  then obtain t seen revision st2 where o: "observe_telemetry demo_remote_env demo_remote_config Vllm ''m'' (Inr 1000) (Inr 1001)
      telemetry_state_default telemetry_state_default = (Inr (t, seen, revision), st2)"
    by (metis prod_cases3)
  have run: "?run = (Inr (snapshot_of demo_remote_config Vllm (sample_target ''t1'' ''e'') True (t, seen, revision, Fresh, None)), st2)"
    by (simp add: remote_snapshot_def demo_remote_parts demo_clocks_def unix_millis_def u64_max_def snapshot_telemetry_def o
        is_success_def)
  from remote_snapshot_sound [OF run telemetry_run.start telemetry_run.start demo_new]
  obtain hist2 m where "snapshot_reports demo_remote_config Vllm m hist2
      (snapshot_of demo_remote_config Vllm (sample_target ''t1'' ''e'') True (t, seen, revision, Fresh, None))"
    and "fresh_reported demo_remote_config demo_clocks
      (snapshot_of demo_remote_config Vllm (sample_target ''t1'' ''e'') True (t, seen, revision, Fresh, None))"
    by (auto simp: snapshot_of_def Let_def)
  with run show ?thesis by (intro exI conjI) simp_all
qed

subsection \<open>Expired metrics\<close>

text \<open>
  Nothing makes the interval between scrapes fit in the time an observation is valid: with scrapes
  at least a minute apart and observations valid for five seconds, an engine that must have fresh
  metrics is ready after they have expired.
\<close>

definition rare_config :: remote_engine_config where
  "rare_config = demo_remote_config
     \<lparr>rcf_telemetry := remote_telemetry_config_default\<lparr>rtc_min_scrape_interval_millis := 60000,
        rtc_require_fresh_metrics := True\<rparr>\<rparr>"

lemma expired_metrics_ready:
  "case fst (remote_snapshot demo_remote_env rare_config Vllm (sample_target ''t1'' ''e'') demo_context {} 0
       \<lparr>ck_snapshot = Inr 50000, ck_observe = Inr 50000, ck_scraped = Inr 50000\<rparr>
       (summary rare_config Vllm [([demo_sample], 1001)]) (summary rare_config Vllm [([demo_sample], 1001)])) of
     Inl e \<Rightarrow> False
   | Inr snap \<Rightarrow> es_ready snap \<and> es_telemetry_status snap = Fresh \<and> \<not> telemetry_is_fresh_at snap 50000"
proof -
  have m: "''m'' \<in> set (served_models rare_config)" by (simp add: rare_config_def demo_remote_config_def)
  have target: "target_config rare_config (sample_target ''t1'' ''e'') =
      Inr \<lparr>rx_served_model = ''m'', rx_target = sample_target ''t1'' ''e''\<rparr>"
    by (simp add: target_config_def rare_config_def demo_remote_config_def)
  have "observe_cached (rcf_telemetry rare_config) ''m'' 50000 (summary rare_config Vllm [([demo_sample], 1001)]) =
      Some (reading Vllm [([demo_sample], 1001)] ''m'', 1001, 1)"
    by (simp add: observe_cached_def cached_summary [OF m] arith64 u64_max_def) (simp add: rare_config_def)
  then show ?thesis
    by (simp add: remote_snapshot_def demo_remote_parts target unix_millis_def u64_max_def observe_telemetry_def
        snapshot_telemetry_def snapshot_of_def is_success_def telemetry_is_fresh_at_def arith64 Let_def)
      (simp add: rare_config_def remote_telemetry_config_default_def)
qed

end
