(* ===== verification/Remote_Engine.thy ===== *)
theory Remote_Engine
  imports Remote_Telemetry Executor
begin

text \<open>
  The adapter for remote engines with an OpenAI-compatible completion endpoint,
  \<open>crates/engine-openai/src/lib.rs\<close>: the request body with the output contract, model
  discovery, the event stream of an execution and cancellation, for the two runtimes SGLang and vLLM. The
  telemetry is in \<open>Remote_Telemetry\<close>. A JSON object is the list of its fields.
\<close>

section \<open>The request body\<close>

text \<open>\<open>body[key] = value\<close>.\<close>

fun put_field :: "string \<Rightarrow> json \<Rightarrow> (string \<times> json) list \<Rightarrow> (string \<times> json) list" where
  "put_field key v [] = [(key, v)]"
| "put_field key v ((k, w) # obj) = (if k = key then (k, v) # obj else (k, w) # put_field key v obj)"

definition number :: "nat \<Rightarrow> json" where
  "number n = JNumber (nat_to_dec n)"

definition apply_output_contract ::
    "remote_env \<Rightarrow> runtime_flavor \<Rightarrow> canonical_request \<Rightarrow> (string \<times> json) list
     \<Rightarrow> ((string \<times> json) list, engine_error) result" where
  "apply_output_contract env flavor request body =
     (case find (\<lambda>a. tm_type_url a = ''locus.generation-contract.v1'') (ib_annotations (rq_input request)) of
        None \<Rightarrow> Inr body
      | Some contract \<Rightarrow>
          (case bt_get (tm_fields contract) ''response_format'' of
             None \<Rightarrow> Inr body
           | Some format \<Rightarrow>
               if format = ''json_object''
               then Inr (put_field ''response_format'' (JObject [(''type'', JString ''json_object'')]) body)
               else if format = ''json_schema'' then
                 (case bt_get (tm_fields contract) ''json_schema'' of
                    None \<Rightarrow> Inl (EngineExecution ''JSON schema contract omitted schema'')
                  | Some schema_text \<Rightarrow>
                      (case rn_from_str env schema_text of
                         None \<Rightarrow> Inl (EngineExecution (''invalid JSON schema contract: '' @ rn_json_error env schema_text))
                       | Some schema \<Rightarrow>
                           if flavor = Sglang then Inr (put_field ''json_schema'' (JString schema_text) body)
                           else Inr (put_field ''response_format''
                             (JObject [(''type'', JString ''json_schema''),
                               (''json_schema'', JObject
                                 [(''name'', JString (case bt_get (tm_fields contract) ''json_schema_name'' of
                                     None \<Rightarrow> ''response'' | Some name \<Rightarrow> name)),
                                  (''schema'', schema),
                                  (''strict'', JBool (bt_get (tm_fields contract) ''strict'' = Some ''true''))])]) body)))
               else if format = ''text'' then Inr body
               else Inl (EngineUnsupported (''unknown response format: '' @ format))))"

definition f32_one :: "32 word" where
  "f32_one = 0x3F800000"

definition prompt_sequences :: "canonical_request \<Rightarrow> u32 list list" where
  "prompt_sequences request =
     List.map_filter
       (\<lambda>item. case ii_value item of TokenSequence tokens \<Rightarrow> Some (ts_token_ids tokens) | _ \<Rightarrow> None)
       (ib_items (rq_input request))"

definition completion_fields :: "remote_env \<Rightarrow> runtime_flavor \<Rightarrow> canonical_request \<Rightarrow> string \<Rightarrow> u32 list \<Rightarrow> (string \<times> json) list" where
  "completion_fields env flavor request served_model prompt =
     (let sampling = rq_sampling request;
          body = [(''model'', JString served_model), (''prompt'', JArray (map number prompt)), (''stream'', JBool True),
            (''stream_options'', JObject [(''include_usage'', JBool True)]),
            (''max_tokens'', number (case sp_max_output_tokens sampling of None \<Rightarrow> 16 | Some n \<Rightarrow> n)),
            (''temperature'', rn_f32 env (case sp_temperature sampling of None \<Rightarrow> f32_one | Some x \<Rightarrow> x)),
            (''top_p'', rn_f32 env (case sp_top_p sampling of None \<Rightarrow> f32_one | Some x \<Rightarrow> x))];
          body = (case sp_seed sampling of None \<Rightarrow> body | Some seed \<Rightarrow> put_field ''seed'' (number seed) body);
          body = (if sp_stop_sequences sampling = [] then body
                  else put_field ''stop'' (JArray (map JString (sp_stop_sequences sampling))) body)
      in case flavor of
           Sglang \<Rightarrow> put_field ''rid'' (JString (rq_id request)) body
         | Vllm \<Rightarrow> put_field ''add_special_tokens'' (JBool False)
                     (put_field ''request_id'' (JString (rq_id request)) body))"

definition completion_body ::
    "remote_env \<Rightarrow> runtime_flavor \<Rightarrow> canonical_request \<Rightarrow> string \<Rightarrow> (json, engine_error) result" where
  "completion_body env flavor request served_model =
     (case prompt_sequences request of
        [] \<Rightarrow> Inl (EngineUnsupported ''remote completion requires a token sequence'')
      | prompt # others \<Rightarrow>
          if others \<noteq> [] then Inl (EngineUnsupported ''remote completion supports exactly one token sequence'')
          else if list_ex (\<lambda>a. tm_type_url a = ''locus.tool.v1'') (ib_annotations (rq_input request)) \<and>
                  os_tool_parser (si_output (rq_semantic_identity request)) = None
          then Inl (EngineUnsupported ''function tools require a model-profile tool parser'')
          else if cr_requires_tool_calls (rq_requirements request)
          then Inl (EngineUnsupported ''remote completion adapter does not emit native tool-call events'')
          else if cr_requires_reasoning_deltas (rq_requirements request)
          then Inl (EngineUnsupported ''remote completion adapter does not emit native reasoning events'')
          else and_then (apply_output_contract env flavor request
                 (completion_fields env flavor request served_model prompt)) (\<lambda>body. Inr (JObject body)))"

section \<open>The operations of the adapter\<close>

definition post_request :: "string \<Rightarrow> json \<Rightarrow> remote_request" where
  "post_request url body =
     \<lparr>rr_method = POST, rr_url = url, rr_bearer = None, rr_headers = [], rr_json = Some body, rr_timeout_millis = None\<rparr>"

definition response_detail :: "remote_response \<Rightarrow> string" where
  "response_detail response = (case rs_text response of None \<Rightarrow> ''response body was unavailable'' | Some t \<Rightarrow> t)"

definition remote_execution_targets ::
    "remote_env \<Rightarrow> remote_adapter \<Rightarrow> operation_context \<Rightarrow> cancel_token set \<Rightarrow> instant
     \<Rightarrow> (execution_target list, engine_error) result" where
  "remote_execution_targets env a context cancelled now =
     and_then (remote_guard context cancelled now) (\<lambda>_.
     (let cfg = ra_config a in
      case rn_client env (authorized cfg (get_request (endpoint cfg ''/v1/models''))) of
        Inl error \<Rightarrow> Inl (EngineExecution (''model discovery request failed: '' @ error))
      | Inr response \<Rightarrow>
          if \<not> is_success (rs_status response)
          then Inl (EngineExecution (''model discovery endpoint returned '' @ rn_status_text env (rs_status response) @
                 '': '' @ response_detail response))
          else
            (case and_then (rs_body response) (rn_model_ids env) of
               Inl error \<Rightarrow> Inl (EngineExecution (''invalid model discovery response: '' @ error))
             | Inr active \<Rightarrow>
                 Inr (sort_key et_id (map rx_target
                   (filter (\<lambda>candidate. rx_served_model candidate \<in> set active) (rcf_targets cfg)))))))"

definition remote_capabilities :: engine_capabilities where
  "remote_capabilities =
     \<lparr>ec_supported_input_kinds = {KTokenSequence}, ec_emits_token_deltas = False, ec_emits_text_deltas = True,
      ec_emits_reasoning_deltas = False, ec_emits_tool_calls = False, ec_supports_structured_output = True,
      ec_supported_state_kinds = {}\<rparr>"

definition remote_capabilities_of ::
    "remote_adapter \<Rightarrow> execution_target \<Rightarrow> operation_context \<Rightarrow> cancel_token set \<Rightarrow> instant
     \<Rightarrow> (engine_capabilities, engine_error) result" where
  "remote_capabilities_of a target context cancelled now =
     and_then (remote_guard context cancelled now) (\<lambda>_.
     and_then (target_config (ra_config a) target) (\<lambda>_. Inr remote_capabilities))"

fun map_finish_reason :: "string \<Rightarrow> engine_finish_reason" where
  "map_finish_reason reason =
     (if reason = ''stop'' then FinishStop
      else if reason = ''length'' then FinishLength
      else if reason = ''abort'' \<or> reason = ''cancelled'' then FinishCancelled
      else RuntimeSpecific ''openai.completion.finish_reason'' reason)"

text \<open>The loop over the choices of a chunk: its events, the next sequence number and the finish reason.\<close>

fun choice_events ::
    "request_id \<Rightarrow> completion_choice list \<Rightarrow> u64 \<Rightarrow> engine_finish_reason option
     \<Rightarrow> engine_event list \<times> u64 \<times> engine_finish_reason option" where
  "choice_events rid [] n reason = ([], n, reason)"
| "choice_events rid (choice # choices) n reason =
     (if co_index choice \<noteq> 0 then choice_events rid choices n reason
      else
        let reason' = (case co_finish_reason choice of None \<Rightarrow> reason | Some r \<Rightarrow> Some (map_finish_reason r))
        in if co_text choice = [] then choice_events rid choices n reason'
           else case choice_events rid choices (wrap_add64 n 1) reason' of
             (events, m, final) \<Rightarrow> (TextDelta rid n (co_text choice) # events, m, final))"

definition usage_of :: "completion_usage \<Rightarrow> usage" where
  "usage_of u = \<lparr>us_input_tokens = cu_prompt_tokens u, us_output_tokens = cu_completion_tokens u\<rparr>"

definition usage_default :: usage where
  "usage_default = \<lparr>us_input_tokens = 0, us_output_tokens = 0\<rparr>"

text \<open>The stream after the acceptance, from the server-sent events that remain.\<close>

fun completion_events ::
    "remote_env \<Rightarrow> request_id \<Rightarrow> (string, string) result list \<Rightarrow> u64 \<Rightarrow> usage \<Rightarrow> engine_finish_reason option
     \<Rightarrow> engine_stream" where
  "completion_events env rid [] n u reason =
     [Inr (Finished rid (case reason of None \<Rightarrow> FinishStop | Some r \<Rightarrow> r) u)]"
| "completion_events env rid (Inl error # rest) n u reason =
     [Inl (EngineExecution (''invalid completion event stream: '' @ error))]"
| "completion_events env rid (Inr event_data # rest) n u reason =
     (if event_data = ''[DONE]''
      then [Inr (Finished rid (case reason of None \<Rightarrow> FinishStop | Some r \<Rightarrow> r) u)]
      else
        case rn_chunk env event_data of
          Inl error \<Rightarrow> [Inl (EngineExecution (''invalid completion chunk: '' @ error))]
        | Inr chunk \<Rightarrow>
            (case ck_error chunk of
               Some message \<Rightarrow> [Inl (EngineExecution (''remote engine error: '' @ message))]
             | None \<Rightarrow>
                 (let u' = (case ck_usage chunk of None \<Rightarrow> u | Some remote \<Rightarrow> usage_of remote);
                      updates = (case ck_usage chunk of None \<Rightarrow> [] | Some remote \<Rightarrow> [Inr (UsageUpdate rid u' True)])
                  in case choice_events rid (ck_choices chunk) n reason of
                       (events, m, reason') \<Rightarrow>
                         updates @ map Inr events @ completion_events env rid rest m u' reason')))"

definition completion_request :: "remote_adapter \<Rightarrow> canonical_request \<Rightarrow> json \<Rightarrow> remote_request" where
  "completion_request a request body =
     (authorized (ra_config a) (post_request (endpoint (ra_config a) ''/v1/completions'') body))
       \<lparr>rr_headers := [(''x-request-id'', rq_id request)]\<rparr>"

definition remote_execute ::
    "remote_env \<Rightarrow> remote_adapter \<Rightarrow> execution_target \<Rightarrow> canonical_request \<Rightarrow> prepared_state_attachment option
     \<Rightarrow> operation_context \<Rightarrow> cancel_token set \<Rightarrow> instant \<Rightarrow> (engine_stream, engine_error) result" where
  "remote_execute env a target request state context cancelled now =
     and_then (remote_guard context cancelled now) (\<lambda>_.
     and_then (target_config (ra_config a) target) (\<lambda>candidate.
     if state \<noteq> None
     then Inl (EngineUnsupported ''remote completion adapter does not import reusable state'')
     else and_then (completion_body env (ra_flavor a) request (rx_served_model candidate)) (\<lambda>body.
     (case rn_client env (completion_request a request body) of
        Inl error \<Rightarrow> Inl (EngineExecution (''completion request failed: '' @ error))
      | Inr response \<Rightarrow>
          if \<not> is_success (rs_status response)
          then Inl (EngineExecution (''completion endpoint returned '' @ rn_status_text env (rs_status response) @
                 '': '' @ response_detail response))
          else Inr (Inr (Accepted (rq_id request)) #
                 completion_events env (rq_id request) (rs_events response) 1 usage_default None)))))"

definition remote_cancel ::
    "remote_env \<Rightarrow> remote_adapter \<Rightarrow> request_id \<Rightarrow> operation_context \<Rightarrow> cancel_token set \<Rightarrow> instant
     \<Rightarrow> (unit, engine_error) result" where
  "remote_cancel env a rid context cancelled now =
     and_then (remote_guard context cancelled now) (\<lambda>_.
     if ra_flavor a = Sglang then
       (let cfg = ra_config a in
        case rn_client env (authorized cfg (post_request (endpoint cfg ''/abort_request'')
               (JObject [(''rid'', JString rid), (''abort_all'', JBool False)]))) of
          Inl error \<Rightarrow> Inl (EngineExecution (''abort request failed: '' @ error))
        | Inr response \<Rightarrow>
            if \<not> is_success (rs_status response)
            then Inl (EngineExecution (''abort endpoint returned '' @ rn_status_text env (rs_status response)))
            else Inr ())
     else Inr ())"

text \<open>No state is imported.\<close>

definition remote_prepare_state_import :: "execution_target \<Rightarrow> state_import_spec \<Rightarrow> (state_import_target, engine_error) result" where
  "remote_prepare_state_import target spec =
     Inl (EngineUnsupported ''remote completion adapter does not import reusable state'')"

definition remote_commit_state_import ::
    "state_import_target \<Rightarrow> transfer_receipt \<Rightarrow> (prepared_state_attachment, engine_error) result" where
  "remote_commit_state_import import receipt =
     Inl (EngineUnsupported ''remote completion adapter does not import reusable state'')"

definition remote_abort_state_import :: "state_import_target \<Rightarrow> (unit, engine_error) result" where
  "remote_abort_state_import import = Inr ()"

section \<open>What a stream says\<close>

text \<open>The chunks before the end marker, if all of them can be read and none reports an error.\<close>

fun chunks_of :: "remote_env \<Rightarrow> (string, string) result list \<Rightarrow> completion_chunk list option" where
  "chunks_of env [] = Some []"
| "chunks_of env (Inl _ # _) = None"
| "chunks_of env (Inr event_data # rest) =
     (if event_data = ''[DONE]'' then Some []
      else case rn_chunk env event_data of
        Inl _ \<Rightarrow> None
      | Inr chunk \<Rightarrow> if ck_error chunk = None then map_option ((#) chunk) (chunks_of env rest) else None)"

definition first_choices :: "completion_choice list \<Rightarrow> completion_choice list" where
  "first_choices cs = filter (\<lambda>c. co_index c = 0) cs"

definition choice_texts :: "completion_choice list \<Rightarrow> string list" where
  "choice_texts cs = filter (\<lambda>t. t \<noteq> []) (map co_text (first_choices cs))"

definition choice_reasons :: "completion_choice list \<Rightarrow> string list" where
  "choice_reasons cs = List.map_filter co_finish_reason (first_choices cs)"

abbreviation all_choices :: "completion_chunk list \<Rightarrow> completion_choice list" where
  "all_choices chunks \<equiv> concat (map ck_choices chunks)"

definition last_reason :: "engine_finish_reason option \<Rightarrow> string list \<Rightarrow> engine_finish_reason option" where
  "last_reason reason rs = (if rs = [] then reason else Some (map_finish_reason (last rs)))"

definition last_usage :: "usage \<Rightarrow> completion_usage list \<Rightarrow> usage" where
  "last_usage u us = (if us = [] then u else usage_of (last us))"

definition text_events :: "request_id \<Rightarrow> u64 \<Rightarrow> string list \<Rightarrow> engine_event list" where
  "text_events rid n ts = map (\<lambda>(i, t). TextDelta rid i t) (enumerate n ts)"

fun is_text :: "engine_event \<Rightarrow> bool" where
  "is_text (TextDelta _ _ _) = True"
| "is_text _ = False"

fun is_finish :: "engine_event \<Rightarrow> bool" where
  "is_finish (Finished _ _ _) = True"
| "is_finish _ = False"

lemma choice_texts_append: "choice_texts (xs @ ys) = choice_texts xs @ choice_texts ys"
  by (simp add: choice_texts_def first_choices_def)

lemma choice_reasons_append: "choice_reasons (xs @ ys) = choice_reasons xs @ choice_reasons ys"
  by (simp add: choice_reasons_def first_choices_def map_filter_def)

lemma last_reason_append: "last_reason (last_reason r xs) ys = last_reason r (xs @ ys)"
  by (simp add: last_reason_def)

lemma text_events_append: "text_events rid n (xs @ ys) = text_events rid n xs @ text_events rid (n + length xs) ys"
  by (simp add: text_events_def enumerate_append_eq)

lemma choice_events_spec:
  assumes "n + length (choice_texts cs) \<le> u64_max"
  shows "choice_events rid cs n reason =
     (text_events rid n (choice_texts cs), n + length (choice_texts cs), last_reason reason (choice_reasons cs))"
  using assms
proof (induction cs arbitrary: n reason)
  case Nil
  then show ?case by (simp add: choice_texts_def choice_reasons_def first_choices_def map_filter_def text_events_def last_reason_def)
next
  case (Cons c cs)
  show ?case
  proof (cases "co_index c = 0")
    case False
    then have "choice_texts (c # cs) = choice_texts cs" "choice_reasons (c # cs) = choice_reasons cs"
      by (simp_all add: choice_texts_def choice_reasons_def first_choices_def)
    then show ?thesis using Cons False by simp
  next
    case True
    let ?reason = "case co_finish_reason c of None \<Rightarrow> reason | Some r \<Rightarrow> Some (map_finish_reason r)"
    have reasons: "last_reason reason (choice_reasons (c # cs)) = last_reason ?reason (choice_reasons cs)"
      using True by (auto simp: choice_reasons_def first_choices_def last_reason_def map_filter_def split: option.splits)
    have texts: "choice_texts (c # cs) = (if co_text c = [] then [] else [co_text c]) @ choice_texts cs"
      using True by (simp add: choice_texts_def first_choices_def)
    show ?thesis
    proof (cases "co_text c = []")
      case empty: True
      then show ?thesis using Cons.prems Cons.IH [of n ?reason] True unfolding reasons by (simp add: texts Let_def)
    next
      case False
      with Cons.prems have n: "Suc n + length (choice_texts cs) \<le> u64_max" by (simp add: texts)
      then have "wrap_add64 n 1 = Suc n" by (simp add: wrap_add64_exact)
      then show ?thesis
        using Cons.IH [OF n, of ?reason] True False unfolding reasons by (simp add: texts text_events_def Let_def)
    qed
  qed
qed

definition stream_of ::
    "request_id \<Rightarrow> u64 \<Rightarrow> usage \<Rightarrow> engine_finish_reason option \<Rightarrow> completion_chunk list \<Rightarrow> engine_event list \<Rightarrow> bool" where
  "stream_of rid n u reason chunks es \<longleftrightarrow>
     (\<exists>body. es = body @ [Finished rid
          (case last_reason reason (choice_reasons (all_choices chunks)) of None \<Rightarrow> FinishStop | Some r \<Rightarrow> r)
          (last_usage u (List.map_filter ck_usage chunks))] \<and>
        filter is_text body = text_events rid n (choice_texts (all_choices chunks)) \<and>
        filter (\<lambda>e. \<not> is_text e) body = map (\<lambda>v. UsageUpdate rid (usage_of v) True) (List.map_filter ck_usage chunks))"

lemma stream_of_Nil: "stream_of rid n u reason [] [Finished rid (case reason of None \<Rightarrow> FinishStop | Some r \<Rightarrow> r) u]"
  by (simp add: stream_of_def choice_texts_def choice_reasons_def first_choices_def map_filter_def text_events_def
      last_reason_def last_usage_def)

lemma text_events_filter: "filter is_text (text_events rid n ts) = text_events rid n ts"
    "filter (\<lambda>e. \<not> is_text e) (text_events rid n ts) = []"
  by (auto simp: text_events_def filter_empty_conv intro!: filter_True)

lemma stream_of_Cons:
  assumes "stream_of rid (n + length (choice_texts (ck_choices chunk)))
      (case ck_usage chunk of None \<Rightarrow> u | Some remote \<Rightarrow> usage_of remote)
      (last_reason reason (choice_reasons (ck_choices chunk))) chunks es"
  shows "stream_of rid n u reason (chunk # chunks)
     ((case ck_usage chunk of None \<Rightarrow> [] | Some remote \<Rightarrow> [UsageUpdate rid (usage_of remote) True]) @
      text_events rid n (choice_texts (ck_choices chunk)) @ es)"
proof -
  obtain body where "es = body @ [Finished rid
          (case last_reason reason (choice_reasons (all_choices (chunk # chunks))) of None \<Rightarrow> FinishStop | Some r \<Rightarrow> r)
          (last_usage u (List.map_filter ck_usage (chunk # chunks)))]"
      "filter is_text body = text_events rid (n + length (choice_texts (ck_choices chunk))) (choice_texts (all_choices chunks))"
      "filter (\<lambda>e. \<not> is_text e) body = map (\<lambda>v. UsageUpdate rid (usage_of v) True) (List.map_filter ck_usage chunks)"
    using assms
    by (auto simp: stream_of_def last_reason_append choice_reasons_append map_filter_def last_usage_def split: option.splits)
  then show ?thesis
    unfolding stream_of_def
    by (intro exI [of _ "(case ck_usage chunk of None \<Rightarrow> [] | Some remote \<Rightarrow> [UsageUpdate rid (usage_of remote) True]) @
        text_events rid n (choice_texts (ck_choices chunk)) @ body"])
      (simp add: text_events_filter text_events_append choice_texts_append map_filter_def split: option.split)
qed

lemma completion_events_spec:
  assumes "chunks_of env events = Some chunks" and "n + length (choice_texts (all_choices chunks)) \<le> u64_max"
  shows "\<exists>es. completion_events env rid events n u reason = map Inr es \<and> stream_of rid n u reason chunks es"
  using assms
proof (induction env events arbitrary: chunks n u reason rule: chunks_of.induct)
  case (1 env)
  then show ?case using stream_of_Nil [of rid n u reason] by (auto intro!: exI [of _ "[_]"])
next
  case (2 env e rest)
  then show ?case by simp
next
  case (3 env d rest)
  show ?case
  proof (cases "d = ''[DONE]''")
    case True
    then show ?thesis using 3 stream_of_Nil [of rid n u reason] by (auto intro!: exI [of _ "[_]"])
  next
    case False
    then obtain chunk cs where chunk: "rn_chunk env d = Inr chunk" "ck_error chunk = None"
        "chunks_of env rest = Some cs" "chunks = chunk # cs"
      using 3(2) by (auto split: sum.splits if_splits)
    let ?m = "n + length (choice_texts (ck_choices chunk))" and ?r = "last_reason reason (choice_reasons (ck_choices chunk))"
      and ?u = "case ck_usage chunk of None \<Rightarrow> u | Some remote \<Rightarrow> usage_of remote"
    have len: "?m + length (choice_texts (all_choices cs)) \<le> u64_max"
      using 3(3) by (simp add: chunk(4) choice_texts_append)
    then obtain es where es: "completion_events env rid rest ?m ?u ?r = map Inr es" "stream_of rid ?m ?u ?r cs es"
      using 3(1) [OF False chunk(1,2) chunk(3)] by blast
    have "completion_events env rid (Inr d # rest) n u reason =
        map Inr ((case ck_usage chunk of None \<Rightarrow> [] | Some remote \<Rightarrow> [UsageUpdate rid (usage_of remote) True]) @
          text_events rid n (choice_texts (ck_choices chunk)) @ es)"
      using False chunk(1,2) len es(1) choice_events_spec [of n "ck_choices chunk" rid reason]
      by (auto simp: Let_def split: option.splits)
    then show ?thesis using stream_of_Cons [OF es(2)] chunk(4) by blast
  qed
qed

text \<open>A stream that cannot be read to its end has one error, at its end, and does not finish.\<close>

lemma choice_events_no_finish: "list_all (\<lambda>e. \<not> is_finish e) (fst (choice_events rid cs n reason))"
  by (induction rid cs n reason rule: choice_events.induct) (auto simp: Let_def split: prod.splits)

lemma completion_events_error:
  assumes "chunks_of env events = None"
  shows "\<exists>es message. completion_events env rid events n u reason = map Inr es @ [Inl (EngineExecution message)] \<and>
     list_all (\<lambda>e. \<not> is_finish e) es"
  using assms
proof (induction env events arbitrary: n u reason rule: chunks_of.induct)
  case (2 env e rest)
  then show ?case by (auto intro!: exI [of _ "[]"])
next
  case (3 env d rest)
  show ?case
  proof (cases "\<exists>chunk. rn_chunk env d = Inr chunk \<and> ck_error chunk = None")
    case True
    then obtain chunk where chunk: "rn_chunk env d = Inr chunk" "ck_error chunk = None" by blast
    with 3(2) have d: "d \<noteq> ''[DONE]''" and rest: "chunks_of env rest = None" by (auto split: if_splits)
    obtain events m reason' where c: "choice_events rid (ck_choices chunk) n reason = (events, m, reason')"
      by (metis prod_cases3)
    let ?u = "case ck_usage chunk of None \<Rightarrow> u | Some remote \<Rightarrow> usage_of remote"
    obtain es message where es: "completion_events env rid rest m ?u reason' = map Inr es @ [Inl (EngineExecution message)]"
        "list_all (\<lambda>e. \<not> is_finish e) es"
      using 3(1) [OF d chunk rest] by blast
    have "completion_events env rid (Inr d # rest) n u reason =
        map Inr ((case ck_usage chunk of None \<Rightarrow> [] | Some remote \<Rightarrow> [UsageUpdate rid (usage_of remote) True]) @ events @ es) @
        [Inl (EngineExecution message)]"
      using d chunk c es(1) by (auto simp: Let_def split: option.splits)
    moreover have "list_all (\<lambda>e. \<not> is_finish e) events" using choice_events_no_finish [of rid "ck_choices chunk" n reason] c by simp
    ultimately show ?thesis
      using es(2)
      by (intro exI [of _ "(case ck_usage chunk of None \<Rightarrow> [] | Some remote \<Rightarrow> [UsageUpdate rid (usage_of remote) True]) @ events @ es"]
          exI [of _ message]) (auto split: option.splits)
  next
    case False
    with 3(2) show ?thesis by (auto split: sum.splits if_splits option.splits intro!: exI [of _ "[]"])
  qed
qed simp

section \<open>A normalised request has a body\<close>

lemma map_of_put_field: "map_of (put_field k v obj) = (map_of obj)(k \<mapsto> v)"
  by (induction k v obj rule: put_field.induct) auto

lemma completion_fields_get:
  "map_of (completion_fields env flavor request m prompt) ''model'' = Some (JString m)"
  "map_of (completion_fields env flavor request m prompt) ''prompt'' = Some (JArray (map number prompt))"
  "map_of (completion_fields env flavor request m prompt) ''stream'' = Some (JBool True)"
  by (cases flavor; simp add: completion_fields_def Let_def map_of_put_field split: option.split)+

text \<open>The field by which an output format reaches the engine.\<close>

definition format_sent :: "json_from_str \<Rightarrow> runtime_flavor \<Rightarrow> response_format \<Rightarrow> (string \<times> json) list \<Rightarrow> bool" where
  "format_sent fs flavor format body =
     (case format of
        FormatText \<Rightarrow> True
      | FormatJsonObject \<Rightarrow> map_of body ''response_format'' = Some (JObject [(''type'', JString ''json_object'')])
      | FormatJsonSchema name description schema strict \<Rightarrow>
          if flavor = Sglang then map_of body ''json_schema'' = Some (JString schema)
          else \<exists>j. fs schema = Some j \<and> map_of body ''response_format'' =
                 Some (JObject [(''type'', JString ''json_schema''),
                   (''json_schema'', JObject [(''name'', JString name), (''schema'', j), (''strict'', JBool strict)])]))"

lemma tool_annotations_urls:
  "tool_annotations fs tools = Inr annotations \<Longrightarrow> map tm_type_url annotations = replicate (length tools) ''locus.tool.v1''"
  by (induction tools arbitrary: annotations) (auto simp: and_then_Inr_iff tool_annotation_def split: if_splits)

lemma contract_annotations_shape:
  assumes "contract_annotations fs request = Inr annotations"
  obtains flds rest where "annotations = \<lparr>tm_type_url = ''locus.generation-contract.v1'', tm_fields = flds\<rparr> # rest"
    and "list_ex (\<lambda>a. tm_type_url a = ''locus.tool.v1'') annotations \<longleftrightarrow> mq_tools request \<noteq> []"
    and "bt_get flds ''response_format'' = Some (case mq_response_format request of
        FormatText \<Rightarrow> ''text'' | FormatJsonObject \<Rightarrow> ''json_object'' | FormatJsonSchema _ _ _ _ \<Rightarrow> ''json_schema'')"
    and "\<forall>name description schema strict. mq_response_format request = FormatJsonSchema name description schema strict \<longrightarrow>
        fs schema \<noteq> None \<and> bt_get flds ''json_schema'' = Some schema \<and> bt_get flds ''json_schema_name'' = Some name \<and>
        bt_get flds ''strict'' = Some (bool_text strict)"
proof -
  obtain f tools where f: "format_fields fs (mq_response_format request)
        (bt_insert ''tool_choice'' (choice_text (mq_tool_choice request)) bt_empty) = Inr f"
      and tools: "tool_annotations fs (mq_tools request) = Inr tools"
      and a: "annotations = \<lparr>tm_type_url = ''locus.generation-contract.v1'', tm_fields =
        (case mq_reasoning_effort request of None \<Rightarrow> f | Some effort \<Rightarrow> bt_insert ''reasoning_effort'' (effort_as_str effort) f)\<rparr> # tools"
    using assms by (auto simp: contract_annotations_def and_then_Inr_iff Let_def)
  have urls: "list_ex (\<lambda>a. tm_type_url a = ''locus.tool.v1'') tools \<longleftrightarrow> mq_tools request \<noteq> []"
  proof -
    have "list_ex (\<lambda>u. u = ''locus.tool.v1'') (map tm_type_url tools) \<longleftrightarrow> mq_tools request \<noteq> []"
      unfolding tool_annotations_urls [OF tools] by (auto simp: list_ex_iff)
    then show ?thesis by (force simp: list_ex_iff)
  qed
  show thesis
  proof (rule that [OF a])
    show "list_ex (\<lambda>a. tm_type_url a = ''locus.tool.v1'') annotations \<longleftrightarrow> mq_tools request \<noteq> []" using urls by (simp add: a)
  qed (use f in \<open>cases "mq_response_format request"; auto simp: format_fields_def insert_description_def split: option.splits if_splits\<close>)+
qed

lemma contract_applies:
  assumes "contract_annotations fs request = Inr (ib_annotations (rq_input c))" and "rn_from_str env = fs"
  shows "\<exists>body'. apply_output_contract env flavor c body = Inr body' \<and>
     format_sent fs flavor (mq_response_format request) body' \<and>
     (\<forall>k. k \<noteq> ''response_format'' \<longrightarrow> k \<noteq> ''json_schema'' \<longrightarrow> map_of body' k = map_of body k)"
proof -
  obtain flds rest where shape: "ib_annotations (rq_input c) = \<lparr>tm_type_url = ''locus.generation-contract.v1'', tm_fields = flds\<rparr> # rest"
    and "list_ex (\<lambda>a. tm_type_url a = ''locus.tool.v1'') (ib_annotations (rq_input c)) \<longleftrightarrow> mq_tools request \<noteq> []"
    and format: "bt_get flds ''response_format'' = Some (case mq_response_format request of
        FormatText \<Rightarrow> ''text'' | FormatJsonObject \<Rightarrow> ''json_object'' | FormatJsonSchema _ _ _ _ \<Rightarrow> ''json_schema'')"
    and schema: "\<forall>name description schema strict. mq_response_format request = FormatJsonSchema name description schema strict \<longrightarrow>
        fs schema \<noteq> None \<and> bt_get flds ''json_schema'' = Some schema \<and> bt_get flds ''json_schema_name'' = Some name \<and>
        bt_get flds ''strict'' = Some (bool_text strict)"
    by (rule contract_annotations_shape [OF assms(1)]) (rule that; assumption)
  show ?thesis
  proof (cases "mq_response_format request")
    case (FormatJsonSchema name description schema strict)
    with schema obtain j where "fs schema = Some j" "bt_get flds ''json_schema'' = Some schema"
        "bt_get flds ''json_schema_name'' = Some name" "bt_get flds ''strict'' = Some (bool_text strict)"
      by auto
    then show ?thesis
      using FormatJsonSchema shape format assms(2)
      by (cases flavor) (auto simp: apply_output_contract_def format_sent_def map_of_put_field)
  qed (use shape format in \<open>auto simp: apply_output_contract_def format_sent_def map_of_put_field\<close>)
qed

lemma normalize_parts:
  assumes "normalize fs m request rid = Inr nm"
  obtains tokens identity where "normalize_input m request = Inr (tokens, identity)"
    and "contract_annotations fs request = Inr (ib_annotations (rq_input (nm_canonical nm)))"
    and "prompt_sequences (nm_canonical nm) = [ts_token_ids tokens]"
    and "rq_semantic_identity (nm_canonical nm) = identity"
    and "cr_requires_tool_calls (rq_requirements (nm_canonical nm)) \<longleftrightarrow> mq_tools request \<noteq> [] \<and> bm_tool_parser m = None"
  using assms
  by (auto simp: normalize_def and_then_Inr_iff Let_def prompt_sequences_def map_filter_def split: prod.splits)

lemma normalize_input_parser:
  assumes "normalize_input m request = Inr (tokens, identity)"
  shows "os_tool_parser (si_output identity) = os_tool_parser (si_output (mp_semantic_identity (bm_profile m)))"
  using assms
  by (auto simp: normalize_input_def and_then_Inr_iff raw_prompt_semantic_identity_def
      split: model_input.splits if_splits)

lemma with_output_parsers_identity:
  assumes "with_output_parsers reasoning tool m0 = Inr m"
  shows "os_tool_parser (si_output (mp_semantic_identity (bm_profile m))) = map_option td_identity (bm_tool_parser m)"
  using assms by (auto simp: with_output_parsers_def and_then_Inr_iff validate_parser_identity_def Let_def split: if_splits)

section \<open>Properties\<close>

text \<open>
  C28: the capability check of the planner is enough for this adapter. A request that the model layer
  normalised, and whose requirements the capabilities of a remote engine satisfy, is never
  refused: it has a body, which carries the model, the prompt's tokens and the requested output format.
\<close>

theorem normalized_request_has_body:
  assumes "with_output_parsers reasoning tool m0 = Inr m" and "normalize fs m request rid = Inr nm"
    and "satisfies remote_capabilities (rq_requirements (nm_canonical nm))" and "rn_from_str env = fs"
  shows "\<exists>body tokens identity. normalize_input m request = Inr (tokens, identity) \<and>
     completion_body env flavor (nm_canonical nm) served_model = Inr (JObject body) \<and>
     map_of body ''model'' = Some (JString served_model) \<and>
     map_of body ''prompt'' = Some (JArray (map number (ts_token_ids tokens))) \<and>
     map_of body ''stream'' = Some (JBool True) \<and> format_sent fs flavor (mq_response_format request) body"
proof -
  let ?c = "nm_canonical nm"
  obtain tokens identity where p: "normalize_input m request = Inr (tokens, identity)"
      "contract_annotations fs request = Inr (ib_annotations (rq_input ?c))" "prompt_sequences ?c = [ts_token_ids tokens]"
      "rq_semantic_identity ?c = identity"
      "cr_requires_tool_calls (rq_requirements ?c) \<longleftrightarrow> mq_tools request \<noteq> [] \<and> bm_tool_parser m = None"
    using normalize_parts [OF assms(2)] by blast
  have caps: "\<not> cr_requires_tool_calls (rq_requirements ?c)" "\<not> cr_requires_reasoning_deltas (rq_requirements ?c)"
    using assms(3) by (simp_all add: satisfies_def remote_capabilities_def)
  have tools: "list_ex (\<lambda>a. tm_type_url a = ''locus.tool.v1'') (ib_annotations (rq_input ?c)) \<longleftrightarrow> mq_tools request \<noteq> []"
    by (rule contract_annotations_shape [OF p(2)])
  have "os_tool_parser (si_output identity) = map_option td_identity (bm_tool_parser m)"
    using normalize_input_parser [OF p(1)] with_output_parsers_identity [OF assms(1)] by simp
  then have parser: "mq_tools request \<noteq> [] \<Longrightarrow> os_tool_parser (si_output identity) \<noteq> None" using caps(1) p(5) by simp
  obtain body where body: "apply_output_contract env flavor ?c (completion_fields env flavor ?c served_model (ts_token_ids tokens)) = Inr body"
      "format_sent fs flavor (mq_response_format request) body"
      "\<forall>k. k \<noteq> ''response_format'' \<longrightarrow> k \<noteq> ''json_schema'' \<longrightarrow>
         map_of body k = map_of (completion_fields env flavor ?c served_model (ts_token_ids tokens)) k"
    using contract_applies [OF p(2) assms(4)] by blast
  have "completion_body env flavor ?c served_model = Inr (JObject body)"
    using caps parser body(1) by (auto simp: completion_body_def p(3,4) tools)
  then show ?thesis using p(1) body(2,3) by (auto simp: completion_fields_get)
qed

text \<open>
  C27: the event stream of a remote execution. It starts with the acceptance. If the engine's response
  can be read up to its end marker, the texts of the first choice follow, numbered from one, with the usage
  reports in between, and then exactly one completion with the last finish reason and the last
  usage; otherwise the stream ends with one error and never completes.
\<close>

theorem remote_stream_protocol:
  assumes "remote_execute env a target request state context cancelled now = Inr stream"
  shows "\<exists>body response. rn_client env (completion_request a request body) = Inr response \<and>
     (case chunks_of env (rs_events response) of
        None \<Rightarrow> \<exists>es message. stream = Inr (Accepted (rq_id request)) # map Inr es @ [Inl (EngineExecution message)] \<and>
           list_all (\<lambda>e. \<not> is_finish e) es
      | Some chunks \<Rightarrow> length (choice_texts (all_choices chunks)) < u64_max \<longrightarrow>
           (\<exists>es. stream = map Inr (Accepted (rq_id request) # es) \<and>
              stream_of (rq_id request) 1 usage_default None chunks es))"
proof -
  obtain body where "(case rn_client env (completion_request a request body) of
        Inl error \<Rightarrow> Inl (EngineExecution (''completion request failed: '' @ error))
      | Inr response \<Rightarrow>
          if \<not> is_success (rs_status response)
          then Inl (EngineExecution (''completion endpoint returned '' @ rn_status_text env (rs_status response) @
                 '': '' @ response_detail response))
          else Inr (Inr (Accepted (rq_id request)) #
                 completion_events env (rq_id request) (rs_events response) 1 usage_default None)) = Inr stream"
    using assms unfolding remote_execute_def and_then_Inr_iff guard_Inr_iff by blast
  then obtain response where r: "rn_client env (completion_request a request body) = Inr response"
      and s: "stream = Inr (Accepted (rq_id request)) #
        completion_events env (rq_id request) (rs_events response) 1 usage_default None"
    by (auto split: if_splits sum.splits)
  show ?thesis
  proof (cases "chunks_of env (rs_events response)")
    case None
    then show ?thesis using r s completion_events_error [OF None] by fastforce
  next
    case (Some chunks)
    then have "length (choice_texts (all_choices chunks)) < u64_max \<Longrightarrow>
        \<exists>es. completion_events env (rq_id request) (rs_events response) 1 usage_default None = map Inr es \<and>
          stream_of (rq_id request) 1 usage_default None chunks es"
      by (intro completion_events_spec) simp_all
    then show ?thesis using r s Some by (intro exI [of _ body] exI [of _ response]) auto
  qed
qed

subsection \<open>Concrete instances\<close>

definition demo_json_request :: model_request where
  "demo_json_request = sample_model_request
     \<lparr>mq_tools := [], mq_tool_choice := ChoiceAuto, mq_response_format := FormatJsonObject\<rparr>"

definition demo_json_env :: remote_env where
  "demo_json_env = demo_remote_env\<lparr>rn_from_str := sample_from_str\<rparr>"

theorem normalized_request_has_body_witness:
  "\<exists>nm body. normalize sample_from_str sample_model_io demo_json_request ''r1'' = Inr nm \<and>
     completion_body demo_json_env Vllm (nm_canonical nm) ''m'' = Inr (JObject body) \<and>
     map_of body ''response_format'' = Some (JObject [(''type'', JString ''json_object'')])"
proof -
  have parsers: "with_output_parsers None None sample_model_io = Inr sample_model_io"
    by (simp add: with_output_parsers_def validate_parser_identity_def sample_model_io_def sample_semantics_def)
  obtain nm where nm: "normalize sample_from_str sample_model_io demo_json_request ''r1'' = Inr nm"
      "satisfies remote_capabilities (rq_requirements (nm_canonical nm))"
    by (auto simp: normalize_def validate_tool_contract_def normalize_input_def demo_json_request_def sample_model_request_def
        sample_model_io_def simple_render_def byte_encode_def contract_annotations_def format_fields_def Let_def
        satisfies_def remote_capabilities_def requirements_for_input_def bundle_kinds_def)
  have fs: "rn_from_str demo_json_env = sample_from_str" by (simp add: demo_json_env_def)
  from normalized_request_has_body [OF parsers nm fs, of Vllm "''m''"] nm(1) show ?thesis
    by (auto simp: format_sent_def demo_json_request_def)
qed

definition demo_chunk :: completion_chunk where
  "demo_chunk = \<lparr>ck_choices = [\<lparr>co_index = 0, co_text = ''hi'', co_finish_reason = Some ''length''\<rparr>],
     ck_usage = Some \<lparr>cu_prompt_tokens = 3, cu_completion_tokens = 1\<rparr>, ck_error = None\<rparr>"

definition demo_stream_env :: remote_env where
  "demo_stream_env = demo_remote_env
     \<lparr>rn_client := (\<lambda>_. Inr \<lparr>rs_status = 200, rs_body = Inr [], rs_text = Some [],
        rs_events = [Inr ''chunk'', Inr ''[DONE]'']\<rparr>),
      rn_chunk := (\<lambda>_. Inr demo_chunk)\<rparr>"

definition demo_adapter :: remote_adapter where
  "demo_adapter = \<lparr>ra_config = demo_remote_config, ra_flavor = Vllm, ra_telemetry = telemetry_state_default\<rparr>"

lemma demo_remote_execute:
  "remote_execute demo_stream_env demo_adapter (sample_target ''t1'' ''e'') sample_request None demo_context {} 0 =
     Inr (map Inr [Accepted ''r1'', UsageUpdate ''r1'' \<lparr>us_input_tokens = 3, us_output_tokens = 1\<rparr> True,
       TextDelta ''r1'' 1 ''hi'', Finished ''r1'' FinishLength \<lparr>us_input_tokens = 3, us_output_tokens = 1\<rparr>])"
proof -
  have body: "\<exists>b. completion_body demo_stream_env Vllm sample_request ''m'' = Inr b"
    by (simp add: completion_body_def prompt_sequences_def map_filter_def sample_defs apply_output_contract_def)
  then obtain b where "completion_body demo_stream_env Vllm sample_request ''m'' = Inr b" by blast
  then show ?thesis
    by (simp add: remote_execute_def demo_adapter_def demo_remote_parts)
      (simp add: demo_stream_env_def demo_chunk_def is_success_def usage_of_def sample_request_def Let_def)
qed

theorem remote_stream_protocol_witness:
  "\<exists>chunks es. map Inr [Accepted ''r1'', UsageUpdate ''r1'' \<lparr>us_input_tokens = 3, us_output_tokens = 1\<rparr> True,
       TextDelta ''r1'' 1 ''hi'', Finished ''r1'' FinishLength \<lparr>us_input_tokens = 3, us_output_tokens = 1\<rparr>] =
       (map Inr (Accepted ''r1'' # es) :: engine_stream) \<and>
     chunks = [demo_chunk] \<and> stream_of ''r1'' 1 usage_default None chunks es"
proof -
  have client: "rn_client demo_stream_env r = Inr \<lparr>rs_status = 200, rs_body = Inr [], rs_text = Some [],
      rs_events = [Inr ''chunk'', Inr ''[DONE]'']\<rparr>" for r
    by (simp add: demo_stream_env_def)
  have chunks: "chunks_of demo_stream_env [Inr ''chunk'', Inr ''[DONE]''] = Some [demo_chunk]"
    by (simp add: demo_stream_env_def demo_chunk_def)
  have short: "length (choice_texts (all_choices [demo_chunk])) < u64_max"
    by (simp add: demo_chunk_def choice_texts_def first_choices_def u64_max_def)
  from remote_stream_protocol [OF demo_remote_execute] short show ?thesis
    by (simp add: client chunks sample_request_def del: chunks_of.simps)
qed

section \<open>The executor's contract\<close>

text \<open>
  A remote engine beside a state store: it never has an import in progress, so the executor's
  contract holds for it, and a plan that reuses state falls back or fails without a trace.
\<close>

record remote_world =
  rw_adapter :: remote_adapter
  rw_store :: fake_store

definition remote_registry :: "remote_adapter \<Rightarrow> remote_adapter engine_registry" where
  "remote_registry a =
     bt_insert (er_id (ei_reference (rcf_instance (ra_config a))))
       \<lparr>re_adapter = a, re_lifecycle = LifeReady, re_active = bt_empty\<rparr> bt_empty"

definition remote_ops :: "remote_env \<Rightarrow> cancel_token set \<Rightarrow> instant \<Rightarrow> remote_world adapter_ops" where
  "remote_ops env cancelled now =
     \<lparr>op_lookup = (\<lambda>t w. and_then (adapter_for (\<lambda>a. rcf_instance (ra_config a)) t (remote_registry (rw_adapter w))) (\<lambda>_. Inr ())),
      op_prepare = (\<lambda>t sp c w. (remote_prepare_state_import t sp, w)),
      op_commit = (\<lambda>imp rc c w. (remote_commit_state_import imp rc, w)),
      op_abort = (\<lambda>imp c w. (remote_abort_state_import imp, w)),
      op_execute = (\<lambda>t rq st c w. (remote_execute env (rw_adapter w) t rq st c cancelled now, w)),
      op_materialize = (\<lambda>opt imp c w. case fake_materialize opt imp c cancelled now (rw_store w) of
         (r, st) \<Rightarrow> (r, w\<lparr>rw_store := st\<rparr>))\<rparr>"

interpretation remote_exec: importing_engine "remote_ops env cancelled now" "\<lambda>_. {}" "\<lambda>_. {}" "\<lambda>_. True" for env cancelled now
  by unfold_locales
    (auto simp: remote_ops_def remote_prepare_state_import_def remote_commit_state_import_def split: prod.splits)

end
