(* ===== verification/Traffic_Metrics.thy ===== *)
theory Traffic_Metrics
  imports Traffic Http Prometheus
begin

text \<open>
  The metrics text of the traffic controller (\<open>TrafficController::prometheus\<close> in
  \<open>crates/runtime/src/traffic.rs\<close>), and that the Prometheus parser of the engine adapters reads from
  it exactly the counters of the controller's state. How \<open>Display\<close> prints an \<open>f64\<close> is the parameter
  \<open>f64_text\<close>; of it is used that a printed value reads back.
\<close>

section \<open>The text\<close>

definition queue_wait_seconds :: "u128 \<Rightarrow> f64" where
  "queue_wait_seconds micros = f_div (f_of_u64 micros) (F_Fin 1000000)"

definition tenant_labels :: "tenant_policy \<Rightarrow> (string \<times> string) list" where
  "tenant_labels tenant = [(''class'', tp_service_class tenant), (''tenant'', tp_id tenant)]"

definition traffic_prometheus :: "(f64 \<Rightarrow> string) \<Rightarrow> traffic_controller \<Rightarrow> traffic_state \<Rightarrow> string" where
  "traffic_prometheus f64_text tc st =
     lines [''# HELP locus_admission_requests_total Admission decisions by configured class and tenant.'',
            ''# TYPE locus_admission_requests_total counter''] @
     concat (map (\<lambda>((class, tenant, outcome), v).
       metric_line ''locus_admission_requests_total''
         [(''class'', class), (''tenant'', tenant), (''outcome'', outcome)] v) (entries (st_admissions st))) @
     lines [''# HELP locus_admission_rejections_total Rejected requests by bounded reason.'',
            ''# TYPE locus_admission_rejections_total counter''] @
     concat (map (\<lambda>((class, tenant, reason), v).
       metric_line ''locus_admission_rejections_total''
         [(''class'', class), (''tenant'', tenant), (''reason'', reason)] v) (entries (st_rejections st))) @
     lines [''# HELP locus_request_terminations_total Request terminations by bounded reason.'',
            ''# TYPE locus_request_terminations_total counter''] @
     concat (map (\<lambda>((class, tenant, reason), v).
       metric_line ''locus_request_terminations_total''
         [(''class'', class), (''tenant'', tenant), (''reason'', reason)] v) (entries (st_terminations st))) @
     lines [''# HELP locus_admission_active_requests Active admitted requests.'',
            ''# TYPE locus_admission_active_requests gauge'',
            ''# HELP locus_admission_active_tokens Reserved prompt and output tokens.'',
            ''# TYPE locus_admission_active_tokens gauge'',
            ''# HELP locus_admission_queued_requests Requests waiting for admission.'',
            ''# TYPE locus_admission_queued_requests gauge'',
            ''# HELP locus_admission_queued_tokens Tokens represented by queued requests.'',
            ''# TYPE locus_admission_queued_tokens gauge''] @
     concat (map (\<lambda>tenant.
       metric_line ''locus_admission_active_requests'' (tenant_labels tenant)
         (bt_count (st_tenant_active_requests st) (tp_id tenant)) @
       metric_line ''locus_admission_active_tokens'' (tenant_labels tenant)
         (bt_count (st_tenant_active_tokens st) (tp_id tenant)) @
       metric_line ''locus_admission_queued_requests'' (tenant_labels tenant)
         (bt_count (st_tenant_queued_requests st) (tp_id tenant)) @
       metric_line ''locus_admission_queued_tokens'' (tenant_labels tenant)
         (bt_count (st_tenant_queued_tokens st) (tp_id tenant))) (bt_values (tc_tenants tc))) @
     lines [''# HELP locus_admission_queue_wait_seconds Total time spent waiting for admission.'',
            ''# TYPE locus_admission_queue_wait_seconds summary''] @
     concat (map (\<lambda>((class, tenant), micros).
       metric_float_line ''locus_admission_queue_wait_seconds_sum'' [(''class'', class), (''tenant'', tenant)]
         (f64_text (queue_wait_seconds micros)) @
       metric_line ''locus_admission_queue_wait_seconds_count'' [(''class'', class), (''tenant'', tenant)]
         (bt_count (st_queue_wait_count st) (class, tenant))) (entries (st_queue_wait_micros st))) @
     lines [''# HELP locus_traffic_controller_draining Whether new inference admission is disabled.'',
            ''# TYPE locus_traffic_controller_draining gauge'',
            ''locus_traffic_controller_draining '' @ nat_to_dec (if st_draining st then 1 else 0),
            ''# HELP locus_traffic_forced_cancellations_total Requests cancelled after drain grace expired.'',
            ''# TYPE locus_traffic_forced_cancellations_total counter'',
            ''locus_traffic_forced_cancellations_total '' @ nat_to_dec (st_forced_cancellations st)]"

section \<open>What a scrape should see\<close>

definition sample :: "string \<Rightarrow> (string \<times> string) list \<Rightarrow> f64 \<Rightarrow> prometheus_sample" where
  "sample name labels v = \<lparr>ps_name = name, ps_labels = bt_of_list labels, ps_value = v\<rparr>"

definition counter_samples :: "string \<Rightarrow> string \<Rightarrow> (labels3, u64) btree \<Rightarrow> prometheus_sample list" where
  "counter_samples name third m =
     map (\<lambda>((class, tenant, x), v). sample name [(''class'', class), (''tenant'', tenant), (third, x)] (f_of_u64 v))
       (entries m)"

definition tenant_samples :: "traffic_state \<Rightarrow> tenant_policy \<Rightarrow> prometheus_sample list" where
  "tenant_samples st tenant =
     [sample ''locus_admission_active_requests'' (tenant_labels tenant)
        (f_of_u64 (bt_count (st_tenant_active_requests st) (tp_id tenant))),
      sample ''locus_admission_active_tokens'' (tenant_labels tenant)
        (f_of_u64 (bt_count (st_tenant_active_tokens st) (tp_id tenant))),
      sample ''locus_admission_queued_requests'' (tenant_labels tenant)
        (f_of_u64 (bt_count (st_tenant_queued_requests st) (tp_id tenant))),
      sample ''locus_admission_queued_tokens'' (tenant_labels tenant)
        (f_of_u64 (bt_count (st_tenant_queued_tokens st) (tp_id tenant)))]"

definition wait_samples :: "traffic_state \<Rightarrow> (string \<times> string) \<times> u128 \<Rightarrow> prometheus_sample list" where
  "wait_samples st = (\<lambda>((class, tenant), micros).
     [sample ''locus_admission_queue_wait_seconds_sum'' [(''class'', class), (''tenant'', tenant)] (queue_wait_seconds micros),
      sample ''locus_admission_queue_wait_seconds_count'' [(''class'', class), (''tenant'', tenant)]
        (f_of_u64 (bt_count (st_queue_wait_count st) (class, tenant)))])"

definition traffic_samples :: "traffic_controller \<Rightarrow> traffic_state \<Rightarrow> prometheus_sample list" where
  "traffic_samples tc st =
     counter_samples ''locus_admission_requests_total'' ''outcome'' (st_admissions st) @
     counter_samples ''locus_admission_rejections_total'' ''reason'' (st_rejections st) @
     counter_samples ''locus_request_terminations_total'' ''reason'' (st_terminations st) @
     concat (map (tenant_samples st) (bt_values (tc_tenants tc))) @
     concat (map (wait_samples st) (entries (st_queue_wait_micros st))) @
     [sample ''locus_traffic_controller_draining'' [] (f_of_u64 (if st_draining st then 1 else 0)),
      sample ''locus_traffic_forced_cancellations_total'' [] (f_of_u64 (st_forced_cancellations st))]"

section \<open>The text reads back\<close>

text \<open>A part of a page, with the samples that its lines are read as.\<close>

definition page_reads :: "string \<Rightarrow> prometheus_sample list \<Rightarrow> bool" where
  "page_reads page samples \<longleftrightarrow>
     (\<exists>ls rs. list_all2 line_reads ls rs \<and> page = concat (map (\<lambda>l. l @ [line_feed]) ls) \<and>
        samples = List.map_filter id rs)"

lemma page_reads_Nil: "page_reads [] []"
  by (force simp: page_reads_def map_filter_def)

lemma page_reads_append:
  assumes "page_reads p s" and "page_reads q t"
  shows "page_reads (p @ q) (s @ t)"
proof -
  obtain ls rs ls' rs' where "list_all2 line_reads ls rs" "p = concat (map (\<lambda>l. l @ [line_feed]) ls)"
      "s = List.map_filter id rs" "list_all2 line_reads ls' rs'" "q = concat (map (\<lambda>l. l @ [line_feed]) ls')"
      "t = List.map_filter id rs'"
    using assms by (auto simp: page_reads_def)
  then show ?thesis
    unfolding page_reads_def
    by (intro exI [of _ "ls @ ls'"] exI [of _ "rs @ rs'"]) (simp add: list_all2_appendI map_filter_def)
qed

lemma page_reads_concat:
  "(\<And>x. x \<in> set xs \<Longrightarrow> page_reads (f x) (g x)) \<Longrightarrow> page_reads (concat (map f xs)) (concat (map g xs))"
  by (induction xs) (simp_all add: page_reads_Nil page_reads_append)

lemma page_reads_line: "line_reads l (Some s) \<Longrightarrow> page_reads (l @ [line_feed]) [s]"
  unfolding page_reads_def by (intro exI [of _ "[l]"] exI [of _ "[Some s]"]) (simp add: map_filter_def)

definition comment_ok :: "string \<Rightarrow> bool" where
  "comment_ok l \<longleftrightarrow> l \<noteq> [] \<and> hd l = CHR ''#'' \<and> list_all inline l \<and> \<not> is_whitespace [last l]"

lemma lines_Cons: "lines (l # ls) = (l @ [line_feed]) @ lines ls"
  by (simp add: lines_def line_feed_def char_of_def bit_iff_odd)

lemma page_reads_comment:
  assumes "comment_ok l"
  shows "page_reads (l @ [line_feed]) []"
  unfolding page_reads_def
  by (intro exI [of _ "[l]"] exI [of _ "[None]"])
    (use assms comment_line_reads [of l] in \<open>simp add: map_filter_def comment_ok_def\<close>)

lemma page_reads_skip:
  "list_all comment_ok ls \<Longrightarrow> page_reads q t \<Longrightarrow> page_reads (lines ls @ q) t"
proof (induction ls)
  case Nil
  then show ?case by (simp add: lines_def)
next
  case (Cons l ls)
  then show ?case
    using page_reads_append [OF page_reads_comment [of l], of "lines ls @ q" t] by (simp add: lines_Cons)
qed

lemma page_reads_float:
  assumes "name_ok name" and "list_all label_ok ls" and "distinct (map fst ls)"
    and "value_text_ok v" and "parse_f64 v = Some x"
  shows "page_reads (metric_float_line name ls v) [sample name ls x]"
  using page_reads_line [OF labelled_line_reads [OF assms]] by (simp add: metric_float_line_def sample_def)

lemma page_reads_metric:
  "name_ok name \<Longrightarrow> list_all label_ok ls \<Longrightarrow> distinct (map fst ls) \<Longrightarrow>
   page_reads (metric_line name ls n) [sample name ls (f_of_u64 n)]"
  unfolding metric_line_def by (intro page_reads_float nat_to_dec_value_text parse_f64_nat_to_dec)

lemma page_reads_plain:
  assumes "name_ok name"
  shows "page_reads (lines [(name @ '' '') @ nat_to_dec n]) [sample name [] (f_of_u64 n)]"
  unfolding lines_Cons
  using page_reads_line [OF plain_line_reads [OF assms nat_to_dec_value_text parse_f64_nat_to_dec]]
  by (simp add: sample_def bt_of_list_def lines_def)

lemma page_reads_parse:
  "page_reads page samples \<Longrightarrow> length samples \<le> max_samples \<Longrightarrow> parse_prometheus page max_samples = Inr samples"
  by (auto simp: page_reads_def parse_page)

text \<open>Every name that appears as a label is ASCII, and the printed waiting times read back.\<close>

definition ascii3 :: "labels3 \<Rightarrow> bool" where
  "ascii3 = (\<lambda>(a, b, c). list_all is_ascii a \<and> list_all is_ascii b \<and> list_all is_ascii c)"

definition names_ascii :: "traffic_controller \<Rightarrow> traffic_state \<Rightarrow> bool" where
  "names_ascii tc st \<longleftrightarrow>
     list_all ascii3 (bt_keys (st_admissions st) @ bt_keys (st_rejections st) @ bt_keys (st_terminations st)) \<and>
     list_all (\<lambda>(a, b). list_all is_ascii a \<and> list_all is_ascii b) (bt_keys (st_queue_wait_micros st)) \<and>
     list_all (\<lambda>t. list_all is_ascii (tp_service_class t) \<and> list_all is_ascii (tp_id t)) (bt_values (tc_tenants tc))"

definition waits_read_back :: "(f64 \<Rightarrow> string) \<Rightarrow> traffic_state \<Rightarrow> bool" where
  "waits_read_back f64_text st \<longleftrightarrow>
     list_all (\<lambda>micros. value_text_ok (f64_text (queue_wait_seconds micros)) \<and>
         parse_f64 (f64_text (queue_wait_seconds micros)) = Some (queue_wait_seconds micros))
       (bt_values (st_queue_wait_micros st))"

lemma page_reads_map:
  assumes "\<And>x. x \<in> set xs \<Longrightarrow> page_reads (f x) [g x]"
  shows "page_reads (concat (map f xs)) (map g xs)"
  using page_reads_concat [of xs f "\<lambda>x. [g x]"] assms by simp

lemma counters_read:
  assumes "name_ok name" and "list_all ascii3 (bt_keys m)" and "third \<in> {''outcome'', ''reason''}"
  shows "page_reads (concat (map (\<lambda>((class, tenant, x), v).
       metric_line name [(''class'', class), (''tenant'', tenant), (third, x)] v) (entries m)))
     (counter_samples name third m)"
  unfolding counter_samples_def
proof (rule page_reads_map)
  fix e assume "e \<in> set (entries m)"
  moreover obtain cl tenant x v where e: "e = ((cl, tenant, x), v)" by (metis prod.collapse)
  ultimately have "ascii3 (cl, tenant, x)" using assms(2) by (force simp: bt_keys_def list_all_iff)
  moreover have "list_all is_label_char ''class''" "list_all is_label_char ''tenant''"
      "list_all is_label_char ''outcome''" "list_all is_label_char ''reason''"
    by (simp_all add: char_class_defs)
  ultimately have "list_all label_ok [(''class'', cl), (''tenant'', tenant), (third, x)]"
    using assms(3) by (auto simp: label_ok_def ascii3_def)
  then show "page_reads
      ((\<lambda>((class, tenant, x), v). metric_line name [(''class'', class), (''tenant'', tenant), (third, x)] v) e)
      [(\<lambda>((class, tenant, x), v). sample name [(''class'', class), (''tenant'', tenant), (third, x)] (f_of_u64 v)) e]"
    using page_reads_metric [OF assms(1)] assms(3) by (auto simp: e)
qed

lemma label_names_ok:
  "list_all is_label_char ''class''" "list_all is_label_char ''tenant''"
  "list_all is_label_char ''outcome''" "list_all is_label_char ''reason''"
  by (simp_all add: char_class_defs)

lemma pair_labels_ok:
  "list_all is_ascii cl \<Longrightarrow> list_all is_ascii tenant \<Longrightarrow>
   list_all label_ok [(''class'', cl), (''tenant'', tenant)] \<and> distinct (map fst [(''class'', cl), (''tenant'', tenant)])"
  using label_names_ok by (simp add: label_ok_def)

lemma metric_names_ok:
  "name_ok ''locus_admission_requests_total''" "name_ok ''locus_admission_rejections_total''"
  "name_ok ''locus_request_terminations_total''" "name_ok ''locus_admission_active_requests''"
  "name_ok ''locus_admission_active_tokens''" "name_ok ''locus_admission_queued_requests''"
  "name_ok ''locus_admission_queued_tokens''" "name_ok ''locus_admission_queue_wait_seconds_sum''"
  "name_ok ''locus_admission_queue_wait_seconds_count''" "name_ok ''locus_traffic_controller_draining''"
  "name_ok ''locus_traffic_forced_cancellations_total''"
  by (simp_all add: name_ok_def char_class_defs)

lemma tenant_lines_read:
  assumes "list_all is_ascii (tp_service_class tenant)" and "list_all is_ascii (tp_id tenant)"
  shows "page_reads
     (metric_line ''locus_admission_active_requests'' (tenant_labels tenant) a @
      metric_line ''locus_admission_active_tokens'' (tenant_labels tenant) b @
      metric_line ''locus_admission_queued_requests'' (tenant_labels tenant) c @
      metric_line ''locus_admission_queued_tokens'' (tenant_labels tenant) d)
     [sample ''locus_admission_active_requests'' (tenant_labels tenant) (f_of_u64 a),
      sample ''locus_admission_active_tokens'' (tenant_labels tenant) (f_of_u64 b),
      sample ''locus_admission_queued_requests'' (tenant_labels tenant) (f_of_u64 c),
      sample ''locus_admission_queued_tokens'' (tenant_labels tenant) (f_of_u64 d)]"
proof -
  have ok: "list_all label_ok (tenant_labels tenant)" "distinct (map fst (tenant_labels tenant))"
    using pair_labels_ok [OF assms] by (simp_all add: tenant_labels_def)
  note read = page_reads_metric [OF _ ok]
  show ?thesis
    using page_reads_append [OF read [OF metric_names_ok(4)] page_reads_append [OF read [OF metric_names_ok(5)]
        page_reads_append [OF read [OF metric_names_ok(6)] read [OF metric_names_ok(7)]]]]
    by simp
qed

lemma wait_lines_read:
  assumes "list_all is_ascii cl" and "list_all is_ascii tenant" and "value_text_ok v" and "parse_f64 v = Some x"
  shows "page_reads
     (metric_float_line ''locus_admission_queue_wait_seconds_sum'' [(''class'', cl), (''tenant'', tenant)] v @
      metric_line ''locus_admission_queue_wait_seconds_count'' [(''class'', cl), (''tenant'', tenant)] n)
     [sample ''locus_admission_queue_wait_seconds_sum'' [(''class'', cl), (''tenant'', tenant)] x,
      sample ''locus_admission_queue_wait_seconds_count'' [(''class'', cl), (''tenant'', tenant)] (f_of_u64 n)]"
  using page_reads_append [OF page_reads_float [OF metric_names_ok(8) _ _ assms(3,4)] page_reads_metric [OF metric_names_ok(9)]]
    pair_labels_ok [OF assms(1,2)]
  by (metis append_Cons append_Nil)

lemma closing_lines_read:
  "page_reads
     (lines [''# HELP locus_traffic_controller_draining Whether new inference admission is disabled.'',
            ''# TYPE locus_traffic_controller_draining gauge'',
            ''locus_traffic_controller_draining '' @ nat_to_dec a,
            ''# HELP locus_traffic_forced_cancellations_total Requests cancelled after drain grace expired.'',
            ''# TYPE locus_traffic_forced_cancellations_total counter'',
            ''locus_traffic_forced_cancellations_total '' @ nat_to_dec b])
     [sample ''locus_traffic_controller_draining'' [] (f_of_u64 a),
      sample ''locus_traffic_forced_cancellations_total'' [] (f_of_u64 b)]"
proof -
  have comments: "list_all comment_ok [''# HELP locus_traffic_controller_draining Whether new inference admission is disabled.'',
            ''# TYPE locus_traffic_controller_draining gauge'']"
    "list_all comment_ok [''# HELP locus_traffic_forced_cancellations_total Requests cancelled after drain grace expired.'',
            ''# TYPE locus_traffic_forced_cancellations_total counter'']"
    by (simp_all add: comment_ok_def is_ascii_def line_feed_def is_whitespace_single)
  have app: "lines (xs @ ys) = lines xs @ lines ys" for xs ys by (simp add: lines_def)
  have "page_reads
      (lines ([''# HELP locus_traffic_controller_draining Whether new inference admission is disabled.'',
              ''# TYPE locus_traffic_controller_draining gauge''] @
              [(''locus_traffic_controller_draining'' @ '' '') @ nat_to_dec a] @
              [''# HELP locus_traffic_forced_cancellations_total Requests cancelled after drain grace expired.'',
              ''# TYPE locus_traffic_forced_cancellations_total counter''] @
              [(''locus_traffic_forced_cancellations_total'' @ '' '') @ nat_to_dec b]))
      ([sample ''locus_traffic_controller_draining'' [] (f_of_u64 a)] @
       [sample ''locus_traffic_forced_cancellations_total'' [] (f_of_u64 b)])"
    unfolding app
    by (intro page_reads_skip comments page_reads_append page_reads_plain metric_names_ok)
  then show ?thesis by simp
qed

lemma traffic_page_reads:
  assumes "names_ascii tc st" and "waits_read_back f64_text st"
  shows "page_reads (traffic_prometheus f64_text tc st) (traffic_samples tc st)"
  unfolding traffic_prometheus_def traffic_samples_def
proof (intro page_reads_skip page_reads_append [OF counters_read] page_reads_append [OF page_reads_concat]
    closing_lines_read metric_names_ok)
  fix tenant assume "tenant \<in> set (bt_values (tc_tenants tc))"
  then have "list_all is_ascii (tp_service_class tenant)" "list_all is_ascii (tp_id tenant)"
    using assms(1) by (auto simp: names_ascii_def list_all_iff)
  then show "page_reads
       (metric_line ''locus_admission_active_requests'' (tenant_labels tenant)
         (bt_count (st_tenant_active_requests st) (tp_id tenant)) @
       metric_line ''locus_admission_active_tokens'' (tenant_labels tenant)
         (bt_count (st_tenant_active_tokens st) (tp_id tenant)) @
       metric_line ''locus_admission_queued_requests'' (tenant_labels tenant)
         (bt_count (st_tenant_queued_requests st) (tp_id tenant)) @
       metric_line ''locus_admission_queued_tokens'' (tenant_labels tenant)
         (bt_count (st_tenant_queued_tokens st) (tp_id tenant))) (tenant_samples st tenant)"
    unfolding tenant_samples_def by (rule tenant_lines_read)
next
  fix e assume e: "e \<in> set (entries (st_queue_wait_micros st))"
  obtain cl tenant micros where p: "e = ((cl, tenant), micros)" by (metis prod.collapse)
  have "list_all is_ascii cl" "list_all is_ascii tenant"
    using e assms(1) by (force simp: p names_ascii_def list_all_iff bt_keys_def)+
  moreover have "value_text_ok (f64_text (queue_wait_seconds micros))"
      "parse_f64 (f64_text (queue_wait_seconds micros)) = Some (queue_wait_seconds micros)"
    using e assms(2) by (force simp: p waits_read_back_def list_all_iff bt_values_def)+
  ultimately show "page_reads
      ((\<lambda>((class, tenant), micros).
         metric_float_line ''locus_admission_queue_wait_seconds_sum'' [(''class'', class), (''tenant'', tenant)]
           (f64_text (queue_wait_seconds micros)) @
         metric_line ''locus_admission_queue_wait_seconds_count'' [(''class'', class), (''tenant'', tenant)]
           (bt_count (st_queue_wait_count st) (class, tenant))) e) (wait_samples st e)"
    using wait_lines_read [of cl tenant] by (simp add: p wait_samples_def)
next
  show "list_all ascii3 (bt_keys (st_admissions st))" "list_all ascii3 (bt_keys (st_rejections st))"
      "list_all ascii3 (bt_keys (st_terminations st))"
    using assms(1) by (simp_all add: names_ascii_def)
qed (simp_all add: comment_ok_def is_ascii_def line_feed_def is_whitespace_single)

section \<open>Properties\<close>

text \<open>
  C31: a scrape of the traffic metrics sees the controller's state. If the configured names are ASCII, the
  parser reads from the metrics text exactly one sample for every counter of the state, with its
  labels unescaped and its value, in the order of the text, and nothing else.
\<close>

theorem traffic_metrics_read_back:
  assumes "names_ascii tc st" and "waits_read_back f64_text st" and "length (traffic_samples tc st) \<le> max_samples"
  shows "parse_prometheus (traffic_prometheus f64_text tc st) max_samples = Inr (traffic_samples tc st)"
  using page_reads_parse [OF traffic_page_reads [OF assms(1,2)] assms(3)] .

text \<open>A label value with a quote, a newline and a backslash, and a printed waiting time of half a second.\<close>

definition scraped_state :: traffic_state where
  "scraped_state = traffic_state_default
     \<lparr>st_admissions := bt_of_list [((''standard'', [CHR ''a'', dquote, line_feed, backslash], ''admitted''), 3)],
      st_queue_wait_micros := bt_of_list [((''standard'', ''default''), 500000)]\<rparr>"

lemma half_round: "round64 (1 / 2) = F_Fin (1 / 2)"
  by code_simp

lemma half_second: "queue_wait_seconds 500000 = F_Fin (1 / 2)" "parse_f64 ''0.5'' = Some (F_Fin (1 / 2))"
  using round64_exact_nat [of 500000] half_round
  by (simp_all add: queue_wait_seconds_def f_of_u64_def parse_f64_def parse_decimal_def is_dec_digit_def
      to_lower_def dec_to_nat_def ten_pow_def)

theorem traffic_metrics_read_back_witness:
  "parse_prometheus (traffic_prometheus (\<lambda>_. ''0.5'') sample_controller scraped_state) 20 =
     Inr (traffic_samples sample_controller scraped_state)"
proof (rule traffic_metrics_read_back)
  show "names_ascii sample_controller scraped_state"
    by (simp add: names_ascii_def scraped_state_def traffic_state_default_def sample_controller_def bt_of_list_def
        bt_keys_def bt_values_def ascii3_def char_class_defs traffic_policy_default_def)
  show "waits_read_back (\<lambda>_. ''0.5'') scraped_state"
    by (simp add: waits_read_back_def scraped_state_def traffic_state_default_def bt_of_list_def bt_values_def
        half_second value_text_ok_def is_ascii_def is_whitespace_single)
  show "length (traffic_samples sample_controller scraped_state) \<le> 20"
    by (simp add: traffic_samples_def counter_samples_def tenant_samples_def wait_samples_def scraped_state_def
        traffic_state_default_def sample_controller_def bt_of_list_def bt_values_def)
qed

text \<open>
  The writer passes other characters through, and the parser then rejects the whole page: a tenant
  whose name is not ASCII makes the text unreadable for it.
\<close>

lemma non_ascii_page_rejected:
  "parse_prometheus (metric_line ''m'' [(''t'', [CHR 0xC3, CHR 0xA9])] 1) 10 = Inl (InvalidMetric LabelNotAscii 1)"
proof -
  have one: "nat_to_dec (Suc 0) = ''1''" by (simp add: nat_to_dec.simps digit_char_def char_of_def bit_iff_odd)
  have line: "metric_line ''m'' [(''t'', [CHR 0xC3, CHR 0xA9])] 1 =
      [CHR ''m'', CHR ''{'', CHR ''t'', CHR ''='', dquote, CHR 0xC3, CHR 0xA9, dquote, CHR ''}'', CHR '' '', CHR ''1''] @ [line_feed]"
    by (simp add: metric_line_def metric_float_line_def escape_label_concat escape_char_def one
        dquote_def backslash_def line_feed_def)
  have metric: "parse_metric [CHR ''m'', CHR ''{'', CHR ''t'', CHR ''='', dquote, CHR 0xC3, CHR 0xA9, dquote, CHR ''}''] = Inl LabelNotAscii"
    by (simp add: parse_metric_def parse_labels_def parse_labels_loop.simps parse_label_def char_class_defs)
  have number: "parse_f64 ''1'' = Some (f_of_u64 1)" using parse_f64_nat_to_dec [of 1] by (simp add: one)
  have "parse_sample 1 [CHR ''m'', CHR ''{'', CHR ''t'', CHR ''='', dquote, CHR 0xC3, CHR 0xA9, dquote, CHR ''}'', CHR '' '', CHR ''1''] =
      Inl (InvalidMetric LabelNotAscii 1)"
    using metric number
    by (simp add: parse_sample_def split_metric_and_value_def first_word_def trim_start_ascii is_whitespace_single char_class_defs)
  then show ?thesis
    unfolding line
    by (simp add: parse_prometheus_def str_lines.simps strip_cr_def trim_def is_continuation_def is_whitespace_def char_class_defs)
qed

end
