(* ===== verification/Spec2Isabelle.thy ===== *)
theory Spec2Isabelle
  imports Front_Ends Remote_Engine Traffic_Metrics
begin

text \<open>
  Locus is an inference gateway: requests enter through an API front end, are normalised by the model
  input/output layer, admitted by the traffic controller, placed on an engine by the planner with
  costs that a calibrator learns, executed by the plan executor on an engine adapter, possibly with
  state imported from a store, and the engine's output is parsed while it streams back.

  \<^bold>\<open>Theories and sources\<close> (under \<^verbatim>\<open>src/crates\<close>).

  \<^item> \<open>Prelude\<close>: 64-bit and 128-bit saturating and wrapping arithmetic on \<open>nat\<close>, results as sums,
    the ordered map \<open>btree\<close> for \<^verbatim>\<open>BTreeMap\<close>, the locales \<open>keyed_store\<close> and \<open>keyed_choice\<close>
    (first minimum by a strict comparison). \<open>Decimal\<close>: printing of integers. \<open>Json\<close>: JSON values.
  \<^item> \<open>Op_Context\<close>: \<^verbatim>\<open>core/src/context.rs\<close>. \<open>Core_Model\<close>: the other files of \<^verbatim>\<open>core/src\<close>.
  \<^item> \<open>Planner\<close>: \<^verbatim>\<open>planner/src/lib.rs\<close>. The loop of \<open>plan\<close> is compared with \<open>feasible_paths\<close>.
  \<^item> \<open>Calibration\<close> and \<open>Calibrator\<close>: \<^verbatim>\<open>planner/src/calibration.rs\<close>, the pure part and the stateful part.
    \<open>cal_world\<close> is a calibrator with the file system; \<open>cal_step\<close> are its operations.
  \<^item> \<open>Executor\<close>: \<^verbatim>\<open>planner/src/executor.rs\<close> over the records \<open>adapter_ops\<close> and \<open>exec_env\<close>, with what others
    do to the engines before and after each await as a parameter; the locale
    \<open>importing_engine\<close> is what it needs of an engine, interpreted on the fake engine and
    store and on the remote engine.
  \<^item> \<open>Registry\<close>: \<^verbatim>\<open>engine/src/lib.rs\<close>. \<open>Fake_Engine\<close>: \<^verbatim>\<open>engine/src/fake.rs\<close>. \<open>Store\<close>:
    \<^verbatim>\<open>store/src/lib.rs\<close> and \<^verbatim>\<open>store/src/fake.rs\<close>, with the locale \<open>state_store\<close> as their contract.
  \<^item> \<open>Traffic_Policy\<close>, \<open>Traffic\<close>, \<open>Traffic_Safety\<close>, \<open>Traffic_Reach\<close>, \<open>Traffic_Props\<close>:
    \<^verbatim>\<open>runtime/src/traffic.rs\<close>. \<open>traffic_world\<close> is the locked state with the answer channels and the
    permits that callers hold; a step is one critical section.
  \<^item> \<open>Fingerprint\<close> and \<open>Placement\<close>: discovery, planning input, plan selection, audit and fingerprint
    of \<^verbatim>\<open>runtime/src/lib.rs\<close>. \<open>Inference\<close>: its request pipeline \<open>infer\<close>, cut at the awaits into
    phases, the event stream, the inventory and the readiness report. \<open>Event_Stream\<close>: the polls of
    one stream; the locale \<open>output_model\<close> is what the stream needs of an output pipeline, interpreted
    on the basic one. \<open>Service_System\<close>: any number of requests interleaved on the shared world.
  \<^item> \<open>Model_IO\<close> and \<open>Output_Pipeline\<close>: \<^verbatim>\<open>model-io/src/lib.rs\<close>, the registry of models, request
    normalisation, the byte tokenizer and the simple template; the output pipeline.
  \<^item> \<open>Str_Search\<close>, \<open>Reasoning_Parser\<close>, \<open>Tool_Parser\<close>: \<^verbatim>\<open>parser/src/lib.rs\<close>.
  \<^item> \<open>Http\<close>: \<^verbatim>\<open>http/src/lib.rs\<close>; the locale \<open>credential_lookup\<close> is what the front ends need of an
    index of credentials, interpreted on the hashed index for an arbitrary digest.
  \<^item> \<open>Api_Common\<close>: what the two front ends share. \<open>OpenAI_Api\<close>, \<open>OpenAI_Requests\<close>,
    \<open>OpenAI_Output\<close>: \<^verbatim>\<open>openai/src/lib.rs\<close>, with its properties in \<open>OpenAI_Access\<close> and
    \<open>OpenAI_Props\<close>. \<open>Anthropic_Api\<close>, \<open>Anthropic_Output\<close>, \<open>Anthropic_Props\<close>:
    \<^verbatim>\<open>anthropic/src/lib.rs\<close>. \<open>Sse_Protocol\<close>: the locales \<open>sse_encoder\<close> and \<open>whole_encoder\<close> for
    the generators of server-sent events, interpreted on the four of them. \<open>Front_Ends\<close>: properties
    of both front ends over the service.

  \<^item> \<open>Float64\<close>: \<^verbatim>\<open>f64\<close> with the rounding of IEEE 754, and its parsing. \<open>Prometheus\<close>: the parser of
    \<^verbatim>\<open>engine-openai/src/metrics.rs\<close> and the writer of \<^verbatim>\<open>runtime/src/traffic.rs\<close>. \<open>Traffic_Metrics\<close>: the
    metrics text of the traffic controller. \<open>Remote_Telemetry\<close> and \<open>Remote_Engine\<close>:
    \<^verbatim>\<open>engine-openai/src/lib.rs\<close>, the telemetry cache with its snapshots, and the requests and event
    streams of the adapter.

  \<^bold>\<open>What is shown.\<close> The planner selects the first minimum of all feasible paths, soundly and
  independently of the order of candidates. Calibration changes costs and never feasibility; the
  selected plan is one the uncalibrated planner allows, and the calibrated one only when all
  promotion gates hold; a replay mismatch blocks promotion for good; the learned state is bounded,
  persisted atomically and restored by a restart. The executor leaves no import it has prepared
  behind unless it reports a failed clean-up or the engine was restarted meanwhile, and it reports
  what ran. The registry records an execution exactly while its permit is held. The traffic controller
  keeps every limit in every interleaving, if its token limit is below the largest \<^verbatim>\<open>u64\<close>; it picks an
  admissible request of least virtual runtime, hands each permit to one owner, leaves no admissible
  request waiting and answers every waiter when it drains. The streaming parsers emit what was sent
  and always return, and if neither delimiter occurs inside the other they do not depend on how the
  text is cut. A normalised request carries a
  well-formed contract, and a finished output meets the contract of its request. The event stream
  of a request yields events, one terminal item and its end, and reports one termination reason,
  wherever it is dropped. In a service with any number of requests every permit and every
  registered execution has exactly one owner. Readiness is what the ready targets make it. Only
  authorised requests pass the front ends, under identifiers that are not used twice; the endpoints
  give the same meaning to the same conversation; a streamed answer ends once, keeps the protocol of
  its endpoint and reassembles to the collected answer, if no id of a tool call is used twice; the front ends report failures alike. A
  remote engine accepts every normalised request that its capabilities allow, its stream relays the first choice
  and ends once, its telemetry state summarises the scrapes, and its snapshots report them. The
  metrics text of the traffic controller is read back by the parser as the counters of its state.

  \<^bold>\<open>Representation.\<close> \<^verbatim>\<open>u64\<close>, \<^verbatim>\<open>u32\<close> and \<^verbatim>\<open>usize\<close> are natural numbers whose operations carry the
  width, as in the source (saturating, or wrapping for the plain operators of a release build); the
  hash of \<open>Fingerprint\<close> works on 64-bit words. Strings are byte lists. Error messages are values of
  datatypes where the code only passes them on, and strings where the code stores or compares them.
  An await that a cancellation may cut is an outcome of the environment; times are parameters. Only
  the streaming parsers need a bound on their loops: they are recursive functions with a measure on
  the buffer. Locks are not poisoned, since no code under them panics.

  \<^bold>\<open>External code\<close> is a parameter: \<^verbatim>\<open>serde_json\<close> (in the tool parser, the front ends and in
  \<open>cal_env\<close>), the derived \<^verbatim>\<open>Debug\<close> text in the fingerprint, the digest of credentials, the texts of
  inference errors, the engine adapter and the store behind their traits; for the remote engine, the HTTP client
  with its event streams, deserialisation and the texts of these crates (\<open>remote_env\<close>); how an
  \<^verbatim>\<open>f64\<close> is printed. The front ends get
  deserialised requests or rejections, as \<^verbatim>\<open>axum\<close> and \<^verbatim>\<open>serde\<close> hand them over.

  \<^bold>\<open>Not modelled.\<close> The NexusKV store, whose operations are calls of an external bridge. The tokenizer
  wrapper, the routing tables, configuration, start-up and TLS are glue over external crates.
\<close>

end
